(* ===== verification/Prelude.thy ===== *)
theory Prelude
  imports "HOL-Library.Word" "HOL-Library.List_Lexorder" "HOL-Library.Char_ord" "HOL-Library.Code_Target_Nat"
begin

text \<open>
  Shared ground of the development: the result type of the platform's fallible functions,
  Rust's checked integer operations at their width, the byte predicates its validators use,
  ordered maps (\<open>BTreeMap\<close>), and two interfaces as locales: the laws of an ordered map,
  and a transition system with an invariant, from which every component gets its
  statements about whole runs.
\<close>

named_theorems result_simps \<open>inversion of fallible computations\<close>
named_theorems error_simps \<open>where an error of a fallible computation comes from\<close>
named_theorems checked_simps \<open>what a checked integer operation returns\<close>

section \<open>Results\<close>

text \<open>
  \<open>crate::Result\<close> carries a boxed error, and every error of the modelled code is made from
  a string, so \<open>Error\<close> keeps the message. The release profile builds with
  \<open>overflow-checks\<close> and \<open>panic = "abort"\<close>: an arithmetic overflow or an index out of
  range is \<open>Panic\<close>.
\<close>

datatype error = Error string | Panic

type_synonym 'a result = "error + 'a"

abbreviation Ok :: "'a \<Rightarrow> 'a result" where
  "Ok \<equiv> Inr"

abbreviation Err :: "string \<Rightarrow> 'a result" where
  "Err m \<equiv> Inl (Error m)"

text \<open>The \<open>?\<close> operator: an error returns early, a value goes on.\<close>

fun and_then :: "'a result \<Rightarrow> ('a \<Rightarrow> 'b result) \<Rightarrow> 'b result" where
  "and_then (Inl e) f = Inl e"
| "and_then (Inr x) f = f x"

fun ok_or :: "'a option \<Rightarrow> string \<Rightarrow> 'a result" where
  "ok_or None m = Err m"
| "ok_or (Some x) m = Ok x"

fun ok_or_panic :: "'a option \<Rightarrow> 'a result" where
  "ok_or_panic None = Inl Panic"
| "ok_or_panic (Some x) = Ok x"

fun is_ok :: "'a result \<Rightarrow> bool" where
  "is_ok (Inl e) = False"
| "is_ok (Inr x) = True"

lemma and_then_cong [fundef_cong]:
  "m = m' \<Longrightarrow> (\<And>x. m' = Inr x \<Longrightarrow> f x = g x) \<Longrightarrow> and_then m f = and_then m' g"
  by (cases m') auto

lemma and_then_Inr_iff [result_simps]:
  "and_then m f = Inr y \<longleftrightarrow> (\<exists>x. m = Inr x \<and> f x = Inr y)"
  by (cases m) auto

lemma and_then_Inl_iff [error_simps]:
  "and_then m f = Inl e \<longleftrightarrow> m = Inl e \<or> (\<exists>x. m = Inr x \<and> f x = Inl e)"
  by (cases m) auto

lemma ok_or_Inl_iff [error_simps]: "ok_or v m = Inl e \<longleftrightarrow> v = None \<and> e = Error m"
  by (cases v) auto

lemma ok_or_panic_Inl_iff [error_simps]: "ok_or_panic v = Inl e \<longleftrightarrow> v = None \<and> e = Panic"
  by (cases v) auto

lemma and_then_split:
  "P (and_then m f) \<longleftrightarrow> (\<forall>e. m = Inl e \<longrightarrow> P (Inl e)) \<and> (\<forall>x. m = Inr x \<longrightarrow> P (f x))"
  by (cases m) auto

lemma ok_or_Inr_iff [result_simps]: "ok_or v m = Inr x \<longleftrightarrow> v = Some x"
  by (cases v) auto

lemma ok_or_panic_Inr_iff [result_simps]: "ok_or_panic v = Inr x \<longleftrightarrow> v = Some x"
  by (cases v) auto

lemma if_err_Inr_iff [result_simps]: "(if b then Inl e else m) = Inr x \<longleftrightarrow> \<not> b \<and> m = Inr x"
  by simp

lemma is_ok_iff: "is_ok m \<longleftrightarrow> (\<exists>x. m = Inr x)"
  by (cases m) auto

lemma not_is_ok_iff: "\<not> is_ok m \<longleftrightarrow> (\<exists>e. m = Inl e)"
  by (cases m) auto

text \<open>A loop that validates every element and stops at the first error.\<close>

fun for_all :: "('a \<Rightarrow> unit result) \<Rightarrow> 'a list \<Rightarrow> unit result" where
  "for_all f [] = Ok ()"
| "for_all f (x # xs) = and_then (f x) (\<lambda>_. for_all f xs)"

lemma for_all_Inr_iff [result_simps]: "for_all f xs = Inr u \<longleftrightarrow> (\<forall>x \<in> set xs. f x = Inr ())"
  by (induction xs) (auto simp: and_then_Inr_iff)

lemma for_all_cong [fundef_cong]:
  "xs = ys \<Longrightarrow> (\<And>x. x \<in> set ys \<Longrightarrow> f x = g x) \<Longrightarrow> for_all f xs = for_all g ys"
  by (induction ys arbitrary: xs) auto

section \<open>Fallible computations with effects\<close>

text \<open>
  A method that changes its object on the way, also when it fails later, maps a state to its
  result and the state it leaves. \<open>bind_action\<close> is the \<open>?\<close> operator on such methods.
\<close>

type_synonym ('s, 'a) action = "'s \<Rightarrow> 'a result \<times> 's"

definition lift_result :: "'a result \<Rightarrow> ('s, 'a) action" where
  "lift_result r s = (r, s)"

definition bind_action :: "('s, 'a) action \<Rightarrow> ('a \<Rightarrow> ('s, 'b) action) \<Rightarrow> ('s, 'b) action" where
  "bind_action m f s = (case m s of (Inl e, s') \<Rightarrow> (Inl e, s') | (Inr x, s') \<Rightarrow> f x s')"

definition modify_state :: "('s \<Rightarrow> 's) \<Rightarrow> ('s, unit) action" where
  "modify_state f s = (Ok (), f s)"

text \<open>A closure that is run to its result, after which an error marks the object.\<close>

definition on_error :: "('s \<Rightarrow> 's) \<Rightarrow> ('s, 'a) action \<Rightarrow> ('s, 'a) action" where
  "on_error mark m s = (case m s of (Inl e, s') \<Rightarrow> (Inl e, mark s') | (Inr x, s') \<Rightarrow> (Inr x, s'))"

text \<open>A \<open>for\<close> loop that carries a value and stops at the first error.\<close>

primrec fold_action :: "('x \<Rightarrow> 'a \<Rightarrow> ('s, 'a) action) \<Rightarrow> 'x list \<Rightarrow> 'a \<Rightarrow> ('s, 'a) action" where
  "fold_action f [] a = lift_result (Ok a)"
| "fold_action f (x # xs) a = bind_action (f x a) (fold_action f xs)"

lemma lift_result_eq [simp]: "lift_result r s = (r, s)"
  by (simp add: lift_result_def)

lemma modify_state_eq [simp]: "modify_state f s = (Ok (), f s)"
  by (simp add: modify_state_def)

lemma bind_action_Inr [result_simps]:
  "bind_action m f s = (Inr y, t) \<longleftrightarrow> (\<exists>x u. m s = (Inr x, u) \<and> f x u = (Inr y, t))"
  by (auto simp: bind_action_def split: prod.splits sum.splits)

lemma bind_action_Inl [error_simps]:
  "bind_action m f s = (Inl e, t) \<longleftrightarrow> m s = (Inl e, t) \<or> (\<exists>x u. m s = (Inr x, u) \<and> f x u = (Inl e, t))"
  by (auto simp: bind_action_def split: prod.splits sum.splits)

lemma on_error_Inr [result_simps]: "on_error mark m s = (Inr y, t) \<longleftrightarrow> m s = (Inr y, t)"
  by (auto simp: on_error_def split: prod.splits sum.splits)

lemma on_error_Inl [error_simps]:
  "on_error mark m s = (Inl e, t) \<longleftrightarrow> (\<exists>u. m s = (Inl e, u) \<and> t = mark u)"
  by (auto simp: on_error_def split: prod.splits sum.splits)

text \<open>A relation between the state before and after that composes along \<open>bind_action\<close>.\<close>

definition keeps :: "('s \<Rightarrow> 's \<Rightarrow> bool) \<Rightarrow> ('s, 'a) action \<Rightarrow> bool" where
  "keeps R m \<longleftrightarrow> (\<forall>s. R s (snd (m s)))"

lemma keeps_lift [intro]: "reflp R \<Longrightarrow> keeps R (lift_result r)"
  by (simp add: keeps_def reflp_def)

lemma keeps_bind [intro]:
  assumes "transp R" "keeps R m" "\<And>x. keeps R (f x)"
  shows "keeps R (bind_action m f)"
  unfolding keeps_def
proof
  fix s
  have "R s (snd (m s))" using assms(2) by (simp add: keeps_def)
  moreover have "R (snd (m s)) (snd (f x (snd (m s))))" for x using assms(3) by (simp add: keeps_def)
  ultimately show "R s (snd (bind_action m f s))"
    using assms(1) by (auto simp: bind_action_def transp_def split: prod.splits sum.splits)
qed

lemma keeps_on_error [intro]:
  assumes "transp R" "keeps R m" "\<And>s. R s (mark s)"
  shows "keeps R (on_error mark m)"
  unfolding keeps_def
proof
  fix s
  have "R s (snd (m s))" using assms(2) by (simp add: keeps_def)
  then show "R s (snd (on_error mark m s))"
    using assms(1,3) by (auto simp: on_error_def transp_def split: prod.splits sum.splits)
qed

lemma keepsD: "keeps R m \<Longrightarrow> m s = (r, t) \<Longrightarrow> R s t"
  by (auto simp: keeps_def dest: spec [of _ s])

section \<open>Machine integers\<close>

type_synonym u8 = "8 word"
type_synonym u32 = "32 word"
type_synonym u64 = "64 word"

text \<open>\<open>checked_add\<close>, \<open>checked_sub\<close> and \<open>abs_diff\<close> of the unsigned types.\<close>

definition checked_add :: "'a::len word \<Rightarrow> 'a word \<Rightarrow> 'a word option" where
  "checked_add a b = (if unat a + unat b < 2 ^ LENGTH('a) then Some (a + b) else None)"

definition checked_sub :: "'a::len word \<Rightarrow> 'a word \<Rightarrow> 'a word option" where
  "checked_sub a b = (if b \<le> a then Some (a - b) else None)"

definition checked_mul :: "'a::len word \<Rightarrow> 'a word \<Rightarrow> 'a word option" where
  "checked_mul a b = (if unat a * unat b < 2 ^ LENGTH('a) then Some (a * b) else None)"

definition abs_diff :: "'a::len word \<Rightarrow> 'a word \<Rightarrow> 'a word" where
  "abs_diff a b = (if b \<le> a then a - b else b - a)"

text \<open>Signed 64-bit values are integers with the range written out.\<close>

definition i64_range :: "int \<Rightarrow> bool" where
  "i64_range v \<longleftrightarrow> - (2 ^ 63) \<le> v \<and> v < 2 ^ 63"

definition i128_range :: "int \<Rightarrow> bool" where
  "i128_range v \<longleftrightarrow> - (2 ^ 127) \<le> v \<and> v < 2 ^ 127"

definition checked_i64 :: "int \<Rightarrow> int option" where
  "checked_i64 v = (if i64_range v then Some v else None)"

definition checked_i128 :: "int \<Rightarrow> int option" where
  "checked_i128 v = (if i128_range v then Some v else None)"

definition div_ceil :: "nat \<Rightarrow> nat \<Rightarrow> nat" where
  "div_ceil a b = (a + b - 1) div b"

lemma checked_add_Some [checked_simps]:
  "checked_add a b = Some c \<longleftrightarrow> unat a + unat b < 2 ^ LENGTH('a) \<and> c = a + b"
  for a b c :: "'a::len word"
  by (auto simp: checked_add_def)

lemma checked_add_unat:
  "checked_add a b = Some c \<Longrightarrow> unat c = unat a + unat b" for a b c :: "'a::len word"
  by (auto simp: checked_add_Some unat_word_ariths)

lemma checked_add_None [checked_simps]:
  "checked_add a b = None \<longleftrightarrow> 2 ^ LENGTH('a) \<le> unat a + unat b" for a b :: "'a::len word"
  by (auto simp: checked_add_def)

lemma checked_add_one:
  "checked_add a 1 = Some c \<Longrightarrow> unat c = Suc (unat a)" for a c :: u64
  by (auto dest: checked_add_unat)

lemma checked_add_one_less: "checked_add a 1 = Some c \<Longrightarrow> a < c" for a c :: u64
  by (auto simp: word_less_nat_alt dest: checked_add_one)

lemma checked_sub_Some [checked_simps]:
  "checked_sub a b = Some c \<longleftrightarrow> b \<le> a \<and> c = a - b"
  by (auto simp: checked_sub_def)

lemma checked_sub_unat: "checked_sub a b = Some c \<Longrightarrow> unat c = unat a - unat b \<and> unat b \<le> unat a"
  by (auto simp: checked_sub_def unat_sub word_le_nat_alt split: if_splits)

lemma checked_i64_Some [checked_simps]: "checked_i64 v = Some w \<longleftrightarrow> w = v \<and> i64_range v"
  by (auto simp: checked_i64_def)

lemma div_ceil_ge: "0 < b \<Longrightarrow> a \<le> div_ceil a b * b"
proof -
  assume "0 < b"
  then have "(a + b - 1) mod b < b" by simp
  with div_mult_mod_eq [of "a + b - 1" b] \<open>0 < b\<close> show ?thesis
    unfolding div_ceil_def by linarith
qed

lemma div_ceil_less: "0 < b \<Longrightarrow> div_ceil a b * b < a + b"
proof -
  assume "0 < b"
  have "(a + b - 1) div b * b \<le> a + b - 1" by simp
  with \<open>0 < b\<close> show ?thesis unfolding div_ceil_def by linarith
qed

section \<open>Bytes\<close>

text \<open>A Rust string is its UTF-8 bytes: \<open>string\<close> is the list of bytes, \<open>length\<close> is \<open>len()\<close>.\<close>

definition is_ascii_digit :: "char \<Rightarrow> bool" where
  "is_ascii_digit c \<longleftrightarrow> CHR ''0'' \<le> c \<and> c \<le> CHR ''9''"

definition is_ascii_lowercase :: "char \<Rightarrow> bool" where
  "is_ascii_lowercase c \<longleftrightarrow> CHR ''a'' \<le> c \<and> c \<le> CHR ''z''"

definition is_ascii_uppercase :: "char \<Rightarrow> bool" where
  "is_ascii_uppercase c \<longleftrightarrow> CHR ''A'' \<le> c \<and> c \<le> CHR ''Z''"

definition is_ascii_alphabetic :: "char \<Rightarrow> bool" where
  "is_ascii_alphabetic c \<longleftrightarrow> is_ascii_lowercase c \<or> is_ascii_uppercase c"

definition is_ascii_alphanumeric :: "char \<Rightarrow> bool" where
  "is_ascii_alphanumeric c \<longleftrightarrow> is_ascii_alphabetic c \<or> is_ascii_digit c"

definition is_ascii_hexdigit :: "char \<Rightarrow> bool" where
  "is_ascii_hexdigit c \<longleftrightarrow> is_ascii_digit c \<or> (CHR ''a'' \<le> c \<and> c \<le> CHR ''f'')
     \<or> (CHR ''A'' \<le> c \<and> c \<le> CHR ''F'')"

text \<open>\<open>b.is_ascii_digit() || (b'a'..=b'f').contains(&b)\<close>: a digit of a canonical digest.\<close>

definition is_lower_hex :: "char \<Rightarrow> bool" where
  "is_lower_hex c \<longleftrightarrow> is_ascii_digit c \<or> (CHR ''a'' \<le> c \<and> c \<le> CHR ''f'')"

text \<open>A canonical digest string: \<open>n\<close> lower-case hexadecimal digits.\<close>

definition hex_string :: "nat \<Rightarrow> string \<Rightarrow> bool" where
  "hex_string n s \<longleftrightarrow> length s = n \<and> list_all is_lower_hex s"

lemmas ascii_defs =
  is_ascii_digit_def is_ascii_lowercase_def is_ascii_uppercase_def is_ascii_alphabetic_def
  is_ascii_alphanumeric_def is_ascii_hexdigit_def is_lower_hex_def

text \<open>Decimal rendering of a number (\<open>to_string\<close>) and the canonical decimal strings of a \<open>u32\<close>.\<close>

definition digit_char :: "nat \<Rightarrow> char" where
  "digit_char d = char_of (48 + d)"

fun decimal :: "nat \<Rightarrow> string" where
  "decimal n = (if n < 10 then [digit_char n] else decimal (n div 10) @ [digit_char (n mod 10)])"

declare decimal.simps [simp del]

definition split_once :: "char \<Rightarrow> string \<Rightarrow> (string \<times> string) option" where
  "split_once c s = (if c \<in> set s then Some (takeWhile (\<lambda>x. x \<noteq> c) s, tl (dropWhile (\<lambda>x. x \<noteq> c) s)) else None)"

definition strip_prefix :: "string \<Rightarrow> string \<Rightarrow> string option" where
  "strip_prefix p s = (if take (length p) s = p then Some (drop (length p) s) else None)"

definition strip_suffix :: "string \<Rightarrow> string \<Rightarrow> string option" where
  "strip_suffix p s = map_option rev (strip_prefix (rev p) (rev s))"

definition digit_value :: "char \<Rightarrow> nat" where
  "digit_value c = of_char c - 48"

text \<open>\<open>parse::<u32>()\<close> on ASCII digits; a sign is never the rendering of a value and is refused by the comparison that follows.\<close>

definition parse_u32 :: "string \<Rightarrow> nat option" where
  "parse_u32 s = (if s = [] \<or> \<not> list_all is_ascii_digit s then None
     else let v = foldl (\<lambda>a c. 10 * a + digit_value c) 0 s in if v < 2 ^ 32 then Some v else None)"

text \<open>Comparison of characters on their bits, so that evaluation does not go through numerals.\<close>

fun bits_less :: "bool list \<Rightarrow> bool list \<Rightarrow> bool" where
  "bits_less (b # bs) (c # cs) \<longleftrightarrow> bits_less bs cs \<or> (bs = cs \<and> \<not> b \<and> c)"
| "bits_less _ _ \<longleftrightarrow> False"

lemma horner_sum_bits_eq:
  "length bs = length cs \<Longrightarrow> horner_sum of_bool (2::nat) bs = horner_sum of_bool 2 cs \<longleftrightarrow> bs = cs"
proof (induction bs cs rule: list_induct2)
  case (Cons b bs c cs)
  then show ?case by (cases b; cases c) (auto simp: Suc_double_not_eq_double double_not_eq_Suc_double)
qed simp

lemma horner_sum_bits_less:
  "length bs = length cs \<Longrightarrow> horner_sum of_bool (2::nat) bs < horner_sum of_bool 2 cs \<longleftrightarrow> bits_less bs cs"
proof (induction bs cs rule: list_induct2)
  case (Cons b bs c cs)
  then show ?case using horner_sum_bits_eq [OF Cons.hyps] by (cases b; cases c) auto
qed simp

lemma Char_less_code [code]:
  "Char b0 b1 b2 b3 b4 b5 b6 b7 < Char c0 c1 c2 c3 c4 c5 c6 c7
     \<longleftrightarrow> bits_less [b0, b1, b2, b3, b4, b5, b6, b7] [c0, c1, c2, c3, c4, c5, c6, c7]"
  by (simp only: less_char_def of_char_Char horner_sum_bits_less list.size)

lemma Char_less_eq_code [code]:
  "(c :: char) \<le> d \<longleftrightarrow> c = d \<or> c < d"
  by auto

section \<open>Ordered maps\<close>

text \<open>
  A \<open>BTreeMap\<close> is a list of entries with strictly increasing keys; the type carries the
  invariant, as Rust's does, and iteration is in key order. Strings compare bytewise
  (\<open>List_Lexorder\<close> over \<open>Char_ord\<close>), as \<open>str\<close> does.
\<close>

fun upd_entries :: "'k::linorder \<Rightarrow> 'v \<Rightarrow> ('k \<times> 'v) list \<Rightarrow> ('k \<times> 'v) list" where
  "upd_entries k v [] = [(k, v)]"
| "upd_entries k v ((a, b) # es) =
     (if k < a then (k, v) # (a, b) # es
      else if k = a then (k, v) # es
      else (a, b) # upd_entries k v es)"

abbreviation key_sorted :: "('k::linorder \<times> 'v) list \<Rightarrow> bool" where
  "key_sorted es \<equiv> sorted_wrt (<) (map fst es)"

lemma set_upd_entries_keys: "set (map fst (upd_entries k v es)) = insert k (set (map fst es))"
  by (induction k v es rule: upd_entries.induct) auto

lemma key_sorted_upd: "key_sorted es \<Longrightarrow> key_sorted (upd_entries k v es)"
proof (induction k v es rule: upd_entries.induct)
  case (2 k v a b es)
  then show ?case
    using set_upd_entries_keys [of k v es] by (auto simp: image_image)
qed auto

lemma map_of_upd_entries: "map_of (upd_entries k v es) = (map_of es)(k \<mapsto> v)"
  by (induction k v es rule: upd_entries.induct) (auto simp: fun_eq_iff)

lemma map_of_filter_key:
  "map_of (filter (\<lambda>(a, _). a \<noteq> k) es) k' = (if k' = k then None else map_of es k')"
  by (induction es) auto

lemma map_of_map_key: "map_of (map (\<lambda>(a, v). (a, f a v)) es) k = map_option (f k) (map_of es k)"
  by (induction es) auto

lemma upd_entries_keys_present:
  "key_sorted es \<Longrightarrow> k \<in> set (map fst es) \<Longrightarrow> map fst (upd_entries k v es) = map fst es"
  by (induction k v es rule: upd_entries.induct) auto

lemma entries_by_keys:
  "distinct (map fst es) \<Longrightarrow> map (\<lambda>k. (k, the (map_of es k))) (map fst es) = es"
proof (induction es)
  case (Cons e es)
  then have "map (\<lambda>k. (k, the (map_of (e # es) k))) (map fst es)
      = map (\<lambda>k. (k, the (map_of es k))) (map fst es)"
    by (intro map_cong) (auto simp: image_iff)
  with Cons show ?case by (cases e) simp
qed simp

lemma key_sorted_filter: "key_sorted es \<Longrightarrow> key_sorted (filter P es)"
  by (induction es) auto

lemma key_sorted_distinct: "key_sorted es \<Longrightarrow> distinct (map fst es)"
  by (induction es) auto

typedef (overloaded) ('k, 'v) bmap = "{es :: ('k::linorder \<times> 'v) list. key_sorted es}"
  morphisms bm_entries Bmap
  by (rule exI [of _ "[]"]) simp

setup_lifting type_definition_bmap

lift_definition bm_empty :: "('k::linorder, 'v) bmap" is "[]" by simp

lift_definition bm_insert :: "'k::linorder \<Rightarrow> 'v \<Rightarrow> ('k, 'v) bmap \<Rightarrow> ('k, 'v) bmap"
  is upd_entries by (rule key_sorted_upd)

lift_definition bm_remove :: "'k::linorder \<Rightarrow> ('k, 'v) bmap \<Rightarrow> ('k, 'v) bmap"
  is "\<lambda>k. filter (\<lambda>(a, _). a \<noteq> k)" by (rule key_sorted_filter)

lift_definition bm_map :: "('k::linorder \<Rightarrow> 'v \<Rightarrow> 'w) \<Rightarrow> ('k, 'v) bmap \<Rightarrow> ('k, 'w) bmap"
  is "\<lambda>f. map (\<lambda>(k, v). (k, f k v))" by (simp add: comp_def case_prod_beta)

lift_definition bm_retain :: "('v \<Rightarrow> bool) \<Rightarrow> ('k::linorder, 'v) bmap \<Rightarrow> ('k, 'v) bmap"
  is "\<lambda>P. filter (\<lambda>(_, v). P v)" by (rule key_sorted_filter)

definition bm_get :: "('k::linorder, 'v) bmap \<Rightarrow> 'k \<Rightarrow> 'v option" where
  "bm_get m k = map_of (bm_entries m) k"

definition bm_keys :: "('k::linorder, 'v) bmap \<Rightarrow> 'k list" where
  "bm_keys m = map fst (bm_entries m)"

definition bm_values :: "('k::linorder, 'v) bmap \<Rightarrow> 'v list" where
  "bm_values m = map snd (bm_entries m)"

definition bm_size :: "('k::linorder, 'v) bmap \<Rightarrow> nat" where
  "bm_size m = length (bm_entries m)"

definition bm_contains :: "('k::linorder, 'v) bmap \<Rightarrow> 'k \<Rightarrow> bool" where
  "bm_contains m k \<longleftrightarrow> bm_get m k \<noteq> None"

definition bm_is_empty :: "('k::linorder, 'v) bmap \<Rightarrow> bool" where
  "bm_is_empty m \<longleftrightarrow> bm_entries m = []"

text \<open>\<open>collect()\<close> into a map: a later entry replaces an earlier one of the same key.\<close>

fun bm_of_list :: "('k::linorder \<times> 'v) list \<Rightarrow> ('k, 'v) bmap" where
  "bm_of_list es = fold (\<lambda>(k, v). bm_insert k v) es bm_empty"

lemma bm_entries_empty [simp]: "bm_entries bm_empty = []"
  by transfer simp

lemma bm_entries_insert [simp]: "bm_entries (bm_insert k v m) = upd_entries k v (bm_entries m)"
  by transfer simp

lemma bm_entries_remove [simp]:
  "bm_entries (bm_remove k m) = filter (\<lambda>(a, _). a \<noteq> k) (bm_entries m)"
  by transfer simp

lemma bm_entries_map [simp]: "bm_entries (bm_map f m) = map (\<lambda>(k, v). (k, f k v)) (bm_entries m)"
  by transfer simp

lemma bm_entries_retain: "bm_entries (bm_retain P m) = filter (\<lambda>(_, v). P v) (bm_entries m)"
  by transfer simp

lemma bm_eq_iff: "m = n \<longleftrightarrow> bm_entries m = bm_entries n"
  by (simp add: bm_entries_inject)

lemma bm_key_sorted: "key_sorted (bm_entries m)"
  using bm_entries [of m] by simp

lemma bm_keys_distinct: "distinct (bm_keys m)"
  by (simp add: bm_keys_def key_sorted_distinct bm_key_sorted)

lemma bm_keys_sorted: "sorted_wrt (<) (bm_keys m)"
  by (simp add: bm_keys_def bm_key_sorted)

lemma bm_get_empty [simp]: "bm_get bm_empty k = None"
  by (simp add: bm_get_def)

lemma bm_get_insert [simp]: "bm_get (bm_insert k v m) k' = (if k' = k then Some v else bm_get m k')"
  by (simp add: bm_get_def map_of_upd_entries)

lemma bm_get_remove [simp]: "bm_get (bm_remove k m) k' = (if k' = k then None else bm_get m k')"
  by (simp add: bm_get_def map_of_filter_key)

lemma bm_get_map [simp]: "bm_get (bm_map f m) k = map_option (f k) (bm_get m k)"
  by (simp add: bm_get_def map_of_map_key)

lemma bm_keys_map [simp]: "bm_keys (bm_map f m) = bm_keys m"
  by (simp add: bm_keys_def comp_def case_prod_beta)

lemma bm_size_map [simp]: "bm_size (bm_map f m) = bm_size m"
  by (simp add: bm_size_def)

lemma bm_get_Some_iff: "bm_get m k = Some v \<longleftrightarrow> (k, v) \<in> set (bm_entries m)"
  by (simp add: bm_get_def key_sorted_distinct bm_key_sorted)

lemma bm_keys_iff: "k \<in> set (bm_keys m) \<longleftrightarrow> bm_get m k \<noteq> None"
  by (force simp: bm_keys_def bm_get_def map_of_eq_None_iff)

lemma bm_contains_iff: "bm_contains m k \<longleftrightarrow> k \<in> set (bm_keys m)"
  by (simp add: bm_contains_def bm_keys_iff)

lemma bm_get_retain_iff: "bm_get (bm_retain P m) k = Some v \<longleftrightarrow> bm_get m k = Some v \<and> P v"
  by (auto simp: bm_get_Some_iff bm_entries_retain)

lemma bm_values_iff: "v \<in> set (bm_values m) \<longleftrightarrow> (\<exists>k. bm_get m k = Some v)"
  by (force simp: bm_values_def bm_get_Some_iff)

lemma bm_is_empty_iff: "bm_is_empty m \<longleftrightarrow> bm_keys m = []"
  by (simp add: bm_is_empty_def bm_keys_def)

lemma bm_keys_insert_present: "bm_get m k \<noteq> None \<Longrightarrow> bm_keys (bm_insert k v m) = bm_keys m"
  using bm_keys_iff [of k m] bm_key_sorted [of m]
  by (simp add: bm_keys_def upd_entries_keys_present)

lemma bm_size_keys: "bm_size m = length (bm_keys m)"
  by (simp add: bm_size_def bm_keys_def)

lemma bm_entries_by_keys: "bm_entries m = map (\<lambda>k. (k, the (bm_get m k))) (bm_keys m)"
  using entries_by_keys [OF key_sorted_distinct [OF bm_key_sorted [of m]]]
  by (simp add: bm_get_def bm_keys_def)

lemma bm_ext_keys:
  "bm_keys m = bm_keys n \<Longrightarrow> (\<And>k. k \<in> set (bm_keys m) \<Longrightarrow> bm_get m k = bm_get n k) \<Longrightarrow> m = n"
  unfolding bm_eq_iff by (subst (1 2) bm_entries_by_keys) (auto intro!: map_cong)

lemma bm_ext: "(\<And>k. bm_get m k = bm_get n k) \<Longrightarrow> m = n"
proof (rule bm_ext_keys)
  assume same: "\<And>k. bm_get m k = bm_get n k"
  then have "set (bm_keys m) = set (bm_keys n)" by (auto simp: bm_keys_iff)
  then show "bm_keys m = bm_keys n"
    using bm_keys_sorted [of m] bm_keys_sorted [of n] strict_sorted_equal by blast
qed simp

instantiation bmap :: (linorder, type) size
begin

definition size_bmap :: "('a, 'b) bmap \<Rightarrow> nat" where
  "size_bmap m = length (bm_entries m)"

instance ..

end

instantiation bmap :: (linorder, type) equal
begin

definition equal_bmap :: "('a, 'b) bmap \<Rightarrow> ('a, 'b) bmap \<Rightarrow> bool" where
  "equal_bmap m n \<longleftrightarrow> bm_entries m = bm_entries n"

instance
  by standard (simp add: equal_bmap_def bm_eq_iff)

end

lemma bm_size_size: "bm_size m = size m"
  by (simp add: bm_size_def size_bmap_def)

lemma upd_entries_snoc: "\<forall>a \<in> set (map fst es). a < k \<Longrightarrow> upd_entries k v es = es @ [(k, v)]"
  by (induction es) auto

lemma bm_entries_of_list: "key_sorted es \<Longrightarrow> bm_entries (bm_of_list es) = es"
proof (induction es rule: rev_induct)
  case (snoc e es)
  then have "bm_entries (bm_of_list es) = es" by (simp add: sorted_wrt_append)
  with snoc.prems show ?case by (cases e) (simp add: upd_entries_snoc sorted_wrt_append)
qed simp

lemma bm_keys_of_list: "key_sorted es \<Longrightarrow> bm_keys (bm_of_list es) = map fst es"
  by (simp add: bm_keys_def bm_entries_of_list del: bm_of_list.simps)

lemmas bm_defs = bm_keys_def bm_values_def bm_size_def bm_contains_def bm_is_empty_def

section \<open>Interfaces\<close>

text \<open>The contract of an ordered map, as its clients use it.\<close>

locale ordered_map =
  fixes empty :: 'm
    and get :: "'m \<Rightarrow> 'k::linorder \<Rightarrow> 'v option"
    and put :: "'k \<Rightarrow> 'v \<Rightarrow> 'm \<Rightarrow> 'm"
    and delete :: "'k \<Rightarrow> 'm \<Rightarrow> 'm"
    and keys :: "'m \<Rightarrow> 'k list"
  assumes get_empty: "get empty k = None"
    and get_put: "get (put k v m) k' = (if k' = k then Some v else get m k')"
    and get_delete: "get (delete k m) k' = (if k' = k then None else get m k')"
    and keys_get: "k \<in> set (keys m) \<longleftrightarrow> get m k \<noteq> None"
    and keys_ordered: "sorted_wrt (<) (keys m)"
begin

lemma keys_distinct: "distinct (keys m)"
  using keys_ordered strict_sorted_iff by blast

lemma keys_put: "set (keys (put k v m)) = insert k (set (keys m))"
  by (auto simp: keys_get get_put split: if_splits)

lemma keys_delete: "set (keys (delete k m)) = set (keys m) - {k}"
  by (auto simp: keys_get get_delete split: if_splits)

lemma length_keys: "length (keys m) = card (set (keys m))"
  by (simp add: distinct_card keys_distinct)

lemma length_keys_put:
  "length (keys (put k v m)) = (if get m k = None then Suc (length (keys m)) else length (keys m))"
  using keys_get [of k m] by (auto simp: length_keys keys_put insert_absorb)

lemma length_keys_delete: "length (keys (delete k m)) \<le> length (keys m)"
  by (simp add: length_keys keys_delete card_Diff1_le)

lemma keys_put_present: "get m k \<noteq> None \<Longrightarrow> keys (put k v m) = keys m"
  by (rule strict_sorted_equal) (auto simp: keys_ordered keys_put keys_get)

end

interpretation bm: ordered_map bm_empty bm_get bm_insert bm_remove bm_keys
  by unfold_locales (simp_all add: bm_keys_iff bm_keys_sorted)

text \<open>
  A component whose operations are steps on its state: an invariant of the initial states
  that every step keeps holds after every sequence of steps.
\<close>

locale transition_system =
  fixes initial :: "'s \<Rightarrow> bool"
    and step :: "'s \<Rightarrow> 'e \<Rightarrow> 's"
    and invariant :: "'s \<Rightarrow> bool"
  assumes invariant_initial: "initial s \<Longrightarrow> invariant s"
    and invariant_step: "invariant s \<Longrightarrow> invariant (step s e)"
begin

lemma invariant_run: "invariant s \<Longrightarrow> invariant (foldl step s es)"
  by (induction es arbitrary: s) (simp_all add: invariant_step)

lemma invariant_reachable: "initial s \<Longrightarrow> invariant (foldl step s es)"
  by (rule invariant_run) (rule invariant_initial)

end

text \<open>Beside the invariant, a preorder on states that every step climbs.\<close>

locale monotone_system = transition_system +
  fixes le :: "'s \<Rightarrow> 's \<Rightarrow> bool"
  assumes le_refl: "le s s"
    and le_trans: "le s t \<Longrightarrow> le t u \<Longrightarrow> le s u"
    and le_step: "invariant s \<Longrightarrow> le s (step s e)"
begin

lemma le_run: "invariant s \<Longrightarrow> le s (foldl step s es)"
proof (induction es arbitrary: s)
  case (Cons e es)
  then have "le s (step s e)" and "le (step s e) (foldl step (step s e) es)"
    by (simp_all add: le_step invariant_step)
  then show ?case by (auto intro: le_trans)
qed (simp add: le_refl)

lemma le_run_append: "invariant s \<Longrightarrow> le (foldl step s es) (foldl step s (es @ es'))"
  by (simp add: le_run invariant_run)

end

end
