(* ===== verification/Utc_Bounds.thy ===== *)
theory Utc_Bounds
  imports Complex_Main Prelude
begin

text \<open>
  Interval arithmetic of \<open>utc_bounds.rs\<close>: UTC intervals, the projection of one operator's
  measurement to a later instant of the boot clock, and the two-of-three consensus.
  The main facts: a projection covers true UTC whenever the measurement did and the boot clock
  kept its rate bound; the consensus covers it with at most one faulty operator; no
  arithmetic of either overflows.
\<close>

unbundle bit_operations_syntax

section \<open>Intervals\<close>

record interval =
  lower_ms :: int
  upper_ms :: int

definition endpoints :: "interval \<Rightarrow> int \<times> int" where
  "endpoints i = (lower_ms i, upper_ms i)"

definition interval_new :: "int \<Rightarrow> int \<Rightarrow> interval result" where
  "interval_new lower upper =
     (if lower < 0 \<or> upper < lower then Err ''invalid UTC interval''
      else Ok \<lparr>lower_ms = lower, upper_ms = upper\<rparr>)"

definition interval_within :: "interval \<Rightarrow> int \<Rightarrow> int \<Rightarrow> bool result" where
  "interval_within i not_before expires =
     (if not_before < 0 \<or> expires \<le> not_before then Err ''invalid finite UTC validity window''
      else Ok (not_before \<le> lower_ms i \<and> upper_ms i < expires))"

definition interval_intersection :: "interval \<Rightarrow> interval \<Rightarrow> interval option" where
  "interval_intersection a b =
     (let lower = max (lower_ms a) (lower_ms b); upper = min (upper_ms a) (upper_ms b)
      in if lower \<le> upper then Some \<lparr>lower_ms = lower, upper_ms = upper\<rparr> else None)"

definition interval_hull :: "interval \<Rightarrow> interval \<Rightarrow> interval" where
  "interval_hull a b = \<lparr>lower_ms = min (lower_ms a) (lower_ms b), upper_ms = max (upper_ms a) (upper_ms b)\<rparr>"

section \<open>Epochs, policies, measurements\<close>

record epoch =
  boot_id :: "u8 list"
  provider_generation :: u64
  clock_generation :: u64
  policy_digest :: "u8 list"

definition epoch_validate :: "epoch \<Rightarrow> unit result" where
  "epoch_validate e =
     (if boot_id e = replicate 16 0 \<or> provider_generation e = 0 \<or> clock_generation e = 0
         \<or> policy_digest e = replicate 32 0
      then Err ''uninitialized UTC epoch'' else Ok ())"

record policy =
  max_age_ms :: u64
  max_width_ms :: u64
  drift_ppm :: u32

definition policy_validate :: "policy \<Rightarrow> unit result" where
  "policy_validate p =
     (if max_age_ms p = 0 \<or> 3600000 < max_age_ms p \<or> max_width_ms p = 0 \<or> 1000 < max_width_ms p
         \<or> drift_ppm p = 0 \<or> 1000 < drift_ppm p
      then Err ''invalid bounded UTC policy'' else Ok ())"

record measurement =
  operator :: u8
  utc :: interval
  observed_boottime_ms :: u64
  sample_epoch :: epoch

section \<open>Projection\<close>

text \<open>\<open>i64::try_from\<close>; the intermediate products are \<open>u128\<close> and stay below \<open>2 ^ 96\<close>.\<close>

definition try_i64 :: "nat \<Rightarrow> int result" where
  "try_i64 n = ok_or (checked_i64 (int n)) ''out of range integral type conversion attempted''"

definition drift_of :: "u64 \<Rightarrow> policy \<Rightarrow> nat" where
  "drift_of age p = div_ceil (unat age * unat (drift_ppm p)) (1000000 - unat (drift_ppm p))"

definition project :: "measurement \<Rightarrow> u64 \<Rightarrow> epoch \<Rightarrow> policy \<Rightarrow> interval result" where
  "project sample now epoch p =
     and_then (epoch_validate epoch) (\<lambda>_.
     and_then (policy_validate p) (\<lambda>_.
     if sample_epoch sample \<noteq> epoch \<or> \<not> (1 \<le> operator sample \<and> operator sample \<le> 3)
     then Err ''UTC source or epoch mismatch''
     else and_then
       (ok_or (case checked_sub now (observed_boottime_ms sample) of None \<Rightarrow> None
               | Some age \<Rightarrow> if age \<le> max_age_ms p then Some age else None)
          ''UTC sample is future-dated or stale'') (\<lambda>age.
     let drift = drift_of age p in
     if unat (max_age_ms p) < unat age + drift
     then Err ''UTC sample may exceed its real-age limit''
     else
       and_then (try_i64 (unat age)) (\<lambda>age.
       and_then (try_i64 drift) (\<lambda>drift.
       and_then (ok_or (Option.bind (checked_i64 (lower_ms (utc sample) + age))
                          (\<lambda>v. checked_i64 (v - drift))) ''UTC projection overflow'') (\<lambda>lower.
       and_then (ok_or (Option.bind (checked_i64 (upper_ms (utc sample) + age))
                          (\<lambda>v. checked_i64 (v + drift))) ''UTC projection overflow'') (\<lambda>upper.
       interval_new lower upper)))))))"

section \<open>Consensus\<close>

fun project_all ::
  "measurement list \<Rightarrow> u64 \<Rightarrow> epoch \<Rightarrow> policy \<Rightarrow> u8 \<Rightarrow> interval list \<Rightarrow> interval list result" where
  "project_all [] now epoch p operators projected = Ok projected"
| "project_all (s # ss) now epoch p operators projected =
     and_then (project s now epoch p) (\<lambda>i.
       let bit = push_bit (unat (operator s)) 1 in
       if operators AND bit \<noteq> 0 then Err ''duplicate UTC operator''
       else project_all ss now epoch p (operators OR bit) (projected @ [i]))"

text \<open>The index pairs \<open>i < j\<close> of the nested loop, in its order.\<close>

definition index_pairs :: "nat \<Rightarrow> (nat \<times> nat) list" where
  "index_pairs n = concat (map (\<lambda>i. map (\<lambda>j. (i, j)) [Suc i..<n]) [0..<n])"

definition possible_hull :: "interval list \<Rightarrow> interval option" where
  "possible_hull ps =
     foldl (\<lambda>possible (i, j). case interval_intersection (ps ! i) (ps ! j) of None \<Rightarrow> possible
              | Some overlap \<Rightarrow> Some (case possible of None \<Rightarrow> overlap | Some v \<Rightarrow> interval_hull v overlap))
       None (index_pairs 3)"

definition combine :: "interval list \<Rightarrow> interval result" where
  "combine ps =
     (if length ps = 2
      then and_then (ok_or (interval_intersection (ps ! 0) (ps ! 1)) ''UTC operators disagree'') (\<lambda>_.
             Ok (interval_hull (ps ! 0) (ps ! 1)))
      else ok_or (possible_hull ps) ''UTC operators disagree'')"

definition consensus :: "measurement list \<Rightarrow> u64 \<Rightarrow> epoch \<Rightarrow> policy \<Rightarrow> interval result" where
  "consensus samples now epoch p =
     and_then (epoch_validate epoch) (\<lambda>_.
     and_then (policy_validate p) (\<lambda>_.
     if \<not> (2 \<le> length samples \<and> length samples \<le> 3)
     then Err ''UTC requires two or three independent operators''
     else and_then (project_all samples now epoch p 0 []) (\<lambda>projected.
          and_then (combine projected) (\<lambda>bounds.
          and_then (ok_or_panic (checked_i64 (upper_ms bounds - lower_ms bounds))) (\<lambda>width.
          if width < 0 then Err ''out of range integral type conversion attempted''
          else if unat (max_width_ms p) < nat width then Err ''UTC uncertainty exceeds policy''
          else Ok bounds)))))"

section \<open>Well-formed intervals\<close>

definition interval_ok :: "interval \<Rightarrow> bool" where
  "interval_ok i \<longleftrightarrow> 0 \<le> lower_ms i \<and> lower_ms i \<le> upper_ms i \<and> upper_ms i < 2 ^ 63"

definition covers :: "interval \<Rightarrow> real \<Rightarrow> bool" where
  "covers i t \<longleftrightarrow> of_int (lower_ms i) \<le> t \<and> t \<le> of_int (upper_ms i)"

lemma interval_new_Ok [result_simps]:
  "interval_new l u = Ok i \<longleftrightarrow> 0 \<le> l \<and> l \<le> u \<and> i = \<lparr>lower_ms = l, upper_ms = u\<rparr>"
  by (auto simp: interval_new_def)

lemma intersection_covers:
  "interval_intersection a b = Some c \<Longrightarrow> covers c t \<longleftrightarrow> covers a t \<and> covers b t"
  by (auto simp: interval_intersection_def covers_def Let_def split: if_splits)

lemma intersection_None: "interval_intersection a b = None \<Longrightarrow> \<not> (covers a t \<and> covers b t)"
  by (auto simp: interval_intersection_def covers_def Let_def split: if_splits)

lemma hull_covers: "covers a t \<or> covers b t \<Longrightarrow> covers (interval_hull a b) t"
  by (auto simp: interval_hull_def covers_def)

lemma intersection_ok:
  "interval_ok a \<Longrightarrow> interval_ok b \<Longrightarrow> interval_intersection a b = Some c \<Longrightarrow> interval_ok c"
  by (auto simp: interval_intersection_def interval_ok_def Let_def split: if_splits)

lemma hull_ok: "interval_ok a \<Longrightarrow> interval_ok b \<Longrightarrow> interval_ok (interval_hull a b)"
  by (auto simp: interval_hull_def interval_ok_def)

section \<open>Facts about projection\<close>

lemma policy_validate_Ok [result_simps]:
  "policy_validate p = Ok u \<longleftrightarrow>
     max_age_ms p \<noteq> 0 \<and> max_age_ms p \<le> 3600000 \<and> max_width_ms p \<noteq> 0 \<and> max_width_ms p \<le> 1000
     \<and> drift_ppm p \<noteq> 0 \<and> drift_ppm p \<le> 1000"
  by (auto simp: policy_validate_def)

lemma epoch_validate_Ok [result_simps]:
  "epoch_validate e = Ok u \<longleftrightarrow> boot_id e \<noteq> replicate 16 0 \<and> provider_generation e \<noteq> 0
     \<and> clock_generation e \<noteq> 0 \<and> policy_digest e \<noteq> replicate 32 0"
  by (auto simp: epoch_validate_def)

lemma try_i64_Ok [result_simps]: "try_i64 n = Ok v \<longleftrightarrow> v = int n \<and> n < 2 ^ 63"
  by (auto simp: try_i64_def ok_or_Inr_iff checked_i64_Some i64_range_def)

lemma ppm_bound: "policy_validate p = Ok () \<Longrightarrow> 0 < unat (drift_ppm p) \<and> unat (drift_ppm p) \<le> 1000"
  by (auto simp: policy_validate_Ok word_le_nat_alt unat_gt_0)

lemma max_age_bound: "policy_validate p = Ok () \<Longrightarrow> unat (max_age_ms p) \<le> 3600000"
  by (auto simp: policy_validate_Ok word_le_nat_alt)

lemma drift_of_ge:
  assumes "policy_validate p = Ok ()"
  shows "unat age * unat (drift_ppm p) \<le> drift_of age p * (1000000 - unat (drift_ppm p))"
  using div_ceil_ge [of "1000000 - unat (drift_ppm p)" "unat age * unat (drift_ppm p)"]
    ppm_bound [OF assms] by (simp add: drift_of_def)

lemma project_Ok:
  assumes "project s now e p = Ok i"
  defines "age \<equiv> now - observed_boottime_ms s"
  shows "policy_validate p = Ok ()" "epoch_validate e = Ok ()" "sample_epoch s = e"
    "1 \<le> operator s" "operator s \<le> 3" "observed_boottime_ms s \<le> now"
    "unat age + drift_of age p \<le> unat (max_age_ms p)"
    "lower_ms i = lower_ms (utc s) + int (unat age) - int (drift_of age p)"
    "upper_ms i = upper_ms (utc s) + int (unat age) + int (drift_of age p)"
    "0 \<le> lower_ms i" "lower_ms i \<le> upper_ms i" "upper_ms i < 2 ^ 63"
  using assms
  by (auto simp: project_def result_simps checked_simps Let_def i64_range_def bind_eq_Some_conv
      split: if_splits option.splits)

lemma project_interval_ok: "project s now e p = Ok i \<Longrightarrow> interval_ok i"
  by (auto simp: interval_ok_def dest: project_Ok)

text \<open>
  A measurement is honest for true time \<open>t\<close> at boot-clock reading \<open>now\<close>: its interval held
  true UTC when it was taken, and the boot clock's elapsed reading is within the policy's rate error
  of the true elapsed time \<open>elapsed\<close>.
\<close>

definition honest :: "measurement \<Rightarrow> u64 \<Rightarrow> policy \<Rightarrow> real \<Rightarrow> bool" where
  "honest s now p t \<longleftrightarrow> (\<exists>utc0 elapsed. covers (utc s) utc0 \<and> t = utc0 + elapsed \<and> 0 \<le> elapsed \<and>
     \<bar>real (unat (now - observed_boottime_ms s)) - elapsed\<bar> * 1000000
       \<le> real (unat (drift_ppm p)) * elapsed)"

lemma elapsed_within_drift:
  fixes age drift ppm elapsed :: real
  assumes "0 < ppm" "ppm \<le> 1000" "0 \<le> age" "0 \<le> drift" "0 \<le> elapsed"
    and bound: "age * ppm \<le> drift * (1000000 - ppm)"
    and rate: "\<bar>age - elapsed\<bar> * 1000000 \<le> ppm * elapsed"
  shows "age - drift \<le> elapsed \<and> elapsed \<le> age + drift"
proof (cases "elapsed \<le> age")
  case True
  then have "ppm * elapsed \<le> ppm * age" using assms(1) by simp
  with True rate have "(age - elapsed) * 1000000 \<le> ppm * age" by linarith
  moreover have "0 \<le> drift * ppm" using assms by simp
  moreover have "age * ppm + drift * ppm \<le> drift * 1000000"
    using bound by (simp add: algebra_simps)
  ultimately have "(age - elapsed) * 1000000 \<le> drift * 1000000"
    by (simp only: mult.commute [of ppm age])
  then show ?thesis using True assms(4) by simp
next
  case False
  then have "(elapsed - age) * (1000000 - ppm) \<le> drift * (1000000 - ppm)"
    using rate bound by (simp add: algebra_simps abs_if)
  then have "elapsed - age \<le> drift" using assms(2) by simp
  with False assms(4) show ?thesis by simp
qed

lemma elapsed_within_drift_nat:
  fixes age drift ppm :: nat
  assumes "0 < ppm" "ppm \<le> 1000" "0 \<le> elapsed" "age * ppm \<le> drift * (1000000 - ppm)"
    and "\<bar>real age - elapsed\<bar> * 1000000 \<le> real ppm * elapsed"
  shows "real age - real drift \<le> elapsed \<and> elapsed \<le> real age + real drift"
proof -
  have "real (age * ppm) \<le> real (drift * (1000000 - ppm))" using assms(4) by (rule of_nat_mono)
  then have "real age * real ppm \<le> real drift * (1000000 - real ppm)"
    using assms(2) by (simp add: of_nat_diff)
  with assms show ?thesis by (intro elapsed_within_drift [of "real ppm"]) auto
qed

lemma project_covers:
  assumes ok: "project s now e p = Ok i" and hon: "honest s now p t"
  shows "covers i t"
proof -
  define age where "age = unat (now - observed_boottime_ms s)"
  define drift where "drift = drift_of (now - observed_boottime_ms s) p"
  note v = project_Ok [OF ok, folded age_def drift_def]
  obtain utc0 elapsed where h: "covers (utc s) utc0" "t = utc0 + elapsed" "0 \<le> elapsed"
    "\<bar>real age - elapsed\<bar> * 1000000 \<le> real (unat (drift_ppm p)) * elapsed"
    using hon unfolding honest_def age_def by blast
  have "real age - real drift \<le> elapsed \<and> elapsed \<le> real age + real drift"
    using ppm_bound [OF v(1)] h(3,4) drift_of_ge [OF v(1), folded age_def drift_def]
    by (intro elapsed_within_drift_nat [of "unat (drift_ppm p)"])
      (auto simp: age_def drift_def drift_of_ge [OF v(1)] simp del: of_nat_unat)
  then show ?thesis using h v(8,9) by (auto simp: covers_def)
qed

section \<open>Facts about the consensus\<close>

lemma and_bit_mask: "n < 8 \<Longrightarrow> (w AND push_bit n 1 \<noteq> 0) = bit w n" for w :: u8
  by (metis and_zero_eq bit.conj_cancel_left push_bit_of_1 and_exp_eq_0_iff_not_bit)

lemma project_all_Ok:
  "project_all ss now e p ops ps = Ok qs \<Longrightarrow>
     \<exists>is. qs = ps @ is \<and> list_all2 (\<lambda>s i. project s now e p = Ok i) ss is"
proof (induction ss now e p ops ps rule: project_all.induct)
  case (2 s ss now e p ops ps)
  let ?bit = "push_bit (unat (operator s)) 1 :: u8"
  from "2.prems" obtain i where i: "project s now e p = Ok i" and free: "\<not> ops AND ?bit \<noteq> 0"
    and rest: "project_all ss now e p (ops OR ?bit) (ps @ [i]) = Ok qs"
    by (auto simp: and_then_Inr_iff Let_def split: if_splits)
  from "2.IH" [OF i refl free rest] obtain "is" where "qs = (ps @ [i]) @ is"
    "list_all2 (\<lambda>s i. project s now e p = Ok i) ss is" by blast
  with i show ?case by (intro exI [of _ "i # is"]) auto
qed simp

lemma project_all_operators:
  "project_all ss now e p ops ps = Ok qs \<Longrightarrow>
     distinct (map operator ss) \<and> (\<forall>s \<in> set ss. \<not> bit ops (unat (operator s)))"
proof (induction ss now e p ops ps rule: project_all.induct)
  case (2 s ss now e p ops ps)
  let ?bit = "push_bit (unat (operator s)) 1 :: u8"
  from "2.prems" obtain i where i: "project s now e p = Ok i" and free: "\<not> ops AND ?bit \<noteq> 0"
    and rest: "project_all ss now e p (ops OR ?bit) (ps @ [i]) = Ok qs"
    by (auto simp: and_then_Inr_iff Let_def split: if_splits)
  have small: "unat (operator s) < 8"
    using project_Ok(5) [OF i] by (auto simp: word_le_nat_alt)
  have IH: "distinct (map operator ss)" "\<forall>r \<in> set ss. \<not> bit (ops OR ?bit) (unat (operator r))"
    using "2.IH" [OF i refl free rest] by auto
  have "operator s \<notin> set (map operator ss)"
  proof
    assume "operator s \<in> set (map operator ss)"
    with IH(2) have "\<not> bit (ops OR ?bit) (unat (operator s))" by auto
    with small show False by (simp add: bit_simps)
  qed
  moreover have "\<not> bit ops (unat (operator s))" using free and_bit_mask [OF small] by blast
  ultimately show ?case using IH by (auto simp: bit_simps)
qed simp

lemma index_pairs_3: "index_pairs 3 = [(0, 1), (0, 2), (1, 2)]"
  by (simp add: index_pairs_def upt_rec)

text \<open>What the clients of an interval estimator rely on, and the estimate of three operators.\<close>

lemma possible_hull_ok:
  "list_all interval_ok [a, b, c] \<Longrightarrow> possible_hull [a, b, c] = Some h \<Longrightarrow> interval_ok h"
  by (auto simp: possible_hull_def index_pairs_3 intro: hull_ok intersection_ok
      split: option.splits)

lemma possible_hull_covers:
  assumes "possible_hull [a, b, c] = Some h"
    and "covers a t \<and> covers b t \<or> covers a t \<and> covers c t \<or> covers b t \<and> covers c t"
  shows "covers h t"
  using assms
  by (auto simp: possible_hull_def index_pairs_3 split: option.splits
      intro!: hull_covers dest: intersection_covers [where t = t] intersection_None [where t = t])

lemma combine_ok:
  assumes "combine ps = Ok b" "list_all interval_ok ps" "length ps = 2 \<or> length ps = 3"
  shows "interval_ok b"
  using assms
  by (auto simp: combine_def result_simps length_Suc_conv numeral_2_eq_2 numeral_3_eq_3
      intro: hull_ok possible_hull_ok split: if_splits)

lemma combine_covers:
  assumes "combine ps = Ok b" "length ps = 2 \<or> length ps = 3"
    and "length (filter (\<lambda>i. \<not> covers i t) ps) \<le> 1"
  shows "covers b t"
  using assms
  by (auto simp: combine_def result_simps length_Suc_conv numeral_2_eq_2 numeral_3_eq_3
      intro: hull_covers possible_hull_covers split: if_splits)

lemma consensus_Ok:
  assumes "consensus ss now e p = Ok b"
  shows "\<exists>ps. list_all2 (\<lambda>s i. project s now e p = Ok i) ss ps \<and> combine ps = Ok b
    \<and> (length ps = 2 \<or> length ps = 3) \<and> distinct (map operator ss)
    \<and> nat (upper_ms b - lower_ms b) \<le> unat (max_width_ms p)"
proof -
  from assms obtain ps where len: "2 \<le> length ss" "length ss \<le> 3"
    and ps: "project_all ss now e p 0 [] = Ok ps" and b: "combine ps = Ok b"
    and w: "nat (upper_ms b - lower_ms b) \<le> unat (max_width_ms p)"
    by (auto simp: consensus_def result_simps checked_simps split: if_splits)
  from project_all_Ok [OF ps] have all: "list_all2 (\<lambda>s i. project s now e p = Ok i) ss ps" by simp
  then have "length ps = 2 \<or> length ps = 3" using len list_all2_lengthD by fastforce
  with all b w project_all_operators [OF ps] show ?thesis by blast
qed

lemma project_all_intervals:
  "list_all2 (\<lambda>s i. project s now e p = Ok i) ss ps \<Longrightarrow> list_all interval_ok ps"
  by (induction rule: list_all2_induct) (auto intro: project_interval_ok)

lemma project_all_dishonest:
  "list_all2 (\<lambda>s i. project s now e p = Ok i) ss ps \<Longrightarrow>
     length (filter (\<lambda>i. \<not> covers i t) ps) \<le> length (filter (\<lambda>s. \<not> honest s now p t) ss)"
  by (induction rule: list_all2_induct) (auto dest: project_covers)

lemma project_no_panic: "project s now e p \<noteq> Inl Panic"
  by (auto simp: project_def epoch_validate_def policy_validate_def try_i64_def interval_new_def
      Let_def split: and_then_split option.splits elim!: ok_or.elims)

lemma project_all_no_panic: "project_all ss now e p ops ps \<noteq> Inl Panic"
  by (induction ss now e p ops ps rule: project_all.induct)
    (auto simp: Let_def project_no_panic split: and_then_split)

lemma combine_no_panic: "combine ps \<noteq> Inl Panic"
  by (auto simp: combine_def split: and_then_split elim!: ok_or.elims)

text \<open>
  The contract of an estimator of UTC from measurements, as the lifecycle keeper uses it: an
  estimate is a well-formed interval no wider than the policy allows, and covers true time
  unless two measurements are dishonest.
\<close>

locale interval_estimator =
  fixes estimate :: "measurement list \<Rightarrow> u64 \<Rightarrow> epoch \<Rightarrow> policy \<Rightarrow> interval result"
  assumes estimate_ok: "estimate ss now e p = Ok i \<Longrightarrow> interval_ok i"
    and estimate_width: "estimate ss now e p = Ok i \<Longrightarrow> nat (upper_ms i - lower_ms i) \<le> unat (max_width_ms p)"
    and estimate_covers: "estimate ss now e p = Ok i \<Longrightarrow>
      length (filter (\<lambda>s. \<not> honest s now p t) ss) \<le> 1 \<Longrightarrow> covers i t"
begin

text \<open>The keeper raises the lower end to the protected floor when the upper end permits it.\<close>

lemma raise_floor:
  assumes "estimate ss now e p = Ok i" "base \<le> upper_ms i"
  shows "\<exists>j. interval_new (max (lower_ms i) base) (upper_ms i) = Ok j \<and> interval_ok j
    \<and> base \<le> lower_ms j \<and> nat (upper_ms j - lower_ms j) \<le> unat (max_width_ms p)
    \<and> (covers i t \<longrightarrow> of_int base \<le> t \<longrightarrow> covers j t)"
proof -
  let ?j = "\<lparr>lower_ms = max (lower_ms i) base, upper_ms = upper_ms i\<rparr>"
  have "interval_new (max (lower_ms i) base) (upper_ms i) = Ok ?j" "interval_ok ?j"
    using estimate_ok [OF assms(1)] assms(2) by (auto simp: interval_new_Ok interval_ok_def)
  moreover have "nat (upper_ms ?j - lower_ms ?j) \<le> unat (max_width_ms p)"
    using estimate_width [OF assms(1)] by (simp add: nat_le_iff)
  ultimately show ?thesis by (intro exI [of _ ?j]) (auto simp: covers_def)
qed

lemma raise_floor_covers:
  assumes "estimate ss now e p = Ok i" "interval_new (max (lower_ms i) base) (upper_ms i) = Ok j"
    and "length (filter (\<lambda>s. \<not> honest s now p t) ss) \<le> 1" "of_int base \<le> t"
  shows "covers j t"
  using estimate_covers [OF assms(1,3)] assms(2,4) by (auto simp: interval_new_Ok covers_def)

end

interpretation utc_estimator: interval_estimator consensus
proof unfold_locales
  fix ss now e p i t
  assume "consensus ss now e p = Ok i"
  then obtain ps where ps: "list_all2 (\<lambda>s i. project s now e p = Ok i) ss ps" "combine ps = Ok i"
    "length ps = 2 \<or> length ps = 3" "nat (upper_ms i - lower_ms i) \<le> unat (max_width_ms p)"
    by (blast dest: consensus_Ok)
  show "interval_ok i" using combine_ok [OF ps(2) project_all_intervals [OF ps(1)] ps(3)] .
  show "nat (upper_ms i - lower_ms i) \<le> unat (max_width_ms p)" by (rule ps(4))
  assume "length (filter (\<lambda>s. \<not> honest s now p t) ss) \<le> 1"
  then have "length (filter (\<lambda>i. \<not> covers i t) ps) \<le> 1"
    using project_all_dishonest [OF ps(1), of t] by linarith
  then show "covers i t" using combine_covers [OF ps(2,3)] by blast
qed

section \<open>Properties\<close>

text \<open>
  C20: Byzantine tolerance of the consensus. When \<open>consensus\<close> returns an interval at boot-clock
  reading \<open>now\<close> and at most one of the samples is dishonest for true time \<open>t\<close> (its interval did
  not hold UTC when taken, or the boot clock exceeded the rate error), the interval covers \<open>t\<close>.
\<close>
theorem consensus_fault_tolerant:
  assumes "consensus ss now e p = Ok b"
    and "length (filter (\<lambda>s. \<not> honest s now p t) ss) \<le> 1"
  shows "of_int (lower_ms b) \<le> t \<and> t \<le> of_int (upper_ms b)"
  using utc_estimator.estimate_covers [OF assms] by (simp add: covers_def)

definition sample_epoch_1 :: epoch where
  "sample_epoch_1 = \<lparr>boot_id = replicate 16 1, provider_generation = 1, clock_generation = 1,
     policy_digest = replicate 32 7\<rparr>"

definition sample_policy :: policy where
  "sample_policy = \<lparr>max_age_ms = 180000, max_width_ms = 500, drift_ppm = 100\<rparr>"

definition sample_measurement :: "u8 \<Rightarrow> int \<Rightarrow> measurement" where
  "sample_measurement op l = \<lparr>operator = op, utc = \<lparr>lower_ms = l, upper_ms = l + 100\<rparr>,
     observed_boottime_ms = 5000, sample_epoch = sample_epoch_1\<rparr>"

lemmas sample_defs = sample_epoch_1_def sample_policy_def sample_measurement_def

lemmas consensus_eval =
  consensus_def project_def project_all.simps combine_def possible_hull_def index_pairs_3
  epoch_validate_def policy_validate_def drift_of_def div_ceil_def checked_sub_def try_i64_def
  checked_i64_def i64_range_def interval_new_def interval_intersection_def interval_hull_def Let_def

lemma sample_consensus:
  "consensus [sample_measurement 1 1000, sample_measurement 2 1050, sample_measurement 3 9000]
     6000 sample_epoch_1 sample_policy = Ok \<lparr>lower_ms = 2049, upper_ms = 2101\<rparr>"
  by (simp add: consensus_eval sample_defs)

theorem consensus_fault_tolerant_witness:
  "(2049 :: real) \<le> 2080 \<and> (2080 :: real) \<le> 2101"
proof -
  have "honest (sample_measurement 1 1000) 6000 sample_policy 2080"
    unfolding honest_def by (rule exI [of _ 1080], rule exI [of _ 1000])
      (simp add: sample_defs covers_def)
  moreover have "honest (sample_measurement 2 1050) 6000 sample_policy 2080"
    unfolding honest_def by (rule exI [of _ 1080], rule exI [of _ 1000])
      (simp add: sample_defs covers_def)
  ultimately have "length (filter (\<lambda>s. \<not> honest s 6000 sample_policy 2080)
      [sample_measurement 1 1000, sample_measurement 2 1050, sample_measurement 3 9000]) \<le> 1"
    by simp
  from consensus_fault_tolerant [OF sample_consensus this] show ?thesis by simp
qed

text \<open>
  A consensus is a well-formed interval (nonnegative, ordered, in \<open>i64\<close>), no wider than the
  policy's \<open>max_width_ms\<close>, made from two or three samples of distinct operators of this epoch.
\<close>
theorem consensus_bounded:
  assumes "consensus ss now e p = Ok b"
  shows "0 \<le> lower_ms b \<and> lower_ms b \<le> upper_ms b \<and> upper_ms b < 2 ^ 63
    \<and> nat (upper_ms b - lower_ms b) \<le> unat (max_width_ms p) \<and> distinct (map operator ss)
    \<and> (\<forall>s \<in> set ss. sample_epoch s = e \<and> observed_boottime_ms s \<le> now)"
proof -
  obtain ps where ps: "list_all2 (\<lambda>s i. project s now e p = Ok i) ss ps"
    "distinct (map operator ss)" using consensus_Ok [OF assms] by blast
  from ps(1) have "\<forall>s \<in> set ss. sample_epoch s = e \<and> observed_boottime_ms s \<le> now"
    by (induction rule: list_all2_induct) (auto dest: project_Ok)
  with ps(2) utc_estimator.estimate_ok [OF assms] utc_estimator.estimate_width [OF assms]
  show ?thesis by (simp add: interval_ok_def)
qed

theorem consensus_bounded_witness:
  "nat (upper_ms \<lparr>lower_ms = 2049, upper_ms = 2101\<rparr> - 2049) \<le> unat (max_width_ms sample_policy)"
  using consensus_bounded [OF sample_consensus] by simp

text \<open>
  No arithmetic of the consensus overflows: for every input it returns an interval or one of
  its errors, and never aborts the process.
\<close>
theorem consensus_never_panics: "consensus ss now e p \<noteq> Inl Panic"
proof
  assume "consensus ss now e p = Inl Panic"
  then obtain ps b where "2 \<le> length ss" "length ss \<le> 3" "project_all ss now e p 0 [] = Ok ps"
    "combine ps = Ok b" "checked_i64 (upper_ms b - lower_ms b) = None"
    using project_all_no_panic combine_no_panic
    by (auto simp: consensus_def epoch_validate_def policy_validate_def error_simps split: if_splits)
  moreover from this have "interval_ok b"
    using combine_ok [of ps b] project_all_Ok [of ss now e p 0 "[]" ps] project_all_intervals
    by (fastforce dest: list_all2_lengthD)
  ultimately show False by (auto simp: checked_i64_def i64_range_def interval_ok_def)
qed

text \<open>
  The validity test is exact on the whole interval: \<open>within\<close> answers true exactly when every
  instant of a nonempty interval lies in \<open>[not_before, expires)\<close>, and refuses an empty or negative window.
\<close>
theorem within_every_instant:
  assumes "interval_ok i" "interval_within i nb ex = Ok r"
  shows "r \<longleftrightarrow> (\<forall>t. lower_ms i \<le> t \<and> t \<le> upper_ms i \<longrightarrow> nb \<le> t \<and> t < ex)"
  using assms by (auto simp: interval_within_def interval_ok_def split: if_splits)

theorem within_every_instant_witness:
  "interval_within \<lparr>lower_ms = 5, upper_ms = 9\<rparr> 5 10 = Ok True \<and> (7::int) < 10"
  using within_every_instant [of "\<lparr>lower_ms = 5, upper_ms = 9\<rparr>" 5 10 True]
  by (auto simp: interval_within_def interval_ok_def)

end
