(* ===== verification/Utc_Policy.thy ===== *)
theory Utc_Policy
  imports Utc_Bounds
begin

text \<open>
  The fixed owner-approved UTC policy of \<open>utc_policy.rs\<close>. JSON decoding (\<open>serde_json\<close>) and
  SHA-256 (\<open>sha2\<close>) are external, as are the compiled policy bytes: they are parameters of \<open>parse\<close>.
\<close>

record operator_entry =
  op_id :: u8
  op_name :: string
  op_hostname :: string

record document =
  doc_schema_version :: u32
  approved_on :: string
  operators :: "operator_entry list"
  minimum_operators :: nat
  doc_max_age_ms :: u64
  doc_max_width_ms :: u64
  rate_error_ppm :: u32
  offline_authorization :: string
  leap_action :: string

record approved_policy =
  approved_digest :: "u8 list"

definition approved_operators :: "operator_entry list" where
  "approved_operators =
     [\<lparr>op_id = 1, op_name = ''Cloudflare'', op_hostname = ''time.cloudflare.com''\<rparr>,
      \<lparr>op_id = 2, op_name = ''Netnod'', op_hostname = ''nts.netnod.se''\<rparr>,
      \<lparr>op_id = 3, op_name = ''PTB'', op_hostname = ''ptbtime1.ptb.de''\<rparr>]"

text \<open>\<open>b"luma-native-approved-utc-policy-v1\0"\<close>, the domain prefix of the digest.\<close>

definition byte_of :: "char \<Rightarrow> u8" where
  "byte_of c = of_nat (of_char c)"

definition policy_domain :: "u8 list" where
  "policy_domain = map byte_of ''luma-native-approved-utc-policy-v1'' @ [0]"

definition parse ::
  "(u8 list \<Rightarrow> document result) \<Rightarrow> (u8 list \<Rightarrow> u8 list) \<Rightarrow> u8 list \<Rightarrow> u8 list \<Rightarrow> approved_policy result"
where
  "parse from_json sha256 policy_bytes bytes =
     (if 4096 < length bytes then Err ''UTC policy exceeds fixed bounds''
      else and_then (from_json bytes) (\<lambda>doc.
        if doc_schema_version doc \<noteq> 1 \<or> approved_on doc \<noteq> ''2026-10-05''
           \<or> operators doc \<noteq> approved_operators \<or> minimum_operators doc \<noteq> 2
           \<or> doc_max_age_ms doc \<noteq> 180000 \<or> doc_max_width_ms doc \<noteq> 500
           \<or> rate_error_ppm doc \<noteq> 100 \<or> offline_authorization doc \<noteq> ''deny''
           \<or> leap_action doc \<noteq> ''fence'' \<or> bytes \<noteq> policy_bytes
        then Err ''UTC policy is not the fixed owner-approved policy''
        else Ok \<lparr>approved_digest = sha256 (policy_domain @ bytes)\<rparr>))"

definition bounds :: "approved_policy \<Rightarrow> policy" where
  "bounds a = \<lparr>max_age_ms = 180000, max_width_ms = 500, drift_ppm = 100\<rparr>"

lemma bounds_valid: "policy_validate (bounds a) = Ok ()"
  by (simp add: bounds_def policy_validate_def)

lemma bounds_fields [simp]:
  "max_age_ms (bounds a) = 180000" "max_width_ms (bounds a) = 500" "drift_ppm (bounds a) = 100"
  by (simp_all add: bounds_def)

lemma parse_only_policy_bytes: "parse fj sha pb bytes = Ok a \<Longrightarrow> bytes = pb"
  by (auto simp: parse_def result_simps split: if_splits)

end
