(* ===== verification/Utc_Keeper.thy ===== *)
theory Utc_Keeper
  imports Utc_Policy
begin

text \<open>
  The UTC lifecycle reducer of \<open>utc_keeper.rs\<close>. Every \<open>&mut self\<close> method is a function from
  the keeper to the next keeper and its result, because a refused call also changes the state
  (it fences). The arrays \<open>[Source; 3]\<close> and \<open>[Option<_>; 3]\<close> are lists; \<open>keeper_inv\<close>
  records their length.
\<close>

section \<open>Data\<close>

datatype state = Uninitialized | Acquiring | Bounded | Fenced | ReconciliationRequired

record clock =
  boottime_ms :: u64
  monotonic_ms :: u64
  realtime_ms :: int
  suspend_generation :: u64

datatype source = Unavailable u8 | Measured u64 measurement bool

fun source_operator :: "source \<Rightarrow> u8" where
  "source_operator (Unavailable op) = op"
| "source_operator (Measured _ sample _) = operator sample"

record round =
  round_epoch :: epoch
  sequence :: u64
  captured_boottime_ms :: u64
  sources :: "source list"

record keeper =
  keeper_policy :: approved_policy
  keeper_epoch :: epoch
  keeper_state :: state
  floor_ms :: int
  last_clock :: "clock option"
  barrier_ms :: u64
  last_round :: u64
  last_samples :: "(u64 \<times> measurement) option list"
  current_sources :: "source list option"
  estimate :: "interval option"

definition ROUND_BUDGET_MS :: nat where
  "ROUND_BUDGET_MS = 1000"

section \<open>Operations\<close>

definition keeper_new :: "approved_policy result \<Rightarrow> u8 list \<Rightarrow> u64 \<Rightarrow> int \<Rightarrow> keeper result" where
  "keeper_new fixed boot provider fl =
     (if boot = replicate 16 0 \<or> provider = 0 \<or> fl < 0
      then Err ''uninitialized UTC lifecycle context''
      else and_then fixed (\<lambda>p.
        Ok \<lparr>keeper_policy = p,
            keeper_epoch = \<lparr>boot_id = boot, provider_generation = provider, clock_generation = 1,
                            policy_digest = approved_digest p\<rparr>,
            keeper_state = Uninitialized, floor_ms = fl, last_clock = None, barrier_ms = 0,
            last_round = 0, last_samples = replicate 3 None, current_sources = None,
            estimate = None\<rparr>))"

definition validate_clock :: "clock \<Rightarrow> unit result" where
  "validate_clock c =
     (if realtime_ms c < 0 \<or> boottime_ms c < monotonic_ms c
      then Err ''invalid UTC clock observation'' else Ok ())"

definition check_clock :: "keeper \<Rightarrow> clock \<Rightarrow> unit result" where
  "check_clock k now =
     and_then (validate_clock now) (\<lambda>_.
     and_then (ok_or (last_clock k) ''UTC acquisition has not started'') (\<lambda>old.
     and_then (ok_or (checked_sub (boottime_ms now) (boottime_ms old)) ''UTC boot clock regressed'') (\<lambda>boot_delta.
     and_then (ok_or (checked_sub (monotonic_ms now) (monotonic_ms old)) ''UTC monotonic clock regressed'') (\<lambda>mono_delta.
     if suspend_generation now \<noteq> suspend_generation old \<or> 2 < abs_diff boot_delta mono_delta
     then Err ''UTC suspend or inconsistent elapsed clocks''
     else
       let real_delta = realtime_ms now - realtime_ms old;
           allowed = div_ceil (unat boot_delta * 100) 999900 + 2
       in if allowed < nat \<bar>real_delta - int (unat boot_delta)\<bar>
          then Err ''UTC wall clock step or rate inconsistency'' else Ok ()))))"

definition fence :: "keeper \<Rightarrow> keeper" where
  "fence k = k\<lparr>estimate := None, current_sources := None,
     keeper_state := (if keeper_state k \<noteq> ReconciliationRequired then Fenced else keeper_state k)\<rparr>"

text \<open>\<open>if result.is_err() { self.fence() }\<close>\<close>

definition fence_on_error :: "keeper \<times> 'a result \<Rightarrow> keeper \<times> 'a result" where
  "fence_on_error kr = (case snd kr of Inl e \<Rightarrow> (fence (fst kr), Inl e) | Inr x \<Rightarrow> kr)"

definition check_boundary :: "keeper \<Rightarrow> clock \<Rightarrow> keeper \<times> unit result" where
  "check_boundary k now = fence_on_error (k, check_clock k now)"

text \<open>The closure of \<open>reacquire\<close>; its early error after no write leaves the keeper unchanged.\<close>

definition reacquire_inner :: "keeper \<Rightarrow> clock \<Rightarrow> keeper \<times> unit result" where
  "reacquire_inner k c =
     (if keeper_state k \<noteq> Uninitialized \<and> keeper_state k \<noteq> Fenced
      then (k, Err ''UTC reacquisition requires an initial or fenced state'')
      else case validate_clock c of Inl e \<Rightarrow> (k, Inl e) | Inr _ \<Rightarrow>
        if (case last_clock k of None \<Rightarrow> False | Some old \<Rightarrow>
              boottime_ms c < boottime_ms old \<or> monotonic_ms c < monotonic_ms old)
        then (k, Err ''UTC monotonic regression cannot be rebased'')
        else
          let generation = (if keeper_state k = Fenced
                then ok_or (checked_add (clock_generation (keeper_epoch k)) 1) ''UTC generation overflow''
                else Ok (clock_generation (keeper_epoch k)))
          in case generation of Inl e \<Rightarrow> (k, Inl e) | Inr g \<Rightarrow>
            (k\<lparr>keeper_epoch := (keeper_epoch k)\<lparr>clock_generation := g\<rparr>,
               barrier_ms := boottime_ms c, last_clock := Some c, estimate := None,
               current_sources := None, keeper_state := Acquiring\<rparr>, Ok ()))"

definition reacquire :: "keeper \<Rightarrow> clock \<Rightarrow> keeper \<times> unit result" where
  "reacquire k c = fence_on_error (reacquire_inner k c)"

text \<open>The loop over the round's sources: the accepted samples and the next replay table.\<close>

fun accept_sources ::
  "keeper \<Rightarrow> round \<Rightarrow> nat \<Rightarrow> source list \<Rightarrow> (u64 \<times> measurement) option list \<Rightarrow> measurement list
     \<Rightarrow> ((u64 \<times> measurement) option list \<times> measurement list) result" where
  "accept_sources k r index [] next samples = Ok (next, samples)"
| "accept_sources k r index (source # rest) next samples =
     (if unat (source_operator source) \<noteq> index + 1
      then Err ''UTC round has duplicate, missing or reordered operators''
      else case source of
        Unavailable _ \<Rightarrow> accept_sources k r (index + 1) rest next samples
      | Measured seq sample normal_leap \<Rightarrow>
          if \<not> normal_leap \<or> seq = 0 \<or> observed_boottime_ms sample < barrier_ms k
             \<or> captured_boottime_ms r < observed_boottime_ms sample
          then Err ''UTC measurement has invalid leap, sequence or acquisition epoch''
          else if (case last_samples k ! index of None \<Rightarrow> False
                   | Some (previous_sequence, previous_sample) \<Rightarrow>
                       seq < previous_sequence
                       \<or> (seq = previous_sequence \<and> sample \<noteq> previous_sample)
                       \<or> (previous_sequence < seq
                          \<and> observed_boottime_ms sample \<le> observed_boottime_ms previous_sample))
          then Err ''UTC measurement replay, re-aging or timestamp regression''
          else accept_sources k r (index + 1) rest (next[index := Some (seq, sample)]) (samples @ [sample]))"

definition refresh_checks :: "keeper \<Rightarrow> round \<Rightarrow> clock \<Rightarrow>
    ((u64 \<times> measurement) option list \<times> measurement list) result" where
  "refresh_checks k r now =
     (if keeper_state k \<noteq> Acquiring \<and> keeper_state k \<noteq> Bounded
      then Err ''UTC lifecycle is not acquiring or bounded''
      else and_then (check_clock k now) (\<lambda>_.
        if round_epoch r \<noteq> keeper_epoch k \<or> sequence r \<le> last_round k
        then Err ''UTC round epoch mismatch or replay''
        else and_then
          (ok_or (case checked_sub (boottime_ms now) (captured_boottime_ms r) of None \<Rightarrow> None
                  | Some v \<Rightarrow> if unat v \<le> ROUND_BUDGET_MS then Some v else None)
             ''UTC round is future-dated or acquisition timed out'') (\<lambda>age.
        let acquisition_error = div_ceil (unat age * 100) 999900 in
        and_then (ok_or_panic (last_clock k)) (\<lambda>last.
        if captured_boottime_ms r < boottime_ms last \<or> ROUND_BUDGET_MS < unat age + acquisition_error
        then Err ''UTC round predates its boundary or may exceed acquisition deadline''
        else accept_sources k r 0 (sources r) (last_samples k) []))))"

definition refresh_inner :: "keeper \<Rightarrow> round \<Rightarrow> clock \<Rightarrow> bool \<Rightarrow> keeper \<times> interval option result" where
  "refresh_inner k r now acquiring =
     (case refresh_checks k r now of Inl e \<Rightarrow> (k, Inl e) | Inr (next, samples) \<Rightarrow>
        if acquiring \<and> keeper_state k = Acquiring \<and> length samples < 2
        then case for_all (\<lambda>s. and_then (project s (boottime_ms now) (keeper_epoch k) (bounds (keeper_policy k)))
                                 (\<lambda>_. Ok ())) samples of
            Inl e \<Rightarrow> (k, Inl e)
          | Inr _ \<Rightarrow> (k\<lparr>last_samples := next, current_sources := Some (sources r),
                       last_round := sequence r, last_clock := Some now, estimate := None\<rparr>, Ok None)
        else case consensus samples (boottime_ms now) (keeper_epoch k) (bounds (keeper_policy k)) of
            Inl e \<Rightarrow> (k, Inl e)
          | Inr interval \<Rightarrow>
              if upper_ms interval < floor_ms k
              then (k\<lparr>keeper_state := ReconciliationRequired\<rparr>,
                    Err ''UTC candidate is behind protected history; preserve the fence'')
              else case interval_new (max (lower_ms interval) (floor_ms k)) (upper_ms interval) of
                  Inl e \<Rightarrow> (k, Inl e)
                | Inr bounded \<Rightarrow>
                    (k\<lparr>last_samples := next, current_sources := Some (sources r),
                       last_round := sequence r, last_clock := Some now, estimate := Some bounded,
                       keeper_state := Bounded\<rparr>, Ok (Some bounded)))"

definition refresh :: "keeper \<Rightarrow> round \<Rightarrow> clock \<Rightarrow> keeper \<times> interval result" where
  "refresh k r now =
     (case refresh_inner k r now False of (k', res) \<Rightarrow>
        fence_on_error (k', and_then res (\<lambda>c. ok_or c ''UTC round has no quorum'')))"

definition acquire_round :: "keeper \<Rightarrow> round \<Rightarrow> clock \<Rightarrow> keeper \<times> interval option result" where
  "acquire_round k r now =
     fence_on_error (if keeper_state k = Acquiring then refresh_inner k r now True
                     else (k, Err ''UTC initial acquisition is no longer active''))"

fun measured_samples :: "source list \<Rightarrow> measurement list" where
  "measured_samples [] = []"
| "measured_samples (Measured _ sample _ # ss) = sample # measured_samples ss"
| "measured_samples (Unavailable _ # ss) = measured_samples ss"

definition candidate_inner :: "keeper \<Rightarrow> clock \<Rightarrow> keeper \<times> interval result" where
  "candidate_inner k now =
     (if keeper_state k \<noteq> Bounded then (k, Err ''UTC lifecycle has no current candidate'')
      else case and_then (check_clock k now) (\<lambda>_.
                and_then (ok_or (current_sources k) ''missing UTC source inventory'') (\<lambda>ss.
                consensus (measured_samples ss) (boottime_ms now) (keeper_epoch k)
                  (bounds (keeper_policy k)))) of
          Inl e \<Rightarrow> (k, Inl e)
        | Inr candidate \<Rightarrow>
            if upper_ms candidate < floor_ms k
            then (k\<lparr>keeper_state := ReconciliationRequired\<rparr>,
                  Err ''UTC candidate is behind protected history'')
            else case interval_new (max (lower_ms candidate) (floor_ms k)) (upper_ms candidate) of
                Inl e \<Rightarrow> (k, Inl e)
              | Inr c \<Rightarrow> (k\<lparr>last_clock := Some now, estimate := Some c\<rparr>, Ok c))"

definition candidate_at :: "keeper \<Rightarrow> clock \<Rightarrow> keeper \<times> interval result" where
  "candidate_at k now = fence_on_error (candidate_inner k now)"

section \<open>What an operation can do\<close>

inductive refresh_outcome :: "keeper \<Rightarrow> round \<Rightarrow> clock \<Rightarrow> bool \<Rightarrow> keeper \<Rightarrow> interval option result \<Rightarrow> bool"
  for k :: keeper and r :: round and now :: clock and acquiring :: bool
where
  refused: "refresh_outcome k r now acquiring k (Inl e)"
| behind: "refresh_outcome k r now acquiring (k\<lparr>keeper_state := ReconciliationRequired\<rparr>) (Inl e)"
| heartbeat: "acquiring \<Longrightarrow> keeper_state k = Acquiring \<Longrightarrow> refresh_checks k r now = Ok (next, ss) \<Longrightarrow>
    refresh_outcome k r now acquiring
      (k\<lparr>last_samples := next, current_sources := Some (sources r), last_round := sequence r,
         last_clock := Some now, estimate := None\<rparr>) (Ok None)"
| quorum: "refresh_checks k r now = Ok (next, ss) \<Longrightarrow>
    consensus ss (boottime_ms now) (keeper_epoch k) (bounds (keeper_policy k)) = Ok i \<Longrightarrow>
    floor_ms k \<le> upper_ms i \<Longrightarrow> interval_new (max (lower_ms i) (floor_ms k)) (upper_ms i) = Ok b \<Longrightarrow>
    refresh_outcome k r now acquiring
      (k\<lparr>last_samples := next, current_sources := Some (sources r), last_round := sequence r,
         last_clock := Some now, estimate := Some b, keeper_state := Bounded\<rparr>) (Ok (Some b))"

inductive_cases refresh_outcomeE: "refresh_outcome k r now acquiring k' res"
inductive_simps refresh_outcome_Ok: "refresh_outcome k r now acquiring k' (Inr c)"

lemma refresh_inner_outcome:
  "refresh_inner k r now acquiring = (k', res) \<Longrightarrow> refresh_outcome k r now acquiring k' res"
  by (auto simp: refresh_inner_def intro: refresh_outcome.intros
      split: sum.splits if_splits prod.splits)

lemma accept_sources_length:
  "accept_sources k r n ss next samples = Ok (next', samples') \<Longrightarrow> length next' = length next"
  by (induction k r n ss "next" samples rule: accept_sources.induct)
    (auto split: if_splits source.splits)

lemma accept_sources_measured:
  "accept_sources k r n ss next samples = Ok (next', samples') \<Longrightarrow>
     samples' = samples @ measured_samples ss"
  by (induction k r n ss "next" samples rule: accept_sources.induct)
    (auto split: if_splits source.splits)

lemma refresh_checks_Ok:
  assumes "refresh_checks k r now = Ok (next, ss)"
  shows "keeper_state k = Acquiring \<or> keeper_state k = Bounded" "round_epoch r = keeper_epoch k"
    "last_round k < sequence r" "check_clock k now = Ok ()"
    "length next = length (last_samples k)" "ss = measured_samples (sources r)"
  using assms
  by (auto simp: refresh_checks_def result_simps Let_def not_le
      dest: accept_sources_length accept_sources_measured split: if_splits option.splits)

lemma fence_fields [simp]:
  "estimate (fence k) = None" "current_sources (fence k) = None" "floor_ms (fence k) = floor_ms k"
  "keeper_policy (fence k) = keeper_policy k" "keeper_epoch (fence k) = keeper_epoch k"
  "last_round (fence k) = last_round k" "last_samples (fence k) = last_samples k"
  "last_clock (fence k) = last_clock k"
  "keeper_state (fence k) = (if keeper_state k = ReconciliationRequired then ReconciliationRequired else Fenced)"
  by (auto simp: fence_def)

section \<open>The invariant\<close>

definition bounded_estimate :: "keeper \<Rightarrow> interval \<Rightarrow> bool" where
  "bounded_estimate k i \<longleftrightarrow> interval_ok i \<and> floor_ms k \<le> lower_ms i \<and> nat (upper_ms i - lower_ms i) \<le> 500"

definition keeper_inv :: "keeper \<Rightarrow> bool" where
  "keeper_inv k \<longleftrightarrow> length (last_samples k) = 3 \<and> 0 \<le> floor_ms k
     \<and> (case keeper_state k of
          Bounded \<Rightarrow> (\<exists>i. estimate k = Some i \<and> bounded_estimate k i) \<and> current_sources k \<noteq> None
                      \<and> last_clock k \<noteq> None
        | Acquiring \<Rightarrow> estimate k = None \<and> last_clock k \<noteq> None
        | _ \<Rightarrow> estimate k = None \<and> current_sources k = None)"

lemma keeper_new_inv: "keeper_new fixed boot provider fl = Ok k \<Longrightarrow> keeper_inv k"
  by (auto simp: keeper_new_def result_simps keeper_inv_def split: if_splits)

lemma fence_inv: "keeper_inv k \<Longrightarrow> keeper_inv (fence k)"
  by (auto simp: keeper_inv_def split: state.splits)

lemma bounded_interval:
  assumes "consensus ss now e (bounds (keeper_policy k)) = Ok i" "floor_ms k \<le> upper_ms i"
    and "interval_new (max (lower_ms i) (floor_ms k)) (upper_ms i) = Ok b"
  shows "bounded_estimate k b"
  using utc_estimator.raise_floor [OF assms(1,2), of 0] assms(3)
  by (auto simp: bounded_estimate_def)

text \<open>A keeper whose invariant holds except that the state was just set to reconciliation.\<close>

lemma fence_behind_inv:
  "keeper_inv k \<Longrightarrow> keeper_inv (fence (k\<lparr>keeper_state := ReconciliationRequired\<rparr>))"
  by (auto simp: keeper_inv_def)

lemma refresh_outcome_inv:
  assumes "refresh_outcome k r now acquiring k' res" "keeper_inv k"
  shows "case res of Inl e \<Rightarrow> keeper_inv (fence k') | Inr c \<Rightarrow> keeper_inv k'"
  using assms
proof cases
  case (quorum "next" ss i b)
  then show ?thesis
    using refresh_checks_Ok(5) [OF quorum(3)] bounded_interval [OF quorum(4,5,6)] assms(2)
    by (auto simp: keeper_inv_def bounded_estimate_def)
next
  case (heartbeat "next" ss)
  then show ?thesis
    using refresh_checks_Ok(5) [OF heartbeat(5)] assms(2) by (auto simp: keeper_inv_def)
qed (auto simp: fence_inv fence_behind_inv)

lemma fence_on_error_simps [simp]:
  "fence_on_error (k, Inl e) = (fence k, Inl e)" "fence_on_error (k, Inr x) = (k, Inr x)"
  by (simp_all add: fence_on_error_def)

inductive reacquire_outcome :: "keeper \<Rightarrow> clock \<Rightarrow> keeper \<Rightarrow> unit result \<Rightarrow> bool"
  for k :: keeper and c :: clock
where
  not_rebased: "reacquire_outcome k c k (Inl e)"
| rebased: "keeper_state k = Uninitialized \<or> keeper_state k = Fenced \<Longrightarrow>
    clock_generation (keeper_epoch k) \<le> g \<Longrightarrow>
    keeper_state k = Fenced \<longrightarrow> clock_generation (keeper_epoch k) < g \<Longrightarrow>
    reacquire_outcome k c
      (k\<lparr>keeper_epoch := (keeper_epoch k)\<lparr>clock_generation := g\<rparr>,
         barrier_ms := boottime_ms c, last_clock := Some c, estimate := None,
         current_sources := None, keeper_state := Acquiring\<rparr>) (Ok ())"

lemma reacquire_inner_outcome:
  "reacquire_outcome k c (fst (reacquire_inner k c)) (snd (reacquire_inner k c))"
  using reacquire_outcome.rebased [of k "clock_generation (keeper_epoch k)" c]
  by (auto simp: reacquire_inner_def Let_def result_simps intro!: not_rebased rebased less_imp_le
      dest: checked_add_one_less split: sum.split)

inductive candidate_outcome :: "keeper \<Rightarrow> clock \<Rightarrow> keeper \<Rightarrow> interval result \<Rightarrow> bool"
  for k :: keeper and now :: clock
where
  no_candidate: "candidate_outcome k now k (Inl e)"
| candidate_behind: "candidate_outcome k now (k\<lparr>keeper_state := ReconciliationRequired\<rparr>) (Inl e)"
| candidate: "keeper_state k = Bounded \<Longrightarrow> current_sources k = Some ss \<Longrightarrow>
    consensus (measured_samples ss) (boottime_ms now) (keeper_epoch k) (bounds (keeper_policy k)) = Ok i \<Longrightarrow>
    floor_ms k \<le> upper_ms i \<Longrightarrow> interval_new (max (lower_ms i) (floor_ms k)) (upper_ms i) = Ok b \<Longrightarrow>
    candidate_outcome k now (k\<lparr>last_clock := Some now, estimate := Some b\<rparr>) (Ok b)"

lemma candidate_inner_outcome:
  "candidate_outcome k now (fst (candidate_inner k now)) (snd (candidate_inner k now))"
  by (auto simp: candidate_inner_def result_simps intro: candidate_outcome.intros split: sum.split)

section \<open>The keeper as a transition system\<close>

datatype event =
    Check_boundary clock | Reacquire clock | Fence | Refresh round clock
  | Acquire_round round clock | Candidate_at clock

fun keeper_step :: "keeper \<Rightarrow> event \<Rightarrow> keeper" where
  "keeper_step k (Check_boundary c) = fst (check_boundary k c)"
| "keeper_step k (Reacquire c) = fst (reacquire k c)"
| "keeper_step k Fence = fence k"
| "keeper_step k (Refresh r c) = fst (refresh k r c)"
| "keeper_step k (Acquire_round r c) = fst (acquire_round k r c)"
| "keeper_step k (Candidate_at c) = fst (candidate_at k c)"

lemma keeper_inv_check_boundary: "keeper_inv k \<Longrightarrow> keeper_inv (fst (check_boundary k c))"
  by (cases "check_clock k c") (simp_all add: check_boundary_def fence_inv)

lemma keeper_inv_reacquire:
  assumes "keeper_inv k" shows "keeper_inv (fst (reacquire k c))"
proof -
  obtain k' res where r: "reacquire_inner k c = (k', res)" by fastforce
  have "reacquire_outcome k c k' res" using reacquire_inner_outcome [of k c] r by simp
  then show ?thesis
    using assms by cases (auto simp: r reacquire_def fence_inv keeper_inv_def)
qed

lemma keeper_inv_candidate:
  assumes "keeper_inv k" shows "keeper_inv (fst (candidate_at k now))"
proof -
  obtain k' res where r: "candidate_inner k now = (k', res)" by fastforce
  have "candidate_outcome k now k' res" using candidate_inner_outcome [of k now] r by simp
  then show ?thesis
  proof cases
    case (candidate ss i)
    then show ?thesis
      using bounded_interval [of "measured_samples ss" "boottime_ms now" "keeper_epoch k" k i] assms r
      by (auto simp: candidate_at_def keeper_inv_def bounded_estimate_def)
  qed (use assms r in \<open>simp_all add: candidate_at_def fence_inv fence_behind_inv\<close>)
qed

lemma keeper_inv_acquire: "keeper_inv k \<Longrightarrow> keeper_inv (fst (acquire_round k r now))"
proof (cases "keeper_state k = Acquiring")
  case True
  assume "keeper_inv k"
  with True show ?thesis
    using refresh_outcome_inv [OF refresh_inner_outcome, of k r now True]
    by (cases "refresh_inner k r now True"; cases "snd (refresh_inner k r now True)")
      (auto simp: acquire_round_def)
qed (simp add: acquire_round_def fence_inv)

lemma keeper_inv_refresh: "keeper_inv k \<Longrightarrow> keeper_inv (fst (refresh k r now))"
  using refresh_outcome_inv [OF refresh_inner_outcome, of k r now False]
  by (cases "refresh_inner k r now False"; cases "snd (refresh_inner k r now False)";
      cases "projr (snd (refresh_inner k r now False))")
    (auto simp: refresh_def fence_inv)

lemma keeper_inv_step: "keeper_inv k \<Longrightarrow> keeper_inv (keeper_step k ev)"
  by (cases ev)
    (simp_all add: keeper_inv_check_boundary keeper_inv_reacquire fence_inv keeper_inv_refresh
      keeper_inv_acquire keeper_inv_candidate)

text \<open>What never goes back: the replay counters, the clock generation, and reconciliation.\<close>

definition keeper_le :: "keeper \<Rightarrow> keeper \<Rightarrow> bool" where
  "keeper_le k k' \<longleftrightarrow> last_round k \<le> last_round k' \<and> floor_ms k' = floor_ms k
     \<and> keeper_policy k' = keeper_policy k
     \<and> clock_generation (keeper_epoch k) \<le> clock_generation (keeper_epoch k')
     \<and> (keeper_state k = ReconciliationRequired \<longrightarrow> keeper_state k' = ReconciliationRequired)
     \<and> (keeper_state k = Fenced \<longrightarrow> keeper_state k' \<in> {Fenced, ReconciliationRequired} \<or>
          clock_generation (keeper_epoch k) < clock_generation (keeper_epoch k'))"

lemma keeper_le_refl: "keeper_le k k"
  by (simp add: keeper_le_def)

lemma keeper_le_trans: "keeper_le a b \<Longrightarrow> keeper_le b c \<Longrightarrow> keeper_le a c"
  by (auto simp: keeper_le_def)

lemma keeper_le_fence: "keeper_le k (fence k)"
  by (simp add: keeper_le_def)

lemma keeper_le_fence_behind: "keeper_le k (fence (k\<lparr>keeper_state := ReconciliationRequired\<rparr>))"
  by (simp add: keeper_le_def)

lemma keeper_le_refresh_outcome:
  assumes "refresh_outcome k r now acquiring k' res"
  shows "keeper_le k (case res of Inl e \<Rightarrow> fence k' | Inr c \<Rightarrow> k')"
  using assms
proof cases
  case (quorum "next" ss i b)
  with refresh_checks_Ok(1,3) [OF quorum(3)] show ?thesis by (auto simp: keeper_le_def)
next
  case (heartbeat "next" ss)
  with refresh_checks_Ok(3) [OF heartbeat(5)] show ?thesis by (auto simp: keeper_le_def)
qed (simp_all add: keeper_le_fence keeper_le_fence_behind)

lemma keeper_le_acquire: "keeper_le k (fst (acquire_round k r now))"
proof (cases "keeper_state k = Acquiring")
  case True
  then show ?thesis
    using keeper_le_refresh_outcome [OF refresh_inner_outcome, of k r now True]
    by (cases "refresh_inner k r now True"; cases "snd (refresh_inner k r now True)")
      (auto simp: acquire_round_def)
qed (simp add: acquire_round_def keeper_le_fence)

lemma keeper_le_refresh: "keeper_le k (fst (refresh k r now))"
  using keeper_le_refresh_outcome [OF refresh_inner_outcome, of k r now False]
  by (cases "refresh_inner k r now False"; cases "snd (refresh_inner k r now False)";
      cases "projr (snd (refresh_inner k r now False))")
    (auto simp: refresh_def intro: keeper_le_trans keeper_le_fence)

lemma keeper_le_reacquire: "keeper_le k (fst (reacquire k c))"
proof -
  obtain k' res where r: "reacquire_inner k c = (k', res)" by fastforce
  have "reacquire_outcome k c k' res" using reacquire_inner_outcome [of k c] r by simp
  then show ?thesis
    by cases (auto simp: r reacquire_def keeper_le_fence keeper_le_def)
qed

lemma keeper_le_candidate: "keeper_le k (fst (candidate_at k now))"
proof -
  obtain k' res where r: "candidate_inner k now = (k', res)" by fastforce
  have "candidate_outcome k now k' res" using candidate_inner_outcome [of k now] r by simp
  then show ?thesis
    by cases (auto simp: r candidate_at_def keeper_le_fence keeper_le_fence_behind keeper_le_def)
qed

lemma keeper_le_check_boundary: "keeper_le k (fst (check_boundary k c))"
  by (cases "check_clock k c") (simp_all add: check_boundary_def keeper_le_fence keeper_le_refl)

interpretation keeper: monotone_system
  "\<lambda>k. \<exists>fixed boot provider fl. keeper_new fixed boot provider fl = Ok k"
  keeper_step keeper_inv keeper_le
proof unfold_locales
  show "keeper_le k (keeper_step k ev)" for k ev
    by (cases ev) (simp_all add: keeper_le_check_boundary keeper_le_reacquire keeper_le_fence
      keeper_le_refresh keeper_le_acquire keeper_le_candidate)
qed (auto simp: keeper_inv_step keeper_le_refl intro: keeper_new_inv keeper_le_trans)

section \<open>Properties\<close>

text \<open>A concrete history: a fresh keeper, an acquisition, and a round of two operators.\<close>

definition fresh_keeper :: keeper where
  "fresh_keeper = \<lparr>keeper_policy = \<lparr>approved_digest = replicate 32 7\<rparr>, keeper_epoch = sample_epoch_1,
     keeper_state = Uninitialized, floor_ms = 2050, last_clock = None, barrier_ms = 0, last_round = 0,
     last_samples = [None, None, None], current_sources = None, estimate = None\<rparr>"

definition clock_at :: "u64 \<Rightarrow> clock" where
  "clock_at t = \<lparr>boottime_ms = t, monotonic_ms = t, realtime_ms = uint t, suspend_generation = 0\<rparr>"

definition round_1 :: round where
  "round_1 = \<lparr>round_epoch = sample_epoch_1, sequence = 1, captured_boottime_ms = 5900,
     sources = [Measured 1 (sample_measurement 1 1000) True, Measured 1 (sample_measurement 2 1050) True,
                Unavailable 3]\<rparr>"

definition acquiring_keeper :: keeper where
  "acquiring_keeper = fresh_keeper\<lparr>barrier_ms := 4000, last_clock := Some (clock_at 4000),
     keeper_state := Acquiring\<rparr>"

definition bounded_keeper :: keeper where
  "bounded_keeper = acquiring_keeper\<lparr>
     last_samples := [Some (1, sample_measurement 1 1000), Some (1, sample_measurement 2 1050), None],
     current_sources := Some (sources round_1), last_round := 1, last_clock := Some (clock_at 6000),
     estimate := Some \<lparr>lower_ms = 2050, upper_ms = 2151\<rparr>, keeper_state := Bounded\<rparr>"

lemmas keeper_sample_defs =
  fresh_keeper_def clock_at_def round_1_def acquiring_keeper_def bounded_keeper_def sample_defs

lemma sample_new:
  "keeper_new (Ok \<lparr>approved_digest = replicate 32 7\<rparr>) (replicate 16 1) 1 2050 = Ok fresh_keeper"
  by (simp add: keeper_new_def fresh_keeper_def sample_epoch_1_def numeral_3_eq_3)

lemma sample_reacquire: "reacquire fresh_keeper (clock_at 4000) = (acquiring_keeper, Ok ())"
  by (simp add: reacquire_def reacquire_inner_def validate_clock_def keeper_sample_defs)

lemma sample_checks:
  "refresh_checks acquiring_keeper round_1 (clock_at 6000)
     = Ok ([Some (1, sample_measurement 1 1000), Some (1, sample_measurement 2 1050), None],
           [sample_measurement 1 1000, sample_measurement 2 1050])"
  by (simp add: refresh_checks_def check_clock_def validate_clock_def checked_sub_def div_ceil_def
      abs_diff_def ROUND_BUDGET_MS_def keeper_sample_defs)

lemma sample_refresh:
  "refresh acquiring_keeper round_1 (clock_at 6000)
     = (bounded_keeper, Ok \<lparr>lower_ms = 2050, upper_ms = 2151\<rparr>)"
  by (simp add: refresh_def refresh_inner_def sample_checks)
    (simp add: consensus_eval bounds_def keeper_sample_defs)


lemma refresh_Ok:
  assumes "refresh k r now = (k', Ok b)"
  shows "\<exists>next ss i. refresh_checks k r now = Ok (next, ss)
    \<and> consensus ss (boottime_ms now) (keeper_epoch k) (bounds (keeper_policy k)) = Ok i
    \<and> floor_ms k \<le> upper_ms i \<and> interval_new (max (lower_ms i) (floor_ms k)) (upper_ms i) = Ok b
    \<and> keeper_state k' = Bounded \<and> last_round k' = sequence r \<and> estimate k' = Some b"
proof -
  obtain k1 res where r: "refresh_inner k r now False = (k1, res)" by fastforce
  with assms have "res = Ok (Some b)" "k1 = k'"
    by (auto simp: refresh_def result_simps fence_on_error_def split: sum.splits)
  with refresh_inner_outcome [OF r] show ?thesis by (auto simp: refresh_outcome_Ok)
qed

lemma refresh_refused:
  "refresh_checks k r now = Inl e \<Longrightarrow> snd (refresh k r now) = Inl e"
  by (simp add: refresh_def refresh_inner_def)

lemma refresh_checks_refused:
  "\<not> (keeper_state k = Acquiring \<or> keeper_state k = Bounded) \<or> round_epoch r \<noteq> keeper_epoch k
     \<or> sequence r \<le> last_round k \<Longrightarrow> \<exists>e. refresh_checks k r now = Inl e"
  by (cases "refresh_checks k r now") (auto dest: refresh_checks_Ok simp: not_le)

text \<open>
  C22: In every state a keeper reaches from \<open>new\<close> by any sequence of calls, an estimate exists
  exactly in state \<open>Bounded\<close>, and it is a well-formed interval at or above the protected floor and
  at most 500 ms wide.
\<close>
theorem keeper_reachable_estimate:
  assumes "keeper_new fixed boot provider fl = Ok k"
  shows "(estimate (foldl keeper_step k es) \<noteq> None \<longleftrightarrow> keeper_state (foldl keeper_step k es) = Bounded)
    \<and> (\<forall>i. estimate (foldl keeper_step k es) = Some i \<longrightarrow>
          fl \<le> lower_ms i \<and> lower_ms i \<le> upper_ms i \<and> nat (upper_ms i - lower_ms i) \<le> 500)"
proof -
  have inv: "keeper_inv (foldl keeper_step k es)" using keeper.invariant_reachable assms by blast
  have "floor_ms (foldl keeper_step k es) = floor_ms k"
    using keeper.le_run [OF keeper_new_inv [OF assms]] by (simp add: keeper_le_def)
  also have "floor_ms k = fl" using assms by (auto simp: keeper_new_def result_simps split: if_splits)
  finally show ?thesis
    using inv by (auto simp: keeper_inv_def bounded_estimate_def interval_ok_def split: state.splits)
qed

theorem keeper_reachable_estimate_witness:
  "keeper_state (foldl keeper_step fresh_keeper [Reacquire (clock_at 4000), Refresh round_1 (clock_at 6000)])
     = Bounded
   \<and> estimate (foldl keeper_step fresh_keeper [Reacquire (clock_at 4000), Refresh round_1 (clock_at 6000)])
     \<noteq> None"
  using keeper_reachable_estimate [OF sample_new,
      of "[Reacquire (clock_at 4000), Refresh round_1 (clock_at 6000)]"]
  by (simp add: sample_reacquire sample_refresh) (simp add: bounded_keeper_def)

text \<open>
  C21: A refreshed estimate is right: when \<open>refresh\<close> returns an interval for a round of which at
  most one measured source is dishonest for true time \<open>t\<close>, and \<open>t\<close> is not before the protected floor,
  the interval covers \<open>t\<close>, starts at or after the floor, and the keeper is \<open>Bounded\<close> at that round.
\<close>
theorem keeper_refresh_covers:
  assumes "refresh k r now = (k', Ok b)"
    and "length (filter (\<lambda>s. \<not> honest s (boottime_ms now) (bounds (keeper_policy k)) t)
           (measured_samples (sources r))) \<le> 1"
    and "of_int (floor_ms k) \<le> t"
  shows "of_int (lower_ms b) \<le> t \<and> t \<le> of_int (upper_ms b) \<and> floor_ms k \<le> lower_ms b
    \<and> keeper_state k' = Bounded \<and> last_round k' = sequence r"
proof -
  obtain "next" ss i where r: "refresh_checks k r now = Ok (next, ss)"
    "consensus ss (boottime_ms now) (keeper_epoch k) (bounds (keeper_policy k)) = Ok i"
    "floor_ms k \<le> upper_ms i" "interval_new (max (lower_ms i) (floor_ms k)) (upper_ms i) = Ok b"
    "keeper_state k' = Bounded" "last_round k' = sequence r"
    using refresh_Ok [OF assms(1)] by blast
  have "covers b t"
    using utc_estimator.raise_floor_covers [OF r(2,4), of t] refresh_checks_Ok(6) [OF r(1)] assms(2,3)
    by simp
  with r show ?thesis by (auto simp: covers_def interval_new_Ok)
qed

theorem keeper_refresh_covers_witness:
  "(2050 :: real) \<le> 2080 \<and> (2080 :: real) \<le> 2151 \<and> keeper_state bounded_keeper = Bounded"
proof -
  have "honest (sample_measurement 1 1000) 6000 (bounds (keeper_policy acquiring_keeper)) 2080"
    unfolding honest_def by (rule exI [of _ 1080], rule exI [of _ 1000])
      (simp add: sample_defs covers_def)
  then have h: "length (filter (\<lambda>s. \<not> honest s (boottime_ms (clock_at 6000))
      (bounds (keeper_policy acquiring_keeper)) 2080) (measured_samples (sources round_1))) \<le> 1"
    by (simp add: round_1_def clock_at_def)
  show ?thesis
    using keeper_refresh_covers [OF sample_refresh h]
    by (simp add: acquiring_keeper_def fresh_keeper_def)
qed

text \<open>
  Every refused call fences: after an error of any operation the keeper holds no estimate and
  no source inventory and is \<open>Fenced\<close> or \<open>ReconciliationRequired\<close>.
\<close>
theorem keeper_error_fences:
  assumes "(\<exists>e. check_boundary k c = (k', Inl e)) \<or> (\<exists>e. reacquire k c = (k', Inl e))
    \<or> (\<exists>e. refresh k r c = (k', Inl e)) \<or> (\<exists>e. acquire_round k r c = (k', Inl e))
    \<or> (\<exists>e. candidate_at k c = (k', Inl e))"
  shows "keeper_state k' \<in> {Fenced, ReconciliationRequired} \<and> estimate k' = None
    \<and> current_sources k' = None"
proof -
  have "\<exists>k0. k' = fence k0" if "fence_on_error kr = (k', Inl e)" for kr :: "keeper \<times> 'x result" and e
    using that by (cases kr; cases "snd kr") auto
  then have "\<exists>k0. k' = fence k0"
    using assms
    by (auto simp: check_boundary_def reacquire_def refresh_def acquire_round_def candidate_at_def
        fence_on_error_def split: sum.splits prod.splits)
  then show ?thesis by auto
qed

theorem keeper_error_fences_witness:
  "keeper_state (fst (refresh bounded_keeper round_1 (clock_at 6000))) \<in> {Fenced, ReconciliationRequired}"
proof -
  obtain e where "refresh_checks bounded_keeper round_1 (clock_at 6000) = Inl e"
    using refresh_checks_refused [of bounded_keeper round_1 "clock_at 6000"]
    by (auto simp: bounded_keeper_def round_1_def)
  from refresh_refused [OF this]
  have "refresh bounded_keeper round_1 (clock_at 6000)
      = (fst (refresh bounded_keeper round_1 (clock_at 6000)), Inl e)"
    by (metis prod.collapse)
  then show ?thesis using keeper_error_fences by blast
qed

text \<open>
  Falling behind protected history is final: a keeper in \<open>ReconciliationRequired\<close> stays there
  under every sequence of calls, and from it no call returns an interval or starts an acquisition.
\<close>
theorem keeper_reconciliation_final:
  assumes "keeper_inv k" "keeper_state k = ReconciliationRequired"
  shows "keeper_state (foldl keeper_step k es) = ReconciliationRequired
    \<and> (\<forall>r now. \<not> is_ok (snd (refresh (foldl keeper_step k es) r now))
         \<and> \<not> is_ok (snd (acquire_round (foldl keeper_step k es) r now))
         \<and> \<not> is_ok (snd (candidate_at (foldl keeper_step k es) now))
         \<and> \<not> is_ok (snd (reacquire (foldl keeper_step k es) now)))"
proof -
  let ?k = "foldl keeper_step k es"
  have st: "keeper_state ?k = ReconciliationRequired"
    using keeper.le_run [OF assms(1), of es] assms(2) by (simp add: keeper_le_def)
  moreover have "\<not> is_ok (snd (refresh ?k r now))" for r now
    using refresh_checks_refused [of ?k r now] refresh_refused [of ?k r now] st by auto
  ultimately show ?thesis
    by (simp add: acquire_round_def candidate_at_def candidate_inner_def reacquire_def
        reacquire_inner_def)
qed

theorem keeper_reconciliation_final_witness:
  "keeper_state (foldl keeper_step (fresh_keeper\<lparr>keeper_state := ReconciliationRequired\<rparr>)
     [Reacquire (clock_at 4000)]) = ReconciliationRequired"
  using keeper_reconciliation_final [of "fresh_keeper\<lparr>keeper_state := ReconciliationRequired\<rparr>"
      "[Reacquire (clock_at 4000)]"]
  by (simp add: keeper_inv_def fresh_keeper_def)

text \<open>
  C23: No replay across time: once \<open>refresh\<close> accepted round \<open>r\<close>, then after any further calls every
  round whose sequence number is not larger is refused.
\<close>
theorem keeper_round_never_replayed:
  assumes "keeper_inv k" "refresh k r now = (k', Ok b)" "sequence r' \<le> sequence r"
  shows "\<not> is_ok (snd (refresh (foldl keeper_step k' es) r' now'))"
proof -
  have "last_round k' = sequence r" using refresh_Ok [OF assms(2)] by blast
  moreover have "last_round k' \<le> last_round (foldl keeper_step k' es)"
    using keeper.le_run [of k' es] keeper_inv_refresh [OF assms(1), of r now] assms(2)
    by (simp add: keeper_le_def)
  ultimately show ?thesis
    using refresh_checks_refused [of "foldl keeper_step k' es" r' now'] refresh_refused assms(3)
    by (metis is_ok.simps(1) order.trans)
qed

theorem keeper_round_never_replayed_witness:
  "\<not> is_ok (snd (refresh (foldl keeper_step bounded_keeper [Fence, Reacquire (clock_at 7000)])
     round_1 (clock_at 8000)))"
  by (rule keeper_round_never_replayed [OF _ sample_refresh])
    (simp_all add: keeper_inv_def acquiring_keeper_def fresh_keeper_def)

text \<open>
  A fence cuts the epoch: from a \<open>Fenced\<close> keeper, no sequence of calls (a reacquisition
  included) leads to a state that accepts a round captured under the fenced epoch.
\<close>
theorem keeper_fenced_epoch_dead:
  assumes "keeper_inv k" "keeper_state k = Fenced" "round_epoch r = keeper_epoch k"
  shows "\<not> is_ok (snd (refresh (foldl keeper_step k es) r now))"
proof -
  have "keeper_state (foldl keeper_step k es) \<in> {Fenced, ReconciliationRequired}
      \<or> keeper_epoch k \<noteq> keeper_epoch (foldl keeper_step k es)"
    using keeper.le_run [OF assms(1), of es] assms(2) by (auto simp: keeper_le_def)
  then show ?thesis
    using refresh_checks_refused [of "foldl keeper_step k es" r now] refresh_refused assms(3)
    by fastforce
qed

theorem keeper_fenced_epoch_dead_witness:
  "\<not> is_ok (snd (refresh (foldl keeper_step (fence fresh_keeper) [Reacquire (clock_at 4000)])
     round_1 (clock_at 6000)))"
  by (rule keeper_fenced_epoch_dead)
    (simp_all add: fence_inv keeper_inv_def fresh_keeper_def fence_def round_1_def)

end
