(* ===== verification/Resources.thy ===== *)
theory Resources
  imports Prelude
begin

text \<open>
  The resource ledger of \<open>resources.rs\<close>: domains with a capacity, leases that charge them, and
  the operations of the broker. An operation that takes \<open>&mut self\<close> returns the next ledger
  inside its result, since none of them writes before its last error. Randomness
  (\<open>random_id\<close>) and the review digest (SHA-256 over JSON) are parameters.
\<close>

section \<open>Data\<close>

definition MAX_RECORDS :: nat where "MAX_RECORDS = 4096"
definition MAX_ARCHIVES :: nat where "MAX_ARCHIVES = 64"

definition resource_id :: "string \<Rightarrow> bool" where
  "resource_id v \<longleftrightarrow> v \<noteq> [] \<and> length v \<le> 128
     \<and> list_all (\<lambda>b. is_ascii_alphanumeric b \<or> b \<in> {CHR ''-'', CHR '':'', CHR ''.''}) v"

record domain =
  capacity :: u64
  reserve :: u64
  pressure_enter :: u64
  pressure_exit :: u64
  observed :: u64
  retained :: u64
  pressure :: bool
  quarantined :: bool
  domain_epoch :: u64

definition domain_validate :: "domain \<Rightarrow> unit result" where
  "domain_validate d =
     (if capacity d = 0 \<or> capacity d \<le> reserve d \<or> domain_epoch d = 0
         \<or> capacity d < pressure_enter d \<or> pressure_enter d \<le> reserve d
         \<or> pressure_enter d < pressure_exit d \<or> pressure_exit d < reserve d
      then Err ''invalid resource domain'' else Ok ())"

definition domain_new :: "u64 \<Rightarrow> u64 \<Rightarrow> u64 \<Rightarrow> u64 \<Rightarrow> domain result" where
  "domain_new cap res enter exit =
     (let d = \<lparr>capacity = cap, reserve = res, pressure_enter = enter, pressure_exit = exit,
               observed = 0, retained = 0, pressure = False, quarantined = False, domain_epoch = 1\<rparr>
      in and_then (domain_validate d) (\<lambda>_. Ok d))"

record reservation =
  res_domain :: string
  loading :: u64
  serving :: u64

definition peak :: "reservation \<Rightarrow> u64" where
  "peak r = max (loading r) (serving r)"

record owner =
  uid :: u32
  pid :: u32
  start_ticks :: u64
  boot :: string
  cgroup_device :: u64
  cgroup_inode :: u64

definition clone_key :: "owner \<Rightarrow> u32 \<times> u32 \<times> u64 \<times> string \<times> u64 \<times> u64" where
  "clone_key ow = (uid ow, pid ow, start_ticks ow, boot ow, cgroup_device ow, cgroup_inode ow)"

record token =
  lease_id :: string
  token_generation :: u64
  token_epoch :: string

datatype lease_state = Active | Draining | Released

datatype output_epoch = OutputEpoch (epoch_value: u64)

record lease =
  token :: token
  owner :: owner
  request :: string
  binding :: string
  reservations :: "reservation list"
  deadline_ms :: u64
  state :: lease_state
  reason :: string
  output_sha256 :: "string option"
  output_domain_epochs :: "(string, output_epoch) bmap option"
  output_fenced :: bool

record archive =
  through_generation :: u64
  archive_sha256 :: string

record ledger =
  schema_version :: u32
  manager_epoch :: string
  generation :: u64
  domains :: "(string, domain) bmap"
  archives :: "archive list"
  leases :: "lease list"

definition ledger_empty :: ledger where
  "ledger_empty = \<lparr>schema_version = 1, manager_epoch = [], generation = 0, domains = bm_empty,
     archives = [], leases = []\<rparr>"

section \<open>Validation\<close>

fun charge_reservations :: "string \<Rightarrow> u64 \<Rightarrow> reservation list \<Rightarrow> u64 result" where
  "charge_reservations name acc [] = Ok acc"
| "charge_reservations name acc (r # rs) =
     and_then (ok_or (checked_add acc (peak r)) ''resource byte accounting overflow'')
       (\<lambda>acc. charge_reservations name acc rs)"

fun charge_leases :: "string \<Rightarrow> u64 \<Rightarrow> lease list \<Rightarrow> u64 result" where
  "charge_leases name acc [] = Ok acc"
| "charge_leases name acc (l # ls) =
     and_then (charge_reservations name acc (filter (\<lambda>r. res_domain r = name) (reservations l)))
       (\<lambda>acc. charge_leases name acc ls)"

definition charged :: "ledger \<Rightarrow> string \<Rightarrow> u64 result" where
  "charged g name =
     and_then (ok_or (bm_get (domains g) name) ''unknown domain'') (\<lambda>d.
       charge_leases name (retained d) (filter (\<lambda>l. state l \<noteq> Released) (leases g)))"

fun check_reservations :: "ledger \<Rightarrow> string \<Rightarrow> reservation list \<Rightarrow> unit result" where
  "check_reservations g prev [] = Ok ()"
| "check_reservations g prev (r # rs) =
     (if res_domain r \<le> prev \<or> peak r = 0 \<or> \<not> bm_contains (domains g) (res_domain r)
      then Err ''unknown, duplicate, unordered or empty resource reservation''
      else check_reservations g (res_domain r) rs)"

definition reservations_valid :: "ledger \<Rightarrow> reservation list \<Rightarrow> unit result" where
  "reservations_valid g rs =
     (if rs = [] \<or> 16 < length rs then Err ''invalid resource plan''
      else check_reservations g [] rs)"

fun check_archives :: "ledger \<Rightarrow> u64 \<Rightarrow> archive list \<Rightarrow> u64 result" where
  "check_archives g previous [] = Ok previous"
| "check_archives g previous (a # as) =
     (if through_generation a \<le> previous \<or> generation g < through_generation a
         \<or> \<not> hex_string 64 (archive_sha256 a)
      then Err ''invalid resource archive chain''
      else check_archives g (through_generation a) as)"

text \<open>
  The snapshot of output epochs. \<open>self.domains[id]\<close> is reached only for the domains of the
  reservations, which \<open>reservations_valid\<close> has just found in the inventory.
\<close>

definition epochs_invalid :: "ledger \<Rightarrow> lease \<Rightarrow> (string, output_epoch) bmap \<Rightarrow> bool" where
  "epochs_invalid g l epochs \<longleftrightarrow>
     output_sha256 l = None \<or> bm_keys epochs \<noteq> map res_domain (reservations l)
     \<or> list_ex (\<lambda>(name, e). epoch_value e = 0 \<or> (case bm_get (domains g) name of None \<Rightarrow> True | Some d \<Rightarrow>
           domain_epoch d < epoch_value e \<or> (state l = Active \<and> epoch_value e \<noteq> domain_epoch d)))
         (bm_entries epochs)"

definition lease_fields_invalid :: "ledger \<Rightarrow> u64 \<Rightarrow> lease \<Rightarrow> bool" where
  "lease_fields_invalid g previous l \<longleftrightarrow>
     \<not> resource_id (lease_id (token l)) \<or> \<not> resource_id (token_epoch (token l))
     \<or> token_generation (token l) \<le> previous \<or> generation g < token_generation (token l)
     \<or> \<not> resource_id (request l) \<or> \<not> resource_id (boot (owner l)) \<or> pid (owner l) = 0
     \<or> start_ticks (owner l) = 0 \<or> cgroup_inode (owner l) = 0 \<or> deadline_ms l = 0
     \<or> length (binding l) \<noteq> 64 \<or> \<not> list_all is_ascii_hexdigit (binding l) \<or> \<not> resource_id (reason l)
     \<or> (output_fenced l \<and> (output_sha256 l = None \<or> state l = Active))
     \<or> (case output_sha256 l of None \<Rightarrow> False | Some digest \<Rightarrow> \<not> hex_string 64 digest)"

fun check_leases ::
  "ledger \<Rightarrow> string set \<Rightarrow> ((u32 \<times> u32 \<times> u64 \<times> string \<times> u64 \<times> u64) \<times> string) set \<Rightarrow> u64 \<Rightarrow> lease list
     \<Rightarrow> unit result" where
  "check_leases g ids requests previous [] = Ok ()"
| "check_leases g ids requests previous (l # ls) =
     (if lease_fields_invalid g previous l \<or> lease_id (token l) \<in> ids
         \<or> (clone_key (owner l), request l) \<in> requests
      then Err ''invalid resource lease or replay inventory''
      else and_then (reservations_valid g (reservations l)) (\<lambda>_.
        if (case output_domain_epochs l of None \<Rightarrow> False | Some epochs \<Rightarrow> epochs_invalid g l epochs)
        then Err ''invalid computation domain epoch snapshot''
        else if state l = Active \<and> token_epoch (token l) \<noteq> manager_epoch g
        then Err ''active lease belongs to a stale manager''
        else check_leases g (insert (lease_id (token l)) ids)
               (insert (clone_key (owner l), request l) requests) (token_generation (token l)) ls))"

definition domain_entry_validate :: "string \<times> domain \<Rightarrow> unit result" where
  "domain_entry_validate e =
     (if \<not> resource_id (fst e) then Err ''invalid resource domain identity''
      else domain_validate (snd e))"

definition overcommit_check :: "ledger \<Rightarrow> string \<times> domain \<Rightarrow> unit result" where
  "overcommit_check g e =
     and_then (charged g (fst e)) (\<lambda>c.
       if capacity (snd e) - reserve (snd e) < c \<and> \<not> quarantined (snd e)
       then Err ''unquarantined resource overcommit'' else Ok ())"

definition ledger_validate :: "ledger \<Rightarrow> unit result" where
  "ledger_validate g =
     (if schema_version g \<noteq> 1 \<or> MAX_RECORDS < length (leases g) \<or> 16 < bm_size (domains g)
         \<or> MAX_ARCHIVES < length (archives g)
      then Err ''unsupported or exhausted resource ledger''
      else if manager_epoch g = []
      then if generation g \<noteq> 0 \<or> \<not> bm_is_empty (domains g) \<or> leases g \<noteq> [] \<or> archives g \<noteq> []
           then Err ''invalid uninitialized resource ledger'' else Ok ()
      else if \<not> resource_id (manager_epoch g) \<or> bm_is_empty (domains g)
      then Err ''invalid resource manager epoch or inventory''
      else and_then (for_all domain_entry_validate (bm_entries (domains g))) (\<lambda>_.
           and_then (check_archives g 0 (archives g)) (\<lambda>previous.
           and_then (check_leases g {} {} previous (leases g)) (\<lambda>_.
           for_all (overcommit_check g) (bm_entries (domains g))))))"

section \<open>Operations\<close>

definition fence_lease :: "lease \<Rightarrow> lease" where
  "fence_lease l = (if output_sha256 l \<noteq> None then l\<lparr>output_fenced := True\<rparr> else l)"

definition fence_outputs :: "ledger \<Rightarrow> ledger" where
  "fence_outputs g = g\<lparr>leases := map fence_lease (leases g)\<rparr>"

text \<open>Operations on a copy end in \<open>next.validate()?; *self = next\<close>.\<close>

definition commit :: "ledger \<Rightarrow> ledger result" where
  "commit g = and_then (ledger_validate g) (\<lambda>_. Ok g)"

definition restart_domain :: "(string, domain) bmap \<Rightarrow> string \<Rightarrow> domain \<Rightarrow> domain" where
  "restart_domain inventory name d =
     (case bm_get inventory name of None \<Rightarrow> d | Some live \<Rightarrow>
        if (capacity d, reserve d, pressure_enter d, pressure_exit d)
           \<noteq> (capacity live, reserve live, pressure_enter live, pressure_exit live)
        then d\<lparr>quarantined := True\<rparr> else d)"

definition drain_lease :: "string \<Rightarrow> lease \<Rightarrow> lease" where
  "drain_lease why l = (if state l = Active then l\<lparr>state := Draining, reason := why\<rparr> else l)"

definition restart :: "ledger \<Rightarrow> string \<Rightarrow> (string, domain) bmap \<Rightarrow> ledger result" where
  "restart g epoch inventory =
     (if \<not> resource_id epoch \<or> epoch = manager_epoch g \<or> bm_is_empty inventory \<or> 16 < bm_size inventory
      then Err ''invalid resource manager restart''
      else and_then (for_all (\<lambda>e. if \<not> resource_id (fst e) then Err ''invalid domain identity''
                                  else domain_validate (snd e)) (bm_entries inventory)) (\<lambda>_.
      and_then (if bm_is_empty (domains g) then Ok inventory
                else if bm_keys (domains g) \<noteq> bm_keys inventory
                then Err ''resource inventory migration requires review''
                else Ok (bm_map (restart_domain inventory) (domains g))) (\<lambda>ds.
      commit (fence_outputs (g\<lparr>domains := ds, manager_epoch := epoch,
        leases := map (drain_lease ''manager-restart'') (leases g)\<rparr>)))))"

definition find_lease :: "ledger \<Rightarrow> token \<Rightarrow> owner \<Rightarrow> lease result" where
  "find_lease g t ow =
     ok_or (find (\<lambda>l. token l = t \<and> owner l = ow) (leases g))
       ''unknown, forged or foreign resource lease''"

text \<open>The closure of \<open>any\<close>, with the indexing \<open>self.domains[&r.domain]\<close> that may panic.\<close>

fun any_quarantined :: "ledger \<Rightarrow> reservation list \<Rightarrow> bool result" where
  "any_quarantined g [] = Ok False"
| "any_quarantined g (r # rs) =
     and_then (ok_or_panic (bm_get (domains g) (res_domain r))) (\<lambda>d.
       if quarantined d then Ok True else any_quarantined g rs)"

definition assert_active :: "ledger \<Rightarrow> token \<Rightarrow> owner \<Rightarrow> u64 \<Rightarrow> lease result" where
  "assert_active g t ow now =
     and_then (find_lease g t ow) (\<lambda>l.
       if token_epoch t \<noteq> manager_epoch g \<or> state l \<noteq> Active \<or> deadline_ms l \<le> now
       then Err ''expired, revoked or stale resource generation''
       else and_then (any_quarantined g (reservations l)) (\<lambda>q.
         if q then Err ''expired, revoked or stale resource generation'' else Ok l))"

fun check_capacity :: "ledger \<Rightarrow> reservation list \<Rightarrow> unit result" where
  "check_capacity g [] = Ok ()"
| "check_capacity g (r # rs) =
     and_then (ok_or_panic (bm_get (domains g) (res_domain r))) (\<lambda>d.
     and_then (charged g (res_domain r)) (\<lambda>c.
     and_then (ok_or (checked_add c (peak r)) ''resource reservation overflow'') (\<lambda>required.
       if quarantined d \<or> pressure d \<or> capacity d - reserve d < required
       then Err ''resource domain unavailable or insufficient capacity''
       else check_capacity g rs)))"

definition new_lease :: "token \<Rightarrow> owner \<Rightarrow> string \<Rightarrow> string \<Rightarrow> reservation list \<Rightarrow> u64 \<Rightarrow> lease" where
  "new_lease t ow req bind rs deadline =
     \<lparr>token = t, owner = ow, request = req, binding = bind, reservations = rs, deadline_ms = deadline,
      state = Active, reason = ''admitted'', output_sha256 = None, output_domain_epochs = None,
      output_fenced = False\<rparr>"

definition admit ::
  "string result \<Rightarrow> ledger \<Rightarrow> owner \<Rightarrow> string \<Rightarrow> string \<Rightarrow> reservation list \<Rightarrow> u64 \<Rightarrow> u64
     \<Rightarrow> (ledger \<times> token) result" where
  "admit random_id g ow req bind rs now deadline =
     and_then (ledger_validate g) (\<lambda>_.
     and_then (reservations_valid g rs) (\<lambda>_.
     if \<not> resource_id req \<or> deadline \<le> now \<or> 30000 < deadline - now
     then Err ''invalid resource request or lease duration''
     else case find (\<lambda>l. owner l = ow \<and> request l = req) (leases g) of
       Some old \<Rightarrow>
         if binding old \<noteq> bind \<or> reservations old \<noteq> rs then Err ''resource idempotency conflict''
         else and_then (assert_active g (token old) ow now) (\<lambda>_. Ok (g, token old))
     | None \<Rightarrow>
         if MAX_RECORDS \<le> length (leases g) then Err ''resource receipt capacity exhausted''
         else and_then (check_capacity g rs) (\<lambda>_.
         and_then (ok_or (checked_add (generation g) 1) ''resource generation space exhausted'') (\<lambda>gen.
         and_then random_id (\<lambda>lid.
         let t = \<lparr>lease_id = lid, token_generation = gen, token_epoch = manager_epoch g\<rparr> in
         if list_ex (\<lambda>l. lease_id (token l) = lid) (leases g)
         then Err ''resource identifier collision''
         else and_then (commit (g\<lparr>generation := gen,
                leases := leases g @ [new_lease t ow req bind rs deadline]\<rparr>)) (\<lambda>next. Ok (next, t)))))))"

fun apply_credits :: "reservation list \<Rightarrow> (string \<times> u64) list \<Rightarrow> ledger \<Rightarrow> ledger result" where
  "apply_credits rs [] g = Ok g"
| "apply_credits rs ((name, credit) # cs) g =
     and_then (ok_or (find (\<lambda>r. res_domain r = name) rs) ''retained credit outside plan'') (\<lambda>plan.
     and_then (ok_or (bm_get (domains g) name) ''unknown retained domain'') (\<lambda>d.
     if retained d < credit \<or> peak plan < credit then Err ''unproven retained allocation credit''
     else apply_credits rs cs (g\<lparr>domains := bm_insert name (d\<lparr>retained := retained d - credit\<rparr>) (domains g)\<rparr>)))"

definition admit_reusing_retained ::
  "string result \<Rightarrow> ledger \<Rightarrow> owner \<Rightarrow> string \<Rightarrow> string \<Rightarrow> reservation list \<Rightarrow> u64 \<Rightarrow> u64
     \<Rightarrow> (string, u64) bmap \<Rightarrow> (ledger \<times> token) result" where
  "admit_reusing_retained random_id g ow req bind rs now deadline credits =
     (if list_ex (\<lambda>l. owner l = ow \<and> request l = req) (leases g)
      then admit random_id g ow req bind rs now deadline
      else and_then (apply_credits rs (bm_entries credits) g) (\<lambda>next.
             admit random_id next ow req bind rs now deadline))"

text \<open>Writing through the index that \<open>position\<close> found: the first lease that matches.\<close>

fun update_first :: "('a \<Rightarrow> bool) \<Rightarrow> ('a \<Rightarrow> 'a) \<Rightarrow> 'a list \<Rightarrow> 'a list" where
  "update_first P f [] = []"
| "update_first P f (x # xs) = (if P x then f x # xs else x # update_first P f xs)"

definition renew :: "ledger \<Rightarrow> token \<Rightarrow> owner \<Rightarrow> u64 \<Rightarrow> u64 \<Rightarrow> ledger result" where
  "renew g t ow now deadline =
     and_then (assert_active g t ow now) (\<lambda>_.
     if deadline \<le> now \<or> 30000 < deadline - now then Err ''invalid resource renewal duration''
     else Ok (g\<lparr>leases := update_first (\<lambda>l. token l = t \<and> owner l = ow)
                           (\<lambda>l. l\<lparr>deadline_ms := deadline\<rparr>) (leases g)\<rparr>))"

definition current_epochs :: "ledger \<Rightarrow> reservation list \<Rightarrow> (string, output_epoch) bmap result" where
  "current_epochs g rs =
     (if list_all (\<lambda>r. bm_contains (domains g) (res_domain r)) rs
      then Ok (bm_of_list (map (\<lambda>r. (res_domain r,
             OutputEpoch (case bm_get (domains g) (res_domain r) of None \<Rightarrow> 0 | Some d \<Rightarrow> domain_epoch d))) rs))
      else Inl Panic)"

definition complete_output :: "ledger \<Rightarrow> token \<Rightarrow> owner \<Rightarrow> u64 \<Rightarrow> string \<Rightarrow> ledger result" where
  "complete_output g t ow now digest =
     and_then (ledger_validate g) (\<lambda>_.
     and_then (assert_active g t ow now) (\<lambda>l.
     if \<not> hex_string 64 digest then Err ''invalid computation output digest''
     else and_then (current_epochs g (reservations l)) (\<lambda>epochs.
       case output_sha256 l of
         Some previous \<Rightarrow>
           if previous \<noteq> digest \<or> output_domain_epochs l \<noteq> Some epochs
           then Err ''computation output replay or domain provenance differs; recompute in a fresh generation''
           else Ok g
       | None \<Rightarrow>
           Ok (g\<lparr>leases := update_first (\<lambda>l. token l = t \<and> owner l = ow)
             (\<lambda>l. l\<lparr>output_sha256 := Some digest, output_domain_epochs := Some epochs\<rparr>) (leases g)\<rparr>))))"

definition revoke_lease :: "string \<Rightarrow> lease \<Rightarrow> lease" where
  "revoke_lease why l =
     (let l' = drain_lease why l
      in if why \<noteq> ''owner-lost'' \<and> output_sha256 l' \<noteq> None then l'\<lparr>output_fenced := True\<rparr> else l')"

definition revoke :: "ledger \<Rightarrow> token \<Rightarrow> string \<Rightarrow> ledger result" where
  "revoke g t why =
     (if \<not> resource_id why then Err ''invalid resource revocation reason''
      else if \<not> list_ex (\<lambda>l. token l = t) (leases g) then Err ''unknown resource lease''
      else Ok (g\<lparr>leases := update_first (\<lambda>l. token l = t) (revoke_lease why) (leases g)\<rparr>))"

definition expire_lease :: "u64 \<Rightarrow> lease \<Rightarrow> lease" where
  "expire_lease now l =
     (if state l = Active \<and> deadline_ms l \<le> now
      then l\<lparr>state := Draining, reason := ''expired'', output_fenced := (output_sha256 l \<noteq> None)\<rparr> else l)"

definition expire :: "ledger \<Rightarrow> u64 \<Rightarrow> ledger" where
  "expire g now = g\<lparr>leases := map (expire_lease now) (leases g)\<rparr>"

definition observe :: "ledger \<Rightarrow> string \<Rightarrow> u64 \<Rightarrow> u64 \<Rightarrow> ledger result" where
  "observe g name used ret =
     and_then (charged g name) (\<lambda>c.
     and_then (ok_or (bm_get (domains g) name) ''unknown resource domain'') (\<lambda>d.
     and_then (ok_or (checked_sub c (retained d)) ''resource retained accounting underflow'') (\<lambda>v.
     and_then (ok_or (checked_add v ret) ''resource retained accounting overflow'') (\<lambda>accounted.
     and_then (ok_or (checked_add (max used accounted) (reserve d)) ''resource observation overflow'') (\<lambda>load.
     Ok (g\<lparr>domains := bm_insert name (d\<lparr>observed := used, retained := ret,
           pressure := (if pressure_enter d \<le> load then True
                        else if load \<le> pressure_exit d then False else pressure d)\<rparr>) (domains g)\<rparr>))))))"

definition quarantine_lease :: "string \<Rightarrow> string \<Rightarrow> lease \<Rightarrow> lease" where
  "quarantine_lease name why l =
     (if list_ex (\<lambda>r. res_domain r = name) (reservations l)
      then (drain_lease why l)\<lparr>output_fenced := (output_sha256 l \<noteq> None)\<rparr> else l)"

definition quarantine :: "ledger \<Rightarrow> string \<Rightarrow> string \<Rightarrow> ledger result" where
  "quarantine g name why =
     (if \<not> resource_id why then Err ''invalid resource quarantine reason''
      else and_then (ok_or (bm_get (domains g) name) ''unknown resource domain'') (\<lambda>d.
      and_then (if quarantined d then Ok d
                else and_then (ok_or (checked_add (domain_epoch d) 1) ''resource domain epoch exhausted'')
                       (\<lambda>e. Ok (d\<lparr>domain_epoch := e, quarantined := True\<rparr>))) (\<lambda>d'.
      commit (g\<lparr>domains := bm_insert name d' (domains g),
                leases := map (quarantine_lease name why) (leases g)\<rparr>))))"

fun set_retained :: "(string \<times> u64) list \<Rightarrow> (string, domain) bmap \<Rightarrow> (string, domain) bmap result" where
  "set_retained [] ds = Ok ds"
| "set_retained ((name, bytes) # rest) ds =
     and_then (ok_or (bm_get ds name) ''unknown drained domain'') (\<lambda>d.
       set_retained rest (bm_insert name (d\<lparr>retained := bytes\<rparr>) ds))"

definition finish_draining :: "ledger \<Rightarrow> token \<Rightarrow> (string, u64) bmap \<Rightarrow> ledger result" where
  "finish_draining g t ret =
     and_then (ok_or (find (\<lambda>l. token l = t) (leases g)) ''unknown drained lease'') (\<lambda>l.
     if state l \<noteq> Draining then Err ''lease is not draining''
     else if bm_keys ret \<noteq> map res_domain (reservations l)
     then Err ''incomplete resource drainage observation''
     else and_then (set_retained (bm_entries ret) (domains g)) (\<lambda>ds.
       commit (g\<lparr>domains := ds,
         leases := update_first (\<lambda>l. token l = t)
           (\<lambda>l. l\<lparr>state := Released, reason := ''fenced-and-observed''\<rparr>) (leases g)\<rparr>)))"

definition authority_view :: "ledger \<Rightarrow> ledger" where
  "authority_view g = g\<lparr>domains := bm_map (\<lambda>_ d. d\<lparr>observed := 0\<rparr>) (domains g)\<rparr>"

definition review :: "(ledger \<Rightarrow> string) \<Rightarrow> ledger \<Rightarrow> string" where
  "review digest g = digest (authority_view g)"

fun replace_domains ::
  "(string \<times> domain) list \<Rightarrow> (string, domain) bmap \<Rightarrow> (string, domain) bmap result" where
  "replace_domains [] ds = Ok ds"
| "replace_domains ((name, live) # rest) ds =
     and_then (domain_validate live) (\<lambda>_.
     and_then (ok_or_panic (bm_get ds name)) (\<lambda>old.
     and_then (ok_or (checked_add (domain_epoch old) 1) ''resource epoch exhausted'') (\<lambda>e.
     replace_domains rest (bm_insert name (live\<lparr>domain_epoch := e, retained := retained old\<rparr>) ds))))"

definition clear_quarantine ::
  "(ledger \<Rightarrow> string) \<Rightarrow> ledger \<Rightarrow> string \<Rightarrow> (string, domain) bmap \<Rightarrow> ledger result" where
  "clear_quarantine digest g rvw inventory =
     (if review digest g \<noteq> rvw \<or> list_ex (\<lambda>l. state l \<noteq> Released) (leases g)
         \<or> bm_keys (domains g) \<noteq> bm_keys inventory
      then Err ''stale resource review or incomplete drainage''
      else and_then (replace_domains (bm_entries inventory) (domains g)) (\<lambda>ds.
             commit (fence_outputs (g\<lparr>domains := ds\<rparr>))))"

fun migrate_domains ::
  "(string, domain) bmap \<Rightarrow> (string \<times> domain) list \<Rightarrow> (string, domain) bmap \<Rightarrow> (string, domain) bmap result"
where
  "migrate_domains olds [] ds = Ok ds"
| "migrate_domains olds ((name, d) # rest) ds =
     (case bm_get olds name of
        None \<Rightarrow> migrate_domains olds rest ds
      | Some old \<Rightarrow>
          and_then (ok_or (checked_add (domain_epoch old) 1) ''migration epoch exhausted'') (\<lambda>e.
          migrate_domains olds rest (bm_insert name (d\<lparr>domain_epoch := e, retained := retained old,
            quarantined := quarantined old, pressure := pressure old, observed := observed old\<rparr>) ds)))"

definition migrate_inventory ::
  "(ledger \<Rightarrow> string) \<Rightarrow> ledger \<Rightarrow> string \<Rightarrow> string \<Rightarrow> (string, domain) bmap \<Rightarrow> ledger result" where
  "migrate_inventory digest g rvw epoch inventory =
     and_then (ledger_validate g) (\<lambda>_.
     if review digest g \<noteq> rvw \<or> list_ex (\<lambda>l. state l \<noteq> Released) (leases g) \<or> bm_is_empty inventory
        \<or> 16 < bm_size inventory \<or> \<not> resource_id epoch \<or> epoch = manager_epoch g
        \<or> list_ex (\<lambda>name. \<not> bm_contains inventory name) (bm_keys (domains g))
     then Err ''stale migration review, live allocation or discarded domain''
     else and_then (migrate_domains (domains g) (bm_entries inventory) inventory) (\<lambda>ds.
       commit (fence_outputs (g\<lparr>domains := ds, manager_epoch := epoch\<rparr>))))"

section \<open>What a valid ledger is\<close>

text \<open>The bytes charged to a domain, as a natural number: no width, no order of summation.\<close>

definition lease_charge :: "string \<Rightarrow> lease \<Rightarrow> nat" where
  "lease_charge name l =
     (if state l = Released then 0
      else \<Sum>r \<leftarrow> filter (\<lambda>r. res_domain r = name) (reservations l). unat (peak r))"

definition retained_of :: "ledger \<Rightarrow> string \<Rightarrow> nat" where
  "retained_of g name = (case bm_get (domains g) name of None \<Rightarrow> 0 | Some d \<Rightarrow> unat (retained d))"

definition committed :: "ledger \<Rightarrow> string \<Rightarrow> nat" where
  "committed g name = retained_of g name + (\<Sum>l \<leftarrow> leases g. lease_charge name l)"

definition epochs_ok :: "ledger \<Rightarrow> lease \<Rightarrow> bool" where
  "epochs_ok g l \<longleftrightarrow> (\<forall>epochs. output_domain_epochs l = Some epochs \<longrightarrow> \<not> epochs_invalid g l epochs)"

definition lease_ok :: "ledger \<Rightarrow> lease \<Rightarrow> bool" where
  "lease_ok g l \<longleftrightarrow>
     resource_id (lease_id (token l)) \<and> resource_id (token_epoch (token l))
     \<and> token_generation (token l) \<le> generation g
     \<and> resource_id (request l) \<and> resource_id (boot (owner l)) \<and> pid (owner l) \<noteq> 0
     \<and> start_ticks (owner l) \<noteq> 0 \<and> cgroup_inode (owner l) \<noteq> 0 \<and> deadline_ms l \<noteq> 0
     \<and> length (binding l) = 64 \<and> list_all is_ascii_hexdigit (binding l) \<and> resource_id (reason l)
     \<and> (output_fenced l \<longrightarrow> output_sha256 l \<noteq> None \<and> state l \<noteq> Active)
     \<and> (\<forall>digest. output_sha256 l = Some digest \<longrightarrow> hex_string 64 digest)
     \<and> reservations_valid g (reservations l) = Ok () \<and> epochs_ok g l
     \<and> (state l = Active \<longrightarrow> token_epoch (token l) = manager_epoch g)"

definition domain_ok :: "string \<Rightarrow> domain \<Rightarrow> bool" where
  "domain_ok name d \<longleftrightarrow> resource_id name \<and> domain_validate d = Ok ()"

definition archive_ok :: "ledger \<Rightarrow> archive \<Rightarrow> bool" where
  "archive_ok g a \<longleftrightarrow> through_generation a \<le> generation g \<and> hex_string 64 (archive_sha256 a)"

definition ledger_generations :: "ledger \<Rightarrow> u64 list" where
  "ledger_generations g = map through_generation (archives g) @ map (\<lambda>l. token_generation (token l)) (leases g)"

definition within_capacity :: "ledger \<Rightarrow> bool" where
  "within_capacity g \<longleftrightarrow> (\<forall>name d. bm_get (domains g) name = Some d \<longrightarrow>
     committed g name < 2 ^ 64 \<and> (quarantined d \<or> committed g name \<le> unat (capacity d - reserve d)))"

definition initialized_ok :: "ledger \<Rightarrow> bool" where
  "initialized_ok g \<longleftrightarrow>
     resource_id (manager_epoch g) \<and> bm_keys (domains g) \<noteq> []
     \<and> (\<forall>name d. bm_get (domains g) name = Some d \<longrightarrow> domain_ok name d)
     \<and> (\<forall>a \<in> set (archives g). archive_ok g a)
     \<and> sorted_wrt (<) (0 # ledger_generations g)
     \<and> (\<forall>l \<in> set (leases g). lease_ok g l)
     \<and> distinct (map (\<lambda>l. lease_id (token l)) (leases g))
     \<and> distinct (map (\<lambda>l. (owner l, request l)) (leases g))
     \<and> within_capacity g"

definition uninitialized_ok :: "ledger \<Rightarrow> bool" where
  "uninitialized_ok g \<longleftrightarrow> generation g = 0 \<and> bm_keys (domains g) = [] \<and> leases g = [] \<and> archives g = []"

definition ledger_wf :: "ledger \<Rightarrow> bool" where
  "ledger_wf g \<longleftrightarrow> schema_version g = 1 \<and> length (leases g) \<le> MAX_RECORDS
     \<and> length (bm_keys (domains g)) \<le> 16 \<and> length (archives g) \<le> MAX_ARCHIVES
     \<and> (if manager_epoch g = [] then uninitialized_ok g else initialized_ok g)"

lemma clone_key_eq [simp]: "clone_key a = clone_key b \<longleftrightarrow> a = b"
  by (cases a; cases b) (auto simp: clone_key_def)

lemma unat_add_small: "unat a + unat b < 2 ^ 64 \<Longrightarrow> unat (a + b) = unat a + unat b" for a b :: u64
  by (simp add: unat_word_ariths)

lemma charge_reservations_Ok:
  "charge_reservations name acc rs = Ok c \<longleftrightarrow>
     unat acc + (\<Sum>r \<leftarrow> rs. unat (peak r)) < 2 ^ 64 \<and> unat c = unat acc + (\<Sum>r \<leftarrow> rs. unat (peak r))"
proof (induction rs arbitrary: acc)
  case Nil
  have "unat acc < 2 ^ 64" using unsigned_less [of acc, where 'a = nat] by simp
  then show ?case by (auto simp: word_unat_eq_iff)
next
  case (Cons r rs)
  have "charge_reservations name acc (r # rs) = Ok c \<longleftrightarrow>
      unat acc + unat (peak r) < 2 ^ 64 \<and> charge_reservations name (acc + peak r) rs = Ok c"
    by (auto simp: result_simps checked_add_Some)
  then show ?case
    using Cons.IH [of "acc + peak r"] unat_add_small [of acc "peak r"] by (simp only: list.map sum_list.Cons) linarith
qed

lemma charge_reservations_append:
  "charge_reservations name acc (xs @ ys)
     = and_then (charge_reservations name acc xs) (\<lambda>acc. charge_reservations name acc ys)"
proof (induction xs arbitrary: acc)
  case (Cons x xs)
  then show ?case by (cases "checked_add acc (peak x)") simp_all
qed simp

lemma charge_leases_concat:
  "charge_leases name acc ls = charge_reservations name acc
     (concat (map (\<lambda>l. filter (\<lambda>r. res_domain r = name) (reservations l)) ls))"
  by (induction ls arbitrary: acc) (simp_all add: charge_reservations_append)

lemma sum_unreleased:
  "(\<Sum>r \<leftarrow> concat (map (\<lambda>l. filter (\<lambda>r. res_domain r = name) (reservations l))
            (filter (\<lambda>l. state l \<noteq> Released) ls)). unat (peak r))
   = (\<Sum>l \<leftarrow> ls. lease_charge name l)"
  by (induction ls) (auto simp: lease_charge_def)

lemma charged_Ok:
  "charged g name = Ok c \<longleftrightarrow>
     bm_get (domains g) name \<noteq> None \<and> committed g name < 2 ^ 64 \<and> unat c = committed g name"
  by (auto simp: charged_def result_simps charge_leases_concat charge_reservations_Ok committed_def
      retained_of_def sum_unreleased split: option.splits)

lemma charge_reservations_Inl:
  "charge_reservations name acc rs = Inl e \<Longrightarrow> e = Error ''resource byte accounting overflow''"
  by (induction rs arbitrary: acc) (auto simp: and_then_Inl_iff ok_or_Inl_iff)

lemma charged_cong:
  assumes "domains g' = domains g" "committed g' name = committed g name"
  shows "charged g' name = charged g name"
proof -
  have ok: "charged g' name = Ok c \<longleftrightarrow> charged g name = Ok c" for c
    using assms by (simp add: charged_Ok)
  have err: "charged h name = Inl e \<Longrightarrow> e = (case bm_get (domains h) name of None \<Rightarrow> Error ''unknown domain''
      | Some _ \<Rightarrow> Error ''resource byte accounting overflow'')" for h e
    by (auto simp: charged_def error_simps charge_leases_concat dest: charge_reservations_Inl split: option.splits)
  show ?thesis
  proof (cases "charged g' name")
    case (Inl e)
    with ok obtain e' where e': "charged g name = Inl e'" by (cases "charged g name") auto
    then show ?thesis using Inl err [OF Inl] err [OF e'] assms(1) by simp
  qed (use ok in metis)
qed

lemma sorted_wrt_last_append:
  "sorted_wrt (<) (x # xs @ ys) \<longleftrightarrow> sorted_wrt (<) (x # xs) \<and> sorted_wrt (<) (last (x # xs) # ys)"
  for x :: "'a::linorder"
proof (induction xs arbitrary: x)
  case (Cons y xs)
  have "sorted_wrt (<) (x # (y # xs) @ ys) \<longleftrightarrow> x < y \<and> sorted_wrt (<) (y # xs @ ys)"
    by (auto intro: less_trans [of x y])
  also have "\<dots> \<longleftrightarrow> x < y \<and> sorted_wrt (<) (y # xs) \<and> sorted_wrt (<) (last (y # xs) # ys)"
    by (simp only: Cons.IH)
  finally show ?case by auto
qed simp

lemma check_archives_Ok:
  "check_archives g previous as = Ok p \<longleftrightarrow> (\<forall>a \<in> set as. archive_ok g a)
     \<and> sorted_wrt (<) (previous # map through_generation as)
     \<and> p = last (previous # map through_generation as)"
proof (induction as arbitrary: previous)
  case (Cons a as)
  have "check_archives g previous (a # as) = Ok p \<longleftrightarrow>
      previous < through_generation a \<and> archive_ok g a \<and> check_archives g (through_generation a) as = Ok p"
    by (auto simp: archive_ok_def not_le)
  also have "\<dots> \<longleftrightarrow> (\<forall>a \<in> set (a # as). archive_ok g a)
      \<and> (previous < through_generation a \<and> sorted_wrt (<) (map through_generation (a # as)))
      \<and> p = last (previous # map through_generation (a # as))"
    by (auto simp: Cons.IH)
  also have "(previous < through_generation a \<and> sorted_wrt (<) (map through_generation (a # as)))
      \<longleftrightarrow> sorted_wrt (<) (previous # map through_generation (a # as))"
    by auto
  finally show ?case .
qed auto

lemma lease_fields_invalid_iff:
  "lease_fields_invalid g previous l \<or> reservations_valid g (reservations l) \<noteq> Ok () \<or> \<not> epochs_ok g l
     \<or> (state l = Active \<and> token_epoch (token l) \<noteq> manager_epoch g)
   \<longleftrightarrow> \<not> lease_ok g l \<or> token_generation (token l) \<le> previous"
  unfolding lease_fields_invalid_def lease_ok_def by (auto simp: not_le split: option.splits)

lemma check_leases_Cons:
  "check_leases g ids reqs previous (l # ls) = Ok () \<longleftrightarrow>
     lease_ok g l \<and> previous < token_generation (token l) \<and> lease_id (token l) \<notin> ids
     \<and> (clone_key (owner l), request l) \<notin> reqs
     \<and> check_leases g (insert (lease_id (token l)) ids) (insert (clone_key (owner l), request l) reqs)
         (token_generation (token l)) ls = Ok ()"
  using lease_fields_invalid_iff [of g previous l]
  by (cases "output_domain_epochs l") (auto simp: result_simps epochs_ok_def not_le)

lemma check_leases_Ok:
  "check_leases g ids reqs previous ls = Ok () \<longleftrightarrow>
     (\<forall>l \<in> set ls. lease_ok g l) \<and> sorted_wrt (<) (previous # map (\<lambda>l. token_generation (token l)) ls)
     \<and> distinct (map (\<lambda>l. lease_id (token l)) ls) \<and> distinct (map (\<lambda>l. (owner l, request l)) ls)
     \<and> (\<forall>l \<in> set ls. lease_id (token l) \<notin> ids \<and> (clone_key (owner l), request l) \<notin> reqs)"
proof (induction ls arbitrary: ids reqs previous)
  case (Cons l ls)
  show ?case unfolding check_leases_Cons Cons.IH by (auto simp: image_iff)
qed simp

lemma overcommit_checks_Ok:
  "for_all (overcommit_check g) (bm_entries (domains g)) = Ok () \<longleftrightarrow> within_capacity g"
proof -
  have "overcommit_check g (name, d) = Ok () \<longleftrightarrow>
      committed g name < 2 ^ 64 \<and> (quarantined d \<or> committed g name \<le> unat (capacity d - reserve d))"
    if "bm_get (domains g) name = Some d" for name d
  proof -
    have "unat (of_nat (committed g name) :: u64) = committed g name" if "committed g name < 2 ^ 64"
      using that by (simp add: unat_of_nat take_bit_nat_eq_self)
    then show ?thesis
      using that
      by (auto simp: overcommit_check_def result_simps charged_Ok word_less_nat_alt not_less
          intro!: exI [of _ "of_nat (committed g name)"])
  qed
  then show ?thesis
    by (auto simp: for_all_Inr_iff within_capacity_def bm_get_Some_iff)
qed

lemma ledger_validate_iff: "ledger_validate g = Ok () \<longleftrightarrow> ledger_wf g"
proof (cases "manager_epoch g = []")
  case True
  then show ?thesis
    by (auto simp: ledger_validate_def ledger_wf_def uninitialized_ok_def bm_size_keys
        bm_is_empty_iff)
next
  case False
  have doms: "for_all domain_entry_validate (bm_entries (domains g)) = Ok () \<longleftrightarrow>
      (\<forall>name d. bm_get (domains g) name = Some d \<longrightarrow> domain_ok name d)"
    by (auto simp: for_all_Inr_iff domain_entry_validate_def domain_ok_def bm_get_Some_iff)
  have gens: "sorted_wrt (<) (0 # ledger_generations g) \<longleftrightarrow>
      sorted_wrt (<) (0 # map through_generation (archives g))
      \<and> sorted_wrt (<) (last (0 # map through_generation (archives g)) # map (\<lambda>l. token_generation (token l)) (leases g))"
    unfolding ledger_generations_def by (rule sorted_wrt_last_append)
  show ?thesis
    using False
    by (simp add: ledger_validate_def ledger_wf_def initialized_ok_def doms gens bm_size_keys
        bm_is_empty_iff and_then_Inr_iff check_archives_Ok check_leases_Ok overcommit_checks_Ok
        del: sorted_wrt.simps last.simps) auto
qed

section \<open>Updating leases\<close>

lemma set_update_first: "set (update_first P f xs) \<subseteq> set xs \<union> f ` {x \<in> set xs. P x}"
  by (induction xs) auto

lemma list_all2_update_first:
  "(\<And>x. x \<in> set xs \<Longrightarrow> R x x) \<Longrightarrow> (\<And>x. x \<in> set xs \<Longrightarrow> P x \<Longrightarrow> R x (f x)) \<Longrightarrow>
     list_all2 R xs (update_first P f xs)"
  by (induction xs) (auto intro: list.rel_refl_strong)

lemma list_all2_map_in: "(\<And>x. x \<in> set xs \<Longrightarrow> R x (f x)) \<Longrightarrow> list_all2 R xs (map f xs)"
  by (induction xs) auto

fun state_rank :: "lease_state \<Rightarrow> nat" where
  "state_rank Active = 0"
| "state_rank Draining = 1"
| "state_rank Released = 2"

text \<open>
  How a lease may evolve: its identity and plan are fixed, its state only moves forward, a
  receipt is immutable and a fence permanent.
\<close>

definition lease_le :: "lease \<Rightarrow> lease \<Rightarrow> bool" where
  "lease_le l l' \<longleftrightarrow> token l' = token l \<and> owner l' = owner l \<and> request l' = request l
     \<and> binding l' = binding l \<and> reservations l' = reservations l
     \<and> state_rank (state l) \<le> state_rank (state l') \<and> (output_fenced l \<longrightarrow> output_fenced l')
     \<and> (\<forall>d. output_sha256 l = Some d \<longrightarrow> output_sha256 l' = Some d)
     \<and> (\<forall>e. output_domain_epochs l = Some e \<longrightarrow> output_domain_epochs l' = Some e)"

lemma lease_le_refl [simp]: "lease_le l l"
  by (simp add: lease_le_def)

lemma lease_le_trans: "lease_le a b \<Longrightarrow> lease_le b c \<Longrightarrow> lease_le a c"
  by (auto simp: lease_le_def)

lemma lease_ok_fenced: "lease_ok g l \<Longrightarrow> output_fenced l \<Longrightarrow> output_sha256 l \<noteq> None \<and> state l \<noteq> Active"
  by (simp add: lease_ok_def)

lemma drain_lease_le: "lease_le l (drain_lease why l)"
  by (cases "state l") (auto simp: lease_le_def drain_lease_def)

lemma fence_lease_le: "lease_le l (fence_lease l)"
  by (auto simp: lease_le_def fence_lease_def)

lemma revoke_lease_le: "lease_le l (revoke_lease why l)"
  using drain_lease_le [of l why] by (auto simp: lease_le_def revoke_lease_def Let_def)

lemma expire_lease_le: "lease_ok g l \<Longrightarrow> lease_le l (expire_lease now l)"
  using lease_ok_fenced [of g l] by (auto simp: lease_le_def expire_lease_def)

lemma quarantine_lease_le: "lease_ok g l \<Longrightarrow> lease_le l (quarantine_lease name why l)"
  using drain_lease_le [of l why] lease_ok_fenced [of g l]
  by (auto simp: lease_le_def quarantine_lease_def)

text \<open>Draining and fencing keep a lease well formed and its charge.\<close>

definition draining_step :: "lease \<Rightarrow> lease \<Rightarrow> bool" where
  "draining_step l l' \<longleftrightarrow> lease_le l l' \<and> (state l = Released \<longleftrightarrow> state l' = Released)"

lemma lease_ok_leases [simp]: "lease_ok (g\<lparr>leases := ls\<rparr>) l = lease_ok g l"
proof -
  have "check_reservations (g\<lparr>leases := ls\<rparr>) prev rs = check_reservations g prev rs" for prev rs
    by (induction rs arbitrary: prev) auto
  then show ?thesis
    by (simp add: lease_ok_def reservations_valid_def epochs_ok_def epochs_invalid_def)
qed

lemma lease_charge_step: "draining_step l l' \<Longrightarrow> lease_charge name l' = lease_charge name l"
  by (auto simp: draining_step_def lease_le_def lease_charge_def)

lemma charges_step:
  "list_all2 draining_step ls ls' \<Longrightarrow> (\<Sum>l \<leftarrow> ls'. lease_charge name l) = (\<Sum>l \<leftarrow> ls. lease_charge name l)"
  by (induction rule: list_all2_induct) (auto simp: lease_charge_step)

lemma committed_step:
  "list_all2 draining_step (leases g) ls' \<Longrightarrow> committed (g\<lparr>leases := ls'\<rparr>) name = committed g name"
  by (simp add: committed_def retained_of_def charges_step)

lemma identity_step:
  assumes "list_all2 draining_step ls ls'"
  shows "map token ls' = map token ls" "map (\<lambda>l. (owner l, request l)) ls' = map (\<lambda>l. (owner l, request l)) ls"
  using assms by (induction rule: list_all2_induct) (auto simp: draining_step_def lease_le_def)

lemma ledger_wf_step:
  assumes wf: "ledger_wf g" and step: "list_all2 draining_step (leases g) ls'"
    and ok: "\<And>l. l \<in> set ls' \<Longrightarrow> lease_ok g l"
  shows "ledger_wf (g\<lparr>leases := ls'\<rparr>)"
proof -
  note len = list_all2_lengthD [OF step]
  have tok: "map (\<lambda>l. f (token l)) ls' = map (\<lambda>l. f (token l)) (leases g)" for f :: "token \<Rightarrow> 'x"
    using arg_cong [OF identity_step(1) [OF step], of "map f"] by (simp add: comp_def)
  have cap: "within_capacity (g\<lparr>leases := ls'\<rparr>) = within_capacity g"
    by (simp add: within_capacity_def committed_step [OF step])
  have gens: "ledger_generations (g\<lparr>leases := ls'\<rparr>) = ledger_generations g"
    by (simp add: ledger_generations_def tok [of token_generation])
  have arch: "archive_ok (g\<lparr>leases := ls'\<rparr>) = archive_ok g"
    by (simp add: archive_ok_def fun_eq_iff)
  have empty: "ls' = [] \<longleftrightarrow> leases g = []"
    using len by auto
  show ?thesis
    using wf len ok
    by (cases "manager_epoch g = []")
      (simp_all add: ledger_wf_def uninitialized_ok_def initialized_ok_def gens cap arch empty
        identity_step(2) [OF step] tok [of lease_id] del: sorted_wrt.simps)
qed

lemma epochs_ok_weaken:
  assumes ok: "epochs_ok g l" and same: "output_domain_epochs l' = output_domain_epochs l"
    "output_sha256 l' = output_sha256 l" "reservations l' = reservations l"
    and act: "state l' = Active \<Longrightarrow> state l = Active"
  shows "epochs_ok g l'"
proof -
  have "epochs_invalid g l' e \<Longrightarrow> epochs_invalid g l e" for e
    using same act unfolding epochs_invalid_def list_ex_iff
    by (force split: option.splits)
  then show ?thesis using ok same by (auto simp: epochs_ok_def)
qed

lemma lease_ok_drain: "lease_ok g l \<Longrightarrow> resource_id why \<Longrightarrow> lease_ok g (drain_lease why l)"
  by (auto simp: lease_ok_def drain_lease_def intro: epochs_ok_weaken)

lemma lease_ok_fence: "lease_ok g l \<Longrightarrow> state l \<noteq> Active \<Longrightarrow> output_sha256 l \<noteq> None \<Longrightarrow>
    lease_ok g (l\<lparr>output_fenced := True\<rparr>)"
  by (auto simp: lease_ok_def intro: epochs_ok_weaken)

lemma drain_not_active: "state (drain_lease why l) \<noteq> Active"
  by (simp add: drain_lease_def)

lemma lease_ok_revoke: "lease_ok g l \<Longrightarrow> resource_id why \<Longrightarrow> lease_ok g (revoke_lease why l)"
  by (auto simp: revoke_lease_def Let_def lease_ok_drain drain_not_active intro!: lease_ok_fence)

lemma revoke_step: "draining_step l (revoke_lease why l)"
  unfolding draining_step_def using revoke_lease_le [of l why]
  by (auto simp: revoke_lease_def drain_lease_def Let_def split: if_splits)

lemma expired_id: "resource_id ''expired''"
  by (simp add: resource_id_def ascii_defs)

lemma lease_ok_expire: "lease_ok g l \<Longrightarrow> lease_ok g (expire_lease now l)"
  using expired_id
  by (auto simp: lease_ok_def expire_lease_def intro: epochs_ok_weaken)

lemma expire_step: "lease_ok g l \<Longrightarrow> draining_step l (expire_lease now l)"
  unfolding draining_step_def using expire_lease_le [of g l now]
  by (auto simp: expire_lease_def split: if_splits)

lemma ledger_wf_lease_ok: "ledger_wf g \<Longrightarrow> l \<in> set (leases g) \<Longrightarrow> lease_ok g l"
  by (auto simp: ledger_wf_def uninitialized_ok_def initialized_ok_def split: if_splits)

lemma ledger_wf_map:
  assumes "ledger_wf g" "\<And>l. l \<in> set (leases g) \<Longrightarrow> draining_step l (f l) \<and> lease_ok g (f l)"
  shows "ledger_wf (g\<lparr>leases := map f (leases g)\<rparr>)"
  using assms by (intro ledger_wf_step list_all2_map_in) auto

lemma ledger_wf_update:
  assumes "ledger_wf g"
    and "\<And>l. l \<in> set (leases g) \<Longrightarrow> P l \<Longrightarrow> draining_step l (f l) \<and> lease_ok g (f l)"
  shows "ledger_wf (g\<lparr>leases := update_first P f (leases g)\<rparr>)"
proof (rule ledger_wf_step)
  show "list_all2 draining_step (leases g) (update_first P f (leases g))"
    using assms by (intro list_all2_update_first) (auto simp: draining_step_def)
  show "lease_ok g l" if "l \<in> set (update_first P f (leases g))" for l
    using that set_update_first [of P f "leases g"] assms ledger_wf_lease_ok [OF assms(1)] by blast
qed (fact assms)

lemma ledger_wf_expire: "ledger_wf g \<Longrightarrow> ledger_wf (expire g now)"
  unfolding expire_def by (intro ledger_wf_map) (auto dest: ledger_wf_lease_ok intro: expire_step lease_ok_expire)

lemma revoke_Ok:
  "revoke g t why = Ok g' \<longleftrightarrow> resource_id why \<and> (\<exists>l \<in> set (leases g). token l = t)
     \<and> g' = g\<lparr>leases := update_first (\<lambda>l. token l = t) (revoke_lease why) (leases g)\<rparr>"
  by (auto simp: revoke_def list_ex_iff)

lemma ledger_wf_revoke: "ledger_wf g \<Longrightarrow> revoke g t why = Ok g' \<Longrightarrow> ledger_wf g'"
  unfolding revoke_Ok
  by (auto intro!: ledger_wf_update revoke_step lease_ok_revoke dest: ledger_wf_lease_ok)

lemma assert_active_Ok:
  assumes "assert_active g t ow now = Ok l"
  shows "l \<in> set (leases g)" "token l = t" "owner l = ow" "state l = Active" "now < deadline_ms l"
    "token_epoch t = manager_epoch g"
  using assms
  by (auto simp: assert_active_def find_lease_def result_simps find_Some_iff not_le)

lemma renew_Ok:
  "renew g t ow now deadline = Ok g' \<longleftrightarrow> (\<exists>l. assert_active g t ow now = Ok l)
     \<and> now < deadline \<and> deadline - now \<le> 30000
     \<and> g' = g\<lparr>leases := update_first (\<lambda>l. token l = t \<and> owner l = ow)
                           (\<lambda>l. l\<lparr>deadline_ms := deadline\<rparr>) (leases g)\<rparr>"
  by (auto simp: renew_def result_simps not_le not_less)

lemma lease_ok_deadline: "lease_ok g l \<Longrightarrow> d \<noteq> 0 \<Longrightarrow> lease_ok g (l\<lparr>deadline_ms := d\<rparr>)"
  by (auto simp: lease_ok_def intro: epochs_ok_weaken)

lemma ledger_wf_renew:
  assumes wf: "ledger_wf g" and ok: "renew g t ow now deadline = Ok g'"
  shows "ledger_wf g'"
proof -
  have "deadline \<noteq> 0" using ok by (auto simp: renew_Ok)
  then show ?thesis
    using ok wf unfolding renew_Ok
    by (auto intro!: ledger_wf_update lease_ok_deadline dest: ledger_wf_lease_ok [OF wf]
        simp: draining_step_def lease_le_def)
qed

lemma check_reservations_Ok:
  "check_reservations g prev rs = Ok () \<longleftrightarrow> sorted_wrt (<) (prev # map res_domain rs)
     \<and> (\<forall>r \<in> set rs. peak r \<noteq> 0 \<and> bm_get (domains g) (res_domain r) \<noteq> None)"
proof (induction rs arbitrary: prev)
  case (Cons r rs)
  show ?case unfolding check_reservations.simps if_err_Inr_iff Cons.IH
    by (auto simp: bm_contains_def not_le)
qed simp

lemma reservations_valid_Ok:
  "reservations_valid g rs = Ok () \<longleftrightarrow> rs \<noteq> [] \<and> length rs \<le> 16
     \<and> sorted_wrt (<) ([] # map res_domain rs)
     \<and> (\<forall>r \<in> set rs. peak r \<noteq> 0 \<and> bm_get (domains g) (res_domain r) \<noteq> None)"
  by (auto simp: reservations_valid_def check_reservations_Ok not_less)

lemma lease_ok_reservations:
  assumes "lease_ok g l"
  shows "sorted_wrt (<) (map res_domain (reservations l))"
    and "r \<in> set (reservations l) \<Longrightarrow> bm_get (domains g) (res_domain r) \<noteq> None"
    and "reservations l \<noteq> []"
  using assms by (auto simp: lease_ok_def reservations_valid_Ok)

lemma current_epochs_Ok:
  assumes ok: "current_epochs g rs = Ok e" and sorted: "sorted_wrt (<) (map res_domain rs)"
  shows "bm_entries e = map (\<lambda>r. (res_domain r,
      OutputEpoch (case bm_get (domains g) (res_domain r) of None \<Rightarrow> 0 | Some d \<Rightarrow> domain_epoch d))) rs"
  using ok sorted unfolding current_epochs_def
  by (auto simp: bm_entries_of_list comp_def simp del: bm_of_list.simps split: if_splits)

lemma ledger_wf_domain:
  assumes "ledger_wf g" "bm_get (domains g) name = Some d"
  shows "domain_ok name d"
proof -
  have "bm_keys (domains g) \<noteq> []" using assms(2) bm_keys_iff [of name "domains g"] by auto
  then show ?thesis using assms by (auto simp: ledger_wf_def uninitialized_ok_def initialized_ok_def split: if_splits)
qed

lemma domain_okD: "domain_ok name d \<Longrightarrow> domain_epoch d \<noteq> 0 \<and> reserve d < capacity d"
  by (auto simp: domain_ok_def domain_validate_def split: if_splits)

lemma epochs_ok_current:
  assumes wf: "ledger_wf g" and l: "l \<in> set (leases g)" and e: "current_epochs g (reservations l) = Ok e"
  shows "epochs_ok g (l\<lparr>output_sha256 := Some digest, output_domain_epochs := Some e\<rparr>)"
proof -
  note ok = ledger_wf_lease_ok [OF wf l]
  note entries = current_epochs_Ok [OF e lease_ok_reservations(1) [OF ok]]
  have "\<exists>d. bm_get (domains g) (res_domain r) = Some d \<and> domain_epoch d \<noteq> 0"
    if "r \<in> set (reservations l)" for r
    using lease_ok_reservations(2) [OF ok that] ledger_wf_domain [OF wf] domain_okD by blast
  then show ?thesis
    by (fastforce simp: epochs_ok_def epochs_invalid_def entries bm_keys_def comp_def list_ex_iff)
qed

lemma complete_output_Ok:
  assumes "complete_output g t ow now digest = Ok g'"
  obtains (replay) l e where "assert_active g t ow now = Ok l" "output_sha256 l = Some digest" "g' = g"
      "output_domain_epochs l = Some e" "current_epochs g' (reservations l) = Ok e"
  | (fresh) l e where "assert_active g t ow now = Ok l" "output_sha256 l = None" "hex_string 64 digest"
      "current_epochs g (reservations l) = Ok e"
      "g' = g\<lparr>leases := update_first (\<lambda>l. token l = t \<and> owner l = ow)
             (\<lambda>l. l\<lparr>output_sha256 := Some digest, output_domain_epochs := Some e\<rparr>) (leases g)\<rparr>"
proof -
  obtain l e where l: "assert_active g t ow now = Ok l" and e: "current_epochs g (reservations l) = Ok e"
    and hex: "hex_string 64 digest"
    and rest: "(case output_sha256 l of
         Some previous \<Rightarrow>
           if previous \<noteq> digest \<or> output_domain_epochs l \<noteq> Some e
           then Err ''computation output replay or domain provenance differs; recompute in a fresh generation''
           else Ok g
       | None \<Rightarrow>
           Ok (g\<lparr>leases := update_first (\<lambda>l. token l = t \<and> owner l = ow)
             (\<lambda>l. l\<lparr>output_sha256 := Some digest, output_domain_epochs := Some e\<rparr>) (leases g)\<rparr>)) = Ok g'"
    using assms unfolding complete_output_def and_then_Inr_iff if_err_Inr_iff by blast
  show thesis
  proof (cases "output_sha256 l")
    case None
    show thesis by (rule fresh [OF l None hex e]) (use rest None in simp)
  next
    case (Some previous)
    show thesis by (rule replay [OF l]) (use rest Some e in \<open>auto split: if_splits\<close>)
  qed
qed

lemma ledger_wf_lease_unique:
  "ledger_wf g \<Longrightarrow> x \<in> set (leases g) \<Longrightarrow> y \<in> set (leases g) \<Longrightarrow> lease_id (token x) = lease_id (token y) \<Longrightarrow> x = y"
  by (auto simp: ledger_wf_def uninitialized_ok_def initialized_ok_def distinct_map inj_on_def split: if_splits)

lemma ledger_wf_complete_output:
  assumes wf: "ledger_wf g" and ok: "complete_output g t ow now digest = Ok g'"
  shows "ledger_wf g'"
  using ok
proof (cases rule: complete_output_Ok)
  case (fresh l e)
  note act = assert_active_Ok [OF fresh(1)]
  note lok = ledger_wf_lease_ok [OF wf act(1)]
  let ?f = "\<lambda>l. l\<lparr>output_sha256 := Some digest, output_domain_epochs := Some e\<rparr>"
  have "y = l" if "y \<in> set (leases g)" "token y = t" for y
    using ledger_wf_lease_unique [OF wf that(1) act(1)] that act(2) by simp
  moreover have "lease_ok g (?f l)"
    using lok epochs_ok_current [OF wf act(1) fresh(4), of digest] fresh(3) act(4)
    by (auto simp: lease_ok_def)
  moreover have "draining_step l (?f l)"
    using fresh(2) lok act(4) by (auto simp: draining_step_def lease_le_def lease_ok_def epochs_ok_def epochs_invalid_def)
  ultimately show ?thesis unfolding fresh(5) by (intro ledger_wf_update wf) blast
qed (simp add: wf)

end
