(* ===== verification/Resource_Ledger.thy ===== *)
theory Resource_Ledger
  imports Resources
begin

text \<open>
  Runs of the resource ledger: the events of the broker, the order every step climbs, admission as
  an exact condition, and the guarantees of single operations. The ledger is an instance of
  \<open>monotone_system\<close>, which gives the statements about whole runs.
\<close>

section \<open>Runs of the ledger\<close>

text \<open>
  The cut of \<open>Store::archive\<close>: its guard, and the closure that replaces the released leases by a
  reference to the archived ledger.
\<close>

definition archive_guard :: "(ledger \<Rightarrow> string) \<Rightarrow> ledger \<Rightarrow> string \<Rightarrow> string \<Rightarrow> unit result" where
  "archive_guard digest g rvw epoch =
     (if review digest g \<noteq> rvw \<or> leases g = [] \<or> list_ex (\<lambda>l. state l \<noteq> Released) (leases g)
         \<or> MAX_ARCHIVES \<le> length (archives g) \<or> \<not> resource_id epoch \<or> epoch = manager_epoch g
      then Err ''stale archive review, incomplete drainage or exhausted retention'' else Ok ())"

definition archive_cut :: "(ledger \<Rightarrow> string) \<Rightarrow> string \<Rightarrow> archive \<Rightarrow> string \<Rightarrow> ledger \<Rightarrow> ledger result" where
  "archive_cut digest rvw reference epoch g =
     (if review digest g \<noteq> rvw then Err ''resource archive authority changed''
      else Ok (g\<lparr>archives := archives g @ [reference], leases := [], manager_epoch := epoch\<rparr>))"

datatype ledger_event =
    Restart string "(string, domain) bmap"
  | Admit "string result" owner string string "reservation list" u64 u64
  | Admit_Reusing "string result" owner string string "reservation list" u64 u64 "(string, u64) bmap"
  | Renew token owner u64 u64
  | Complete_Output token owner u64 string
  | Revoke token string
  | Expire u64
  | Observe string u64 u64
  | Quarantine string string
  | Finish_Draining token "(string, u64) bmap"
  | Clear_Quarantine string "(string, domain) bmap"
  | Migrate_Inventory string string "(string, domain) bmap"
  | Archive_Cut string string string

fun apply_event :: "(ledger \<Rightarrow> string) \<Rightarrow> ledger \<Rightarrow> ledger_event \<Rightarrow> ledger result" where
  "apply_event digest g (Restart epoch inventory) = restart g epoch inventory"
| "apply_event digest g (Admit rid ow req bind rs now deadline) =
     and_then (admit rid g ow req bind rs now deadline) (\<lambda>(next, _). Ok next)"
| "apply_event digest g (Admit_Reusing rid ow req bind rs now deadline credits) =
     and_then (admit_reusing_retained rid g ow req bind rs now deadline credits) (\<lambda>(next, _). Ok next)"
| "apply_event digest g (Renew t ow now deadline) = renew g t ow now deadline"
| "apply_event digest g (Complete_Output t ow now out) = complete_output g t ow now out"
| "apply_event digest g (Revoke t why) = revoke g t why"
| "apply_event digest g (Expire now) = Ok (expire g now)"
| "apply_event digest g (Observe name used ret) = observe g name used ret"
| "apply_event digest g (Quarantine name why) = quarantine g name why"
| "apply_event digest g (Finish_Draining t ret) = finish_draining g t ret"
| "apply_event digest g (Clear_Quarantine rvw inventory) = clear_quarantine digest g rvw inventory"
| "apply_event digest g (Migrate_Inventory rvw epoch inventory) = migrate_inventory digest g rvw epoch inventory"
| "apply_event digest g (Archive_Cut rvw epoch sha) =
     and_then (archive_guard digest g rvw epoch) (\<lambda>_.
       archive_cut digest rvw \<lparr>through_generation = generation g, archive_sha256 = sha\<rparr> epoch g)"

text \<open>A transaction applies one operation and keeps its ledger when it validates.\<close>

definition ledger_step :: "(ledger \<Rightarrow> string) \<Rightarrow> ledger \<Rightarrow> ledger_event \<Rightarrow> ledger" where
  "ledger_step digest g ev =
     (case and_then (apply_event digest g ev) commit of Inl _ \<Rightarrow> g | Inr g' \<Rightarrow> g')"

definition domain_le :: "domain \<Rightarrow> domain \<Rightarrow> bool" where
  "domain_le d d' \<longleftrightarrow> domain_epoch d \<le> domain_epoch d'
     \<and> (quarantined d \<longrightarrow> quarantined d' \<or> domain_epoch d < domain_epoch d')"

definition domains_le :: "(string, domain) bmap \<Rightarrow> (string, domain) bmap \<Rightarrow> bool" where
  "domains_le ds ds' \<longleftrightarrow> (\<forall>name d. bm_get ds name = Some d \<longrightarrow> (\<exists>d'. bm_get ds' name = Some d' \<and> domain_le d d'))"

definition ledger_le :: "ledger \<Rightarrow> ledger \<Rightarrow> bool" where
  "ledger_le g g' \<longleftrightarrow> generation g \<le> generation g' \<and> domains_le (domains g) (domains g')
     \<and> (\<exists>as. archives g' = archives g @ as)
     \<and> (\<forall>l \<in> set (leases g). (\<exists>l' \<in> set (leases g'). lease_le l l')
          \<or> (\<exists>a \<in> set (archives g'). token_generation (token l) \<le> through_generation a))
     \<and> (\<forall>l' \<in> set (leases g'). (\<exists>l \<in> set (leases g). lease_le l l')
          \<or> generation g < token_generation (token l'))"

lemma domain_le_trans: "domain_le a b \<Longrightarrow> domain_le b c \<Longrightarrow> domain_le a c"
  by (auto simp: domain_le_def)

lemma domains_le_refl [simp]: "domains_le ds ds"
  by (auto simp: domains_le_def domain_le_def)

lemma domains_le_trans: "domains_le a b \<Longrightarrow> domains_le b c \<Longrightarrow> domains_le a c"
  unfolding domains_le_def by (blast intro: domain_le_trans)

lemma domains_le_insert: "bm_get ds name = Some d \<Longrightarrow> domain_le d d' \<Longrightarrow> domains_le ds (bm_insert name d' ds)"
  by (auto simp: domains_le_def) (auto simp: domain_le_def)

lemma domains_le_map: "(\<And>name d. domain_le d (f name d)) \<Longrightarrow> domains_le ds (bm_map f ds)"
  by (auto simp: domains_le_def)

lemma ledger_le_refl: "ledger_le g g"
proof -
  have "\<exists>x \<in> set (leases g). lease_le l x" "\<exists>x \<in> set (leases g). lease_le x l" if "l \<in> set (leases g)" for l
    using that lease_le_refl by blast+
  then show ?thesis unfolding ledger_le_def by simp
qed

lemma lease_le_token: "lease_le l l' \<Longrightarrow> token l' = token l"
  by (simp add: lease_le_def)

lemma ledger_le_kept:
  assumes "ledger_le g g'" "l \<in> set (leases g)"
  obtains (kept) l' where "l' \<in> set (leases g')" "lease_le l l'" "token l' = token l"
  | (cut) a where "a \<in> set (archives g')" "token_generation (token l) \<le> through_generation a"
  using assms lease_le_token unfolding ledger_le_def by blast

lemma ledger_le_origin:
  assumes "ledger_le g g'" "l' \<in> set (leases g')"
  obtains (kept) l where "l \<in> set (leases g)" "lease_le l l'" "token l' = token l"
  | (fresh) "generation g < token_generation (token l')"
  using assms lease_le_token unfolding ledger_le_def by blast

lemma ledger_le_archives: "ledger_le g g' \<Longrightarrow> set (archives g) \<subseteq> set (archives g')"
  by (auto simp: ledger_le_def)

lemma ledger_le_trans:
  assumes ab: "ledger_le a b" and bc: "ledger_le b c"
  shows "ledger_le a c"
  unfolding ledger_le_def
proof (intro conjI ballI)
  show "generation a \<le> generation c" using ab bc by (auto simp: ledger_le_def)
  show "domains_le (domains a) (domains c)" using ab bc by (auto simp: ledger_le_def intro: domains_le_trans)
  show "\<exists>as. archives c = archives a @ as" using ab bc by (auto simp: ledger_le_def)
  show "(\<exists>l' \<in> set (leases c). lease_le l l')
      \<or> (\<exists>x \<in> set (archives c). token_generation (token l) \<le> through_generation x)" if "l \<in> set (leases a)" for l
    using ab that
  proof (cases rule: ledger_le_kept)
    case (kept m)
    from bc kept(1) show ?thesis
      by (cases rule: ledger_le_kept) (use kept lease_le_trans in auto)
  next
    case (cut x)
    then show ?thesis using ledger_le_archives [OF bc] by blast
  qed
  show "(\<exists>l \<in> set (leases a). lease_le l l') \<or> generation a < token_generation (token l')"
    if "l' \<in> set (leases c)" for l'
    using bc that
  proof (cases rule: ledger_le_origin)
    case (kept m)
    from ab kept(1) show ?thesis
      by (cases rule: ledger_le_origin) (use kept lease_le_trans in auto)
  next
    case fresh
    then show ?thesis using ab by (auto simp: ledger_le_def)
  qed
qed

lemma list_all2_witness:
  assumes "list_all2 R xs ys"
  shows "x \<in> set xs \<Longrightarrow> \<exists>y \<in> set ys. R x y" and "y \<in> set ys \<Longrightarrow> \<exists>x \<in> set xs. R x y"
  using assms by (induction rule: list_all2_induct) auto

lemma ledger_le_evolve:
  assumes "generation g' = generation g" "archives g' = archives g"
    "list_all2 lease_le (leases g) (leases g')" "domains_le (domains g) (domains g')"
  shows "ledger_le g g'"
  using assms list_all2_witness [OF assms(3)] unfolding ledger_le_def by simp

lemma commit_Ok: "commit g = Ok g' \<longleftrightarrow> g' = g \<and> ledger_wf g"
  by (auto simp: commit_def result_simps ledger_validate_iff)

lemma checked_epoch: "checked_add e 1 = Some f \<Longrightarrow> e < f" for e f :: u64
  by (rule checked_add_one_less)

lemma checked_succ: "checked_add e 1 = Some f \<Longrightarrow> f = e + 1 \<and> e < e + 1" for e f :: u64
  using checked_epoch [of e f] by (auto simp: checked_add_Some)

lemma domain_le_epoch: "domain_epoch d < domain_epoch d' \<Longrightarrow> domain_le d d'"
  by (auto simp: domain_le_def)

lemma drain_fence_le: "list_all2 lease_le ls (map fence_lease (map (drain_lease why) ls))"
  unfolding list.map_comp by (rule list_all2_map_in) (auto intro: lease_le_trans [OF drain_lease_le fence_lease_le])

lemma restart_le:
  assumes "restart g epoch inventory = Ok g'"
  shows "ledger_le g g'"
proof -
  obtain ds where ds: "ds = inventory \<and> bm_is_empty (domains g) \<or> ds = bm_map (restart_domain inventory) (domains g)"
    and g': "g' = fence_outputs (g\<lparr>domains := ds, manager_epoch := epoch, leases := map (drain_lease ''manager-restart'') (leases g)\<rparr>)"
    using assms by (auto simp: restart_def result_simps commit_Ok split: if_splits)
  have "domains_le (domains g) ds"
    using ds
  proof
    assume "ds = bm_map (restart_domain inventory) (domains g)"
    moreover have "domain_le d (restart_domain inventory name d)" for name d
      by (auto simp: domain_le_def restart_domain_def split: option.splits)
    ultimately show ?thesis by (simp add: domains_le_map)
  qed (auto simp: domains_le_def bm_is_empty_def bm_get_def)
  then show ?thesis
    unfolding g' using drain_fence_le [of "leases g" "''manager-restart''"]
    by (intro ledger_le_evolve) (simp_all add: fence_outputs_def)
qed

lemma admit_Ok:
  assumes "admit rid g ow req bind rs now deadline = Ok (g', t)"
  obtains (replay) old m where "find (\<lambda>l. owner l = ow \<and> request l = req) (leases g) = Some old"
      "binding old = bind" "reservations old = rs" "t = token old" "g' = g"
      "assert_active g t ow now = Ok m"
  | (fresh) lid where "find (\<lambda>l. owner l = ow \<and> request l = req) (leases g) = None"
      "check_capacity g rs = Ok ()" "rid = Ok lid" "unat (generation g) + 1 < 2 ^ 64"
      "t = \<lparr>lease_id = lid, token_generation = generation g + 1, token_epoch = manager_epoch g\<rparr>"
      "g' = g\<lparr>generation := generation g + 1, leases := leases g @ [new_lease t ow req bind rs deadline]\<rparr>"
      "ledger_wf g'"
proof -
  note conds = assms [unfolded admit_def and_then_Inr_iff if_err_Inr_iff]
  show thesis
  proof (cases "find (\<lambda>l. owner l = ow \<and> request l = req) (leases g)")
    case None
    from conds [unfolded None option.case and_then_Inr_iff if_err_Inr_iff ok_or_Inr_iff checked_add_Some commit_Ok Let_def
        sum.inject prod.inject]
    obtain u gen lid where *: "check_capacity g rs = Ok u" "rid = Ok lid"
        "unat (generation g) + unat (1 :: u64) < 2 ^ LENGTH(64)" "gen = generation g + 1"
        "t = \<lparr>lease_id = lid, token_generation = gen, token_epoch = manager_epoch g\<rparr>"
        "g' = g\<lparr>generation := gen, leases := leases g @
          [new_lease \<lparr>lease_id = lid, token_generation = gen, token_epoch = manager_epoch g\<rparr> ow req bind rs deadline]\<rparr>"
        "ledger_wf g'"
      by blast
    show thesis by (rule fresh [OF None _ *(2)]) (use * in simp_all)
  next
    case (Some old)
    from conds [unfolded Some option.case and_then_Inr_iff if_err_Inr_iff]
    show thesis by (auto intro: replay [OF Some])
  qed
qed

lemma admit_le:
  assumes "admit rid g ow req bind rs now deadline = Ok (g', t)"
  shows "ledger_le g g'"
  using assms
proof (cases rule: admit_Ok)
  case (fresh lid)
  have "generation g < generation g + 1"
    using fresh(4) by (simp add: word_less_nat_alt unat_word_ariths)
  moreover have "\<exists>x \<in> set (leases g). lease_le x l" if "l \<in> set (leases g)" for l
    using that lease_le_refl by blast
  ultimately show ?thesis
    unfolding ledger_le_def fresh(5,6) by (fastforce simp: new_lease_def)
qed (simp add: ledger_le_refl)

lemma apply_credits_le:
  "apply_credits rs cs g = Ok g' \<Longrightarrow> \<exists>ds. g' = g\<lparr>domains := ds\<rparr> \<and> domains_le (domains g) ds"
proof (induction rs cs g rule: apply_credits.induct)
  case (1 rs g)
  then show ?case by (auto intro: exI [of _ "domains g"])
next
  case (2 rs name credit cs g)
  then obtain plan d where *: "bm_get (domains g) name = Some d"
      "apply_credits rs cs (g\<lparr>domains := bm_insert name (d\<lparr>retained := retained d - credit\<rparr>) (domains g)\<rparr>) = Ok g'"
      "ok_or (find (\<lambda>r. res_domain r = name) rs) ''retained credit outside plan'' = Ok plan"
      "\<not> (retained d < credit \<or> peak plan < credit)"
    by (auto simp: result_simps split: if_splits)
  have "domains_le (domains g) (bm_insert name (d\<lparr>retained := retained d - credit\<rparr>) (domains g))"
    using *(1) by (rule domains_le_insert) (simp add: domain_le_def)
  moreover obtain ds where "g' = g\<lparr>domains := ds\<rparr>"
      "domains_le (bm_insert name (d\<lparr>retained := retained d - credit\<rparr>) (domains g)) ds"
    using "2.IH" [OF *(3) _ *(4,2)] *(1) by auto
  ultimately show ?case by (auto intro: domains_le_trans)
qed

lemma admit_reusing_le:
  assumes "admit_reusing_retained rid g ow req bind rs now deadline credits = Ok (g', t)"
  shows "ledger_le g g'"
proof (cases "list_ex (\<lambda>l. owner l = ow \<and> request l = req) (leases g)")
  case True
  then show ?thesis using assms by (auto simp: admit_reusing_retained_def intro: admit_le)
next
  case False
  then obtain h where h: "apply_credits rs (bm_entries credits) g = Ok h"
      and adm: "admit rid h ow req bind rs now deadline = Ok (g', t)"
    using assms by (auto simp: admit_reusing_retained_def result_simps)
  have "ledger_le g h"
    using apply_credits_le [OF h] by (auto intro!: ledger_le_evolve list.rel_refl)
  then show ?thesis using admit_le [OF adm] by (rule ledger_le_trans)
qed

lemma quarantine_Ok:
  assumes "quarantine g name why = Ok g'"
  obtains d d' where "resource_id why" "bm_get (domains g) name = Some d" "domain_le d d'" "quarantined d'"
    "d' = (if quarantined d then d else d\<lparr>domain_epoch := domain_epoch d + 1, quarantined := True\<rparr>)"
    "g' = g\<lparr>domains := bm_insert name d' (domains g), leases := map (quarantine_lease name why) (leases g)\<rparr>"
    "ledger_wf g'"
proof -
  obtain d d' where *: "resource_id why" "bm_get (domains g) name = Some d"
      "(if quarantined d then Ok d
        else and_then (ok_or (checked_add (domain_epoch d) 1) ''resource domain epoch exhausted'')
               (\<lambda>e. Ok (d\<lparr>domain_epoch := e, quarantined := True\<rparr>))) = Ok d'"
      "g' = g\<lparr>domains := bm_insert name d' (domains g), leases := map (quarantine_lease name why) (leases g)\<rparr>"
      "ledger_wf g'"
    using assms unfolding quarantine_def and_then_Inr_iff if_err_Inr_iff ok_or_Inr_iff commit_Ok by blast
  then have "domain_le d d' \<and> quarantined d' \<and>
      d' = (if quarantined d then d else d\<lparr>domain_epoch := domain_epoch d + 1, quarantined := True\<rparr>)"
    by (auto simp: result_simps domain_le_def dest!: checked_succ split: if_splits)
  with * that show thesis by blast
qed

lemma quarantine_le: 
  assumes wf: "ledger_wf g" and ok: "quarantine g name why = Ok g'"
  shows "ledger_le g g'"
  using ok
proof (cases rule: quarantine_Ok)
  case (1 d d')
  have "list_all2 lease_le (leases g) (map (quarantine_lease name why) (leases g))"
    using ledger_wf_lease_ok [OF wf] by (intro list_all2_map_in) (auto intro: quarantine_lease_le)
  then show ?thesis
    unfolding 1(6) using domains_le_insert [OF 1(2,3)] by (intro ledger_le_evolve) simp_all
qed

lemma set_retained_le: "set_retained es ds = Ok ds' \<Longrightarrow> domains_le ds ds'"
proof (induction es ds rule: set_retained.induct)
  case (2 name bytes rest ds)
  then obtain d where d: "bm_get ds name = Some d"
      and rest: "set_retained rest (bm_insert name (d\<lparr>retained := bytes\<rparr>) ds) = Ok ds'"
    by (auto simp: result_simps)
  have "domains_le ds (bm_insert name (d\<lparr>retained := bytes\<rparr>) ds)"
    using d by (rule domains_le_insert) (simp add: domain_le_def)
  with "2.IH" [OF _ rest] d show ?case by (auto intro: domains_le_trans)
qed simp

lemma replace_domains_le: "replace_domains es ds = Ok ds' \<Longrightarrow> domains_le ds ds'"
proof (induction es ds rule: replace_domains.induct)
  case (2 name live rest ds)
  then obtain u old e where *: "domain_validate live = Ok u" "bm_get ds name = Some old"
      "checked_add (domain_epoch old) 1 = Some e"
      "replace_domains rest (bm_insert name (live\<lparr>domain_epoch := e, retained := retained old\<rparr>) ds) = Ok ds'"
    by (auto simp: result_simps)
  have "domains_le ds (bm_insert name (live\<lparr>domain_epoch := e, retained := retained old\<rparr>) ds)"
    using *(2) by (rule domains_le_insert) (simp add: domain_le_epoch checked_epoch *(3))
  with "2.IH" [OF *(1) _ _ *(4)] *(2,3) show ?case by (auto intro: domains_le_trans)
qed simp

lemma migrate_domains_get:
  "migrate_domains olds es ds = Ok ds' \<Longrightarrow>
     (case bm_get olds name of
        None \<Rightarrow> bm_get ds' name = bm_get ds name
      | Some old \<Rightarrow> if name \<in> set (map fst es)
          then \<exists>d'. bm_get ds' name = Some d' \<and> domain_epoch old < domain_epoch d'
            \<and> retained d' = retained old \<and> quarantined d' = quarantined old \<and> pressure d' = pressure old
          else bm_get ds' name = bm_get ds name)"
proof (induction olds es ds rule: migrate_domains.induct)
  case (2 olds n d rest ds)
  show ?case
  proof (cases "bm_get olds n")
    case None
    with 2 show ?thesis by (auto split: option.splits if_splits)
  next
    case (Some old)
    with 2(3) obtain e where e: "checked_add (domain_epoch old) 1 = Some e"
      and rest: "migrate_domains olds rest (bm_insert n (d\<lparr>domain_epoch := e, retained := retained old,
            quarantined := quarantined old, pressure := pressure old, observed := observed old\<rparr>) ds) = Ok ds'"
      by (auto simp: result_simps)
    from 2(2) [OF Some _ rest] e checked_epoch [OF e] Some
    show ?thesis by (auto split: option.splits if_splits)
  qed
qed (auto split: option.splits)

lemma update_first_le:
  "(\<And>l. l \<in> set (leases g) \<Longrightarrow> P l \<Longrightarrow> lease_le l (f l)) \<Longrightarrow>
     ledger_le g (g\<lparr>leases := update_first P f (leases g)\<rparr>)"
  by (intro ledger_le_evolve) (auto intro!: list_all2_update_first)

lemma complete_output_le:
  assumes wf: "ledger_wf g" and ok: "complete_output g t ow now digest = Ok g'"
  shows "ledger_le g g'"
  using ok
proof (cases rule: complete_output_Ok)
  case (fresh l e)
  note act = assert_active_Ok [OF fresh(1)]
  have "lease_le y (y\<lparr>output_sha256 := Some digest, output_domain_epochs := Some e\<rparr>)"
    if "y \<in> set (leases g)" "token y = t" for y
  proof -
    have "y = l" using ledger_wf_lease_unique [OF wf that(1) act(1)] that act(2) by simp
    moreover have "output_domain_epochs l = None"
      using ledger_wf_lease_ok [OF wf act(1)] fresh(2)
      by (cases "output_domain_epochs l") (auto simp: lease_ok_def epochs_ok_def epochs_invalid_def)
    ultimately show ?thesis using fresh(2) by (simp add: lease_le_def)
  qed
  then show ?thesis unfolding fresh(5) by (intro update_first_le) simp
qed (simp add: ledger_le_refl)

lemma observe_le: "observe g name used ret = Ok g' \<Longrightarrow> ledger_le g g'"
  by (auto simp: observe_def result_simps domain_le_def intro!: ledger_le_evolve list.rel_refl domains_le_insert)

lemma release_le:
  assumes wf: "ledger_wf g" and l: "find (\<lambda>l. token l = t) (leases g) = Some l" "state l = Draining"
    and y: "y \<in> set (leases g)" "token y = t"
  shows "lease_le y (y\<lparr>state := Released, reason := why\<rparr>)"
proof -
  have "l \<in> set (leases g)" "token l = t" using l(1) by (auto simp: find_Some_iff)
  then have "y = l" using ledger_wf_lease_unique [OF wf y(1)] y(2) by simp
  then show ?thesis using l(2) by (simp add: lease_le_def)
qed

lemma finish_draining_le:
  assumes wf: "ledger_wf g" and ok: "finish_draining g t ret = Ok g'"
  shows "ledger_le g g'"
proof -
  obtain l ds where l: "find (\<lambda>l. token l = t) (leases g) = Some l" "state l = Draining"
    and ds: "set_retained (bm_entries ret) (domains g) = Ok ds"
    and g': "g' = g\<lparr>domains := ds, leases := update_first (\<lambda>l. token l = t)
           (\<lambda>l. l\<lparr>state := Released, reason := ''fenced-and-observed''\<rparr>) (leases g)\<rparr>"
    using ok unfolding finish_draining_def and_then_Inr_iff if_err_Inr_iff ok_or_Inr_iff commit_Ok by blast
  show ?thesis
    unfolding g' using set_retained_le [OF ds] release_le [OF wf l]
    by (intro ledger_le_evolve) (auto intro!: list_all2_update_first)
qed

lemma fence_outputs_le: "domains_le (domains g) ds \<Longrightarrow> ledger_le g (fence_outputs (g\<lparr>domains := ds, manager_epoch := e\<rparr>))"
  by (intro ledger_le_evolve) (auto simp: fence_outputs_def intro!: list_all2_map_in fence_lease_le)

lemma clear_quarantine_le: "clear_quarantine digest g rvw inventory = Ok g' \<Longrightarrow> ledger_le g g'"
  using fence_outputs_le [of g _ "manager_epoch g"]
  by (auto simp: clear_quarantine_def result_simps commit_Ok dest!: replace_domains_le)

lemma migrate_inventory_le:
  assumes "migrate_inventory digest g rvw epoch inventory = Ok g'"
  shows "ledger_le g g'"
proof -
  obtain ds where ds: "migrate_domains (domains g) (bm_entries inventory) inventory = Ok ds"
    and all: "\<forall>name \<in> set (bm_keys (domains g)). bm_contains inventory name"
    and g': "g' = fence_outputs (g\<lparr>domains := ds, manager_epoch := epoch\<rparr>)"
    using assms by (auto simp: migrate_inventory_def result_simps commit_Ok list_ex_iff)
  have "\<exists>d'. bm_get ds name = Some d' \<and> domain_le d d'" if "bm_get (domains g) name = Some d" for name d
    using migrate_domains_get [OF ds, of name] that all
    by (fastforce simp: bm_keys_iff bm_contains_iff domain_le_def simp flip: bm_keys_def)
  then show ?thesis unfolding g' by (intro fence_outputs_le) (simp add: domains_le_def)
qed

lemma archive_cut_le:
  assumes wf: "ledger_wf g"
    and ok: "archive_cut digest rvw \<lparr>through_generation = generation g, archive_sha256 = sha\<rparr> epoch g = Ok g'"
  shows "ledger_le g g'"
  using ok ledger_wf_lease_ok [OF wf]
  by (auto simp: archive_cut_def ledger_le_def lease_ok_def split: if_splits)

lemmas event_le =
  restart_le admit_le admit_reusing_le quarantine_le observe_le finish_draining_le
  clear_quarantine_le migrate_inventory_le complete_output_le archive_cut_le

lemma apply_event_le:
  assumes wf: "ledger_wf g" and ok: "apply_event digest g ev = Ok g'"
  shows "ledger_le g g'"
proof (cases ev)
  case (Renew t ow now deadline)
  then show ?thesis using ok by (auto simp: renew_Ok lease_le_def intro!: update_first_le)
next
  case (Revoke t why)
  then show ?thesis using ok by (auto simp: revoke_Ok intro!: update_first_le revoke_lease_le)
next
  case (Expire now)
  then show ?thesis
    using ok ledger_wf_lease_ok [OF wf]
    by (auto simp: expire_def intro!: ledger_le_evolve list_all2_map_in expire_lease_le [of g])
qed (use ok wf in \<open>auto simp: and_then_Inr_iff intro: event_le\<close>)

lemma ledger_step_cases:
  obtains "ledger_step digest g ev = g"
  | g' where "apply_event digest g ev = Ok g'" "ledger_wf g'" "ledger_step digest g ev = g'"
proof (cases "and_then (apply_event digest g ev) commit")
  case (Inr h)
  then have "apply_event digest g ev = Ok h" "ledger_wf h" by (auto simp: and_then_Inr_iff commit_Ok)
  then show thesis by (rule that(2)) (simp add: ledger_step_def Inr)
qed (simp add: ledger_step_def that(1))

lemma ledger_empty_wf: "ledger_wf ledger_empty"
  by (simp add: ledger_wf_def ledger_empty_def uninitialized_ok_def bm_keys_def)

interpretation ledger: monotone_system "\<lambda>g. g = ledger_empty" "ledger_step digest" ledger_wf ledger_le
  for digest
proof
  show "ledger_wf (ledger_step digest g ev)" if "ledger_wf g" for g ev
    using that by (cases rule: ledger_step_cases [of digest g ev]) simp_all
  show "ledger_le g (ledger_step digest g ev)" if "ledger_wf g" for g ev
    using that by (cases rule: ledger_step_cases [of digest g ev]) (auto intro: ledger_le_refl apply_event_le)
qed (auto simp: ledger_empty_wf intro: ledger_le_refl ledger_le_trans)

section \<open>Admission\<close>

definition plan_charge :: "string \<Rightarrow> reservation list \<Rightarrow> nat" where
  "plan_charge name rs = (\<Sum>r \<leftarrow> filter (\<lambda>r. res_domain r = name) rs. unat (peak r))"

lemma plan_charge_absent: "name \<notin> res_domain ` set rs \<Longrightarrow> plan_charge name rs = 0"
  by (induction rs) (auto simp: plan_charge_def)

lemma plan_charge_reserved:
  "distinct (map res_domain rs) \<Longrightarrow> r \<in> set rs \<Longrightarrow> plan_charge (res_domain r) rs = unat (peak r)"
proof (induction rs)
  case (Cons a rs)
  show ?case
  proof (cases "r = a")
    case True
    then show ?thesis using Cons.prems plan_charge_absent [of "res_domain a" rs] by (simp add: plan_charge_def)
  next
    case False
    then have "r \<in> set rs" using Cons.prems by simp
    moreover have "res_domain a \<noteq> res_domain r" using Cons.prems calculation by auto
    ultimately show ?thesis using Cons by (simp add: plan_charge_def)
  qed
qed simp

lemma lease_charges_unreleased:
  "(\<Sum>l \<leftarrow> ls. lease_charge name l)
     = (\<Sum>l \<leftarrow> filter (\<lambda>l. state l \<noteq> Released) ls. plan_charge name (reservations l))"
  by (induction ls) (simp_all add: lease_charge_def plan_charge_def)

definition room :: "ledger \<Rightarrow> reservation \<Rightarrow> bool" where
  "room g r \<longleftrightarrow> (\<exists>d. bm_get (domains g) (res_domain r) = Some d \<and> \<not> quarantined d \<and> \<not> pressure d
     \<and> committed g (res_domain r) + unat (peak r) \<le> unat (capacity d - reserve d))"

lemma unat_less: "unat x < 2 ^ 64" for x :: u64
  using unsigned_less [of x, where 'a = nat] by simp

lemma check_capacity_Ok: "check_capacity g rs = Ok () \<longleftrightarrow> (\<forall>r \<in> set rs. room g r)"
proof (induction rs)
  case (Cons r rs)
  have "check_capacity g (r # rs) = Ok () \<longleftrightarrow> room g r \<and> check_capacity g rs = Ok ()"
  proof (cases "bm_get (domains g) (res_domain r)")
    case (Some d)
    have eq: "check_capacity g (r # rs) = Ok () \<longleftrightarrow>
        (\<exists>c. charged g (res_domain r) = Ok c \<and> unat c + unat (peak r) < 2 ^ 64
          \<and> \<not> quarantined d \<and> \<not> pressure d \<and> c + peak r \<le> capacity d - reserve d) \<and> check_capacity g rs = Ok ()"
      using Some by (auto simp: result_simps checked_add_Some not_less)
    have num: "unat c + unat (peak r) < 2 ^ 64 \<and> c + peak r \<le> capacity d - reserve d
        \<longleftrightarrow> unat c + unat (peak r) \<le> unat (capacity d - reserve d)" for c
      using unat_less [of "capacity d - reserve d"] unat_add_small [of c "peak r"]
      by (auto simp: word_le_nat_alt)
    have "(\<exists>c. charged g (res_domain r) = Ok c \<and> unat c + unat (peak r) \<le> unat (capacity d - reserve d))
        \<longleftrightarrow> committed g (res_domain r) + unat (peak r) \<le> unat (capacity d - reserve d)" (is "_ \<longleftrightarrow> ?fits")
    proof
      assume ?fits
      then have "committed g (res_domain r) < 2 ^ 64"
        using unat_less [of "capacity d - reserve d"] by linarith
      then have "charged g (res_domain r) = Ok (of_nat (committed g (res_domain r)))"
        "unat (of_nat (committed g (res_domain r)) :: u64) = committed g (res_domain r)"
        using Some by (simp_all add: charged_Ok unat_of_nat take_bit_nat_eq_self)
      with \<open>?fits\<close> show "\<exists>c. charged g (res_domain r) = Ok c
          \<and> unat c + unat (peak r) \<le> unat (capacity d - reserve d)" by auto
    qed (auto simp: charged_Ok)
    then show ?thesis
      unfolding eq room_def using Some num by auto
  qed (simp add: room_def)
  then show ?case using Cons.IH by simp
qed simp

definition admissible ::
  "ledger \<Rightarrow> owner \<Rightarrow> string \<Rightarrow> string \<Rightarrow> reservation list \<Rightarrow> u64 \<Rightarrow> u64 \<Rightarrow> string \<Rightarrow> bool" where
  "admissible g ow req bind rs now deadline lid \<longleftrightarrow>
     reservations_valid g rs = Ok () \<and> (\<forall>r \<in> set rs. room g r)
     \<and> now < deadline \<and> unat deadline - unat now \<le> 30000
     \<and> length (leases g) < MAX_RECORDS \<and> unat (generation g) + 1 < 2 ^ 64
     \<and> resource_id req \<and> resource_id (boot ow) \<and> pid ow \<noteq> 0 \<and> start_ticks ow \<noteq> 0 \<and> cgroup_inode ow \<noteq> 0
     \<and> length bind = 64 \<and> list_all is_ascii_hexdigit bind
     \<and> resource_id lid \<and> (\<forall>l \<in> set (leases g). lease_id (token l) \<noteq> lid)"

definition admitted :: "ledger \<Rightarrow> owner \<Rightarrow> string \<Rightarrow> string \<Rightarrow> reservation list \<Rightarrow> u64 \<Rightarrow> string \<Rightarrow> ledger" where
  "admitted g ow req bind rs deadline lid = g\<lparr>generation := generation g + 1, leases := leases g @
     [new_lease \<lparr>lease_id = lid, token_generation = generation g + 1, token_epoch = manager_epoch g\<rparr>
        ow req bind rs deadline]\<rparr>"

lemma committed_admitted:
  "committed (admitted g ow req bind rs deadline lid) name = committed g name + plan_charge name rs"
  by (simp add: admitted_def committed_def retained_of_def lease_charge_def new_lease_def plan_charge_def)

lemma reservations_valid_domains:
  "domains g' = domains g \<Longrightarrow> reservations_valid g' rs = Ok () \<longleftrightarrow> reservations_valid g rs = Ok ()"
  by (simp add: reservations_valid_Ok)

lemma lease_ok_generation:
  assumes "lease_ok g l" "domains g' = domains g" "manager_epoch g' = manager_epoch g"
    "generation g \<le> generation g'"
  shows "lease_ok g' l"
proof -
  have "epochs_ok g' l = epochs_ok g l"
    using assms(2) by (simp add: epochs_ok_def epochs_invalid_def)
  with assms show ?thesis
    unfolding lease_ok_def reservations_valid_domains [OF assms(2)] by (auto intro: order_trans)
qed

lemma admitted_id: "resource_id ''admitted''"
  by (simp add: resource_id_def ascii_defs)

lemma ledger_wf_generations:
  assumes "ledger_wf g" "x \<in> set (ledger_generations g)"
  shows "x \<le> generation g"
  using assms
  by (auto simp: ledger_wf_def uninitialized_ok_def initialized_ok_def ledger_generations_def archive_ok_def
      lease_ok_def split: if_splits)

lemma generation_step: "unat v + 1 < 2 ^ 64 \<Longrightarrow> v < v + 1" for v :: u64
  by (simp add: word_less_nat_alt unat_word_ariths)

lemma lease_ok_admitted:
  assumes wf: "ledger_wf g" and init: "manager_epoch g \<noteq> []" and adm: "admissible g ow req bind rs now deadline lid"
  shows "lease_ok (admitted g ow req bind rs deadline lid)
    (new_lease \<lparr>lease_id = lid, token_generation = generation g + 1, token_epoch = manager_epoch g\<rparr> ow req bind rs deadline)"
proof -
  have "resource_id (manager_epoch g)" using wf init by (simp add: ledger_wf_def initialized_ok_def)
  moreover have "deadline \<noteq> 0" using adm by (auto simp: admissible_def)
  moreover have "reservations_valid (admitted g ow req bind rs deadline lid) rs = Ok ()"
    using adm reservations_valid_domains [of "admitted g ow req bind rs deadline lid" g rs]
    by (simp add: admissible_def admitted_def)
  ultimately show ?thesis
    using adm admitted_id by (simp add: lease_ok_def admitted_def new_lease_def admissible_def epochs_ok_def)
qed

lemma room_capacity:
  assumes adm: "admissible g ow req bind rs now deadline lid"
    and cap: "within_capacity g"
  shows "within_capacity (admitted g ow req bind rs deadline lid)"
  unfolding within_capacity_def
proof (intro allI impI)
  fix name d
  assume "bm_get (domains (admitted g ow req bind rs deadline lid)) name = Some d"
  then have d: "bm_get (domains g) name = Some d" by (simp add: admitted_def)
  show "committed (admitted g ow req bind rs deadline lid) name < 2 ^ 64
      \<and> (quarantined d \<or> committed (admitted g ow req bind rs deadline lid) name \<le> unat (capacity d - reserve d))"
  proof (cases "name \<in> res_domain ` set rs")
    case True
    then obtain r where r: "r \<in> set rs" "name = res_domain r" by blast
    have "distinct (map res_domain rs)"
      using adm strict_sorted_iff by (auto simp: admissible_def reservations_valid_Ok)
    then have "plan_charge name rs = unat (peak r)" using r plan_charge_reserved by simp
    moreover have "room g r" using adm r by (simp add: admissible_def)
    ultimately show ?thesis
      using d r(2) unat_less [of "capacity d - reserve d"] by (auto simp: room_def committed_admitted)
  next
    case False
    then show ?thesis using cap d by (simp add: committed_admitted plan_charge_absent within_capacity_def)
  qed
qed

lemma ledger_wf_admitted:
  assumes wf: "ledger_wf g" and adm: "admissible g ow req bind rs now deadline lid"
    and new: "\<forall>l \<in> set (leases g). (owner l, request l) \<noteq> (ow, req)"
  shows "ledger_wf (admitted g ow req bind rs deadline lid)"
proof -
  let ?g = "admitted g ow req bind rs deadline lid"
  let ?l = "new_lease \<lparr>lease_id = lid, token_generation = generation g + 1, token_epoch = manager_epoch g\<rparr> ow req bind rs deadline"
  obtain r where "r \<in> set rs" "bm_get (domains g) (res_domain r) \<noteq> None"
    using adm by (cases rs) (auto simp: admissible_def reservations_valid_Ok)
  then have "bm_keys (domains g) \<noteq> []" using bm_keys_iff [of "res_domain r" "domains g"] by auto
  then have init: "manager_epoch g \<noteq> []" and iok: "initialized_ok g"
    using wf by (auto simp: ledger_wf_def uninitialized_ok_def split: if_splits)
  have less: "generation g < generation g + 1" using adm by (simp add: admissible_def generation_step)
  have leases: "leases ?g = leases g @ [?l]" by (simp add: admitted_def)
  have gens: "ledger_generations ?g = ledger_generations g @ [generation g + 1]"
    by (simp add: ledger_generations_def admitted_def new_lease_def)
  have "sorted_wrt (<) (0 # ledger_generations ?g)"
    unfolding gens using iok ledger_wf_generations [OF wf] less
    by (auto simp: initialized_ok_def sorted_wrt_append word_neq_0_conv intro: le_less_trans)
  moreover have "lease_ok ?g l" if "l \<in> set (leases ?g)" for l
  proof (cases "l = ?l")
    case False
    then have "l \<in> set (leases g)" using that by (simp add: leases)
    then show ?thesis
      by (intro lease_ok_generation [OF ledger_wf_lease_ok [OF wf]]) (use less in \<open>auto simp: admitted_def\<close>)
  qed (simp add: lease_ok_admitted [OF wf init adm])
  moreover have "archive_ok ?g a" if "a \<in> set (archives ?g)" for a
    using that iok less by (auto simp: initialized_ok_def archive_ok_def admitted_def intro: order_trans)
  moreover have "distinct (map (\<lambda>l. lease_id (token l)) (leases ?g))" "distinct (map (\<lambda>l. (owner l, request l)) (leases ?g))"
    using iok new adm by (auto simp: initialized_ok_def leases new_lease_def admissible_def)
  moreover have "within_capacity ?g"
    using room_capacity [OF adm] iok by (simp add: initialized_ok_def)
  ultimately have "initialized_ok ?g"
    using iok by (simp add: initialized_ok_def admitted_def del: sorted_wrt.simps)
  then show ?thesis
    using wf init adm by (simp add: ledger_wf_def admitted_def admissible_def)
qed

lemma find_request_None:
  "find (\<lambda>l. owner l = ow \<and> request l = req) ls = None \<longleftrightarrow> (\<forall>l \<in> set ls. (owner l, request l) \<noteq> (ow, req))"
  by (auto simp: find_None_iff)

lemma duration_iff:
  "\<not> (deadline \<le> now \<or> 30000 < deadline - now) \<longleftrightarrow> now < deadline \<and> unat deadline - unat now \<le> 30000"
  for now deadline :: u64
  by (auto simp: not_le not_less word_le_nat_alt [of _ "30000"] unat_sub dest: less_imp_le)

lemma admit_admissible:
  assumes wf: "ledger_wf g" and new: "\<forall>l \<in> set (leases g). (owner l, request l) \<noteq> (ow, req)"
    and adm: "admissible g ow req bind rs now deadline lid"
  shows "admit (Ok lid) g ow req bind rs now deadline = Ok (admitted g ow req bind rs deadline lid,
    \<lparr>lease_id = lid, token_generation = generation g + 1, token_epoch = manager_epoch g\<rparr>)"
proof -
  have "ledger_validate g = Ok ()" "check_capacity g rs = Ok ()" "reservations_valid g rs = Ok ()"
    using wf adm by (simp_all add: ledger_validate_iff check_capacity_Ok admissible_def)
  moreover have "checked_add (generation g) 1 = Some (generation g + 1)"
    using adm by (simp add: checked_add_Some admissible_def)
  moreover have "\<not> (\<not> resource_id req \<or> deadline \<le> now \<or> 30000 < deadline - now)"
    using adm duration_iff [of deadline now] by (simp add: admissible_def)
  moreover have "\<not> MAX_RECORDS \<le> length (leases g)" "\<not> list_ex (\<lambda>l. lease_id (token l) = lid) (leases g)"
    using adm by (auto simp: admissible_def list_ex_iff)
  moreover have "find (\<lambda>l. owner l = ow \<and> request l = req) (leases g) = None"
    using new by (simp add: find_request_None)
  moreover have "commit (admitted g ow req bind rs deadline lid) = Ok (admitted g ow req bind rs deadline lid)"
    using ledger_wf_admitted [OF wf adm new] by (simp add: commit_Ok)
  ultimately show ?thesis by (simp add: admit_def admitted_def Let_def)
qed

lemma admit_requires:
  assumes new: "\<forall>l \<in> set (leases g). (owner l, request l) \<noteq> (ow, req)"
    and ok: "admit (Ok lid) g ow req bind rs now deadline = Ok (g', t)"
  shows "admissible g ow req bind rs now deadline lid"
  using ok
proof (cases rule: admit_Ok)
  case (fresh rid)
  have "new_lease t ow req bind rs deadline \<in> set (leases g')" by (simp add: fresh(6))
  then have "lease_ok g' (new_lease t ow req bind rs deadline)" by (rule ledger_wf_lease_ok [OF fresh(7)])
  then have "resource_id lid \<and> resource_id (boot ow) \<and> pid ow \<noteq> 0 \<and> start_ticks ow \<noteq> 0 \<and> cgroup_inode ow \<noteq> 0
      \<and> length bind = 64 \<and> list_all is_ascii_hexdigit bind"
    using fresh(3,5) by (simp add: lease_ok_def new_lease_def)
  moreover have "reservations_valid g rs = Ok ()" "resource_id req" "\<not> (deadline \<le> now \<or> 30000 < deadline - now)"
    using ok unfolding admit_def and_then_Inr_iff if_err_Inr_iff by auto
  moreover have "\<forall>l \<in> set (leases g). lease_id (token l) \<noteq> lid"
  proof
    fix l assume "l \<in> set (leases g)"
    moreover have "distinct (map (\<lambda>l. lease_id (token l)) (leases g'))"
      using fresh(7) \<open>new_lease t ow req bind rs deadline \<in> set (leases g')\<close>
      by (auto simp: ledger_wf_def uninitialized_ok_def initialized_ok_def split: if_splits)
    ultimately show "lease_id (token l) \<noteq> lid" using fresh(3,5,6) by (auto simp: new_lease_def)
  qed
  moreover have "length (leases g) < MAX_RECORDS"
    using fresh(6,7) by (simp add: ledger_wf_def)
  ultimately show ?thesis
    using fresh(2,4) duration_iff [of deadline now] by (simp add: admissible_def check_capacity_Ok)
next
  case (replay old m)
  then show ?thesis using new by (auto simp: find_Some_iff)
qed

lemma admitted_active:
  assumes wf: "ledger_wf g" and adm: "admissible g ow req bind rs now deadline lid"
  shows "assert_active (admitted g ow req bind rs deadline lid)
      \<lparr>lease_id = lid, token_generation = generation g + 1, token_epoch = manager_epoch g\<rparr> ow now
    = Ok (new_lease \<lparr>lease_id = lid, token_generation = generation g + 1, token_epoch = manager_epoch g\<rparr> ow req bind rs deadline)"
proof -
  have "find (\<lambda>l. token l = \<lparr>lease_id = lid, token_generation = generation g + 1, token_epoch = manager_epoch g\<rparr> \<and> owner l = ow) (leases g) = None"
    using adm by (fastforce simp: find_None_iff admissible_def)
  moreover have "find P (xs @ ys) = (case find P xs of None \<Rightarrow> find P ys | Some x \<Rightarrow> Some x)" for P and xs ys :: "lease list"
    by (induction xs) auto
  moreover have "any_quarantined (admitted g ow req bind rs deadline lid) rs = Ok False"
  proof -
    have "any_quarantined h qs = Ok False" if "\<forall>r \<in> set qs. room g r" "domains h = domains g" for h qs
      using that by (induction qs) (auto simp: room_def)
    then show ?thesis using adm by (simp add: admissible_def admitted_def)
  qed
  ultimately show ?thesis
    using adm by (simp add: assert_active_def find_lease_def admitted_def new_lease_def admissible_def not_le)
qed

section \<open>What single operations guarantee\<close>

lemma update_first_map:
  assumes "distinct xs" "\<And>x y. x \<in> set xs \<Longrightarrow> y \<in> set xs \<Longrightarrow> P x \<Longrightarrow> P y \<Longrightarrow> x = y"
  shows "update_first P f xs = map (\<lambda>x. if P x then f x else x) xs"
  using assms
proof (induction xs)
  case (Cons a xs)
  show ?case
  proof (cases "P a")
    case True
    then have "\<not> P x" if "x \<in> set xs" for x using Cons.prems(2) [of a x] Cons.prems(1) that by auto
    then show ?thesis using True by (auto intro!: map_idI [symmetric])
  next
    case False
    then show ?thesis using Cons by simp
  qed
qed simp

lemma ledger_wf_distinct: "ledger_wf g \<Longrightarrow> distinct (leases g)"
  by (auto simp: ledger_wf_def uninitialized_ok_def initialized_ok_def distinct_map split: if_splits)

lemma update_token_map:
  "ledger_wf g \<Longrightarrow> update_first (\<lambda>l. token l = t) f (leases g) = map (\<lambda>l. if token l = t then f l else l) (leases g)"
  by (intro update_first_map ledger_wf_distinct) (auto intro: ledger_wf_lease_unique)

lemma assert_active_stale:
  assumes "\<forall>l \<in> set (leases g). token l = t \<longrightarrow> state l \<noteq> Active"
  shows "\<not> is_ok (assert_active g t ow now)"
proof
  assume "is_ok (assert_active g t ow now)"
  then obtain l where "assert_active g t ow now = Ok l" by (auto simp: is_ok_iff)
  then have "l \<in> set (leases g)" "token l = t" "state l = Active" by (rule assert_active_Ok)+
  with assms show False by blast
qed

lemma admit_repeated:
  assumes "admit rid g ow req bind rs now deadline = Ok (g', t)"
  shows "admit rid' g' ow req bind rs now deadline = Ok (g', t)"
  using assms
proof (cases rule: admit_Ok)
  case (replay old m)
  have "\<exists>u v. ledger_validate g = Ok u \<and> reservations_valid g rs = Ok v
      \<and> \<not> (\<not> resource_id req \<or> deadline \<le> now \<or> 30000 < deadline - now)"
    using assms unfolding admit_def and_then_Inr_iff if_err_Inr_iff by blast
  then show ?thesis using replay by (simp add: admit_def)
next
  case (fresh lid)
  have pre: "ledger_wf g" "\<not> (\<not> resource_id req \<or> deadline \<le> now \<or> 30000 < deadline - now)" "reservations_valid g rs = Ok ()"
    using assms unfolding admit_def and_then_Inr_iff if_err_Inr_iff by (auto simp: ledger_validate_iff)
  note new = fresh(1) [unfolded find_request_None]
  have adm: "admissible g ow req bind rs now deadline lid"
    using admit_requires [OF new] assms fresh(3) by simp
  have g': "g' = admitted g ow req bind rs deadline lid" using fresh(5,6) by (simp add: admitted_def)
  have "find P (xs @ [x]) = Some x" if "find P xs = None" "P x" for P and xs :: "lease list" and x
    using that by (induction xs) (auto split: if_splits)
  then have "find (\<lambda>l. owner l = ow \<and> request l = req) (leases g') = Some (new_lease t ow req bind rs deadline)"
    using fresh(1,6) by (simp add: new_lease_def)
  moreover have "assert_active g' t ow now = Ok (new_lease t ow req bind rs deadline)"
    using admitted_active [OF pre(1) adm] g' fresh(5) by simp
  moreover have "reservations_valid g' rs = Ok ()"
    using pre(3) reservations_valid_domains [of g' g rs] fresh(6) by simp
  moreover have "ledger_validate g' = Ok ()" using fresh(7) by (simp add: ledger_validate_iff)
  ultimately show ?thesis using pre(2) by (simp add: admit_def new_lease_def)
qed

lemma restart_shape:
  assumes "restart g epoch inventory = Ok g'"
  shows "leases g' = map fence_lease (map (drain_lease ''manager-restart'') (leases g))" "manager_epoch g' = epoch"
    "bm_keys (domains g) \<noteq> [] \<Longrightarrow> domains g' = bm_map (restart_domain inventory) (domains g)" "ledger_wf g'"
  using assms by (auto simp: restart_def and_then_Inr_iff commit_Ok fence_outputs_def bm_is_empty_iff split: if_splits)

lemma restart_retained:
  assumes "restart g epoch inventory = Ok g'" "bm_keys (domains g) \<noteq> []"
  shows "retained_of g' name = retained_of g name"
  using restart_shape(3) [OF assms]
  by (auto simp: retained_of_def restart_domain_def split: option.splits)

lemma lease_charge_drained: "lease_charge name (fence_lease (drain_lease why l)) = lease_charge name l"
  by (simp add: lease_charge_def fence_lease_def drain_lease_def)

lemma fenced_drained:
  "state (fence_lease (drain_lease why l)) \<noteq> Active"
  "output_sha256 (fence_lease (drain_lease why l)) \<noteq> None \<Longrightarrow> output_fenced (fence_lease (drain_lease why l))"
  by (auto simp: fence_lease_def drain_lease_def split: if_splits)

text \<open>A lease stays well formed when domain epochs grow, as long as an active one sees none move.\<close>

lemma epochs_ok_grow:
  assumes ok: "epochs_ok g l"
    and dom: "\<And>n d. n \<in> res_domain ` set (reservations l) \<Longrightarrow> bm_get (domains g) n = Some d \<Longrightarrow>
      \<exists>d'. bm_get (domains g') n = Some d' \<and> domain_epoch d \<le> domain_epoch d'
        \<and> (state l = Active \<longrightarrow> domain_epoch d' = domain_epoch d)"
  shows "epochs_ok g' l"
  unfolding epochs_ok_def
proof (intro allI impI)
  fix e assume e: "output_domain_epochs l = Some e"
  with ok have old: "\<not> epochs_invalid g l e" by (simp add: epochs_ok_def)
  have keys: "n \<in> res_domain ` set (reservations l)" if "(n, v) \<in> set (bm_entries e)" for n v
  proof -
    have "n \<in> set (bm_keys e)" using that by (force simp: bm_keys_def)
    then show ?thesis using old by (auto simp: epochs_invalid_def)
  qed
  have "case bm_get (domains g') n of None \<Rightarrow> False | Some d \<Rightarrow>
      epoch_value v \<noteq> 0 \<and> epoch_value v \<le> domain_epoch d \<and> (state l = Active \<longrightarrow> epoch_value v = domain_epoch d)"
    if nv: "(n, v) \<in> set (bm_entries e)" for n v
  proof -
    obtain d where d: "bm_get (domains g) n = Some d" "epoch_value v \<noteq> 0" "epoch_value v \<le> domain_epoch d"
        "state l = Active \<longrightarrow> epoch_value v = domain_epoch d"
      using old nv by (fastforce simp: epochs_invalid_def list_ex_iff not_less split: option.splits)
    obtain d' where "bm_get (domains g') n = Some d'" "domain_epoch d \<le> domain_epoch d'"
        "state l = Active \<longrightarrow> domain_epoch d' = domain_epoch d"
      using dom [OF keys [OF nv] d(1)] by blast
    then show ?thesis using d order_trans [of "epoch_value v" "domain_epoch d"] by simp
  qed
  then show "\<not> epochs_invalid g' l e"
    using old by (fastforce simp: epochs_invalid_def list_ex_iff not_less split: option.splits)
qed

lemma lease_ok_grow:
  assumes ok: "lease_ok g l" and same: "manager_epoch g' = manager_epoch g" "generation g' = generation g"
    and dom: "\<And>n d. n \<in> res_domain ` set (reservations l) \<Longrightarrow> bm_get (domains g) n = Some d \<Longrightarrow>
      \<exists>d'. bm_get (domains g') n = Some d' \<and> domain_epoch d \<le> domain_epoch d'
        \<and> (state l = Active \<longrightarrow> domain_epoch d' = domain_epoch d)"
  shows "lease_ok g' l"
proof -
  have "epochs_ok g l" using ok unfolding lease_ok_def by blast
  then have "epochs_ok g' l" by (rule epochs_ok_grow [OF _ dom])
  moreover have "reservations_valid g' (reservations l) = Ok ()"
    using ok dom by (fastforce simp: lease_ok_def reservations_valid_Ok)
  ultimately show ?thesis using ok same unfolding lease_ok_def by simp
qed

lemma lease_ok_quarantine:
  assumes "lease_ok g l" "resource_id why"
  shows "lease_ok g (quarantine_lease name why l)"
proof (cases "list_ex (\<lambda>r. res_domain r = name) (reservations l)")
  case True
  have d: "lease_ok g (drain_lease why l)" using assms by (rule lease_ok_drain)
  show ?thesis
  proof (cases "output_sha256 l")
    case None
    then have "\<not> output_fenced (drain_lease why l)" using assms(1) by (auto simp: lease_ok_def drain_lease_def)
    then have "(drain_lease why l)\<lparr>output_fenced := False\<rparr> = drain_lease why l"
      by (cases "drain_lease why l") simp
    then show ?thesis using True None d by (simp add: quarantine_lease_def)
  next
    case (Some out)
    then show ?thesis
      using True lease_ok_fence [OF d drain_not_active] by (simp add: quarantine_lease_def drain_lease_def)
  qed
qed (use assms in \<open>simp add: quarantine_lease_def\<close>)

lemma quarantine_step: "lease_ok g l \<Longrightarrow> draining_step l (quarantine_lease name why l)"
  unfolding draining_step_def using quarantine_lease_le [of g l name why]
  by (auto simp: quarantine_lease_def drain_lease_def split: if_splits)

lemma quarantine_lease_touched:
  assumes "name \<in> res_domain ` set (reservations l)"
  shows "state (quarantine_lease name why l) \<noteq> Active"
    "output_fenced (quarantine_lease name why l) = (output_sha256 l \<noteq> None)"
  using assms drain_not_active [of why l] by (auto simp: quarantine_lease_def list_ex_iff)

lemma quarantine_lease_fields [simp]:
  "reservations (quarantine_lease name why l) = reservations l" "token (quarantine_lease name why l) = token l"
  "output_sha256 (quarantine_lease name why l) = output_sha256 l"
  by (auto simp: quarantine_lease_def drain_lease_def)

lemma ledger_wf_domain_insert:
  assumes wf: "ledger_wf g" and d: "bm_get (domains g) name = Some d"
    and d': "domain_ok name d'" "domain_epoch d \<le> domain_epoch d'" "retained d' = retained d" "quarantined d'"
    and calm: "\<And>l. l \<in> set (leases g) \<Longrightarrow> name \<in> res_domain ` set (reservations l) \<Longrightarrow> state l \<noteq> Active"
  shows "ledger_wf (g\<lparr>domains := bm_insert name d' (domains g)\<rparr>)" (is "ledger_wf ?g")
proof -
  have keys: "bm_keys (domains ?g) = bm_keys (domains g)" using d by (simp add: bm_keys_insert_present)
  have init: "manager_epoch g \<noteq> []" and iok: "initialized_ok g"
    using wf bm_keys_iff [of name "domains g"] d by (auto simp: ledger_wf_def uninitialized_ok_def split: if_splits)
  have same: "committed ?g n = committed g n" for n
    using d d'(3) by (simp add: committed_def retained_of_def)
  have "lease_ok ?g l" if "l \<in> set (leases g)" for l
  proof (rule lease_ok_grow [OF ledger_wf_lease_ok [OF wf that]])
    fix n e
    assume "n \<in> res_domain ` set (reservations l)" "bm_get (domains g) n = Some e"
    then show "\<exists>e'. bm_get (domains ?g) n = Some e' \<and> domain_epoch e \<le> domain_epoch e'
        \<and> (state l = Active \<longrightarrow> domain_epoch e' = domain_epoch e)"
      using calm [OF that] d d'(2) by auto
  qed simp_all
  moreover have "within_capacity ?g"
    using iok d d'(4) by (auto simp: initialized_ok_def within_capacity_def same)
  moreover have "ledger_generations ?g = ledger_generations g" "archive_ok ?g = archive_ok g"
    by (simp_all add: ledger_generations_def archive_ok_def fun_eq_iff)
  moreover have "domain_ok n e" if "bm_get (domains ?g) n = Some e" for n e
    using that d'(1) iok by (auto simp: initialized_ok_def split: if_splits)
  ultimately have "initialized_ok ?g"
    using iok keys by (simp add: initialized_ok_def del: sorted_wrt.simps)
  then show ?thesis using wf init keys by (simp add: ledger_wf_def)
qed

lemma quarantine_succeeds:
  assumes wf: "ledger_wf g" and d: "bm_get (domains g) name = Some d" and why: "resource_id why"
    and room: "quarantined d \<or> unat (domain_epoch d) + 1 < 2 ^ 64"
  obtains d' where "quarantine g name why = Ok (g\<lparr>domains := bm_insert name d' (domains g),
      leases := map (quarantine_lease name why) (leases g)\<rparr>)"
    "retained d' = retained d" "quarantined d'"
proof -
  define d' where "d' = (if quarantined d then d else d\<lparr>domain_epoch := domain_epoch d + 1, quarantined := True\<rparr>)"
  let ?m = "g\<lparr>leases := map (quarantine_lease name why) (leases g)\<rparr>"
  have step: "\<not> quarantined d \<Longrightarrow> checked_add (domain_epoch d) 1 = Some (domain_epoch d + 1)"
    using room by (simp add: checked_add_Some)
  have le: "domain_epoch d \<le> domain_epoch d'" "quarantined d'" "retained d' = retained d"
    using checked_succ [OF step] by (auto simp: d'_def)
  have "domain_ok name d'"
    using ledger_wf_domain [OF wf d] le(1) by (auto simp: d'_def domain_ok_def domain_validate_def split: if_splits)
  moreover have "ledger_wf ?m"
    using ledger_wf_lease_ok [OF wf] by (intro ledger_wf_map wf) (auto intro!: lease_ok_quarantine why intro: quarantine_step)
  ultimately have wf': "ledger_wf (?m\<lparr>domains := bm_insert name d' (domains ?m)\<rparr>)"
    by (intro ledger_wf_domain_insert [where d = d]) (use d le quarantine_lease_touched(1) in auto)
  have eq: "?m\<lparr>domains := bm_insert name d' (domains ?m)\<rparr>
      = g\<lparr>domains := bm_insert name d' (domains g), leases := map (quarantine_lease name why) (leases g)\<rparr>"
    by (cases g) simp
  have "ledger_wf (g\<lparr>domains := bm_insert name d' (domains g), leases := map (quarantine_lease name why) (leases g)\<rparr>)"
    using wf' unfolding eq .
  then have "quarantine g name why = Ok (g\<lparr>domains := bm_insert name d' (domains g),
      leases := map (quarantine_lease name why) (leases g)\<rparr>)"
    using why d step by (cases "quarantined d") (simp_all add: quarantine_def commit_Ok d'_def)
  then show thesis using le that by blast
qed

lemma find_update:
  "(\<And>x. P x \<Longrightarrow> P (f x)) \<Longrightarrow> find P (update_first P f xs) = map_option f (find P xs)"
  by (induction xs) auto

lemma any_quarantined_domains: "domains g' = domains g \<Longrightarrow> any_quarantined g' rs = any_quarantined g rs"
  by (induction rs) (simp_all cong: if_cong)

lemma assert_active_iff:
  "assert_active g t ow now = Ok l \<longleftrightarrow> find_lease g t ow = Ok l \<and> token_epoch t = manager_epoch g
     \<and> state l = Active \<and> now < deadline_ms l \<and> any_quarantined g (reservations l) = Ok False"
  unfolding assert_active_def and_then_Inr_iff if_err_Inr_iff by (auto simp: not_le)

lemma completed_receipt:
  assumes "complete_output g t ow now out = Ok g'"
  obtains l e where "assert_active g' t ow now = Ok l" "output_sha256 l = Some out"
    "output_domain_epochs l = Some e" "current_epochs g' (reservations l) = Ok e"
  using assms
proof (cases rule: complete_output_Ok)
  case (replay l e)
  then show thesis using that by blast
next
  case (fresh l e)
  let ?f = "\<lambda>l. l\<lparr>output_sha256 := Some out, output_domain_epochs := Some e\<rparr>"
  have "domains g' = domains g" "manager_epoch g' = manager_epoch g" using fresh(5) by simp_all
  moreover have "find_lease g' t ow = Ok (?f l)" if "find_lease g t ow = Ok l"
    using that fresh(5) by (simp add: find_lease_def ok_or_Inr_iff find_update)
  ultimately have "assert_active g' t ow now = Ok (?f l)"
    using fresh(1) any_quarantined_domains [of g' g] by (simp add: assert_active_iff)
  moreover have "current_epochs g' (reservations l) = current_epochs g (reservations l)"
    unfolding current_epochs_def \<open>domains g' = domains g\<close> ..
  ultimately show thesis using that [of "?f l" e] fresh(4) by simp
qed

section \<open>Properties\<close>

text \<open>
  Admission of a request that holds no lease yet: on a valid ledger it succeeds exactly
  when the request is well formed and every reserved domain has room without quarantine or
  pressure. On success exactly one lease is added, its token proves authority at once, each domain is
  charged by exactly its reservation, and the ledger stays valid. Otherwise it returns an error.
\<close>

theorem admit_exact:
  assumes wf: "ledger_wf g" and new: "\<forall>l \<in> set (leases g). (owner l, request l) \<noteq> (ow, req)"
    and res: "admit (Ok lid) g ow req bind rs now deadline = result"
  shows "if admissible g ow req bind rs now deadline lid
    then \<exists>g' t. result = Ok (g', t) \<and> ledger_wf g' \<and> is_ok (assert_active g' t ow now)
      \<and> leases g' = leases g @ [new_lease t ow req bind rs deadline] \<and> generation g' = generation g + 1
      \<and> domains g' = domains g \<and> (\<forall>name. committed g' name = committed g name + plan_charge name rs)
    else \<not> is_ok result"
proof (cases "admissible g ow req bind rs now deadline lid")
  case True
  show ?thesis
    using True admit_admissible [OF wf new True] res ledger_wf_admitted [OF wf True new]
      admitted_active [OF wf True] committed_admitted [of g ow req bind rs deadline lid]
    by (simp add: admitted_def)
next
  case False
  then show ?thesis using admit_requires [OF new] res by (cases result) auto
qed

definition sample_domain :: domain where
  "sample_domain = \<lparr>capacity = 100, reserve = 10, pressure_enter = 90, pressure_exit = 80, observed = 0,
     retained = 5, pressure = False, quarantined = False, domain_epoch = 1\<rparr>"

definition sample_ledger :: ledger where
  "sample_ledger = \<lparr>schema_version = 1, manager_epoch = ''m1'', generation = 7,
     domains = bm_of_list [(''gpu'', sample_domain)], archives = [], leases = []\<rparr>"

definition sample_owner :: owner where
  "sample_owner = \<lparr>uid = 1000, pid = 42, start_ticks = 9, boot = ''b'', cgroup_device = 1, cgroup_inode = 2\<rparr>"

definition sample_plan :: "reservation list" where
  "sample_plan = [\<lparr>res_domain = ''gpu'', loading = 40, serving = 30\<rparr>]"

definition sample_binding :: string where
  "sample_binding = replicate 64 CHR ''a''"

definition sample_token :: token where
  "sample_token = \<lparr>lease_id = ''l1'', token_generation = 8, token_epoch = ''m1''\<rparr>"

definition sample_admitted :: ledger where
  "sample_admitted = admitted sample_ledger sample_owner ''r1'' sample_binding sample_plan 2000 ''l1''"

lemma sample_ledger_wf: "ledger_wf sample_ledger"
  unfolding ledger_validate_iff [symmetric] by code_simp

lemma sample_unclaimed: "\<forall>l \<in> set (leases sample_ledger). (owner l, request l) \<noteq> (sample_owner, ''r1'')"
  by (simp add: sample_ledger_def)

lemma sample_admissible: "admissible sample_ledger sample_owner ''r1'' sample_binding sample_plan 1000 2000 ''l1''"
proof -
  have "list_all is_ascii_hexdigit sample_binding" by (simp add: sample_binding_def list_all_iff ascii_defs)
  moreover have "length sample_binding = 64" by (simp add: sample_binding_def)
  moreover have "room sample_ledger (hd sample_plan)" 
    unfolding room_def by (rule exI [of _ sample_domain]) code_simp
  moreover have "resource_id ''r1''" "resource_id ''l1''" "resource_id ''b''" by code_simp+
  moreover have "reservations_valid sample_ledger sample_plan = Ok ()" by code_simp
  ultimately show ?thesis
    by (simp add: admissible_def sample_owner_def sample_plan_def sample_ledger_def MAX_RECORDS_def)
qed

lemma sample_admit: "admit (Ok ''l1'') sample_ledger sample_owner ''r1'' sample_binding sample_plan 1000 2000
    = Ok (sample_admitted, sample_token)"
  using admit_admissible [OF sample_ledger_wf sample_unclaimed sample_admissible]
  by (simp add: sample_admitted_def sample_token_def sample_ledger_def)

lemma sample_admitted_wf: "ledger_wf sample_admitted"
  unfolding sample_admitted_def by (rule ledger_wf_admitted [OF sample_ledger_wf sample_admissible sample_unclaimed])

text \<open>The admission of a sample plan on a sample ledger.\<close>

theorem admit_exact_witness:
  "\<exists>g' t. admit (Ok ''l1'') sample_ledger sample_owner ''r1'' sample_binding sample_plan 1000 2000 = Ok (g', t)
     \<and> ledger_wf g' \<and> committed g' ''gpu'' = 45"
proof -
  have "committed sample_ledger ''gpu'' = 5" "plan_charge ''gpu'' sample_plan = 40" by code_simp+
  then show ?thesis
    using admit_exact [OF sample_ledger_wf sample_unclaimed refl, of sample_binding sample_plan 1000 2000 "''l1''"] sample_admissible
    by auto
qed

text \<open>
  Repeating an admission is idempotent: whatever the random source then yields, the same
  request on the resulting ledger returns the same token and changes nothing.
\<close>

theorem admit_idempotent:
  assumes "admit rid g ow req bind rs now deadline = Ok (g', t)"
  shows "admit rid' g' ow req bind rs now deadline = Ok (g', t)"
  using assms by (rule admit_repeated)

text \<open>The repeated admission of the sample plan, with a failing random source.\<close>

theorem admit_idempotent_witness:
  "admit (Err ''no entropy'') sample_admitted sample_owner ''r1'' sample_binding sample_plan 1000 2000
     = Ok (sample_admitted, sample_token)"
  by (rule admit_idempotent [OF sample_admit])

text \<open>
  C24: No ledger that the operations reach from the empty one commits more than a domain has:
  for every domain that is not quarantined, the retained bytes and the peak of every reservation of
  every unreleased lease add up, without wrap-around, to at most capacity minus reserve.
\<close>

theorem ledger_never_overcommitted:
  assumes run: "g = foldl (ledger_step digest) ledger_empty events"
    and d: "bm_get (domains g) name = Some d" "\<not> quarantined d"
  shows "unat (retained d)
      + (\<Sum>l \<leftarrow> filter (\<lambda>l. state l \<noteq> Released) (leases g). plan_charge name (reservations l))
    \<le> unat (capacity d) - unat (reserve d)"
proof -
  have wf: "ledger_wf g" unfolding run by (rule ledger.invariant_reachable) (rule refl)
  have "committed g name = unat (retained d)
      + (\<Sum>l \<leftarrow> filter (\<lambda>l. state l \<noteq> Released) (leases g). plan_charge name (reservations l))"
    using d(1) by (simp add: committed_def retained_of_def lease_charges_unreleased)
  moreover have "committed g name \<le> unat (capacity d - reserve d)"
    using wf d bm_keys_iff [of name "domains g"]
    by (auto simp: ledger_wf_def uninitialized_ok_def initialized_ok_def within_capacity_def split: if_splits)
  moreover have "unat (capacity d - reserve d) = unat (capacity d) - unat (reserve d)"
    using domain_okD [OF ledger_wf_domain [OF wf d(1)]] by (simp add: unat_sub less_imp_le)
  ultimately show ?thesis by simp
qed

text \<open>A ledger reached by a first start and one admission.\<close>

definition sample_run :: ledger where
  "sample_run = foldl (ledger_step (\<lambda>_. [])) ledger_empty
     [Restart ''m1'' (domains sample_ledger),
      Admit (Ok ''l1'') sample_owner ''r1'' sample_binding sample_plan 1000 2000]"

definition sample_shape :: "ledger \<Rightarrow> bool" where
  "sample_shape g \<longleftrightarrow> length (leases g) = 1 \<and> bm_get (domains g) ''gpu'' = Some sample_domain"

theorem ledger_never_overcommitted_witness:
  "length (leases sample_run) = 1 \<and> unat (retained sample_domain)
      + (\<Sum>l \<leftarrow> filter (\<lambda>l. state l \<noteq> Released) (leases sample_run). plan_charge ''gpu'' (reservations l))
    \<le> unat (capacity sample_domain) - unat (reserve sample_domain)"
proof
  have "sample_shape sample_run" by code_simp
  then have shape: "length (leases sample_run) = 1" "bm_get (domains sample_run) ''gpu'' = Some sample_domain" by (simp_all add: sample_shape_def)
  show "length (leases sample_run) = 1" by (fact shape)
  have "\<not> quarantined sample_domain" by (simp add: sample_domain_def)
  with shape(2) show "unat (retained sample_domain)
      + (\<Sum>l \<leftarrow> filter (\<lambda>l. state l \<noteq> Released) (leases sample_run). plan_charge ''gpu'' (reservations l))
    \<le> unat (capacity sample_domain) - unat (reserve sample_domain)"
    by (rule ledger_never_overcommitted [OF sample_run_def])
qed

text \<open>
  Revocation fences authority, not capacity: after it the ledger is still valid, no
  owner can use the token at any time, and the charge of every domain is what it was.
\<close>

theorem revoke_keeps_charges:
  assumes wf: "ledger_wf g" and ok: "revoke g t why = Ok g'"
  shows "ledger_wf g' \<and> \<not> is_ok (assert_active g' t ow now) \<and> charged g' name = charged g name"
proof (intro conjI)
  have g': "g' = g\<lparr>leases := map (\<lambda>l. if token l = t then revoke_lease why l else l) (leases g)\<rparr>"
    using ok update_token_map [OF wf] by (simp add: revoke_Ok)
  have "state (revoke_lease why l) \<noteq> Active" for l
    using drain_not_active [of why l] by (simp add: revoke_lease_def Let_def)
  then show "\<not> is_ok (assert_active g' t ow now)" by (intro assert_active_stale) (auto simp: g')
  have "list_all2 draining_step (leases g) (leases g')"
    unfolding g' by (auto intro!: list_all2_map_in revoke_step simp: draining_step_def [of x x for x])
  then have "committed g' name = committed g name"
    using committed_step [of g "leases g'" name] by (simp add: g')
  moreover have "domains g' = domains g" by (simp add: g')
  ultimately show "charged g' name = charged g name" by (intro charged_cong)
qed (rule ledger_wf_revoke [OF assms])

text \<open>The revocation of the sample lease.\<close>

definition sample_revoked :: ledger where
  "sample_revoked = sample_admitted\<lparr>leases := map (revoke_lease ''operator'') (leases sample_admitted)\<rparr>"

lemma sample_revoke: "revoke sample_admitted sample_token ''operator'' = Ok sample_revoked"
  by code_simp

theorem revoke_keeps_charges_witness:
  "\<not> is_ok (assert_active sample_revoked sample_token sample_owner 1500)
     \<and> charged sample_revoked ''gpu'' = charged sample_admitted ''gpu''"
  using revoke_keeps_charges [OF sample_admitted_wf sample_revoke, of sample_owner 1500 "''gpu''"] by simp

text \<open>
  A manager restart over an existing inventory leaves no authority behind: no lease is
  active, every computed output is fenced, no token is usable by anyone, while every lease and
  every charge is kept.
\<close>

theorem restart_fences_all:
  assumes ok: "restart g epoch inventory = Ok g'" and known: "bm_keys (domains g) \<noteq> []"
  shows "(\<forall>l \<in> set (leases g'). state l \<noteq> Active \<and> (output_sha256 l = None \<or> output_fenced l))
    \<and> (\<forall>t ow now. \<not> is_ok (assert_active g' t ow now))
    \<and> map token (leases g') = map token (leases g) \<and> (\<forall>name. committed g' name = committed g name)"
proof (intro conjI allI)
  note shape = restart_shape [OF ok]
  show calm: "\<forall>l \<in> set (leases g'). state l \<noteq> Active \<and> (output_sha256 l = None \<or> output_fenced l)"
    unfolding shape(1) using fenced_drained by fastforce
  show "\<not> is_ok (assert_active g' t ow now)" for t ow now
    using calm by (intro assert_active_stale) blast
  show "map token (leases g') = map token (leases g)"
    unfolding shape(1) by (simp add: fence_lease_def drain_lease_def)
  show "committed g' name = committed g name" for name
    using restart_retained [OF ok known] by (simp add: committed_def shape(1) lease_charge_drained comp_def)
qed

text \<open>The restart of the manager over the sample ledger.\<close>

definition sample_restarted :: ledger where
  "sample_restarted = sample_admitted\<lparr>manager_epoch := ''m2'',
     leases := map (drain_lease ''manager-restart'') (leases sample_admitted)\<rparr>"

theorem restart_fences_all_witness:
  "\<not> is_ok (assert_active sample_restarted sample_token sample_owner 1500)
     \<and> committed sample_restarted ''gpu'' = committed sample_admitted ''gpu''"
proof -
  have "restart sample_admitted ''m2'' (domains sample_ledger) = Ok sample_restarted" by code_simp
  moreover have "bm_keys (domains sample_admitted) \<noteq> []" by code_simp
  ultimately show ?thesis
    using restart_fences_all [of sample_admitted "''m2''" "domains sample_ledger" sample_restarted] by simp
qed

text \<open>
  Quarantine of a known domain never gets stuck on a valid ledger, short of an exhausted
  epoch: it succeeds, the domain is quarantined, every lease that reserves it loses its authority and its
  output is fenced, and no domain's charge changes.
\<close>

theorem quarantine_isolates:
  assumes wf: "ledger_wf g" and d: "bm_get (domains g) name = Some d" and why: "resource_id why"
    and room: "quarantined d \<or> unat (domain_epoch d) + 1 < 2 ^ 64"
  shows "\<exists>g' d'. quarantine g name why = Ok g' \<and> bm_get (domains g') name = Some d' \<and> quarantined d'
    \<and> (\<forall>l \<in> set (leases g'). name \<in> res_domain ` set (reservations l) \<longrightarrow>
         (\<forall>ow now. \<not> is_ok (assert_active g' (token l) ow now)) \<and> (output_sha256 l = None \<or> output_fenced l))
    \<and> (\<forall>n. committed g' n = committed g n)"
proof -
  obtain d' where ok: "quarantine g name why = Ok (g\<lparr>domains := bm_insert name d' (domains g),
      leases := map (quarantine_lease name why) (leases g)\<rparr>)" (is "_ = Ok ?g")
    and d': "retained d' = retained d" "quarantined d'"
    using quarantine_succeeds [OF wf d why room] .
  have wf': "ledger_wf ?g" using ok by (rule quarantine_Ok)
  have touched: "state l \<noteq> Active \<and> (output_sha256 l = None \<or> output_fenced l)"
    if "l \<in> set (leases ?g)" "name \<in> res_domain ` set (reservations l)" for l
    using that quarantine_lease_touched [of name _ why] by auto
  have "\<not> is_ok (assert_active ?g (token l) ow now)"
    if l: "l \<in> set (leases ?g)" "name \<in> res_domain ` set (reservations l)" for l ow now
  proof (rule assert_active_stale, intro ballI impI)
    fix m assume "m \<in> set (leases ?g)" "token m = token l"
    then have "l = m" by (intro ledger_wf_lease_unique [OF wf' l(1)]) simp_all
    then show "state m \<noteq> Active" using touched [OF l] by simp
  qed
  moreover have "committed ?g n = committed g n" for n
  proof -
    have "(\<Sum>l \<leftarrow> leases ?g. lease_charge n l) = (\<Sum>l \<leftarrow> leases g. lease_charge n l)"
      using ledger_wf_lease_ok [OF wf]
      by (intro charges_step) (auto intro!: list_all2_map_in quarantine_step [of g])
    then show ?thesis using d d'(1) by (simp add: committed_def retained_of_def)
  qed
  ultimately show ?thesis using ok d'(2) touched by auto
qed

text \<open>The quarantine of the sample domain under an admitted lease.\<close>

theorem quarantine_isolates_witness:
  "\<exists>g'. quarantine sample_admitted ''gpu'' ''fault'' = Ok g' \<and> committed g' ''gpu'' = committed sample_admitted ''gpu''"
proof -
  have "bm_get (domains sample_admitted) ''gpu'' = Some sample_domain" by code_simp
  moreover have "resource_id ''fault''" by code_simp
  ultimately show ?thesis
    using quarantine_isolates [OF sample_admitted_wf, of "''gpu''" sample_domain "''fault''"]
    by (auto simp: sample_domain_def)
qed

text \<open>
  C25: Authority that ends never returns: once a lease of a valid ledger is draining or released,
  no later ledger, after any sequence of operations, accepts its token from any owner at any time.
\<close>

theorem authority_never_returns:
  assumes wf: "ledger_wf g" and l: "l \<in> set (leases g)" "state l \<noteq> Active"
  shows "\<not> is_ok (assert_active (foldl (ledger_step digest) g events) (token l) ow now)"
proof (rule assert_active_stale, intro ballI impI)
  let ?h = "foldl (ledger_step digest) g events"
  have le: "ledger_le g ?h" by (rule ledger.le_run [OF wf])
  fix m assume m: "m \<in> set (leases ?h)" "token m = token l"
  from le m(1) show "state m \<noteq> Active"
  proof (cases rule: ledger_le_origin)
    case (kept k)
    have "k = l" by (rule ledger_wf_lease_unique [OF wf kept(1) l(1)]) (use kept(3) m(2) in simp)
    then have "state_rank (state l) \<le> state_rank (state m)" using kept(2) by (simp add: lease_le_def)
    then show ?thesis using l(2) by (cases "state l") auto
  next
    case fresh
    then show ?thesis using ledger_wf_lease_ok [OF wf l(1)] m(2) by (auto simp: lease_ok_def)
  qed
qed

text \<open>The revoked sample lease, after an expiry and an attempt at renewal.\<close>

theorem authority_never_returns_witness:
  "\<not> is_ok (assert_active (foldl (ledger_step (\<lambda>_. [])) sample_revoked
      [Expire 1200, Renew sample_token sample_owner 1300 2300]) sample_token sample_owner 1400)"
proof -
  define l where "l = hd (leases sample_revoked)"
  have l: "l \<in> set (leases sample_revoked)" "state l \<noteq> Active" and t: "token l = sample_token"
    unfolding l_def by code_simp+
  show ?thesis
    unfolding t [symmetric] by (rule authority_never_returns [OF ledger_wf_revoke [OF sample_admitted_wf sample_revoke] l])
qed

text \<open>
  Receipts are immutable and fences permanent: when a lease with a computed output is
  still present after any sequence of operations, its identity, plan, output digest and epoch snapshot are
  what they were, its state has not moved backwards, and a fence is still there; when it is not,
  an archive covers its generation.
\<close>

theorem receipts_immutable:
  assumes wf: "ledger_wf g" and l: "l \<in> set (leases g)" "output_sha256 l = Some out"
  shows "(\<exists>l' \<in> set (leases (foldl (ledger_step digest) g events)). token l' = token l \<and> owner l' = owner l
      \<and> request l' = request l \<and> binding l' = binding l \<and> reservations l' = reservations l
      \<and> output_sha256 l' = Some out \<and> (output_domain_epochs l = None \<or> output_domain_epochs l' = output_domain_epochs l)
      \<and> (output_fenced l \<longrightarrow> output_fenced l') \<and> state_rank (state l) \<le> state_rank (state l'))
    \<or> (\<exists>a \<in> set (archives (foldl (ledger_step digest) g events)). token_generation (token l) \<le> through_generation a)"
  using ledger.le_run [OF wf, of digest events] l(1)
proof (cases rule: ledger_le_kept)
  case (kept l')
  then show ?thesis using l(2) by (cases "output_domain_epochs l") (auto simp: lease_le_def)
qed blast

text \<open>The receipt of a sample computation, after a revocation.\<close>

definition sample_completed :: ledger where
  "sample_completed = sample_admitted\<lparr>leases := map (\<lambda>l. l\<lparr>output_sha256 := Some sample_binding,
     output_domain_epochs := Some (bm_of_list [(''gpu'', OutputEpoch 1)])\<rparr>) (leases sample_admitted)\<rparr>"

lemma sample_complete: "complete_output sample_admitted sample_token sample_owner 1500 sample_binding = Ok sample_completed"
  by code_simp

lemma sample_completed_wf: "ledger_wf sample_completed"
  by (rule ledger_wf_complete_output [OF sample_admitted_wf sample_complete])

theorem receipts_immutable_witness:
  "\<exists>l' \<in> set (leases (foldl (ledger_step (\<lambda>_. [])) sample_completed [Revoke sample_token ''operator''])).
     output_sha256 l' = Some sample_binding"
proof -
  define l where "l = hd (leases sample_completed)"
  have "l \<in> set (leases sample_completed)" "output_sha256 l = Some sample_binding"
    unfolding l_def by code_simp+
  moreover have "archives (foldl (ledger_step (\<lambda>_. [])) sample_completed [Revoke sample_token ''operator'']) = []"
    by code_simp
  ultimately show ?thesis
    using receipts_immutable [OF sample_completed_wf, of l sample_binding "\<lambda>_. []" "[Revoke sample_token ''operator'']"]
    by auto
qed

text \<open>
  A computation output is recorded exactly once: after a completion succeeded, the
  ledger is valid, repeating it with the same digest changes nothing, and any other digest is refused.
\<close>

theorem output_recorded_once:
  assumes wf: "ledger_wf g" and ok: "complete_output g t ow now out = Ok g'"
  shows "ledger_wf g' \<and> complete_output g' t ow now out = Ok g'
    \<and> (out' \<noteq> out \<longrightarrow> \<not> is_ok (complete_output g' t ow now out'))"
proof -
  have wf': "ledger_wf g'" by (rule ledger_wf_complete_output [OF wf ok])
  have hex: "hex_string 64 out"
    using ok unfolding complete_output_def and_then_Inr_iff if_err_Inr_iff by blast
  obtain l e where "assert_active g' t ow now = Ok l" "output_sha256 l = Some out"
      "output_domain_epochs l = Some e" "current_epochs g' (reservations l) = Ok e"
    using completed_receipt [OF ok] .
  moreover have "ledger_validate g' = Ok ()" using wf' by (simp add: ledger_validate_iff)
  ultimately show ?thesis using wf' hex by (simp add: complete_output_def)
qed

text \<open>The sample computation, completed again.\<close>

theorem output_recorded_once_witness:
  "complete_output sample_completed sample_token sample_owner 1500 sample_binding = Ok sample_completed
     \<and> \<not> is_ok (complete_output sample_completed sample_token sample_owner 1500 (replicate 64 CHR ''b''))"
proof -
  have "replicate 64 CHR ''b'' \<noteq> sample_binding" by (simp add: sample_binding_def)
  then show ?thesis using output_recorded_once [OF sample_admitted_wf sample_complete] by blast
qed

end
