(* ===== verification/Resource_Store.thy ===== *)
theory Resource_Store
  imports Resource_Ledger
begin

text \<open>
  The durable store around the ledger (\<open>resources.rs\<close>, \<open>Store\<close>, and \<open>resources/exclusion.rs\<close>): reading
  with its session overlays, the transaction with its publication protocol, and the archive.

  The file system and the checkpoint authority are not part of the model: an \<open>environment\<close>
  answers each probe, read and publication from a state of its own, so that every interleaving of
  failures and foreign writes is some environment. The canonical encoding (serde and SHA-256) is
  a \<open>codec\<close>.
\<close>

section \<open>Surroundings\<close>

record ('w, 'b) environment =
  probe_exclusion :: "('w, unit) action"
  read_ledger :: "('w, 'b) action"
  verify_pair :: "('w, unit) action"
  publish_ledger :: "'b \<Rightarrow> ('w, unit) action"
  sync_ledger :: "('w, unit) action"
  read_archive :: "archive \<Rightarrow> ('w, 'b) action"
  scan_archives :: "archive list \<Rightarrow> ('w, unit) action"
  archive_room :: "archive \<Rightarrow> ('w, unit) action"
  publish_archive :: "archive \<Rightarrow> 'b \<Rightarrow> ('w, unit) action"
  publish_requests :: "'b \<Rightarrow> ('w, unit) action"

record 'b codec =
  encode :: "ledger \<Rightarrow> 'b"
  decode :: "'b \<Rightarrow> ledger option"
  byte_length :: "'b \<Rightarrow> nat"
  sha256 :: "'b \<Rightarrow> string"
  review_digest :: "ledger \<Rightarrow> string"
  owner_digest :: "owner \<Rightarrow> string"

definition MAX_BYTES :: nat where "MAX_BYTES = 8 * 1024 * 1024"

record store =
  authority_lost :: bool
  published_sha256 :: string
  poisoned :: bool
  observations :: "(string, u64) bmap"
  retired_owners :: "string set"
  renewal_deadlines :: "(string, u64) bmap"

type_synonym ('w, 'a) store_action = "(store \<times> 'w, 'a) action"

text \<open>A call into the surroundings: it sees and changes their state only.\<close>

definition outside :: "('w, 'a) action \<Rightarrow> ('w, 'a) store_action" where
  "outside m = (\<lambda>(s, w). case m w of (r, w') \<Rightarrow> (r, (s, w')))"

definition with_store :: "(store \<Rightarrow> ('w, 'a) store_action) \<Rightarrow> ('w, 'a) store_action" where
  "with_store f = (\<lambda>(s, w). f s (s, w))"

definition update_store :: "(store \<Rightarrow> store) \<Rightarrow> ('w, unit) store_action" where
  "update_store f = modify_state (\<lambda>(s, w). (f s, w))"

section \<open>Exclusion\<close>

definition lose_authority :: "store \<times> 'w \<Rightarrow> store \<times> 'w" where
  "lose_authority = (\<lambda>(s, w). (s\<lparr>authority_lost := True\<rparr>, w))"

definition poison :: "store \<times> 'w \<Rightarrow> store \<times> 'w" where
  "poison = (\<lambda>(s, w). (s\<lparr>poisoned := True\<rparr>, w))"

definition verify_exclusion :: "('w, 'b) environment \<Rightarrow> ('w, unit) store_action" where
  "verify_exclusion env = with_store (\<lambda>s.
     if authority_lost s
     then lift_result (Err ''resource authority exclusion lost; preserve state and restart'')
     else on_error lose_authority (outside (probe_exclusion env)))"

definition durable_bytes :: "('w, 'b) environment \<Rightarrow> 'b codec \<Rightarrow> ('w, 'b) store_action" where
  "durable_bytes env c =
     bind_action (verify_exclusion env) (\<lambda>_.
     on_error lose_authority (
       bind_action (outside (read_ledger env)) (\<lambda>bytes.
       bind_action (with_store (\<lambda>s. lift_result (
         if sha256 c bytes \<noteq> published_sha256 s
         then Err ''resource ledger changed outside this writer; preserve state'' else Ok ()))) (\<lambda>_.
       bind_action (outside (verify_pair env)) (\<lambda>_.
       bind_action (verify_exclusion env) (\<lambda>_.
       lift_result (Ok bytes)))))))"

section \<open>Reading\<close>

fun overlay_observations :: "(string \<times> u64) list \<Rightarrow> (string, domain) bmap \<Rightarrow> (string, domain) bmap result" where
  "overlay_observations [] ds = Ok ds"
| "overlay_observations ((name, used) # rest) ds =
     and_then (ok_or (bm_get ds name) ''telemetry inventory changed'') (\<lambda>d.
       overlay_observations rest (bm_insert name (d\<lparr>observed := used\<rparr>) ds))"

definition overlay_deadline :: "(string, u64) bmap \<Rightarrow> lease \<Rightarrow> lease" where
  "overlay_deadline renewals l =
     (if state l = Active
      then case bm_get renewals (lease_id (token l)) of None \<Rightarrow> l | Some d \<Rightarrow> l\<lparr>deadline_ms := d\<rparr>
      else l)"

definition session_view :: "store \<Rightarrow> ledger \<Rightarrow> ledger result" where
  "session_view s g =
     and_then (overlay_observations (bm_entries (observations s)) (domains g)) (\<lambda>ds.
       Ok (g\<lparr>domains := ds, leases := map (overlay_deadline (renewal_deadlines s)) (leases g)\<rparr>))"

definition parse_ledger :: "'b codec \<Rightarrow> 'b \<Rightarrow> ledger result" where
  "parse_ledger c bytes =
     and_then (ok_or (decode c bytes) ''malformed resource ledger; preserve state'') (\<lambda>g.
     if encode c g \<noteq> bytes then Err ''noncanonical resource ledger; preserve state''
     else and_then (ledger_validate g) (\<lambda>_. Ok g))"

definition store_read :: "('w, 'b) environment \<Rightarrow> 'b codec \<Rightarrow> ('w, ledger) store_action" where
  "store_read env c = with_store (\<lambda>s.
     if poisoned s then lift_result (Err ''resource publication uncertain; manager restart required'')
     else bind_action (durable_bytes env c) (\<lambda>bytes.
       bind_action (lift_result (and_then (parse_ledger c bytes) (session_view s))) (\<lambda>g.
       bind_action (verify_exclusion env) (\<lambda>_.
       lift_result (Ok g)))))"

section \<open>Transactions\<close>

text \<open>The durable successor: a lease that was durable before keeps its durable deadline.\<close>

definition keep_deadline :: "lease list \<Rightarrow> lease \<Rightarrow> lease" where
  "keep_deadline before l =
     (case find (\<lambda>old. token old = token l) before of None \<Rightarrow> l | Some old \<Rightarrow> l\<lparr>deadline_ms := deadline_ms old\<rparr>)"

definition durable_next :: "ledger \<Rightarrow> ledger \<Rightarrow> ledger" where
  "durable_next before g = g\<lparr>leases := map (keep_deadline (leases before)) (leases g)\<rparr>"

definition session_overlay :: "ledger \<Rightarrow> store \<Rightarrow> store" where
  "session_overlay g s = s\<lparr>observations := bm_of_list (map (\<lambda>(name, d). (name, observed d)) (bm_entries (domains g))),
     renewal_deadlines := bm_of_list (map (\<lambda>l. (lease_id (token l), deadline_ms l))
       (filter (\<lambda>l. state l = Active) (leases g)))\<rparr>"

definition synchronize :: "('w, 'b) environment \<Rightarrow> 'b codec \<Rightarrow> bool \<Rightarrow> ('w, unit) store_action" where
  "synchronize env c acknowledge = on_error poison (
     bind_action (verify_exclusion env) (\<lambda>_.
     bind_action (if acknowledge then outside (sync_ledger env) else lift_result (Ok ())) (\<lambda>_.
     bind_action (durable_bytes env c) (\<lambda>_.
     lift_result (Ok ())))))"

definition publication :: "('w, 'b) environment \<Rightarrow> 'b codec \<Rightarrow> 'b \<Rightarrow> ('w, unit) store_action" where
  "publication env c bytes = on_error poison (
     bind_action (verify_exclusion env) (\<lambda>_.
     bind_action (outside (publish_ledger env bytes)) (\<lambda>_.
     bind_action (verify_exclusion env) (\<lambda>_.
     bind_action (outside (read_ledger env)) (\<lambda>back.
     bind_action (lift_result (if back \<noteq> bytes
       then Err ''resource publication readback differs; preserve state'' else Ok ())) (\<lambda>_.
     verify_exclusion env))))))"

definition store_transaction ::
  "('w, 'b) environment \<Rightarrow> 'b codec \<Rightarrow> (ledger \<Rightarrow> ('t \<times> ledger) result) \<Rightarrow> bool \<Rightarrow> ('w, 't) store_action" where
  "store_transaction env c operation acknowledge =
     bind_action (store_read env c) (\<lambda>g.
     bind_action (lift_result (operation g)) (\<lambda>(outcome, next).
     bind_action (lift_result (ledger_validate next)) (\<lambda>_.
     bind_action (durable_bytes env c) (\<lambda>current.
     bind_action (lift_result (ok_or (decode c current) ''malformed resource ledger'')) (\<lambda>before.
     let after = durable_next before next; bytes = encode c after in
     if MAX_BYTES < byte_length c bytes
     then lift_result (Err ''resource journal capacity exhausted'')
     else if review (review_digest c) before = review (review_digest c) after
     then bind_action (synchronize env c acknowledge) (\<lambda>_.
          bind_action (update_store (session_overlay next)) (\<lambda>_.
          lift_result (Ok outcome)))
     else bind_action (publication env c bytes) (\<lambda>_.
          bind_action (update_store (\<lambda>s. session_overlay next (s\<lparr>published_sha256 := sha256 c bytes\<rparr>))) (\<lambda>_.
          lift_result (Ok outcome))))))))"

text \<open>
  The queue of requests is another file of the same directory, published under the same exclusion. The code does not test
  \<open>poisoned\<close> here: what guards this publication is the exclusion and, where there is one, the checkpoint authority.
\<close>

definition publish_request :: "('w, 'b) environment \<Rightarrow> 'b \<Rightarrow> ('w, unit) store_action" where
  "publish_request env bytes = bind_action (verify_exclusion env) (\<lambda>_. outside (publish_requests env bytes))"

section \<open>Archives\<close>

definition parse_archive :: "'b codec \<Rightarrow> archive \<Rightarrow> 'b \<Rightarrow> ledger result" where
  "parse_archive c reference bytes =
     (if sha256 c bytes \<noteq> archive_sha256 reference
      then Err ''resource archive digest mismatch; preserve state''
      else and_then (ok_or (decode c bytes) ''malformed resource archive'') (\<lambda>g.
        if encode c g \<noteq> bytes then Err ''noncanonical resource archive''
        else and_then (ledger_validate g) (\<lambda>_.
          if generation g \<noteq> through_generation reference \<or> leases g = []
             \<or> list_ex (\<lambda>l. state l \<noteq> Released) (leases g)
          then Err ''resource archive contains outstanding or mismatched generations'' else Ok g)))"

definition archived :: "('w, 'b) environment \<Rightarrow> 'b codec \<Rightarrow> archive \<Rightarrow> ('w, ledger) store_action" where
  "archived env c reference =
     bind_action (verify_exclusion env) (\<lambda>_.
     bind_action (outside (read_archive env reference)) (\<lambda>bytes.
     bind_action (lift_result (parse_archive c reference bytes)) (\<lambda>g.
     bind_action (verify_exclusion env) (\<lambda>_.
     lift_result (Ok g)))))"

fun verify_chain ::
  "('w, 'b) environment \<Rightarrow> 'b codec \<Rightarrow> archive list \<Rightarrow> string set \<Rightarrow> archive list \<Rightarrow> ('w, string set) store_action" where
  "verify_chain env c seen retired [] = lift_result (Ok retired)"
| "verify_chain env c seen retired (reference # rest) =
     bind_action (archived env c reference) (\<lambda>g.
     if archives g \<noteq> seen then lift_result (Err ''resource archive predecessor chain mismatch'')
     else verify_chain env c (seen @ [reference])
            (retired \<union> set (map (\<lambda>l. owner_digest c (owner l)) (leases g))) rest)"

text \<open>The scan of the directory for unreferenced archives and stages is a call into the surroundings.\<close>

definition verify_archives :: "('w, 'b) environment \<Rightarrow> 'b codec \<Rightarrow> ledger \<Rightarrow> ('w, string set) store_action" where
  "verify_archives env c g =
     bind_action (verify_exclusion env) (\<lambda>_.
     bind_action (outside (scan_archives env (archives g))) (\<lambda>_.
     bind_action (verify_chain env c [] {} (archives g)) (\<lambda>retired.
     bind_action (verify_exclusion env) (\<lambda>_.
     lift_result (Ok retired)))))"

definition owner_retired :: "('w, 'b) environment \<Rightarrow> 'b codec \<Rightarrow> owner \<Rightarrow> ('w, bool) store_action" where
  "owner_retired env c ow = with_store (\<lambda>s.
     if poisoned s then lift_result (Err ''resource publication uncertain; manager restart required'')
     else bind_action (verify_exclusion env) (\<lambda>_.
       lift_result (Ok (owner_digest c ow \<in> retired_owners s))))"

definition store_archive :: "('w, 'b) environment \<Rightarrow> 'b codec \<Rightarrow> string \<Rightarrow> string \<Rightarrow> ('w, archive) store_action" where
  "store_archive env c rvw epoch =
     bind_action (store_read env c) (\<lambda>current.
     bind_action (lift_result (archive_guard (review_digest c) current rvw epoch)) (\<lambda>_.
     bind_action (verify_archives env c current) (\<lambda>_.
     bind_action (outside (read_ledger env)) (\<lambda>bytes.
     let reference = \<lparr>through_generation = generation current, archive_sha256 = sha256 c bytes\<rparr> in
     bind_action (outside (archive_room env reference)) (\<lambda>_.
     bind_action (on_error poison (
       bind_action (verify_exclusion env) (\<lambda>_.
       bind_action (outside (publish_archive env reference bytes)) (\<lambda>_.
       verify_exclusion env)))) (\<lambda>_.
     bind_action (store_transaction env c (\<lambda>g.
       and_then (archive_cut (review_digest c) rvw reference epoch g) (\<lambda>next. Ok ((), next))) True) (\<lambda>_.
     bind_action (update_store (\<lambda>s. s\<lparr>retired_owners :=
       retired_owners s \<union> set (map (\<lambda>l. owner_digest c (owner l)) (leases current))\<rparr>)) (\<lambda>_.
     lift_result (Ok reference)))))))))"

definition store_open :: "('w, 'b) environment \<Rightarrow> 'b codec \<Rightarrow> 'w \<Rightarrow> store result \<times> 'w" where
  "store_open env c w =
     (case read_ledger env w of
        (Inl e, w') \<Rightarrow> (Inl e, w')
      | (Inr bytes, w') \<Rightarrow>
          let s = \<lparr>authority_lost = False, published_sha256 = sha256 c bytes, poisoned = False,
                   observations = bm_empty, retired_owners = {}, renewal_deadlines = bm_empty\<rparr> in
          (case bind_action (store_read env c) (verify_archives env c) (s, w') of
             (Inl e, (_, w'')) \<Rightarrow> (Inl e, w'')
           | (Inr retired, (s', w'')) \<Rightarrow> (Ok (s'\<lparr>retired_owners := retired\<rparr>), w'')))"

section \<open>The store in a successful call\<close>

lemma outside_Ok: "outside m (s, w) = (r, (s', w')) \<longleftrightarrow> s' = s \<and> m w = (r, w')"
  by (auto simp: outside_def split: prod.splits)

lemma with_store_eq [simp]: "with_store f (s, w) = f s (s, w)"
  by (simp add: with_store_def)

lemma update_store_eq [simp]: "update_store f (s, w) = (Ok (), (f s, w))"
  by (simp add: update_store_def)

lemma verify_exclusion_Ok:
  "verify_exclusion env (s, w) = (Ok u, (s', w')) \<longleftrightarrow>
     s' = s \<and> \<not> authority_lost s \<and> probe_exclusion env w = (Ok (), w')"
  by (auto simp: verify_exclusion_def on_error_Inr outside_Ok)

lemma durable_bytes_Ok:
  assumes "durable_bytes env c (s, w) = (Ok bytes, (s', w'))"
  shows "s' = s" "\<not> authority_lost s" "sha256 c bytes = published_sha256 s"
  using assms
  by (auto simp: durable_bytes_def result_simps verify_exclusion_Ok outside_Ok split: if_splits prod.splits)

lemma store_read_Ok:
  assumes "store_read env c (s, w) = (Ok g, (s', w'))"
  obtains bytes g0 where "s' = s" "\<not> poisoned s" "\<not> authority_lost s" "sha256 c bytes = published_sha256 s"
    "parse_ledger c bytes = Ok g0" "session_view s g0 = Ok g"
  using assms
  by (auto simp: store_read_def result_simps verify_exclusion_Ok dest: durable_bytes_Ok split: if_splits prod.splits)

lemma parse_ledger_Ok: "parse_ledger c bytes = Ok g \<longleftrightarrow> decode c bytes = Some g \<and> encode c g = bytes \<and> ledger_wf g"
  by (auto simp: parse_ledger_def result_simps ledger_validate_iff)

lemma synchronize_Ok: "synchronize env c ack (s, w) = (Ok u, (s', w')) \<Longrightarrow> s' = s \<and> \<not> authority_lost s"
  by (auto simp: synchronize_def result_simps verify_exclusion_Ok outside_Ok dest: durable_bytes_Ok(1)
      split: if_splits prod.splits)

lemma publication_Ok:
  "publication env c bytes (s, w) = (Ok u, (s', w')) \<Longrightarrow> s' = s \<and> \<not> authority_lost s"
  by (auto simp: publication_def result_simps verify_exclusion_Ok outside_Ok split: if_splits prod.splits)

text \<open>A successful transaction: what it read, what the operation made of it, and how it was made durable.\<close>

lemma store_transaction_Ok:
  assumes "store_transaction env c operation ack (s, w) = (Ok outcome, (s', w'))"
  obtains g nxt before current w1 w2 where
    "store_read env c (s, w) = (Ok g, (s, w1))" "operation g = Ok (outcome, nxt)" "ledger_wf nxt"
    "durable_bytes env c (s, w1) = (Ok current, (s, w2))" "decode c current = Some before"
    "if review (review_digest c) before = review (review_digest c) (durable_next before nxt)
     then synchronize env c ack (s, w2) = (Ok (), (s, w')) \<and> s' = session_overlay nxt s
     else publication env c (encode c (durable_next before nxt)) (s, w2) = (Ok (), (s, w'))
       \<and> s' = session_overlay nxt (s\<lparr>published_sha256 := sha256 c (encode c (durable_next before nxt))\<rparr>)"
proof -
  obtain g s1 w1 nxt s2 w2 current before where
    rd: "store_read env c (s, w) = (Ok g, (s1, w1))" and op: "operation g = Ok (outcome, nxt)"
    and wf: "ledger_wf nxt" and db: "durable_bytes env c (s1, w1) = (Ok current, (s2, w2))"
    and dec: "decode c current = Some before"
    and fin: "(let after = durable_next before nxt; bytes = encode c after in
     if MAX_BYTES < byte_length c bytes
     then lift_result (Err ''resource journal capacity exhausted'')
     else if review (review_digest c) before = review (review_digest c) after
     then bind_action (synchronize env c ack) (\<lambda>_.
          bind_action (update_store (session_overlay nxt)) (\<lambda>_.
          lift_result (Ok outcome)))
     else bind_action (publication env c bytes) (\<lambda>_.
          bind_action (update_store (\<lambda>s. session_overlay nxt (s\<lparr>published_sha256 := sha256 c bytes\<rparr>))) (\<lambda>_.
          lift_result (Ok outcome)))) (s2, w2) = (Ok outcome, (s', w'))"
    using assms unfolding store_transaction_def
    by (auto simp: bind_action_Inr ok_or_Inr_iff ledger_validate_iff Let_def split: if_splits prod.splits)
  have s: "s1 = s" "s2 = s" using rd db durable_bytes_Ok(1) [OF db] by (auto elim: store_read_Ok)
  show thesis
    by (rule that [OF rd [unfolded s] op wf db [unfolded s] dec])
      (use fin in \<open>auto simp: s bind_action_Inr Let_def dest: synchronize_Ok publication_Ok split: if_splits\<close>)
qed

section \<open>The durable successor\<close>

lemma keep_deadline_fields [simp]:
  "token (keep_deadline before l) = token l" "owner (keep_deadline before l) = owner l"
  "request (keep_deadline before l) = request l" "state (keep_deadline before l) = state l"
  "reservations (keep_deadline before l) = reservations l"
  by (auto simp: keep_deadline_def split: option.splits)

lemma keep_deadline_step: "draining_step l (keep_deadline before l)"
  by (auto simp: keep_deadline_def draining_step_def lease_le_def split: option.splits)

lemma keep_deadline_ok:
  "lease_ok g l \<Longrightarrow> (\<And>old. old \<in> set before \<Longrightarrow> deadline_ms old \<noteq> 0) \<Longrightarrow> lease_ok g (keep_deadline before l)"
  by (auto simp: keep_deadline_def find_Some_iff intro!: lease_ok_deadline split: option.splits)

lemma durable_next_wf:
  assumes "ledger_wf before" "ledger_wf g"
  shows "ledger_wf (durable_next before g)"
  unfolding durable_next_def
proof (rule ledger_wf_map [OF assms(2)])
  fix l assume "l \<in> set (leases g)"
  then have "lease_ok g l" by (rule ledger_wf_lease_ok [OF assms(2)])
  moreover have "deadline_ms old \<noteq> 0" if "old \<in> set (leases before)" for old
    using ledger_wf_lease_ok [OF assms(1) that] unfolding lease_ok_def by blast
  ultimately show "draining_step l (keep_deadline (leases before) l) \<and> lease_ok g (keep_deadline (leases before) l)"
    by (simp add: keep_deadline_step keep_deadline_ok)
qed

lemma durable_deadline_kept:
  assumes wf: "ledger_wf before" and old: "old \<in> set (leases before)" "token l = token old"
    and l: "l \<in> set (leases before) \<or> l \<in> set (leases (durable_next before g))"
  shows "deadline_ms l = deadline_ms old"
  using l
proof
  assume "l \<in> set (leases before)"
  then have "l = old" using ledger_wf_lease_unique [OF wf _ old(1)] old(2) by simp
  then show ?thesis by simp
next
  assume "l \<in> set (leases (durable_next before g))"
  then obtain l0 where l0: "l = keep_deadline (leases before) l0" by (auto simp: durable_next_def)
  then have t: "token l0 = token old" using old(2) by simp
  obtain m where m: "find (\<lambda>x. token x = token l0) (leases before) = Some m"
    using old(1) t by (cases "find (\<lambda>x. token x = token l0) (leases before)") (auto simp: find_None_iff)
  then have "m \<in> set (leases before)" "token m = token old" using t by (auto simp: find_Some_iff)
  then have "m = old" using ledger_wf_lease_unique [OF wf _ old(1)] by simp
  then show ?thesis using l0 m by (simp add: keep_deadline_def)
qed

lemma durable_next_domains [simp]: "domains (durable_next before g) = domains g"
  by (simp add: durable_next_def)

text \<open>The overlay of observations on the inventory they were taken from.\<close>

lemma overlay_observations_get:
  assumes "distinct (map fst es)" "\<forall>k \<in> set (map fst es). bm_get ds k \<noteq> None"
  shows "\<exists>ds'. overlay_observations es ds = Ok ds' \<and> (\<forall>k. bm_get ds' k =
    (case map_of es k of None \<Rightarrow> bm_get ds k | Some u \<Rightarrow> map_option (\<lambda>d. d\<lparr>observed := u\<rparr>) (bm_get ds k)))"
  using assms
proof (induction es ds rule: overlay_observations.induct)
  case (2 name used rest ds)
  then obtain d where d: "bm_get ds name = Some d" by auto
  have pre: "\<forall>k \<in> set (map fst rest). bm_get (bm_insert name (d\<lparr>observed := used\<rparr>) ds) k \<noteq> None" "distinct (map fst rest)"
    using "2.prems" by auto
  obtain ds' where ds': "overlay_observations rest (bm_insert name (d\<lparr>observed := used\<rparr>) ds) = Ok ds'"
    "\<forall>k. bm_get ds' k = (case map_of rest k of None \<Rightarrow> bm_get (bm_insert name (d\<lparr>observed := used\<rparr>) ds) k
      | Some u \<Rightarrow> map_option (\<lambda>d. d\<lparr>observed := u\<rparr>) (bm_get (bm_insert name (d\<lparr>observed := used\<rparr>) ds) k))"
    using "2.IH" [OF _ pre(2,1)] d by (metis ok_or.simps(2))
  have "map_of rest name = None" using "2.prems"(1) by (simp add: map_of_eq_None_iff)
  then show ?case using ds' d by (auto split: option.splits)
qed simp

lemma map_of_observed:
  "map_of (map (\<lambda>(name, d). (name, observed d)) es) k = map_option observed (map_of es k)"
  by (induction es) auto

lemma overlay_own_observations:
  assumes same: "bm_map (\<lambda>_ d. d\<lparr>observed := 0\<rparr>) ds = bm_map (\<lambda>_ d. d\<lparr>observed := 0\<rparr>) own"
  shows "overlay_observations (map (\<lambda>(name, d). (name, observed d)) (bm_entries own)) ds = Ok own"
proof -
  have get: "map_option (\<lambda>d. d\<lparr>observed := 0\<rparr>) (bm_get ds k) = map_option (\<lambda>d. d\<lparr>observed := 0\<rparr>) (bm_get own k)" for k
    using arg_cong [OF same, of "\<lambda>m. bm_get m k"] by simp
  have eq: "map fst (map (\<lambda>(name, d). (name, observed d)) (bm_entries own)) = bm_keys own"
    by (simp add: bm_keys_def comp_def case_prod_beta)
  have "bm_get ds k \<noteq> None" if "k \<in> set (bm_keys own)" for k
    using that get [of k] by (auto simp: bm_keys_iff)
  then obtain ds' where ok: "overlay_observations (map (\<lambda>(name, d). (name, observed d)) (bm_entries own)) ds = Ok ds'"
    and ds': "\<forall>k. bm_get ds' k = (case map_option observed (bm_get own k) of None \<Rightarrow> bm_get ds k
      | Some u \<Rightarrow> map_option (\<lambda>d. d\<lparr>observed := u\<rparr>) (bm_get ds k))"
    using overlay_observations_get [of "map (\<lambda>(name, d). (name, observed d)) (bm_entries own)" ds]
    unfolding eq map_of_observed bm_get_def [symmetric] by (auto simp: bm_keys_distinct)
  have "bm_get ds' k = bm_get own k" for k
  proof (cases "bm_get own k")
    case None
    then show ?thesis using ds' get [of k] by simp
  next
    case (Some o1)
    then obtain d where d: "bm_get ds k = Some d" "d\<lparr>observed := 0\<rparr> = o1\<lparr>observed := 0\<rparr>" using get [of k] by auto
    then have "d\<lparr>observed := observed o1\<rparr> = o1" by (cases d; cases o1) auto
    then show ?thesis using ds' Some d by simp
  qed
  then have "ds' = own" by (rule bm_ext)
  then show ?thesis using ok by simp
qed

lemma map_of_renewals:
  assumes "distinct (map (\<lambda>l. lease_id (token l)) ls)" "l \<in> set ls"
  shows "map_of (map (\<lambda>l. (lease_id (token l), deadline_ms l)) (filter P ls)) (lease_id (token l))
    = (if P l then Some (deadline_ms l) else None)"
  using assms by (induction ls) (auto simp: map_of_eq_None_iff image_iff)

lemma bm_get_of_list: "bm_get (bm_of_list es) k = map_of (rev es) k"
proof (induction es rule: rev_induct)
  case (snoc e es)
  then show ?case by (cases e) simp
qed simp

lemma map_of_rev: "distinct (map fst es) \<Longrightarrow> map_of (rev es) k = map_of es k"
  by (rule option.expand) (auto simp: map_of_eq_None_iff rev_map [symmetric] option.the_def
      intro: map_of_is_SomeI dest: map_of_SomeD)

lemma bm_get_renewals:
  assumes wf: "ledger_wf g" and l: "l \<in> set (leases g)"
  shows "bm_get (renewal_deadlines (session_overlay g s)) (lease_id (token l))
    = (if state l = Active then Some (deadline_ms l) else None)"
proof -
  have dist: "distinct (map (\<lambda>l. lease_id (token l)) (leases g))"
    using wf by (auto simp: ledger_wf_def uninitialized_ok_def initialized_ok_def split: if_splits)
  then have dist': "distinct (map fst (map (\<lambda>l. (lease_id (token l), deadline_ms l)) (filter (\<lambda>l. state l = Active) (leases g))))"
    by (simp add: comp_def distinct_map_filter)
  show ?thesis
    using map_of_renewals [OF dist l] map_of_rev [OF dist']
    by (simp add: session_overlay_def bm_get_of_list del: bm_of_list.simps)
qed

text \<open>
  What a session sees after a transaction: the ledger the operation made, except that a lease
  which is no longer active has fallen back to its durable deadline.
\<close>

definition settled :: "ledger \<Rightarrow> ledger \<Rightarrow> ledger" where
  "settled before g = g\<lparr>leases := map (\<lambda>l. if state l = Active then l else keep_deadline (leases before) l) (leases g)\<rparr>"

lemma overlay_kept_deadline:
  assumes "ledger_wf g" "l \<in> set (leases g)"
  shows "overlay_deadline (renewal_deadlines (session_overlay g s)) (keep_deadline before l)
    = (if state l = Active then l else keep_deadline before l)"
proof -
  have "(keep_deadline before l)\<lparr>deadline_ms := deadline_ms l\<rparr> = l"
    by (cases l) (auto simp: keep_deadline_def split: option.splits)
  then show ?thesis using bm_get_renewals [OF assms] by (simp add: overlay_deadline_def)
qed

lemma bm_entries_observed:
  "bm_entries (observations (session_overlay g s)) = map (\<lambda>(name, d). (name, observed d)) (bm_entries (domains g))"
  using bm_key_sorted [of "domains g"]
  by (simp add: session_overlay_def bm_entries_of_list comp_def case_prod_beta del: bm_of_list.simps)

lemma session_view_settled:
  assumes wf: "ledger_wf g" and view: "authority_view h = authority_view (durable_next before g)"
  shows "session_view (session_overlay g s) h = Ok (settled before g)"
proof -
  have doms: "bm_map (\<lambda>_ d. d\<lparr>observed := 0\<rparr>) (domains h) = bm_map (\<lambda>_ d. d\<lparr>observed := 0\<rparr>) (domains g)"
    using arg_cong [OF view, of domains] by (simp add: authority_view_def)
  have fields: "leases h = map (keep_deadline (leases before)) (leases g)" "schema_version h = schema_version g"
    "manager_epoch h = manager_epoch g" "generation h = generation g" "archives h = archives g"
    using arg_cong [OF view, of leases] arg_cong [OF view, of schema_version] arg_cong [OF view, of manager_epoch]
      arg_cong [OF view, of generation] arg_cong [OF view, of archives]
    by (simp_all add: authority_view_def durable_next_def)
  have "map (overlay_deadline (renewal_deadlines (session_overlay g s))) (leases h)
      = map (\<lambda>l. if state l = Active then l else keep_deadline (leases before) l) (leases g)"
    unfolding fields(1) using overlay_kept_deadline [OF wf] by simp
  then show ?thesis
    using overlay_own_observations [OF doms] fields(2-)
    unfolding session_view_def bm_entries_observed settled_def by (cases h; cases g) simp
qed

section \<open>A file that keeps what it is given\<close>

text \<open>
  What the store relies on: the lock is held throughout, a read returns the content, a
  publication replaces it, and nothing else changes it.
\<close>

definition faithful_file :: "('w, 'b) environment \<Rightarrow> ('w \<Rightarrow> 'b) \<Rightarrow> bool" where
  "faithful_file env content \<longleftrightarrow> (\<forall>w.
     (\<exists>w'. probe_exclusion env w = (Ok (), w') \<and> content w' = content w)
     \<and> (\<exists>w'. read_ledger env w = (Ok (content w), w') \<and> content w' = content w)
     \<and> (\<exists>w'. verify_pair env w = (Ok (), w') \<and> content w' = content w)
     \<and> (\<exists>w'. sync_ledger env w = (Ok (), w') \<and> content w' = content w)
     \<and> (\<forall>b. \<exists>w'. publish_ledger env b w = (Ok (), w') \<and> content w' = b))"

lemma faithful_probe:
  assumes "faithful_file env content" "\<not> authority_lost s"
  obtains w' where "verify_exclusion env (s, w) = (Ok (), (s, w'))" "content w' = content w"
  using assms unfolding faithful_file_def by (metis verify_exclusion_Ok)

lemma faithful_read:
  assumes "faithful_file env content"
  obtains w' where "outside (read_ledger env) (s, w) = (Ok (content w), (s, w'))" "content w' = content w"
  using assms unfolding faithful_file_def by (metis outside_Ok)

lemma faithful_bytes:
  assumes disk_ok: "faithful_file env content" and s: "\<not> authority_lost s" "published_sha256 s = sha256 c (content w)"
  obtains w' where "durable_bytes env c (s, w) = (Ok (content w), (s, w'))" "content w' = content w"
proof -
  obtain w1 where 1: "verify_exclusion env (s, w) = (Ok (), (s, w1))" "content w1 = content w"
    using faithful_probe [OF disk_ok s(1)] .
  obtain w2 where 2: "outside (read_ledger env) (s, w1) = (Ok (content w1), (s, w2))" "content w2 = content w1"
    using faithful_read [OF disk_ok] .
  obtain w3 where 3: "outside (verify_pair env) (s, w2) = (Ok (), (s, w3))" "content w3 = content w2"
    using disk_ok unfolding faithful_file_def by (metis outside_Ok)
  obtain w4 where 4: "verify_exclusion env (s, w3) = (Ok (), (s, w4))" "content w4 = content w3"
    using faithful_probe [OF disk_ok s(1)] .
  show thesis
    by (rule that [of w4]) (use 1 2 3 4 s(2) in \<open>simp_all add: durable_bytes_def bind_action_def on_error_def\<close>)
qed

lemma faithful_store_read:
  assumes disk_ok: "faithful_file env content" and s: "\<not> authority_lost s" "\<not> poisoned s"
    "published_sha256 s = sha256 c (content w)"
    and disk: "content w = encode c before" "decode c (encode c before) = Some before" "ledger_wf before"
    and view: "session_view s before = Ok g"
  obtains w' where "store_read env c (s, w) = (Ok g, (s, w'))" "content w' = content w"
proof -
  obtain w1 where 1: "durable_bytes env c (s, w) = (Ok (content w), (s, w1))" "content w1 = content w"
    using faithful_bytes [OF disk_ok s(1,3)] .
  obtain w2 where 2: "verify_exclusion env (s, w1) = (Ok (), (s, w2))" "content w2 = content w1"
    using faithful_probe [OF disk_ok s(1)] .
  have "parse_ledger c (content w) = Ok before" using disk by (simp add: parse_ledger_Ok)
  then show thesis
    by (intro that [of w2]) (use 1 2 s(2) view in \<open>simp_all add: store_read_def bind_action_def\<close>)
qed

lemma faithful_publication:
  assumes disk_ok: "faithful_file env content" and s: "\<not> authority_lost s"
  obtains w' where "publication env c bytes (s, w) = (Ok (), (s, w'))" "content w' = bytes"
proof -
  obtain w1 where 1: "verify_exclusion env (s, w) = (Ok (), (s, w1))"
    using faithful_probe [OF disk_ok s(1)] .
  obtain w2 where 2: "outside (publish_ledger env bytes) (s, w1) = (Ok (), (s, w2))" "content w2 = bytes"
    using disk_ok unfolding faithful_file_def by (metis outside_Ok)
  obtain w3 where 3: "verify_exclusion env (s, w2) = (Ok (), (s, w3))" "content w3 = content w2"
    using faithful_probe [OF disk_ok s(1)] .
  obtain w4 where 4: "outside (read_ledger env) (s, w3) = (Ok (content w3), (s, w4))" "content w4 = content w3"
    using faithful_read [OF disk_ok] .
  obtain w5 where 5: "verify_exclusion env (s, w4) = (Ok (), (s, w5))" "content w5 = content w4"
    using faithful_probe [OF disk_ok s(1)] .
  show thesis
    by (rule that [of w5]) (use 1 2 3 4 5 in \<open>simp_all add: publication_def bind_action_def on_error_def\<close>)
qed

lemma faithful_synchronize:
  assumes disk_ok: "faithful_file env content" and s: "\<not> authority_lost s" "published_sha256 s = sha256 c (content w)"
  obtains w' where "synchronize env c ack (s, w) = (Ok (), (s, w'))" "content w' = content w"
proof -
  obtain w1 where 1: "verify_exclusion env (s, w) = (Ok (), (s, w1))" "content w1 = content w"
    using faithful_probe [OF disk_ok s(1)] .
  obtain w2 where 2: "(if ack then outside (sync_ledger env) else lift_result (Ok ())) (s, w1) = (Ok (), (s, w2))"
      "content w2 = content w1"
    using disk_ok unfolding faithful_file_def by (cases ack) (simp_all, metis outside_Ok)
  obtain w3 where 3: "durable_bytes env c (s, w2) = (Ok (content w2), (s, w3))" "content w3 = content w2"
    using faithful_bytes [OF disk_ok s(1), of c w2] s(2) 1 2 by auto
  show thesis
    by (rule that [of w3]) (use 1 2 3 in \<open>simp_all add: synchronize_def bind_action_def on_error_def\<close>)
qed

section \<open>Failures\<close>

text \<open>The session state a failing call must not touch, and a fact about the surroundings.\<close>

definition frame :: "('w \<Rightarrow> bool) \<Rightarrow> store \<times> 'w \<Rightarrow> store \<times> 'w \<Rightarrow> bool" where
  "frame J x y \<longleftrightarrow> published_sha256 (fst y) = published_sha256 (fst x) \<and> observations (fst y) = observations (fst x)
     \<and> retired_owners (fst y) = retired_owners (fst x) \<and> renewal_deadlines (fst y) = renewal_deadlines (fst x)
     \<and> (J (snd x) \<longrightarrow> J (snd y))"

text \<open>Probing, reading and synchronizing keep the fact; only a publication may change it.\<close>

definition reads_keep :: "('w, 'b) environment \<Rightarrow> ('w \<Rightarrow> bool) \<Rightarrow> bool" where
  "reads_keep env J \<longleftrightarrow> (\<forall>w. J w \<longrightarrow> J (snd (probe_exclusion env w)) \<and> J (snd (read_ledger env w))
     \<and> J (snd (verify_pair env w)) \<and> J (snd (sync_ledger env w)))"

lemma frame_refl [simp]: "frame J x x"
  by (simp add: frame_def)

lemma frame_trans: "frame J x y \<Longrightarrow> frame J y z \<Longrightarrow> frame J x z"
  by (auto simp: frame_def)

lemma frame_rel: "reflp (frame J)" "transp (frame J)"
  by (auto simp: reflp_def transp_def intro: frame_trans)

lemma frame_marks: "frame J x (lose_authority x)" "frame J x (poison x)"
  by (auto simp: frame_def lose_authority_def poison_def split: prod.splits)

lemma keeps_outside: "(\<And>w. J w \<Longrightarrow> J (snd (m w))) \<Longrightarrow> keeps (frame J) (outside m)"
  by (auto simp: keeps_def frame_def outside_def case_prod_beta)

lemma keeps_with_store: "(\<And>s. keeps R (f s)) \<Longrightarrow> keeps R (with_store f)"
  by (auto simp: keeps_def)

lemmas keeps_frame = keeps_bind [OF frame_rel(2)] keeps_lift [OF frame_rel(1)] keeps_on_error [OF frame_rel(2)]
  keeps_with_store keeps_outside

lemma keeps_exclusion: "reads_keep env J \<Longrightarrow> keeps (frame J) (verify_exclusion env)"
  by (auto simp: verify_exclusion_def reads_keep_def intro!: keeps_frame frame_marks)

lemma keeps_bytes: "reads_keep env J \<Longrightarrow> keeps (frame J) (durable_bytes env c)"
  unfolding durable_bytes_def
  by (auto intro!: keeps_frame frame_marks keeps_exclusion) (auto simp: reads_keep_def)

lemma keeps_read: "reads_keep env J \<Longrightarrow> keeps (frame J) (store_read env c)"
  unfolding store_read_def by (auto intro!: keeps_frame keeps_exclusion keeps_bytes)

lemma keeps_synchronize: "reads_keep env J \<Longrightarrow> keeps (frame J) (synchronize env c ack)"
  unfolding synchronize_def
  by (auto intro!: keeps_frame frame_marks keeps_exclusion keeps_bytes) (auto simp: reads_keep_def)

lemma publication_Inl:
  assumes "publication env c bytes x = (Inl e, y)"
  shows "poisoned (fst y)" "frame (\<lambda>_. True) x y"
proof -
  show "poisoned (fst y)"
    using assms by (auto simp: publication_def on_error_Inl poison_def split: prod.splits)
  have "keeps (frame (\<lambda>_. True)) (publication env c bytes)"
    unfolding publication_def
    by (auto intro!: keeps_frame frame_marks keeps_exclusion simp: reads_keep_def)
  then show "frame (\<lambda>_. True) x y" using assms by (rule keepsD)
qed

lemma poisoned_inert:
  assumes "poisoned s"
  shows "store_read env c (s, w) = (Err ''resource publication uncertain; manager restart required'', (s, w))"
    "store_transaction env c operation ack (s, w) = (Err ''resource publication uncertain; manager restart required'', (s, w))"
    "store_archive env c rvw epoch (s, w) = (Err ''resource publication uncertain; manager restart required'', (s, w))"
    "owner_retired env c ow (s, w) = (Err ''resource publication uncertain; manager restart required'', (s, w))"
  using assms by (simp_all add: store_read_def store_transaction_def store_archive_def owner_retired_def bind_action_def)

text \<open>A method whose failure either kept the fact about the surroundings or poisoned the store.\<close>

definition fails_stop :: "('w \<Rightarrow> bool) \<Rightarrow> ('w, 'a) store_action \<Rightarrow> bool" where
  "fails_stop J m \<longleftrightarrow> (\<forall>x e y. m x = (Inl e, y) \<longrightarrow> frame J x y \<or> (poisoned (fst y) \<and> frame (\<lambda>_. True) x y))"

lemma fails_stop_keeps: "keeps (frame J) m \<Longrightarrow> fails_stop J m"
  by (auto simp: fails_stop_def dest: keepsD)

lemma fails_stop_bind:
  assumes "keeps (frame J) m" "\<And>v. fails_stop J (f v)"
  shows "fails_stop J (bind_action m f)"
  unfolding fails_stop_def
proof (intro allI impI)
  fix x e y
  assume "bind_action m f x = (Inl e, y)"
  then consider "m x = (Inl e, y)" | v u where "m x = (Inr v, u)" "f v u = (Inl e, y)" by (auto simp: bind_action_Inl)
  then show "frame J x y \<or> (poisoned (fst y) \<and> frame (\<lambda>_. True) x y)"
  proof cases
    case 2
    have "frame J x u" using assms(1) 2(1) by (rule keepsD)
    moreover have "frame J u y \<or> (poisoned (fst y) \<and> frame (\<lambda>_. True) u y)"
      using assms(2) 2(2) unfolding fails_stop_def by blast
    ultimately show ?thesis by (auto simp: frame_def)
  qed (use keepsD [OF assms(1)] in blast)
qed

lemma fails_stop_publication:
  assumes "\<And>u x e y. f u x \<noteq> (Inl e, y)"
  shows "fails_stop J (bind_action (publication env c bytes) f)"
  unfolding fails_stop_def
proof (intro allI impI)
  fix x e y
  assume "bind_action (publication env c bytes) f x = (Inl e, y)"
  then have "publication env c bytes x = (Inl e, y)" using assms by (simp add: bind_action_Inl)
  then show "frame J x y \<or> (poisoned (fst y) \<and> frame (\<lambda>_. True) x y)" by (auto dest: publication_Inl)
qed

lemma fails_stop_synchronize:
  assumes "reads_keep env J" "\<And>u x e y. f u x \<noteq> (Inl e, y)"
  shows "fails_stop J (bind_action (synchronize env c ack) f)"
  unfolding fails_stop_def
proof (intro allI impI)
  fix x e y
  assume "bind_action (synchronize env c ack) f x = (Inl e, y)"
  then have "synchronize env c ack x = (Inl e, y)" using assms(2) by (simp add: bind_action_Inl)
  then show "frame J x y \<or> (poisoned (fst y) \<and> frame (\<lambda>_. True) x y)"
    using keepsD [OF keeps_synchronize [OF assms(1)]] by blast
qed

lemma transaction_fails_stop:
  assumes "reads_keep env J"
  shows "fails_stop J (store_transaction env c operation ack)"
proof -
  have total: "bind_action (update_store f) (\<lambda>_. lift_result (Ok r)) x \<noteq> (Inl e, y)" for f x e y and r :: 'c
    by (cases x) (simp add: bind_action_def)
  have lift: "keeps (frame J) (lift_result r)" for r :: "'d result" by (intro keeps_lift frame_rel)
  have stop: "fails_stop J (lift_result r)" for r :: "'c result" by (intro fails_stop_keeps keeps_lift frame_rel)
  show ?thesis
    unfolding store_transaction_def Let_def
    by (intro fails_stop_bind keeps_read keeps_bytes assms keeps_lift frame_rel)
      (auto intro!: fails_stop_bind keeps_read keeps_bytes assms keeps_lift frame_rel stop
        fails_stop_synchronize fails_stop_publication simp: total split: prod.splits)
qed

section \<open>Properties\<close>

text \<open>
  C26: A transaction of a healthy store is durable. Take a store whose exclusion is held and whose file holds the
  canonical encoding of a valid ledger under the digest the store last published, a file that reads back what was last
  published, and an encoding that decodes to what was encoded. When the operation accepts the session's view, its result
  validates, its durable form fits in MAX_BYTES and, should the review digests of the ledger and of that form be equal,
  so are their authority views (no collision), then the transaction returns the operation's outcome; a read afterwards
  yields the settled result, which is the operation's result except that a lease no longer active has its durable
  deadline; and the file holds a ledger in which no lease that was durable before has another deadline, so a renewal
  never prolongs a durable deadline.
\<close>

theorem transaction_durable:
  assumes disk_ok: "faithful_file env content" and codec: "\<forall>h. decode c (encode c h) = Some h"
    and s: "\<not> authority_lost s" "\<not> poisoned s" "published_sha256 s = sha256 c (content w)"
    and before: "content w = encode c before" "ledger_wf before" "session_view s before = Ok g"
    and op: "operation g = Ok (outcome, nxt)" "ledger_wf nxt" "byte_length c (encode c (durable_next before nxt)) \<le> MAX_BYTES"
    and digest: "review (review_digest c) before = review (review_digest c) (durable_next before nxt) \<longrightarrow>
      authority_view before = authority_view (durable_next before nxt)"
  shows "\<exists>s' w' h. store_transaction env c operation ack (s, w) = (Ok outcome, (s', w'))
    \<and> fst (store_read env c (s', w')) = Ok (settled before nxt) \<and> content w' = encode c h
    \<and> (\<forall>old \<in> set (leases before). \<forall>l \<in> set (leases h). token l = token old \<longrightarrow> deadline_ms l = deadline_ms old)"
proof -
  let ?after = "durable_next before nxt"
  have dec: "decode c (encode c before) = Some before" using codec by simp
  obtain w1 where 1: "store_read env c (s, w) = (Ok g, (s, w1))" "content w1 = content w"
    using faithful_store_read [OF disk_ok s before(1) dec before(2,3)] .
  obtain w2 where 2: "durable_bytes env c (s, w1) = (Ok (content w1), (s, w2))" "content w2 = content w1"
    using faithful_bytes [OF disk_ok s(1), of c w1] s(3) 1(2) by auto
  have valid: "ledger_validate nxt = Ok ()" using op(2) by (simp add: ledger_validate_iff)
  have kept: "deadline_ms l = deadline_ms old"
    if "old \<in> set (leases before)" "l \<in> set (leases before) \<or> l \<in> set (leases ?after)" "token l = token old" for l old
    using durable_deadline_kept [OF before(2)] that by blast
  show ?thesis
  proof (cases "review (review_digest c) before = review (review_digest c) ?after")
    case True
    then have view: "authority_view before = authority_view ?after" using digest by simp
    obtain w3 where 3: "synchronize env c ack (s, w2) = (Ok (), (s, w3))" "content w3 = content w2"
      using faithful_synchronize [OF disk_ok s(1), of c w2] s(3) 1(2) 2(2) by auto
    let ?s = "session_overlay nxt s"
    have run: "store_transaction env c operation ack (s, w) = (Ok outcome, (?s, w3))"
      using 1 2 3 op(1,3) valid before(1) dec True by (simp add: store_transaction_def bind_action_def Let_def)
    have s': "\<not> authority_lost ?s" "\<not> poisoned ?s" "published_sha256 ?s = sha256 c (content w3)" "content w3 = encode c before"
      using s before(1) 1(2) 2(2) 3(2) by (simp_all add: session_overlay_def)
    obtain w4 where rd: "store_read env c (?s, w3) = (Ok (settled before nxt), (?s, w4))"
      using faithful_store_read [OF disk_ok s' dec before(2) session_view_settled [OF op(2) view]] .
    have "fst (store_read env c (?s, w3)) = Ok (settled before nxt)" by (simp add: rd)
    moreover have "\<forall>old \<in> set (leases before). \<forall>l \<in> set (leases before). token l = token old \<longrightarrow> deadline_ms l = deadline_ms old"
      using kept by blast
    ultimately show ?thesis using run s'(4) by blast
  next
    case False
    obtain w3 where 3: "publication env c (encode c ?after) (s, w2) = (Ok (), (s, w3))" "content w3 = encode c ?after"
      using faithful_publication [OF disk_ok s(1)] .
    let ?s = "session_overlay nxt (s\<lparr>published_sha256 := sha256 c (encode c ?after)\<rparr>)"
    have run: "store_transaction env c operation ack (s, w) = (Ok outcome, (?s, w3))"
      using 1 2 3 op(1,3) valid before(1) dec False by (simp add: store_transaction_def bind_action_def Let_def)
    have s': "\<not> authority_lost ?s" "\<not> poisoned ?s" "published_sha256 ?s = sha256 c (content w3)"
      using s 3(2) by (simp_all add: session_overlay_def)
    have dec': "decode c (encode c ?after) = Some ?after" using codec by simp
    obtain w4 where rd: "store_read env c (?s, w3) = (Ok (settled before nxt), (?s, w4))"
      using faithful_store_read [OF disk_ok s' 3(2) dec' durable_next_wf [OF before(2) op(2)] session_view_settled [OF op(2) refl]] .
    have "fst (store_read env c (?s, w3)) = Ok (settled before nxt)" by (simp add: rd)
    moreover have "\<forall>old \<in> set (leases before). \<forall>l \<in> set (leases ?after). token l = token old \<longrightarrow> deadline_ms l = deadline_ms old"
      using kept by blast
    ultimately show ?thesis using run 3(2) by blast
  qed
qed

text \<open>A file of one cell, an identity encoding, and a fresh store over the sample ledger.\<close>

definition cell_environment :: "('b, 'b) environment" where
  "cell_environment = \<lparr>probe_exclusion = (\<lambda>w. (Ok (), w)), read_ledger = (\<lambda>w. (Ok w, w)),
     verify_pair = (\<lambda>w. (Ok (), w)), publish_ledger = (\<lambda>b _. (Ok (), b)), sync_ledger = (\<lambda>w. (Ok (), w)),
     read_archive = (\<lambda>_ w. (Err ''no archive'', w)), scan_archives = (\<lambda>_ w. (Ok (), w)),
     archive_room = (\<lambda>_ w. (Ok (), w)), publish_archive = (\<lambda>_ _ w. (Err ''read only'', w)),
     publish_requests = (\<lambda>_ w. (Err ''read only'', w))\<rparr>"

definition plain_codec :: "ledger codec" where
  "plain_codec = \<lparr>encode = (\<lambda>g. g), decode = Some, byte_length = (\<lambda>_. 1), sha256 = (\<lambda>g. manager_epoch g),
     review_digest = (\<lambda>g. replicate (length (leases g)) CHR ''x''), owner_digest = boot\<rparr>"

definition fresh_store :: store where
  "fresh_store = \<lparr>authority_lost = False, published_sha256 = ''m1'', poisoned = False, observations = bm_empty,
     retired_owners = {}, renewal_deadlines = bm_empty\<rparr>"

definition sample_operation :: "ledger \<Rightarrow> (token \<times> ledger) result" where
  "sample_operation g = and_then (admit (Ok ''l1'') g sample_owner ''r1'' sample_binding sample_plan 1000 2000)
     (\<lambda>(nxt, t). Ok (t, nxt))"

lemma cell_faithful: "faithful_file cell_environment (\<lambda>w. w)"
  by (simp add: faithful_file_def cell_environment_def)

theorem transaction_durable_witness:
  "\<exists>s' w'. store_transaction cell_environment plain_codec sample_operation True (fresh_store, sample_ledger)
     = (Ok sample_token, (s', w')) \<and> fst (store_read cell_environment plain_codec (s', w')) = Ok (settled sample_ledger sample_admitted)"
proof -
  have view: "session_view fresh_store sample_ledger = Ok sample_ledger"
    by (simp add: session_view_def fresh_store_def overlay_deadline_def sample_ledger_def)
  have op: "sample_operation sample_ledger = Ok (sample_token, sample_admitted)"
    by (simp add: sample_operation_def sample_admit)
  have "review (review_digest plain_codec) sample_ledger
      \<noteq> review (review_digest plain_codec) (durable_next sample_ledger sample_admitted)" by code_simp
  then show ?thesis
    using transaction_durable [OF cell_faithful, of plain_codec fresh_store sample_ledger sample_ledger sample_ledger
        sample_operation sample_token sample_admitted True] view op sample_ledger_wf sample_admitted_wf
    by (auto simp: plain_codec_def fresh_store_def sample_ledger_def [THEN arg_cong, of manager_epoch] MAX_BYTES_def)
qed

text \<open>
  C27: A transaction that fails, in surroundings that may fail or change at every step, leaves the
  session's digest, observations, renewals and retired owners as they were; and either nothing was
  published (every fact that reads keep is kept), or the store is poisoned: from then on, in any surroundings, every
  read, transaction, archive and ownership query of it fails and changes neither the store nor the surroundings.
  (The publication of requests is the one operation the code does not guard by that flag.)
\<close>

theorem transaction_fail_stop:
  assumes env: "reads_keep env J" "J w"
    and fail: "store_transaction env c operation ack (s, w) = (Inl e, (s', w'))"
  shows "published_sha256 s' = published_sha256 s \<and> observations s' = observations s
    \<and> renewal_deadlines s' = renewal_deadlines s \<and> retired_owners s' = retired_owners s
    \<and> (J w' \<or> (\<forall>v op2 ack2 rvw epoch ow.
          (\<exists>err. store_transaction env c op2 ack2 (s', v) = (Inl err, (s', v)))
        \<and> (\<exists>err. store_read env c (s', v) = (Inl err, (s', v)))
        \<and> (\<exists>err. store_archive env c rvw epoch (s', v) = (Inl err, (s', v)))
        \<and> (\<exists>err. owner_retired env c ow (s', v) = (Inl err, (s', v)))))"
proof -
  have "frame J (s, w) (s', w') \<or> (poisoned s' \<and> frame (\<lambda>_. True) (s, w) (s', w'))"
    using transaction_fails_stop [OF env(1), of c operation ack] fail by (auto simp: fails_stop_def)
  then show ?thesis
    using env(2) by (auto simp: frame_def poisoned_inert)
qed

text \<open>A publication that fails after it has replaced the content.\<close>

definition torn_environment :: "('b, 'b) environment" where
  "torn_environment = cell_environment\<lparr>publish_ledger := (\<lambda>b _. (Err ''disk'', b))\<rparr>"

theorem transaction_fail_stop_witness:
  "store_transaction torn_environment plain_codec sample_operation True (fresh_store, sample_ledger)
     = (Err ''disk'', (fresh_store\<lparr>poisoned := True\<rparr>, sample_admitted))
   \<and> (\<exists>err. store_read torn_environment plain_codec (fresh_store\<lparr>poisoned := True\<rparr>, sample_ledger)
        = (Inl err, (fresh_store\<lparr>poisoned := True\<rparr>, sample_ledger)))
   \<and> (\<exists>err. store_archive torn_environment plain_codec ''r'' ''m2'' (fresh_store\<lparr>poisoned := True\<rparr>, sample_ledger)
        = (Inl err, (fresh_store\<lparr>poisoned := True\<rparr>, sample_ledger)))"
proof -
  have run: "store_transaction torn_environment plain_codec sample_operation True (fresh_store, sample_ledger)
     = (Err ''disk'', (fresh_store\<lparr>poisoned := True\<rparr>, sample_admitted))" by code_simp
  have keep: "reads_keep torn_environment (\<lambda>w. w = sample_ledger)"
    by (simp add: reads_keep_def torn_environment_def cell_environment_def)
  have "sample_admitted \<noteq> sample_ledger" by code_simp
  then show ?thesis using transaction_fail_stop [OF keep refl run] run by blast
qed

end
