(* ===== verification/Workflow.thy ===== *)
theory Workflow
  imports Prelude "HOL-Library.Multiset"
begin

text \<open>
  Admission of a workflow graph (\<open>workflow.rs\<close>): field and type checks, the stable topological
  order, and the search from the artifact sinks. The fingerprint (SHA-256 over canonical JSON) is a parameter.
\<close>

section \<open>Data\<close>

definition MAX_NODES :: nat where "MAX_NODES = 64"
definition MAX_INPUTS :: nat where "MAX_INPUTS = 16"

datatype kind = FileRead | DeterministicCalculate | ArtifactWrite

datatype value_type = Text | Report | Artifact

record node =
  node_id :: string
  node_kind :: kind
  dependencies :: "string list"
  input_types :: "value_type list"
  output_type :: value_type

record graph =
  graph_schema :: u32
  profile :: string
  graph_id :: string
  nodes :: "node list"

record validation =
  node_count :: nat
  order :: "string list"
  fingerprint :: string

definition workflow_id :: "string \<Rightarrow> bool" where
  "workflow_id v \<longleftrightarrow> v \<noteq> [] \<and> length v \<le> 64
     \<and> list_all (\<lambda>b. is_ascii_alphanumeric b \<or> b \<in> {CHR ''-'', CHR ''_'', CHR ''.''}) v"

section \<open>Validation\<close>

fun index_nodes :: "(string, node) bmap \<Rightarrow> node list \<Rightarrow> (string, node) bmap result" where
  "index_nodes m [] = Ok m"
| "index_nodes m (n # ns) =
     (if \<not> workflow_id (node_id n) \<or> MAX_INPUTS < length (dependencies n)
         \<or> length (dependencies n) \<noteq> length (input_types n) \<or> bm_contains m (node_id n)
      then Err ''invalid or duplicate native workflow node''
      else index_nodes (bm_insert (node_id n) n m) ns)"

fun check_inputs :: "(string, node) bmap \<Rightarrow> string \<Rightarrow> string set \<Rightarrow> string list \<Rightarrow> unit result" where
  "check_inputs m self unique [] = Ok ()"
| "check_inputs m self unique (d # ds) =
     (if \<not> workflow_id d \<or> d = self \<or> d \<in> unique \<or> \<not> bm_contains m d
      then Err ''unknown, duplicate or self-dependent workflow input''
      else check_inputs m self (insert d unique) ds)"

definition ready_nodes :: "(string, string set) bmap \<Rightarrow> string list" where
  "ready_nodes remaining = map fst (filter (\<lambda>(_, deps). deps = {}) (bm_entries remaining))"

definition drop_ready :: "string list \<Rightarrow> (string, string set) bmap \<Rightarrow> (string, string set) bmap" where
  "drop_ready ready remaining = bm_map (\<lambda>_ deps. deps - set ready) (fold bm_remove ready remaining)"

lemma bm_get_fold_remove: "bm_get (fold bm_remove ks m) k = (if k \<in> set ks then None else bm_get m k)"
  by (induction ks arbitrary: m) auto

lemma ready_nodes_iff: "k \<in> set (ready_nodes m) \<longleftrightarrow> bm_get m k = Some {}"
  by (force simp: ready_nodes_def bm_get_Some_iff)

lemma keys_drop_ready: "set (bm_keys (drop_ready ready m)) = set (bm_keys m) - set ready"
  by (auto simp: drop_ready_def bm_keys_iff bm_get_fold_remove split: if_splits)

lemma drop_ready_less:
  assumes "ready_nodes m \<noteq> []"
  shows "bm_size (drop_ready (ready_nodes m) m) < bm_size m"
proof -
  obtain k where "k \<in> set (ready_nodes m)" using assms by (cases "ready_nodes m") auto
  moreover have "set (ready_nodes m) \<subseteq> set (bm_keys m)" by (auto simp: ready_nodes_iff bm_keys_iff)
  ultimately have "set (bm_keys m) - set (ready_nodes m) \<subset> set (bm_keys m)" by blast
  then show ?thesis
    unfolding bm_size_keys bm.length_keys keys_drop_ready by (intro psubset_card_mono) auto
qed

function topo :: "(string, string set) bmap \<Rightarrow> string list \<Rightarrow> string list result" where
  "topo remaining acc =
     (if bm_is_empty remaining then Ok acc
      else let ready = ready_nodes remaining in
        if ready = [] then Err ''native workflow contains a dependency cycle''
        else topo (drop_ready ready remaining) (acc @ ready))"
  by auto
termination
  by (relation "measure (\<lambda>(remaining, _). bm_size remaining)") (auto simp: drop_ready_less)

declare topo.simps [simp del]

fun contract :: "kind \<Rightarrow> nat \<times> nat \<times> value_type option \<times> value_type" where
  "contract FileRead = (0, 0, None, Text)"
| "contract DeterministicCalculate = (1, MAX_INPUTS, Some Text, Report)"
| "contract ArtifactWrite = (1, 1, Some Report, Artifact)"

text \<open>\<open>nodes[id]\<close> is reached only for dependencies, which \<open>check_inputs\<close> has found among the nodes.\<close>

definition output_of :: "(string, node) bmap \<Rightarrow> string \<Rightarrow> value_type result" where
  "output_of m d = and_then (ok_or_panic (bm_get m d)) (\<lambda>n. Ok (output_type n))"

fun any_output_differs :: "(string, node) bmap \<Rightarrow> value_type \<Rightarrow> string list \<Rightarrow> bool result" where
  "any_output_differs m expected [] = Ok False"
| "any_output_differs m expected (d # ds) =
     and_then (output_of m d) (\<lambda>t. if t \<noteq> expected then Ok True else any_output_differs m expected ds)"

definition check_contract :: "(string, node) bmap \<Rightarrow> node \<Rightarrow> unit result" where
  "check_contract m n =
     (case contract (node_kind n) of (least, most, expected_input, expected_output) \<Rightarrow>
        if length (dependencies n) < least \<or> most < length (dependencies n) \<or> output_type n \<noteq> expected_output
           \<or> list_ex (\<lambda>t. Some t \<noteq> expected_input) (input_types n)
        then Err ''native workflow node type contract mismatch''
        else and_then (any_output_differs m (case expected_input of None \<Rightarrow> Text | Some t \<Rightarrow> t) (dependencies n)) (\<lambda>differs.
          if differs then Err ''native workflow node type contract mismatch'' else Ok ()))"

text \<open>The search from the sinks: a vector used as a stack, its top at the end.\<close>

function connect :: "(string, node) bmap \<Rightarrow> string set \<Rightarrow> string list \<Rightarrow> string set result" where
  "connect m connected stack =
     (if stack = [] then Ok connected
      else let i = last stack; rest = butlast stack in
        if i \<in> connected then connect m connected rest
        else case bm_get m i of
          None \<Rightarrow> Inl Panic
        | Some n \<Rightarrow> connect m (insert i connected) (rest @ dependencies n))"
  by auto
termination
proof (relation "measures [\<lambda>(m, connected, _). card (set (bm_keys m) - connected), \<lambda>(_, _, stack). length stack]", goal_cases)
  case (3 m connected stack i rest n)
  then have "i \<in> set (bm_keys m) - connected" by (auto simp: bm_keys_iff)
  then have "set (bm_keys m) - insert i connected \<subset> set (bm_keys m) - connected" by auto
  then show ?case by (simp add: psubset_card_mono)
qed auto

declare connect.simps [simp del]

definition graph_bounds_invalid :: "graph \<Rightarrow> bool" where
  "graph_bounds_invalid g \<longleftrightarrow> graph_schema g \<noteq> 1 \<or> profile g \<noteq> ''file-to-artifact-v1'' \<or> \<not> workflow_id (graph_id g)
     \<or> nodes g = [] \<or> MAX_NODES < length (nodes g)"

definition remaining_of :: "(string, node) bmap \<Rightarrow> (string, string set) bmap" where
  "remaining_of m = bm_map (\<lambda>_ n. set (dependencies n)) m"

definition validate :: "(string \<Rightarrow> string \<Rightarrow> node list \<Rightarrow> string) \<Rightarrow> graph \<Rightarrow> validation result" where
  "validate digest g =
     (if graph_bounds_invalid g then Err ''invalid native workflow profile or graph bounds''
      else and_then (index_nodes bm_empty (nodes g)) (\<lambda>m.
      and_then (for_all (\<lambda>n. check_inputs m (node_id n) {} (dependencies n)) (nodes g)) (\<lambda>_.
      and_then (topo (remaining_of m) []) (\<lambda>ord.
      and_then (for_all (check_contract m) (nodes g)) (\<lambda>_.
      let sinks = map node_id (filter (\<lambda>n. node_kind n = ArtifactWrite) (nodes g)) in
      if sinks = [] then Err ''native workflow has no managed artifact output''
      else and_then (connect m {} sinks) (\<lambda>connected.
        if card connected \<noteq> bm_size m then Err ''native workflow contains unused nodes''
        else Ok \<lparr>node_count = bm_size m, order = ord,
                 fingerprint = digest (profile g) (graph_id g) (bm_values m)\<rparr>))))))"

definition find_node :: "graph \<Rightarrow> string \<Rightarrow> node result" where
  "find_node g i = ok_or (find (\<lambda>n. node_id n = i) (nodes g)) ''unknown DAG node''"

definition validate_bytes ::
  "(string \<Rightarrow> graph option) \<Rightarrow> (string \<Rightarrow> string \<Rightarrow> node list \<Rightarrow> string) \<Rightarrow> string \<Rightarrow> validation result" where
  "validate_bytes parse digest bytes =
     (if bytes = [] \<or> 64 * 1024 < length bytes then Err ''invalid or oversized native workflow bytes''
      else and_then (ok_or (parse bytes) ''malformed native workflow'') (validate digest))"

record executable =
  exec_graph :: graph
  exec_order :: "string list"
  exec_sha256 :: string

definition from_bytes ::
  "(string \<Rightarrow> graph option) \<Rightarrow> (string \<Rightarrow> string \<Rightarrow> node list \<Rightarrow> string) \<Rightarrow> (string \<Rightarrow> string) \<Rightarrow> string \<Rightarrow> executable result" where
  "from_bytes parse digest sha bytes =
     and_then (validate_bytes parse digest bytes) (\<lambda>v.
     and_then (ok_or (parse bytes) ''malformed native workflow'') (\<lambda>g.
     Ok \<lparr>exec_graph = g, exec_order = order v, exec_sha256 = sha bytes\<rparr>))"

definition legacy_invoice_execution_supported ::
  "(string \<Rightarrow> graph option) \<Rightarrow> (string \<Rightarrow> string \<Rightarrow> node list \<Rightarrow> string) \<Rightarrow> string \<Rightarrow> string \<Rightarrow> bool result" where
  "legacy_invoice_execution_supported parse digest expected bytes =
     and_then (validate_bytes parse digest bytes) (\<lambda>v.
     and_then (validate_bytes parse digest expected) (\<lambda>w.
     Ok (fingerprint v = fingerprint w)))"


section \<open>What a workflow graph must be\<close>

definition node_ids :: "graph \<Rightarrow> string set" where
  "node_ids g = node_id ` set (nodes g)"

text \<open>The edges from a node to its inputs.\<close>

definition inputs :: "graph \<Rightarrow> (string \<times> string) set" where
  "inputs g = {(node_id n, d) | n d. n \<in> set (nodes g) \<and> d \<in> set (dependencies n)}"

definition node_fields_ok :: "node \<Rightarrow> bool" where
  "node_fields_ok n \<longleftrightarrow> workflow_id (node_id n) \<and> length (dependencies n) \<le> MAX_INPUTS
     \<and> length (input_types n) = length (dependencies n)"

definition node_inputs_ok :: "graph \<Rightarrow> node \<Rightarrow> bool" where
  "node_inputs_ok g n \<longleftrightarrow> distinct (dependencies n) \<and> node_id n \<notin> set (dependencies n)
     \<and> (\<forall>d \<in> set (dependencies n). workflow_id d \<and> d \<in> node_ids g)"

definition sources_typed :: "graph \<Rightarrow> node \<Rightarrow> value_type \<Rightarrow> bool" where
  "sources_typed g n t \<longleftrightarrow> (\<forall>x \<in> set (nodes g). node_id x \<in> set (dependencies n) \<longrightarrow> output_type x = t)"

text \<open>The type contract of each kind, written out.\<close>

fun contract_ok :: "graph \<Rightarrow> node \<Rightarrow> kind \<Rightarrow> bool" where
  "contract_ok g n FileRead \<longleftrightarrow> dependencies n = [] \<and> input_types n = [] \<and> output_type n = Text"
| "contract_ok g n DeterministicCalculate \<longleftrightarrow> dependencies n \<noteq> [] \<and> set (input_types n) \<subseteq> {Text}
     \<and> output_type n = Report \<and> sources_typed g n Text"
| "contract_ok g n ArtifactWrite \<longleftrightarrow> length (dependencies n) = 1 \<and> set (input_types n) \<subseteq> {Report}
     \<and> output_type n = Artifact \<and> sources_typed g n Report"

definition sinks_of :: "graph \<Rightarrow> string set" where
  "sinks_of g = {node_id n | n. n \<in> set (nodes g) \<and> node_kind n = ArtifactWrite}"

definition workflow_ok :: "graph \<Rightarrow> bool" where
  "workflow_ok g \<longleftrightarrow> \<not> graph_bounds_invalid g \<and> distinct (map node_id (nodes g))
     \<and> (\<forall>n \<in> set (nodes g). node_fields_ok n \<and> node_inputs_ok g n \<and> contract_ok g n (node_kind n))
     \<and> acyclic (inputs g) \<and> sinks_of g \<noteq> {} \<and> node_ids g \<subseteq> (inputs g)\<^sup>* `` sinks_of g"

section \<open>The node index\<close>

definition index_of :: "graph \<Rightarrow> (string, node) bmap" where
  "index_of g = bm_of_list (map (\<lambda>n. (node_id n, n)) (nodes g))"

lemma index_nodes_Ok:
  "index_nodes m ns = Ok m' \<longleftrightarrow> (\<forall>n \<in> set ns. node_fields_ok n) \<and> distinct (map node_id ns)
     \<and> (\<forall>n \<in> set ns. bm_get m (node_id n) = None) \<and> m' = fold (\<lambda>n. bm_insert (node_id n) n) ns m"
proof (induction ns arbitrary: m)
  case (Cons n ns)
  have "index_nodes m (n # ns) = Ok m' \<longleftrightarrow> node_fields_ok n \<and> bm_get m (node_id n) = None
      \<and> index_nodes (bm_insert (node_id n) n m) ns = Ok m'"
    by (auto simp: node_fields_ok_def bm_contains_def)
  then show ?case unfolding Cons.IH by (auto simp: image_iff)
qed auto

lemma fold_index: "fold (\<lambda>n. bm_insert (node_id n) n) ns m = fold (\<lambda>(k, v). bm_insert k v) (map (\<lambda>n. (node_id n, n)) ns) m"
  by (induction ns arbitrary: m) auto

lemma index_nodes_graph:
  "index_nodes bm_empty (nodes g) = Ok m \<longleftrightarrow>
     (\<forall>n \<in> set (nodes g). node_fields_ok n) \<and> distinct (map node_id (nodes g)) \<and> m = index_of g"
  by (auto simp: index_nodes_Ok index_of_def fold_index)

lemma bm_get_index:
  assumes "distinct (map node_id (nodes g))"
  shows "bm_get (index_of g) k = Some n \<longleftrightarrow> n \<in> set (nodes g) \<and> node_id n = k"
proof -
  have "bm_get (fold (\<lambda>n. bm_insert (node_id n) n) ns m) k = Some n \<longleftrightarrow>
      (n \<in> set ns \<and> node_id n = k) \<or> (k \<notin> node_id ` set ns \<and> bm_get m k = Some n)"
    if "distinct (map node_id ns)" for ns and m :: "(string, node) bmap"
    using that by (induction ns arbitrary: m) auto
  then show ?thesis using assms by (auto simp: index_of_def fold_index [symmetric])
qed

lemma keys_index: "distinct (map node_id (nodes g)) \<Longrightarrow> set (bm_keys (index_of g)) = node_ids g"
  by (auto simp: bm_keys_iff bm_get_index node_ids_def)

lemma check_inputs_Ok:
  "check_inputs m self unique ds = Ok () \<longleftrightarrow> distinct ds \<and> self \<notin> set ds
     \<and> (\<forall>d \<in> set ds. workflow_id d \<and> d \<notin> unique \<and> bm_contains m d)"
  by (induction ds arbitrary: unique) auto

lemma check_inputs_graph:
  "distinct (map node_id (nodes g)) \<Longrightarrow>
     check_inputs (index_of g) (node_id n) {} (dependencies n) = Ok () \<longleftrightarrow> node_inputs_ok g n"
  by (auto simp: check_inputs_Ok node_inputs_ok_def bm_contains_iff keys_index)

section \<open>The topological order\<close>

definition ordered :: "(string \<times> string) set \<Rightarrow> string list \<Rightarrow> bool" where
  "ordered E xs \<longleftrightarrow> (\<forall>i < length xs. E `` {xs ! i} \<subseteq> set (take i xs))"

lemma ordered_append:
  assumes "ordered E xs" "\<And>y. y \<in> set ys \<Longrightarrow> E `` {y} \<subseteq> set xs"
  shows "ordered E (xs @ ys)"
  unfolding ordered_def
proof (intro allI impI)
  fix i assume i: "i < length (xs @ ys)"
  show "E `` {(xs @ ys) ! i} \<subseteq> set (take i (xs @ ys))"
  proof (cases "i < length xs")
    case True
    then show ?thesis using assms(1) by (simp add: ordered_def nth_append)
  next
    case False
    then have "(xs @ ys) ! i \<in> set ys" using i by (simp add: nth_append)
    then show ?thesis using assms(2) False by fastforce
  qed
qed

text \<open>The loop's invariant: \<open>remaining\<close> holds the nodes not yet in the order with the inputs they still miss.\<close>

definition topo_inv :: "string set \<Rightarrow> (string \<times> string) set \<Rightarrow> (string, string set) bmap \<Rightarrow> string list \<Rightarrow> bool" where
  "topo_inv V E remaining acc \<longleftrightarrow> set (bm_keys remaining) = V - set acc \<and> set acc \<subseteq> V \<and> distinct acc \<and> ordered E acc
     \<and> (\<forall>k deps. bm_get remaining k = Some deps \<longrightarrow> deps = E `` {k} - set acc)"

lemma topo_inv_step:
  assumes "topo_inv V E remaining acc"
  shows "topo_inv V E (drop_ready (ready_nodes remaining) remaining) (acc @ ready_nodes remaining)"
proof -
  have ready: "k \<in> V - set acc \<and> E `` {k} \<subseteq> set acc" if "k \<in> set (ready_nodes remaining)" for k
  proof -
    have k: "bm_get remaining k = Some {}" using that by (simp add: ready_nodes_iff)
    then have "{} = E `` {k} - set acc" using assms unfolding topo_inv_def by blast
    moreover have "k \<in> set (bm_keys remaining)" using k by (simp add: bm_keys_iff)
    ultimately show ?thesis using assms by (auto simp: topo_inv_def)
  qed
  have "distinct (ready_nodes remaining)"
    unfolding ready_nodes_def by (rule distinct_map_filter) (use bm_keys_distinct [of remaining] in \<open>simp add: bm_keys_def\<close>)
  moreover have "ordered E (acc @ ready_nodes remaining)"
    using assms ready by (intro ordered_append) (auto simp: topo_inv_def)
  ultimately show ?thesis
    using assms ready unfolding topo_inv_def keys_drop_ready
    by (auto simp: drop_ready_def bm_get_fold_remove split: if_splits)
qed

lemma topo_sound:
  "topo_inv V E remaining acc \<Longrightarrow> topo remaining acc = Ok ord \<Longrightarrow> distinct ord \<and> set ord = V \<and> ordered E ord"
proof (induction remaining acc rule: topo.induct)
  case (1 remaining acc)
  show ?case
  proof (cases "bm_is_empty remaining")
    case True
    then have "ord = acc" using "1.prems"(2) by (simp add: topo.simps)
    then show ?thesis using "1.prems"(1) True by (auto simp: topo_inv_def bm_is_empty_iff)
  next
    case False
    then have ready: "ready_nodes remaining \<noteq> []"
      and rest: "topo (drop_ready (ready_nodes remaining) remaining) (acc @ ready_nodes remaining) = Ok ord"
      using "1.prems"(2) by (auto simp: topo.simps [of remaining] Let_def split: if_splits)
    show ?thesis using "1.IH" [OF False refl ready topo_inv_step [OF "1.prems"(1)] rest] .
  qed
qed

lemma topo_complete:
  assumes "wf (E\<inverse>)" and E: "E `` V \<subseteq> V"
  shows "topo_inv V E remaining acc \<Longrightarrow> \<exists>ord. topo remaining acc = Ok ord"
proof (induction remaining acc rule: topo.induct)
  case (1 remaining acc)
  show ?case
  proof (cases "bm_is_empty remaining")
    case False
    note inv = "1.prems" [unfolded topo_inv_def]
    from False obtain x where "x \<in> set (bm_keys remaining)" by (cases "bm_keys remaining") (auto simp: bm_is_empty_iff)
    then obtain k where k: "k \<in> set (bm_keys remaining)" "\<And>y. (y, k) \<in> E\<inverse> \<Longrightarrow> y \<notin> set (bm_keys remaining)"
      using assms(1) by (metis wfE_min)
    then obtain deps where deps: "bm_get remaining k = Some deps" by (auto simp: bm_keys_iff)
    have "E `` {k} \<subseteq> set acc" using k inv E by auto
    then have "deps = {}" using inv deps by blast
    then have ready: "ready_nodes remaining \<noteq> []" using deps ready_nodes_iff [of k remaining] by auto
    show ?thesis
      using "1.IH" [OF False refl ready topo_inv_step [OF "1.prems"]] False ready
      by (simp add: topo.simps [of remaining] Let_def)
  qed (simp add: topo.simps)
qed

lemma ordered_acyclic:
  assumes "distinct ord" "ordered E ord" "Domain E \<subseteq> set ord"
  shows "acyclic E"
proof -
  define pos where "pos x = (THE i. i < length ord \<and> ord ! i = x)" for x
  have pos: "pos (ord ! i) = i" if "i < length ord" for i
    unfolding pos_def using that assms(1) by (intro the_equality) (auto simp: nth_eq_iff_index_eq)
  have "pos y < pos x" if "(x, y) \<in> E" for x y
  proof -
    have "x \<in> set ord" using that assms(3) by auto
    then obtain i where i: "i < length ord" "ord ! i = x" by (auto simp: in_set_conv_nth)
    then have "y \<in> set (take i ord)" using that assms(2) by (auto simp: ordered_def)
    then obtain j where "j < i" "ord ! j = y" using i(1) by (auto simp: in_set_conv_nth)
    then show ?thesis using pos [of i] pos [of j] i by simp
  qed
  then have "E\<inverse> \<subseteq> measure pos" by auto
  then have "acyclic (E\<inverse>)" by (rule wf_acyclic [OF wf_subset [OF wf_measure]])
  then show ?thesis by (simp only: acyclic_converse)
qed

lemma topo_graph:
  assumes dist: "distinct (map node_id (nodes g))" and closed: "\<forall>n \<in> set (nodes g). set (dependencies n) \<subseteq> node_ids g"
  shows "topo_inv (node_ids g) (inputs g) (remaining_of (index_of g)) []"
    and "(\<exists>ord. topo (remaining_of (index_of g)) [] = Ok ord) \<longleftrightarrow> acyclic (inputs g)"
proof -
  have E: "(node_id n, d) \<in> inputs g \<longleftrightarrow> d \<in> set (dependencies n)" if "n \<in> set (nodes g)" for n d
    using that dist by (auto simp: inputs_def distinct_map inj_on_def)
  show inv: "topo_inv (node_ids g) (inputs g) (remaining_of (index_of g)) []"
    using keys_index [OF dist] bm_get_index [OF dist] E
    by (auto simp: topo_inv_def remaining_of_def ordered_def)
  have dom: "Domain (inputs g) \<subseteq> node_ids g" "inputs g `` node_ids g \<subseteq> node_ids g"
    using closed by (auto simp: inputs_def node_ids_def)
  have "finite (inputs g)"
    by (rule finite_subset [of _ "node_ids g \<times> node_ids g"]) (use closed in \<open>auto simp: inputs_def node_ids_def\<close>)
  then have "wf ((inputs g)\<inverse>)" if "acyclic (inputs g)" using that by (rule finite_acyclic_wf_converse)
  then show "(\<exists>ord. topo (remaining_of (index_of g)) [] = Ok ord) \<longleftrightarrow> acyclic (inputs g)"
    using topo_complete [OF _ dom(2) inv] topo_sound [OF inv] ordered_acyclic dom(1) by blast
qed

section \<open>Type contracts\<close>

lemma any_output_differs_Ok:
  "\<forall>d \<in> set ds. bm_get m d \<noteq> None \<Longrightarrow>
     any_output_differs m t ds = Ok (\<exists>d \<in> set ds. \<exists>n. bm_get m d = Some n \<and> output_type n \<noteq> t)"
  by (induction ds) (auto simp: output_of_def)

lemma check_contract_graph:
  assumes dist: "distinct (map node_id (nodes g))" and fields: "node_fields_ok n" and ins: "node_inputs_ok g n"
  shows "check_contract (index_of g) n = Ok () \<longleftrightarrow> contract_ok g n (node_kind n)"
proof -
  have "\<forall>d \<in> set (dependencies n). bm_get (index_of g) d \<noteq> None"
    using ins unfolding bm_keys_iff [symmetric] keys_index [OF dist] node_inputs_ok_def by blast
  note differs = any_output_differs_Ok [OF this]
  have typed: "(\<exists>d \<in> set (dependencies n). \<exists>x. bm_get (index_of g) d = Some x \<and> output_type x \<noteq> t)
      \<longleftrightarrow> \<not> sources_typed g n t" for t
    using bm_get_index [OF dist] by (auto simp: sources_typed_def)
  have only: "list_ex (\<lambda>u. u \<noteq> t) us \<longleftrightarrow> \<not> set us \<subseteq> {t}" for t and us :: "value_type list"
    by (auto simp: list_ex_iff)
  have one: "length ds = Suc 0 \<longleftrightarrow> ds \<noteq> [] \<and> length ds \<le> Suc 0" for ds :: "string list"
    by (cases ds) auto
  have len: "length (dependencies n) \<le> MAX_INPUTS" "input_types n = [] \<longleftrightarrow> dependencies n = []"
    using fields by (auto simp: node_fields_ok_def simp flip: length_0_conv)
  show ?thesis
    using len by (cases "node_kind n")
      (auto simp: check_contract_def result_simps differs typed only list_ex_iff not_less sources_typed_def Suc_le_eq one
        split: if_splits)
qed

section \<open>The search from the sinks\<close>

text \<open>An index whose nodes have only inputs of the index, with its edges.\<close>

definition closed_index :: "(string, node) bmap \<Rightarrow> (string \<times> string) set \<Rightarrow> bool" where
  "closed_index m E \<longleftrightarrow> (\<forall>k n. bm_get m k = Some n \<longrightarrow> E `` {k} = set (dependencies n) \<and> E `` {k} \<subseteq> set (bm_keys m))"

lemma connect_Ok:
  "closed_index m E \<Longrightarrow> set stack \<subseteq> set (bm_keys m) \<Longrightarrow> (\<forall>x \<in> conn. E `` {x} \<subseteq> conn \<union> set stack) \<Longrightarrow>
    \<exists>c. connect m conn stack = Ok c \<and> conn \<union> set stack \<subseteq> c \<and> c \<subseteq> conn \<union> E\<^sup>* `` set stack \<and> (\<forall>x \<in> c. E `` {x} \<subseteq> c)"
proof (induction m conn stack rule: connect.induct)
  case (1 m conn stack)
  show ?case
  proof (cases stack rule: rev_cases)
    case Nil
    then show ?thesis using "1.prems" by (simp add: connect.simps)
  next
    case (snoc rest i)
    then have st: "stack \<noteq> []" "i = last stack" "rest = butlast stack" by simp_all
    show ?thesis
    proof (cases "i \<in> conn")
      case True
      have "\<exists>c. connect m conn rest = Ok c \<and> conn \<union> set rest \<subseteq> c \<and> c \<subseteq> conn \<union> E\<^sup>* `` set rest \<and> (\<forall>x \<in> c. E `` {x} \<subseteq> c)"
        using "1.prems" snoc True by (intro "1.IH"(1) [OF st True]) auto
      then obtain c where c: "connect m conn rest = Ok c" "conn \<union> set rest \<subseteq> c" "c \<subseteq> conn \<union> E\<^sup>* `` set rest"
          "\<forall>x \<in> c. E `` {x} \<subseteq> c" by blast
      have "conn \<union> set stack \<subseteq> c" "c \<subseteq> conn \<union> E\<^sup>* `` set stack" using c snoc True by auto
      moreover have "connect m conn stack = Ok c" using c(1) snoc True by (simp add: connect.simps [of m conn "rest @ [i]"])
      ultimately show ?thesis using c(4) by blast
    next
      case False
      obtain n where n: "bm_get m i = Some n" using "1.prems"(2) snoc bm_keys_iff [of i m] by auto
      have E: "E `` {i} = set (dependencies n)" "E `` {i} \<subseteq> set (bm_keys m)" using "1.prems"(1) n by (auto simp: closed_index_def)
      have "\<exists>c. connect m (insert i conn) (rest @ dependencies n) = Ok c \<and> insert i conn \<union> set (rest @ dependencies n) \<subseteq> c
          \<and> c \<subseteq> insert i conn \<union> E\<^sup>* `` set (rest @ dependencies n) \<and> (\<forall>x \<in> c. E `` {x} \<subseteq> c)"
        using "1.prems" snoc E by (intro "1.IH"(2) [OF st False n]) auto
      then obtain c where c: "connect m (insert i conn) (rest @ dependencies n) = Ok c"
          "insert i conn \<union> set (rest @ dependencies n) \<subseteq> c"
          "c \<subseteq> insert i conn \<union> E\<^sup>* `` set (rest @ dependencies n)" "\<forall>x \<in> c. E `` {x} \<subseteq> c" by blast
      have "E\<^sup>* `` set (dependencies n) \<subseteq> E\<^sup>* `` {i}"
        unfolding E(1) [symmetric] by (auto intro: converse_rtrancl_into_rtrancl)
      moreover have "E\<^sup>* `` set stack = E\<^sup>* `` set rest \<union> E\<^sup>* `` {i}" "i \<in> E\<^sup>* `` {i}" using snoc by auto
      ultimately have "c \<subseteq> conn \<union> E\<^sup>* `` set stack" using c(3) by (simp add: Image_Un) blast
      then show ?thesis using c snoc False n by (auto simp: connect.simps [of m conn "rest @ [i]"] Let_def)
    qed
  qed
qed

lemma connect_reachable:
  assumes "closed_index m E" "set sinks \<subseteq> set (bm_keys m)"
  shows "connect m {} sinks = Ok (E\<^sup>* `` set sinks)"
proof -
  obtain c where c: "connect m {} sinks = Ok c" "set sinks \<subseteq> c" "c \<subseteq> E\<^sup>* `` set sinks" "\<forall>x \<in> c. E `` {x} \<subseteq> c"
    using connect_Ok [OF assms, of "{}"] by auto
  have "y \<in> c" if "(x, y) \<in> E\<^sup>*" "x \<in> c" for x y
    using that by (induction rule: rtrancl_induct) (use c(4) in auto)
  then have "c = E\<^sup>* `` set sinks" using c by auto
  then show ?thesis using c(1) by simp
qed

section \<open>Properties\<close>

lemma workflow_ok_index:
  assumes dist: "distinct (map node_id (nodes g))" and ins: "\<forall>n \<in> set (nodes g). node_inputs_ok g n"
  shows "closed_index (index_of g) (inputs g)"
  unfolding closed_index_def
proof (intro allI impI)
  fix k n assume "bm_get (index_of g) k = Some n"
  then have n: "n \<in> set (nodes g)" "node_id n = k" using bm_get_index [OF dist] by auto
  then have E: "inputs g `` {k} = set (dependencies n)" using dist by (auto simp: inputs_def distinct_map inj_on_def)
  moreover have "set (dependencies n) \<subseteq> set (bm_keys (index_of g))"
    unfolding keys_index [OF dist] using ins n(1) by (auto simp: node_inputs_ok_def)
  ultimately show "inputs g `` {k} = set (dependencies n) \<and> inputs g `` {k} \<subseteq> set (bm_keys (index_of g))" by simp
qed

lemma reachable_ids:
  assumes dist: "distinct (map node_id (nodes g))" and ins: "\<forall>n \<in> set (nodes g). node_inputs_ok g n"
  shows "(inputs g)\<^sup>* `` sinks_of g \<subseteq> node_ids g"
proof
  fix y assume "y \<in> (inputs g)\<^sup>* `` sinks_of g"
  then obtain x where "(x, y) \<in> (inputs g)\<^sup>*" "x \<in> sinks_of g" by blast
  then show "y \<in> node_ids g"
    by (induction rule: rtrancl_induct) (use ins in \<open>auto simp: sinks_of_def node_ids_def inputs_def node_inputs_ok_def\<close>)
qed

definition accepted :: "(string \<Rightarrow> string \<Rightarrow> node list \<Rightarrow> string) \<Rightarrow> graph \<Rightarrow> string list \<Rightarrow> validation" where
  "accepted digest g ord = \<lparr>node_count = length (nodes g), order = ord,
     fingerprint = digest (profile g) (graph_id g) (bm_values (index_of g))\<rparr>"

lemma validate_cases:
  assumes dist: "distinct (map node_id (nodes g))" and bounds: "\<not> graph_bounds_invalid g"
    and fields: "\<forall>n \<in> set (nodes g). node_fields_ok n" and ins: "\<forall>n \<in> set (nodes g). node_inputs_ok g n"
  shows "validate digest g = Ok v \<longleftrightarrow> (\<exists>ord. topo (remaining_of (index_of g)) [] = Ok ord \<and> v = accepted digest g ord)
    \<and> (\<forall>n \<in> set (nodes g). contract_ok g n (node_kind n)) \<and> sinks_of g \<noteq> {} \<and> node_ids g \<subseteq> (inputs g)\<^sup>* `` sinks_of g"
proof -
  define sinks where "sinks = map node_id (filter (\<lambda>n. node_kind n = ArtifactWrite) (nodes g))"
  have sinks: "set sinks = sinks_of g" "sinks = [] \<longleftrightarrow> sinks_of g = {}"
    by (auto simp: sinks_def sinks_of_def filter_empty_conv)
  have "set sinks \<subseteq> set (bm_keys (index_of g))" unfolding keys_index [OF dist] sinks by (auto simp: sinks_of_def node_ids_def)
  from connect_reachable [OF workflow_ok_index [OF dist ins] this]
  have conn: "connect (index_of g) {} sinks = Ok ((inputs g)\<^sup>* `` sinks_of g)" by (simp add: sinks)
  have fin: "finite (node_ids g)" by (simp add: node_ids_def)
  have size: "bm_size (index_of g) = card (node_ids g)" "card (node_ids g) = length (nodes g)"
    using dist distinct_card [OF dist] by (simp_all add: bm_size_keys bm.length_keys keys_index node_ids_def)
  have count: "card ((inputs g)\<^sup>* `` sinks_of g) = bm_size (index_of g) \<longleftrightarrow> node_ids g \<subseteq> (inputs g)\<^sup>* `` sinks_of g"
    unfolding size(1) using reachable_ids [OF dist ins] card_subset_eq [OF fin] by (metis order_refl subset_antisym)
  have "for_all (check_contract (index_of g)) (nodes g) = Ok () \<longleftrightarrow> (\<forall>n \<in> set (nodes g). contract_ok g n (node_kind n))"
    using check_contract_graph [OF dist] fields ins by (simp add: for_all_Inr_iff)
  moreover have "for_all (\<lambda>n. check_inputs (index_of g) (node_id n) {} (dependencies n)) (nodes g) = Ok ()"
    using check_inputs_graph [OF dist] ins by (simp add: for_all_Inr_iff)
  moreover have "index_nodes bm_empty (nodes g) = Ok (index_of g)" using dist fields by (simp add: index_nodes_graph)
  ultimately show ?thesis
    using bounds conn count sinks(2) size
    by (auto simp: validate_def Let_def and_then_Inr_iff accepted_def sinks_def [symmetric] split: if_splits)
qed

lemma validate_ok_iff: "is_ok (validate digest g) \<longleftrightarrow> workflow_ok g"
proof (cases "\<not> graph_bounds_invalid g \<and> distinct (map node_id (nodes g)) \<and> (\<forall>n \<in> set (nodes g). node_fields_ok n)
    \<and> (\<forall>n \<in> set (nodes g). node_inputs_ok g n)")
  case True
  then have "\<forall>n \<in> set (nodes g). set (dependencies n) \<subseteq> node_ids g" by (auto simp: node_inputs_ok_def)
  then show ?thesis
    using True validate_cases [of g digest] topo_graph(2) [of g] by (auto simp: is_ok_iff workflow_ok_def)
next
  case False
  have "\<not> is_ok (validate digest g)"
  proof
    assume "is_ok (validate digest g)"
    then obtain m where "index_nodes bm_empty (nodes g) = Ok m" "\<not> graph_bounds_invalid g"
        "for_all (\<lambda>n. check_inputs m (node_id n) {} (dependencies n)) (nodes g) = Ok ()"
      unfolding is_ok_iff validate_def and_then_Inr_iff if_err_Inr_iff by auto
    with False check_inputs_graph [of g] show False by (auto simp: index_nodes_graph for_all_Inr_iff)
  qed
  then show ?thesis using False by (auto simp: workflow_ok_def)
qed

lemma validate_topological:
  assumes "validate digest g = Ok v"
  shows "distinct (order v) \<and> set (order v) = node_ids g \<and> node_count v = length (nodes g)
    \<and> (\<forall>n \<in> set (nodes g). \<forall>i < length (order v). order v ! i = node_id n \<longrightarrow>
         set (dependencies n) \<subseteq> set (take i (order v)))"
proof -
  have "workflow_ok g" using assms validate_ok_iff [of digest g] by (auto simp: is_ok_iff)
  then have ok: "distinct (map node_id (nodes g))" "\<not> graph_bounds_invalid g" "\<forall>n \<in> set (nodes g). node_fields_ok n"
      "\<forall>n \<in> set (nodes g). node_inputs_ok g n" by (auto simp: workflow_ok_def)
  then obtain ord where ord: "topo (remaining_of (index_of g)) [] = Ok ord" "v = accepted digest g ord"
    using validate_cases [OF ok, of digest v] assms by blast
  have "\<forall>n \<in> set (nodes g). set (dependencies n) \<subseteq> node_ids g" using ok(4) by (auto simp: node_inputs_ok_def)
  note sound = topo_sound [OF topo_graph(1) [OF ok(1) this] ord(1)]
  have "set (dependencies n) \<subseteq> set (take i ord)" if "n \<in> set (nodes g)" "i < length ord" "ord ! i = node_id n" for n i
  proof -
    have "set (dependencies n) = inputs g `` {ord ! i}"
      using that ok(1) by (auto simp: inputs_def distinct_map inj_on_def)
    then show ?thesis using sound that(2) by (simp add: ordered_def)
  qed
  then show ?thesis using sound ord(2) by (simp add: accepted_def)
qed

text \<open>
  C28: Validation accepts exactly the well-formed workflows: bounded and identified nodes with
  distinct names, known distinct inputs, no dependency cycle, the type contract of every kind, and no node that
  does not feed a managed artifact.
\<close>

theorem validate_exact: "is_ok (validate digest g) \<longleftrightarrow> workflow_ok g"
  by (rule validate_ok_iff)

text \<open>
  The order of an accepted workflow lists every node once, each one after all of its inputs.
\<close>

theorem validate_order:
  assumes "validate digest g = Ok v"
  shows "distinct (order v) \<and> set (order v) = node_ids g \<and> node_count v = length (nodes g)
    \<and> (\<forall>n \<in> set (nodes g). \<forall>i < length (order v). order v ! i = node_id n \<longrightarrow>
         set (dependencies n) \<subseteq> set (take i (order v)))"
  using assms by (rule validate_topological)

text \<open>
  The result does not depend on the order in which the caller lists the nodes: two graphs with
  the same nodes are both accepted, with the same order and fingerprint, or both refused.
\<close>

theorem validate_order_independent:
  assumes "mset (nodes g) = mset (nodes h)" "graph_schema g = graph_schema h" "profile g = profile h" "graph_id g = graph_id h"
  shows "is_ok (validate digest g) = is_ok (validate digest h) \<and> (is_ok (validate digest g) \<longrightarrow> validate digest g = validate digest h)"
proof -
  have same: "set (nodes g) = set (nodes h)" "length (nodes g) = length (nodes h)"
    using assms(1) by (auto dest: mset_eq_setD mset_eq_length)
  have "mset (map node_id (nodes g)) = mset (map node_id (nodes h))" using assms(1) by simp
  then have dist: "distinct (map node_id (nodes g)) \<longleftrightarrow> distinct (map node_id (nodes h))" by (rule mset_eq_imp_distinct_iff)
  have "nodes g = [] \<longleftrightarrow> nodes h = []" using same(2) by auto
  then have bounds: "graph_bounds_invalid g = graph_bounds_invalid h"
    using assms(2-4) same(2) by (simp add: graph_bounds_invalid_def)
  have parts: "node_ids g = node_ids h" "inputs g = inputs h" "sinks_of g = sinks_of h"
    using same(1) by (simp_all add: node_ids_def inputs_def sinks_of_def)
  then have "node_inputs_ok g = node_inputs_ok h" by (simp add: node_inputs_ok_def fun_eq_iff)
  moreover have "contract_ok g n k = contract_ok h n k" for n k
    using same(1) by (cases k) (simp_all add: sources_typed_def)
  ultimately have ok: "workflow_ok g = workflow_ok h" using dist bounds parts same(1) by (simp add: workflow_ok_def)
  have "validate digest g = validate digest h" if wf: "workflow_ok g"
  proof -
    have g: "distinct (map node_id (nodes g))" "\<not> graph_bounds_invalid g" "\<forall>n \<in> set (nodes g). node_fields_ok n"
        "\<forall>n \<in> set (nodes g). node_inputs_ok g n"
      and h: "distinct (map node_id (nodes h))" "\<not> graph_bounds_invalid h" "\<forall>n \<in> set (nodes h). node_fields_ok n"
        "\<forall>n \<in> set (nodes h). node_inputs_ok h n" using that ok by (auto simp: workflow_ok_def)
    have "bm_get (index_of g) k = Some n \<longleftrightarrow> bm_get (index_of h) k = Some n" for k n
      using bm_get_index [OF g(1)] bm_get_index [OF h(1)] same(1) by simp
    then have "bm_get (index_of g) k = bm_get (index_of h) k" for k
      by (metis not_None_eq)
    then have index: "index_of g = index_of h" by (rule bm_ext)
    obtain v w where "validate digest g = Ok v" "validate digest h = Ok w"
      using wf ok validate_ok_iff [of digest g] validate_ok_iff [of digest h] unfolding is_ok_iff by blast
    then show ?thesis
      using validate_cases [OF g, of digest v] validate_cases [OF h, of digest w] assms(3,4) same(2)
      by (auto simp: accepted_def index)
  qed
  then show ?thesis using ok validate_ok_iff [of digest] by simp
qed

text \<open>A read, a calculation and an artifact, listed in two orders.\<close>

definition sample_read :: node where
  "sample_read = \<lparr>node_id = ''read'', node_kind = FileRead, dependencies = [], input_types = [], output_type = Text\<rparr>"

definition sample_calculate :: node where
  "sample_calculate = \<lparr>node_id = ''calc'', node_kind = DeterministicCalculate, dependencies = [''read''],
     input_types = [Text], output_type = Report\<rparr>"

definition sample_write :: node where
  "sample_write = \<lparr>node_id = ''art'', node_kind = ArtifactWrite, dependencies = [''calc''], input_types = [Report],
     output_type = Artifact\<rparr>"

definition sample_graph :: "node list \<Rightarrow> graph" where
  "sample_graph ns = \<lparr>graph_schema = 1, profile = ''file-to-artifact-v1'', graph_id = ''g'', nodes = ns\<rparr>"

theorem validate_order_witness:
  "\<exists>v. validate (\<lambda>_ _ _. []) (sample_graph [sample_write, sample_calculate, sample_read]) = Ok v
     \<and> order v = [''read'', ''calc'', ''art''] \<and> set (order v) = node_ids (sample_graph [sample_write, sample_calculate, sample_read])"
proof -
  have v: "validate (\<lambda>_ _ _. []) (sample_graph [sample_write, sample_calculate, sample_read])
      = Ok \<lparr>node_count = 3, order = [''read'', ''calc'', ''art''], fingerprint = []\<rparr>" by code_simp
  show ?thesis using validate_order [OF v] v by auto
qed

theorem validate_order_independent_witness:
  "validate (\<lambda>_ _ _. []) (sample_graph [sample_write, sample_calculate, sample_read])
     = validate (\<lambda>_ _ _. []) (sample_graph [sample_read, sample_calculate, sample_write])"
proof -
  have "is_ok (validate (\<lambda>_ _ _. []) (sample_graph [sample_write, sample_calculate, sample_read]))" by code_simp
  moreover have "mset (nodes (sample_graph [sample_write, sample_calculate, sample_read]))
      = mset (nodes (sample_graph [sample_read, sample_calculate, sample_write]))" by (simp add: sample_graph_def)
  moreover have "graph_schema (sample_graph ns) = 1" "profile (sample_graph ns) = ''file-to-artifact-v1''"
    "graph_id (sample_graph ns) = ''g''" for ns by (simp_all add: sample_graph_def)
  ultimately show ?thesis using validate_order_independent by metis
qed

end
