(* ===== verification/Encoding.thy ===== *)
theory Encoding
  imports Prelude
begin

text \<open>
  The text encodings of the platform: canonical hexadecimal digests (\<open>tpm::decode\<close>, \<open>bundle::hex\<close>,
  \<open>artifacts::hash\<close>). A byte is a number below 256.
\<close>

section \<open>Hexadecimal\<close>

text \<open>\<open>tpm::decode\<close>: a canonical digest as its bytes.\<close>

definition hex_value :: "char \<Rightarrow> nat" where
  "hex_value c = (if is_ascii_digit c then of_char c - 48 else of_char c - 87)"

fun decode_pairs :: "string \<Rightarrow> nat list" where
  "decode_pairs (a # b # cs) = (16 * hex_value a + hex_value b) # decode_pairs cs"
| "decode_pairs _ = []"

definition tpm_decode :: "nat \<Rightarrow> string \<Rightarrow> nat list result" where
  "tpm_decode n v = (if length v \<noteq> n * 2 \<or> \<not> list_all is_lower_hex v then Err ''invalid canonical TPM digest''
     else Ok (decode_pairs v))"

definition io_hash :: "string \<Rightarrow> bool" where
  "io_hash v \<longleftrightarrow> length v = 64 \<and> list_all is_lower_hex v"

definition hex_digit :: "nat \<Rightarrow> char" where
  "hex_digit d = (if d < 10 then char_of (48 + d) else char_of (87 + d))"

definition hex :: "nat list \<Rightarrow> string" where
  "hex bytes = concat (map (\<lambda>b. [hex_digit (b div 16), hex_digit (b mod 16)]) bytes)"

abbreviation is_byte :: "nat \<Rightarrow> bool" where
  "is_byte b \<equiv> b < 256"

lemma of_char_hex_digit: "d < 16 \<Longrightarrow> of_char (hex_digit d) = (if d < 10 then 48 + d else 87 + d :: nat)"
  by (simp add: hex_digit_def of_char_of)

lemma hex_digit_lower: "d < 16 \<Longrightarrow> is_lower_hex (hex_digit d)"
  by (simp add: is_lower_hex_def is_ascii_digit_def less_eq_char_def of_char_hex_digit)

lemma hex_value_digit: "d < 16 \<Longrightarrow> hex_value (hex_digit d) = d"
  by (simp add: hex_value_def is_ascii_digit_def less_eq_char_def of_char_hex_digit)

lemma hex_value_less: "is_lower_hex c \<Longrightarrow> hex_value c < 16"
  by (auto simp: is_lower_hex_def hex_value_def is_ascii_digit_def less_eq_char_def)

lemma hex_digit_value: "is_lower_hex c \<Longrightarrow> hex_digit (hex_value c) = c"
proof -
  assume "is_lower_hex c"
  then have "of_char (hex_digit (hex_value c)) = (of_char c :: nat)"
    by (auto simp: of_char_hex_digit hex_value_less, auto simp: is_lower_hex_def hex_value_def is_ascii_digit_def less_eq_char_def)
  then show ?thesis by simp
qed

lemma hex_lower: "list_all is_byte bs \<Longrightarrow> list_all is_lower_hex (hex bs)"
  by (induction bs) (simp_all add: hex_def hex_digit_lower less_mult_imp_div_less)

lemma length_hex: "length (hex bs) = length bs * 2"
  by (induction bs) (simp_all add: hex_def)

lemma decode_hex: "list_all is_byte bs \<Longrightarrow> decode_pairs (hex bs) = bs"
  by (induction bs) (simp_all add: hex_def hex_value_digit less_mult_imp_div_less)

lemma hex_decode: "list_all is_lower_hex s \<Longrightarrow> even (length s) \<Longrightarrow> hex (decode_pairs s) = s"
  by (induction s rule: decode_pairs.induct) (simp_all add: hex_def hex_digit_value hex_value_less)

lemma decode_bytes: "list_all is_lower_hex s \<Longrightarrow> list_all is_byte (decode_pairs s)"
proof (induction s rule: decode_pairs.induct)
  case (1 a b cs)
  then show ?case using hex_value_less [of a] hex_value_less [of b] by simp
qed simp_all

lemma length_decode: "even (length s) \<Longrightarrow> length (decode_pairs s) * 2 = length s"
  by (induction s rule: decode_pairs.induct) simp_all

text \<open>the digest decoder accepts exactly the renderings of byte strings of its length: \<open>tpm::decode\<close> and \<open>bundle::hex\<close> are inverse to each other, so equal decoded values mean equal text.\<close>

theorem tpm_decode_iff_hex:
  "tpm_decode n s = Ok bytes \<longleftrightarrow> length bytes = n \<and> list_all is_byte bytes \<and> s = hex bytes"
proof
  assume "tpm_decode n s = Ok bytes"
  then have s: "length s = n * 2" "list_all is_lower_hex s" "bytes = decode_pairs s"
    by (auto simp: tpm_decode_def split: if_splits)
  then have "length bytes * 2 = n * 2" using length_decode [of s] by simp
  then show "length bytes = n \<and> list_all is_byte bytes \<and> s = hex bytes"
    using s hex_decode [of s] decode_bytes [of s] by simp
next
  assume "length bytes = n \<and> list_all is_byte bytes \<and> s = hex bytes"
  then show "tpm_decode n s = Ok bytes"
    by (simp add: tpm_decode_def length_hex hex_lower decode_hex)
qed

text \<open>Texts that repeat one digit, as sample data uses them.\<close>

lemma hex_replicate:
  assumes "d < 16"
  shows "hex (replicate n (17 * d)) = replicate (2 * n) (hex_digit d)"
proof -
  have "17 * d = d + d * 16" by simp
  then have "17 * d div 16 = d" "17 * d mod 16 = d" using assms mod_mult_self1 [of d d 16] by (simp, metis mod_less)
  then show ?thesis by (induction n) (simp_all add: hex_def)
qed

lemma tpm_decode_replicate:
  "is_lower_hex c \<Longrightarrow> m = 2 * n \<Longrightarrow> tpm_decode n (replicate m c) = Ok (replicate n (17 * hex_value c))"
  using hex_replicate [OF hex_value_less, of c n] hex_value_less [of c]
  by (simp add: tpm_decode_iff_hex hex_digit_value list_all_iff)

lemma hex_replicate_value: "is_lower_hex c \<Longrightarrow> m = 2 * n \<Longrightarrow> hex (replicate n (17 * hex_value c)) = replicate m c"
  by (simp add: hex_replicate hex_value_less hex_digit_value)

lemma tpm_decode_hash: "(\<exists>bytes. tpm_decode 32 s = Ok bytes) \<longleftrightarrow> io_hash s"
  by (simp add: tpm_decode_def io_hash_def)

text \<open>The all-zero digest that the platform never accepts as a commitment.\<close>

definition zero_digest :: "nat list" where
  "zero_digest = replicate 32 0"

section \<open>Base64\<close>

text \<open>
  \<open>base64\<close> and \<open>decode64\<close> of \<open>model_trust.rs\<close>. The three bytes of a chunk occupy disjoint bits of the 32-bit group, so
  the group is their weighted sum; an index into the table is six of its bits.
\<close>

definition BASE64_TABLE :: string where
  "BASE64_TABLE = ''ABCDEFGHIJKLMNOPQRSTUVWXYZabcdefghijklmnopqrstuvwxyz0123456789+/''"

definition sextet :: "nat \<Rightarrow> nat \<Rightarrow> char" where
  "sextet n k = BASE64_TABLE ! (n div 64 ^ k mod 64)"

fun base64 :: "nat list \<Rightarrow> string" where
  "base64 [] = []"
| "base64 [a] = (let n = a * 65536 in [sextet n 3, sextet n 2, CHR ''='', CHR ''=''])"
| "base64 [a, b] = (let n = a * 65536 + b * 256 in [sextet n 3, sextet n 2, sextet n 1, CHR ''=''])"
| "base64 (a # b # c # bytes) = (let n = a * 65536 + b * 256 + c in [sextet n 3, sextet n 2, sextet n 1, sextet n 0] @ base64 bytes)"

definition sextet_value :: "char \<Rightarrow> nat option" where
  "sextet_value c =
     (if is_ascii_uppercase c then Some (of_char c - 65)
      else if is_ascii_lowercase c then Some (of_char c - 97 + 26)
      else if is_ascii_digit c then Some (of_char c - 48 + 52)
      else if c = CHR ''+'' then Some 62 else if c = CHR ''/'' then Some 63 else if c = CHR ''='' then Some 0 else None)"

fun decode_groups :: "string \<Rightarrow> nat list result" where
  "decode_groups (w # x # y # z # cs) =
     and_then (ok_or (sextet_value w) ''invalid model base64'') (\<lambda>p. and_then (ok_or (sextet_value x) ''invalid model base64'') (\<lambda>q.
     and_then (ok_or (sextet_value y) ''invalid model base64'') (\<lambda>r. and_then (ok_or (sextet_value z) ''invalid model base64'') (\<lambda>s.
     let n = p * 64 ^ 3 + q * 64 ^ 2 + r * 64 + s in
     and_then (decode_groups cs) (\<lambda>rest.
     Ok ([n div 65536 mod 256] @ (if y \<noteq> CHR ''='' then [n div 256 mod 256] else []) @ (if z \<noteq> CHR ''='' then [n mod 256] else []) @ rest))))))"
| "decode_groups _ = Ok []"

definition decode64 :: "nat \<Rightarrow> string \<Rightarrow> nat list result" where
  "decode64 n text =
     (if length text \<noteq> div_ceil n 3 * 4 then Err ''model signature/public key has invalid base64 length''
      else and_then (decode_groups text) (\<lambda>out.
      if length out \<noteq> n \<or> base64 out \<noteq> text then Err ''model base64 must be canonical'' else Ok out))"

lemma base64_table:
  "map sextet_value BASE64_TABLE = map Some [0..<64]" "CHR ''='' \<notin> set BASE64_TABLE" "length BASE64_TABLE = 64"
  by (simp_all add: BASE64_TABLE_def sextet_value_def ascii_defs less_eq_char_def upt_rec_numeral upt_conv_Cons [of 0 64] upt_conv_Cons [of "Suc 0" 64] flip: numeral_2_eq_2)

lemma sextet_value_table: "v < 64 \<Longrightarrow> sextet_value (BASE64_TABLE ! v) = Some v \<and> BASE64_TABLE ! v \<noteq> CHR ''=''"
  using base64_table nth_map [of v BASE64_TABLE sextet_value] nth_mem [of v BASE64_TABLE] by (auto simp del: nth_mem)

lemma sextet_value_sextet: "sextet_value (sextet n k) = Some (n div 64 ^ k mod 64)" "sextet n k \<noteq> CHR ''=''"
  using sextet_value_table [of "n div 64 ^ k mod 64"] by (simp_all add: sextet_def)

lemma sextets_sum:
  fixes n :: nat
  assumes "n < 16777216"
  shows "n div 64 ^ 3 mod 64 * 64 ^ 3 + n div 64 ^ 2 mod 64 * 64 ^ 2 + n div 64 mod 64 * 64 + n mod 64 = n"
proof -
  define m1 where "m1 = n div 64"
  define m2 where "m2 = m1 div 64"
  have d: "n div 64 ^ 3 = m2 div 64" "n div 64 ^ 2 = m2"
    by (simp_all add: m1_def m2_def div_mult2_eq [symmetric])
  have "m2 div 64 < 64" using assms by (simp add: m1_def m2_def div_mult2_eq [symmetric] less_mult_imp_div_less)
  then have top: "m2 div 64 mod 64 = m2 div 64" by simp
  have sum: "p * 64 ^ 3 + q * 64 ^ 2 + r * 64 + s = k" if "p * 64 + q = b" "b * 64 + r = a" "a * 64 + s = k" for p q r s a b k :: nat
    using that by auto
  show ?thesis unfolding d top m1_def [symmetric]
    by (rule sum [of _ _ m2 _ m1]) (simp_all add: m1_def m2_def)
qed

lemma group_bytes:
  fixes a b c :: nat
  assumes "is_byte a" "is_byte b" "is_byte c"
  shows "(a * 65536 + b * 256 + c) div 65536 mod 256 = a" "(a * 65536 + b * 256 + c) div 256 mod 256 = b" "(a * 65536 + b * 256 + c) mod 256 = c"
proof -
  have n: "a * 65536 + b * 256 + c = c + (a * 256 + b) * 256" by simp
  have d: "(c + (a * 256 + b) * 256) div 256 = a * 256 + b" unfolding div_mult_self1 [OF numeral_neq_zero] using assms by simp
  have e: "(c + (a * 256 + b) * 256) div 65536 = (a * 256 + b) div 256" using d div_mult2_eq [of "c + (a * 256 + b) * 256" 256 256] by simp
  show "(a * 65536 + b * 256 + c) div 65536 mod 256 = a" unfolding n e using assms by simp
  show "(a * 65536 + b * 256 + c) div 256 mod 256 = b" unfolding n d using assms by simp
  show "(a * 65536 + b * 256 + c) mod 256 = c" unfolding n mod_mult_self1 using assms by simp
qed

text \<open>One group of four characters, by how much of it is padding.\<close>

lemma decode_full_group:
  assumes "n < 16777216"
  shows "decode_groups (sextet n 3 # sextet n 2 # sextet n 1 # sextet n 0 # cs)
    = and_then (decode_groups cs) (\<lambda>rest. Ok ([n div 65536 mod 256, n div 256 mod 256, n mod 256] @ rest))"
  using sextets_sum [OF assms]
  by (simp only: decode_groups.simps sextet_value_sextet ok_or.simps and_then.simps Let_def power_one_right power_0 div_by_1
      simp_thms if_True append.simps)

lemma decode_two_bytes:
  assumes "n < 16777216" "n mod 64 = 0"
  shows "decode_groups [sextet n 3, sextet n 2, sextet n 1, CHR ''=''] = Ok [n div 65536 mod 256, n div 256 mod 256]"
proof -
  have "sextet_value CHR ''='' = Some 0" by code_simp
  then show ?thesis using sextets_sum [OF assms(1)] assms(2)
    by (simp only: decode_groups.simps sextet_value_sextet ok_or.simps and_then.simps Let_def power_one_right
      simp_thms if_True if_False append.simps)
qed

lemma decode_one_byte:
  assumes "n < 16777216" "n mod 64 = 0" "n div 64 mod 64 = 0"
  shows "decode_groups [sextet n 3, sextet n 2, CHR ''='', CHR ''=''] = Ok [n div 65536 mod 256]"
proof -
  have "sextet_value CHR ''='' = Some 0" by code_simp
  then show ?thesis using sextets_sum [OF assms(1)] assms(2,3)
    by (simp only: decode_groups.simps sextet_value_sextet ok_or.simps and_then.simps Let_def power_one_right mult_0
      simp_thms if_True if_False append.simps)
qed

lemma decode_base64: "list_all is_byte bs \<Longrightarrow> decode_groups (base64 bs) = Ok bs"
proof (induction bs rule: base64.induct)
  case (2 a)
  let ?n = "a * 65536"
  have "?n = 64 * (a * 1024)" "?n div 64 = 64 * (a * 16)" by simp_all
  then have "?n mod 64 = 0" "?n div 64 mod 64 = 0" by (metis mod_mult_self1_is_0)+
  then show ?case using decode_one_byte [of ?n] group_bytes(1) [of a 0 0] 2 by (simp add: Let_def)
next
  case (3 a b)
  let ?n = "a * 65536 + b * 256"
  have "?n = 64 * (a * 1024 + b * 4)" by simp
  then have "?n mod 64 = 0" by (metis mod_mult_self1_is_0)
  then show ?case using decode_two_bytes [of ?n] group_bytes(1,2) [of a b 0] 3 by (simp add: Let_def)
next
  case (4 a b c bytes)
  let ?n = "a * 65536 + b * 256 + c"
  have "?n < 16777216" "is_byte a" "is_byte b" "is_byte c" "decode_groups (base64 bytes) = Ok bytes" using 4 by simp_all
  then show ?case unfolding base64.simps Let_def append.simps using decode_full_group [of ?n "base64 bytes"] group_bytes [of a b c] by simp
qed simp

lemma length_base64: "length (base64 bs) = div_ceil (length bs) 3 * 4"
proof (induction bs rule: base64.induct)
  case (4 a b c bytes)
  have "(length (a # b # c # bytes) + 3 - 1) div 3 = Suc ((length bytes + 3 - 1) div 3)"
    using div_add_self2 [of 3 "length bytes + 2"] by simp
  with 4 show ?case by (simp add: div_ceil_def Let_def)
qed (simp_all add: div_ceil_def Let_def)

lemma decode_groups_bytes: "decode_groups t = Ok out \<Longrightarrow> list_all is_byte out"
  by (induction t arbitrary: out rule: decode_groups.induct) (auto simp: result_simps Let_def)

text \<open>Base64 and its decoder are inverse to each other.\<close>

lemma decode64_iff: "decode64 n text = Ok bytes \<longleftrightarrow> length bytes = n \<and> list_all is_byte bytes \<and> text = base64 bytes"
  by (auto simp: decode64_def result_simps length_base64 decode_base64 dest: decode_groups_bytes)

lemma decode64_base64: "n = length bs \<Longrightarrow> list_all is_byte bs \<Longrightarrow> decode64 n (base64 bs) = Ok bs"
  by (simp add: decode64_iff)

end
