(* ===== verification/Workflow_Schedule.thy ===== *)
theory Workflow_Schedule
  imports Encoding
begin

text \<open>
  Reviewed round-robin dispatch (\<open>workflow_schedule.rs\<close>): the schedule and its validation, the
  dispatch loop that stops at the first failure, and the projection of an outcome to an acknowledgement.

  The step is the governed advance of one run, with effects: an action on a state of its own. Its outcome
  is a JSON value; the readers of the two kinds of field the code looks up are parameters.
\<close>

section \<open>Data\<close>

definition MAX_ITEMS :: nat where "MAX_ITEMS = 16"
definition MAX_GRANTS :: nat where "MAX_GRANTS = 256"

record item =
  request_id :: string
  review_sha256 :: string
  grants :: "(string, string) bmap"

record schedule =
  schedule_schema :: u32
  installation :: string
  items :: "item list"

record acknowledged =
  ack_request :: string
  ack_review :: string
  ack_next_review :: string
  ack_node :: string
  ack_state :: string
  ack_completed :: u64
  ack_transitions :: u64

text \<open>The two reports of a dispatch; the constant fields of the JSON objects are left out.\<close>

datatype dispatch_report =
    Stopped "acknowledged list" string string "string list"
  | Acknowledged "acknowledged list"

definition io_identifier :: "string \<Rightarrow> bool" where
  "io_identifier v \<longleftrightarrow> v \<noteq> [] \<and> length v \<le> 64 \<and> list_all (\<lambda>b. is_ascii_alphanumeric b \<or> b = CHR ''-'') v"


definition scope_byte :: "char \<Rightarrow> bool" where
  "scope_byte b \<longleftrightarrow> is_ascii_alphanumeric b \<or> b \<in> {CHR ''-'', CHR ''_'', CHR ''.''}"

definition scope_id :: "string \<Rightarrow> bool" where
  "scope_id v \<longleftrightarrow> v \<noteq> [] \<and> length v \<le> 64 \<and> list_all scope_byte v"

section \<open>Grants of an item\<close>

text \<open>The entries of the JSON object, in the order the deserializer visits them.\<close>

fun visit_grants :: "(string, string) bmap \<Rightarrow> (string \<times> string) list \<Rightarrow> (string, string) bmap result" where
  "visit_grants m [] = Ok m"
| "visit_grants m ((k, v) # es) =
     (if bm_contains m k then Err ''duplicate workflow grant selector''
      else if bm_size m = MAX_GRANTS then Err ''workflow grant selector count exceeded''
      else visit_grants (bm_insert k v m) es)"

definition deserialize_grants :: "(string \<times> string) list \<Rightarrow> (string, string) bmap result" where
  "deserialize_grants es = visit_grants bm_empty es"

section \<open>Validation\<close>

definition item_invalid :: "item \<Rightarrow> bool" where
  "item_invalid i \<longleftrightarrow> \<not> io_identifier (request_id i) \<or> \<not> io_hash (review_sha256 i)
     \<or> bm_is_empty (grants i) \<or> MAX_GRANTS < bm_size (grants i) \<or> \<not> bm_contains (grants i) ''resume''
     \<or> list_ex (\<lambda>(key, v). key = [] \<or> 80 < length key \<or> \<not> list_all scope_byte key \<or> \<not> scope_id v) (bm_entries (grants i))"

fun check_items :: "string set \<Rightarrow> item list \<Rightarrow> unit result" where
  "check_items requests [] = Ok ()"
| "check_items requests (i # is) =
     (if request_id i \<in> requests \<or> item_invalid i
      then Err ''schedule requires distinct exact requests, reviews and finite grants''
      else check_items (insert (request_id i) requests) is)"

definition schedule_validate :: "schedule \<Rightarrow> string \<Rightarrow> unit result" where
  "schedule_validate s inst =
     (if schedule_schema s \<noteq> 1 \<or> \<not> io_hash inst \<or> installation s \<noteq> inst \<or> items s = [] \<or> MAX_ITEMS < length (items s)
      then Err ''invalid reviewed workflow schedule identity or bound''
      else check_items {} (items s))"

section \<open>Acknowledgements\<close>

definition in_range :: "nat \<Rightarrow> nat \<Rightarrow> u64 option \<Rightarrow> u64 option" where
  "in_range lo hi v = (case v of None \<Rightarrow> None | Some n \<Rightarrow> if lo \<le> unat n \<and> unat n \<le> hi then Some n else None)"

definition acknowledgement ::
  "('v \<Rightarrow> string list \<Rightarrow> string option) \<Rightarrow> ('v \<Rightarrow> string list \<Rightarrow> u64 option) \<Rightarrow> item \<Rightarrow> 'v \<Rightarrow> acknowledged result" where
  "acknowledgement str_at u64_at i outcome =
     and_then (ok_or (str_at outcome [''review_sha256'']) ''missing schedule acknowledgement review'') (\<lambda>review.
     and_then (ok_or (str_at outcome [''checkpoint'', ''node'']) ''missing schedule acknowledgement node'') (\<lambda>node.
     and_then (ok_or (str_at outcome [''state'']) ''missing schedule acknowledgement state'') (\<lambda>state.
     and_then (ok_or (in_range 1 2 (u64_at outcome [''checkpoint_transitions'']))
       ''invalid schedule acknowledgement transition count'') (\<lambda>transitions.
     and_then (ok_or (in_range 1 64 (u64_at outcome [''completed_nodes'']))
       ''invalid schedule acknowledgement completed-node count'') (\<lambda>completed.
     if u64_at outcome [''schema_version''] \<noteq> Some 1 \<or> str_at outcome [''request_id''] \<noteq> Some (request_id i)
        \<or> \<not> io_hash review \<or> \<not> scope_id node \<or> state \<notin> {''ready'', ''completed''}
     then Err ''schedule acknowledgement identity/state differs''
     else Ok \<lparr>ack_request = request_id i, ack_review = review_sha256 i, ack_next_review = review, ack_node = node,
              ack_state = state, ack_completed = completed, ack_transitions = transitions\<rparr>)))))"

section \<open>Dispatch\<close>

fun dispatch_items ::
  "(item \<Rightarrow> 'v \<Rightarrow> acknowledged result) \<Rightarrow> (item \<Rightarrow> ('s, 'v) action) \<Rightarrow> acknowledged list \<Rightarrow> item list
     \<Rightarrow> 's \<Rightarrow> dispatch_report \<times> 's" where
  "dispatch_items ack step done_acks [] s = (Acknowledged done_acks, s)"
| "dispatch_items ack step done_acks (i # is) s =
     (case step i s of (r, s') \<Rightarrow>
        (case and_then r (ack i) of
           Inr a \<Rightarrow> dispatch_items ack step (done_acks @ [a]) is s'
         | Inl _ \<Rightarrow> (Stopped done_acks (request_id i) (review_sha256 i) (map request_id is), s')))"

definition dispatch ::
  "(item \<Rightarrow> 'v \<Rightarrow> acknowledged result) \<Rightarrow> schedule \<Rightarrow> string \<Rightarrow> (item \<Rightarrow> ('s, 'v) action) \<Rightarrow> ('s, dispatch_report) action" where
  "dispatch ack schedule inst step s =
     (case schedule_validate schedule inst of
        Inl e \<Rightarrow> (Inl e, s)
      | Inr _ \<Rightarrow> (case dispatch_items ack step [] (items schedule) s of (r, s') \<Rightarrow> (Ok r, s')))"

section \<open>Properties\<close>

lemma check_items_Ok:
  "check_items requests is = Ok () \<longleftrightarrow> distinct (map request_id is)
     \<and> (\<forall>i \<in> set is. request_id i \<notin> requests \<and> \<not> item_invalid i)"
  by (induction "is" arbitrary: requests) (auto simp: image_iff)

text \<open>Running the step on items one after the other, whatever it returns.\<close>

fun after_steps :: "(item \<Rightarrow> ('s, 'v) action) \<Rightarrow> item list \<Rightarrow> 's \<Rightarrow> 's" where
  "after_steps step [] s = s"
| "after_steps step (i # is) s = after_steps step is (snd (step i s))"

fun ack_request_of :: "dispatch_report \<Rightarrow> acknowledged list" where
  "ack_request_of (Stopped acks _ _ _) = acks"
| "ack_request_of (Acknowledged acks) = acks"

text \<open>How far the loop comes, as a number: up to the first item whose step or acknowledgement fails.\<close>

fun progress :: "(item \<Rightarrow> 'v \<Rightarrow> acknowledged result) \<Rightarrow> (item \<Rightarrow> ('s, 'v) action) \<Rightarrow> item list \<Rightarrow> 's \<Rightarrow> nat" where
  "progress ack step [] s = 0"
| "progress ack step (i # is) s =
     (if is_ok (and_then (fst (step i s)) (ack i)) then Suc (progress ack step is (snd (step i s))) else 0)"

lemma progress_le: "progress ack step is s \<le> length is"
  by (induction "is" arbitrary: s) auto

lemma dispatch_items_spec:
  assumes ids: "\<And>i v a. ack i v = Ok a \<Longrightarrow> ack_request a = request_id i"
    and run: "dispatch_items ack step acks is s = (r, s')" and k: "k = progress ack step is s"
  shows "s' = after_steps step (take (Suc k) is) s
    \<and> map ack_request (ack_request_of r) = map ack_request acks @ map request_id (take k is)
    \<and> (case r of Acknowledged _ \<Rightarrow> k = length is
       | Stopped _ failed review rest \<Rightarrow> k < length is \<and> failed = request_id (is ! k) \<and> review = review_sha256 (is ! k)
           \<and> rest = map request_id (drop (Suc k) is))"
  using run k
proof (induction "is" arbitrary: acks s k)
  case (Cons i "is")
  obtain o1 s1 where o1: "step i s = (o1, s1)" by (cases "step i s")
  show ?case
  proof (cases "and_then o1 (ack i)")
    case (Inl e)
    then show ?thesis using Cons.prems o1 by auto
  next
    case (Inr a)
    then have "ack_request a = request_id i" using ids by (auto simp: and_then_Inr_iff)
    moreover have "dispatch_items ack step (acks @ [a]) is s1 = (r, s')" using Cons.prems(1) o1 Inr by simp
    note Cons.IH [OF this refl]
    moreover have "k = Suc (progress ack step is s1)" using Cons.prems(2) o1 Inr by simp
    ultimately show ?thesis using o1 by (cases r) simp_all
  qed
qed auto

lemma acknowledgement_Ok:
  assumes "acknowledgement str_at u64_at i outcome = Ok a"
  shows "ack_request a = request_id i" "ack_review a = review_sha256 i" "io_hash (ack_next_review a)"
    "scope_id (ack_node a)" "ack_state a \<in> {''ready'', ''completed''}" "unat (ack_transitions a) \<in> {1, 2}"
    "1 \<le> unat (ack_completed a) \<and> unat (ack_completed a) \<le> 64" "str_at outcome [''request_id''] = Some (request_id i)"
  using assms
  by (auto simp: acknowledgement_def result_simps in_range_def split: option.splits if_splits)

text \<open>
  C29: Dispatch runs the step on a prefix of the schedule and nothing else: an invalid schedule runs no
  step; a valid one runs the items in order, each once, up to and including the first that fails or is not
  acknowledged; the report names exactly the acknowledged requests, the failed one and those never dispatched.
\<close>

theorem dispatch_prefix:
  assumes run: "dispatch (acknowledgement str_at u64_at) sch inst step s = (r, s')"
    and k: "k = progress (acknowledgement str_at u64_at) step (items sch) s"
  shows "if schedule_validate sch inst = Ok ()
    then distinct (map request_id (items sch)) \<and> s' = after_steps step (take (Suc k) (items sch)) s
      \<and> (if k = length (items sch)
         then \<exists>acks. r = Ok (Acknowledged acks) \<and> map ack_request acks = map request_id (items sch)
         else \<exists>acks. r = Ok (Stopped acks (request_id (items sch ! k)) (review_sha256 (items sch ! k))
             (map request_id (drop (Suc k) (items sch)))) \<and> map ack_request acks = map request_id (take k (items sch)))
    else s' = s \<and> \<not> is_ok r"
proof (cases "schedule_validate sch inst")
  case (Inl e)
  then show ?thesis using run by (auto simp: dispatch_def)
next
  case (Inr u)
  then obtain rep where d: "dispatch_items (acknowledgement str_at u64_at) step [] (items sch) s = (rep, s')" "r = Ok rep"
    using run by (auto simp: dispatch_def split: prod.splits)
  have ids: "ack_request a = request_id i" if "acknowledgement str_at u64_at i v = Ok a" for i v a
    using that by (rule acknowledgement_Ok(1))
  have "distinct (map request_id (items sch))"
    using Inr by (auto simp: schedule_validate_def check_items_Ok split: if_splits)
  then show ?thesis using dispatch_items_spec [OF ids d(1) k] Inr d(2) by (cases rep) auto
qed

text \<open>A schedule of two items whose second step fails; the state records the requests seen.\<close>

definition sample_item :: "string \<Rightarrow> item" where
  "sample_item r = \<lparr>request_id = r, review_sha256 = replicate 64 CHR ''a'', grants = bm_of_list [(''resume'', ''g1'')]\<rparr>"

definition sample_schedule :: schedule where
  "sample_schedule = \<lparr>schedule_schema = 1, installation = replicate 64 CHR ''0'',
     items = [sample_item ''r1'', sample_item ''r2'', sample_item ''r3'']\<rparr>"

definition sample_step :: "item \<Rightarrow> (string list, string) action" where
  "sample_step i seen = (if request_id i = ''r2'' then Err ''refused'' else Ok (request_id i), seen @ [request_id i])"

definition sample_str :: "string \<Rightarrow> string list \<Rightarrow> string option" where
  "sample_str v path = (if path = [''request_id''] then Some v else if path = [''state''] then Some ''ready''
     else if path = [''review_sha256''] then Some (replicate 64 CHR ''b'') else Some ''node'')"

definition sample_num :: "string \<Rightarrow> string list \<Rightarrow> u64 option" where
  "sample_num v path = Some 1"

theorem dispatch_prefix_witness:
  "dispatch (acknowledgement sample_str sample_num) sample_schedule (replicate 64 CHR ''0'') sample_step []
     = (Ok (Stopped [\<lparr>ack_request = ''r1'', ack_review = replicate 64 CHR ''a'', ack_next_review = replicate 64 CHR ''b'',
          ack_node = ''node'', ack_state = ''ready'', ack_completed = 1, ack_transitions = 1\<rparr>]
          ''r2'' (replicate 64 CHR ''a'') [''r3'']), [''r1'', ''r2''])
   \<and> [''r1'', ''r2''] = after_steps sample_step (take 2 (items sample_schedule)) []"
proof -
  have run: "dispatch (acknowledgement sample_str sample_num) sample_schedule (replicate 64 CHR ''0'') sample_step []
     = (Ok (Stopped [\<lparr>ack_request = ''r1'', ack_review = replicate 64 CHR ''a'', ack_next_review = replicate 64 CHR ''b'',
          ack_node = ''node'', ack_state = ''ready'', ack_completed = 1, ack_transitions = 1\<rparr>]
          ''r2'' (replicate 64 CHR ''a'') [''r3'']), [''r1'', ''r2''])" by code_simp
  have k: "1 = progress (acknowledgement sample_str sample_num) sample_step (items sample_schedule) []" by code_simp
  have "schedule_validate sample_schedule (replicate 64 CHR ''0'') = Ok ()" by code_simp
  then show ?thesis using dispatch_prefix [OF run k] run by (simp add: numeral_2_eq_2)
qed

end
