(* ===== verification/Workflow_Dag.thy ===== *)
theory Workflow_Dag
  imports Workflow Workflow_Schedule Resources
begin

text \<open>
  Durable runs of a workflow (\<open>workflow_dag.rs\<close>): plans and their validation, the checkpoint chain and
  its replay, and the decisions taken on a replayed run.

  The database is the list of rows a query returns. Hashes over JSON, the canonical text of an event, the
  content-addressed objects, the calculation batch and the artifact receipt are the \<open>services\<close> of the model.
\<close>

section \<open>Data\<close>

record source_identity =
  src_root :: string
  src_relative :: string
  src_root_identity :: "u64 \<times> u64"
  src_device :: u64
  src_inode :: u64
  src_bytes :: u64
  src_modified :: "int \<times> int"
  src_changed :: "int \<times> int"
  src_uid :: u32
  src_gid :: u32
  src_mode :: u32
  src_sha256 :: string

record target =
  artifact_id :: string
  expected_version :: u64

record proposal =
  proposal_schema :: u32
  proposal_request :: string
  workflow_sha256 :: string
  proposal_inputs :: "(string, source_identity) bmap"
  proposal_targets :: "(string, target) bmap"
  history_epoch :: "u64 option"

record dag_owner =
  principal :: string
  owner_generation :: u64

record plan =
  plan_schema :: u32
  plan_installation :: string
  plan_proposal :: proposal
  plan_graph :: graph
  plan_order :: "string list"
  storage_device :: string
  plan_owner :: "dag_owner option"

datatype 'r dag_output =
    OutText string u64
  | OutReport string u64 string token
  | OutArtifact 'r

datatype phase = Prepared | Applying | Completed | Cancelled

record 'r event =
  event_schema :: u32
  ordinal :: u32
  plan_sha256 :: string
  previous_sha256 :: string
  event_node :: string
  event_phase :: phase
  event_output :: "'r dag_output option"
  policy_operation_id :: string

record 'r run =
  run_plan :: plan
  run_event :: "'r event"
  run_cursor :: nat
  run_outputs :: "(string, 'r dag_output) bmap"

record ('b, 'r) services =
  graph_bytes :: "graph \<Rightarrow> string"
  parse_graph :: "string \<Rightarrow> graph option"
  graph_digest :: "string \<Rightarrow> string \<Rightarrow> node list \<Rightarrow> string"
  byte_sha :: "string \<Rightarrow> string"
  plan_hash :: "plan \<Rightarrow> string"
  event_hash :: "'r event \<Rightarrow> string"
  review_hash :: "plan \<Rightarrow> 'r event \<Rightarrow> string"
  parse_plan :: "string \<Rightarrow> plan option"
  print_plan :: "plan \<Rightarrow> string"
  parse_event :: "string \<Rightarrow> 'r event option"
  print_event :: "'r event \<Rightarrow> string"
  object_bytes :: "string \<Rightarrow> 'b result"
  object_length :: "'b \<Rightarrow> u64"
  batch_bytes :: "(string, 'b) bmap \<Rightarrow> 'b result"
  batch_sha :: "'b \<Rightarrow> string"
  report_source :: "'b \<Rightarrow> string option result"
  owned_receipt :: "plan \<Rightarrow> string \<Rightarrow> string \<Rightarrow> 'b \<Rightarrow> 'r result"

definition MAX_OBJECT :: u64 where "MAX_OBJECT = 2 * 1024 * 1024"

definition operation_id :: "string \<Rightarrow> bool" where
  "operation_id v \<longleftrightarrow> hex_string 32 v"

definition INPUT_PREFIX :: string where "INPUT_PREFIX = ''/var/lib/luma-os/workflow-inputs/''"

definition input_root :: "string \<Rightarrow> bool" where
  "input_root r \<longleftrightarrow> take (length INPUT_PREFIX) r = INPUT_PREFIX \<and> io_hash (drop (length INPUT_PREFIX) r)"

definition token_valid :: "token \<Rightarrow> bool" where
  "token_valid t \<longleftrightarrow> 0 < token_generation t \<and> hex_string 32 (lease_id t) \<and> hex_string 32 (token_epoch t)"

section \<open>Plans\<close>

definition device_ok :: "string \<Rightarrow> bool" where
  "device_ok s = (case split_once CHR '':'' s of None \<Rightarrow> False | Some (major, minor) \<Rightarrow>
     (case parse_u32 major of None \<Rightarrow> False | Some v \<Rightarrow> 0 < v \<and> decimal v = major)
     \<and> (case parse_u32 minor of None \<Rightarrow> False | Some v \<Rightarrow> decimal v = minor))"

definition source_ok :: "source_identity \<Rightarrow> bool" where
  "source_ok i \<longleftrightarrow> io_hash (src_sha256 i) \<and> src_bytes i \<noteq> 0 \<and> src_bytes i \<le> 1024 * 1024 \<and> input_root (src_root i)"

definition target_ok :: "target \<Rightarrow> bool" where
  "target_ok t \<longleftrightarrow> io_identifier (artifact_id t) \<and> expected_version t < 1024"

definition epoch_bad :: "u64 option \<Rightarrow> bool" where
  "epoch_bad e = (case e of None \<Rightarrow> False | Some v \<Rightarrow> v = 0 \<or> v = - 1)"

definition nodes_of_kind :: "graph \<Rightarrow> kind \<Rightarrow> string list" where
  "nodes_of_kind g k = sort (map node_id (filter (\<lambda>n. node_kind n = k) (nodes g)))"

definition plan_validate :: "('b, 'r) services \<Rightarrow> plan \<Rightarrow> string \<Rightarrow> executable result" where
  "plan_validate sv p inst =
     and_then (ok_or (plan_owner p) ''durable DAG plan lacks its governed owner'') (\<lambda>ow.
     if plan_schema p \<noteq> 1 \<or> plan_installation p \<noteq> inst \<or> \<not> io_hash inst
     then Err ''DAG plan installation or principal binding is invalid''
     else and_then (tpm_decode 32 (principal ow)) (\<lambda>digest.
     if digest = replicate 32 0 \<or> owner_generation ow = 0
     then Err ''DAG plan installation or principal binding is invalid''
     else and_then (from_bytes (parse_graph sv) (graph_digest sv) (byte_sha sv) (graph_bytes sv (plan_graph p))) (\<lambda>ex.
     if exec_order ex \<noteq> plan_order p then Err ''DAG plan topology differs from its checkpoint''
     else let pr = plan_proposal p; stored = ex\<lparr>exec_sha256 := workflow_sha256 pr\<rparr> in
     if \<not> io_hash (workflow_sha256 pr) \<or> \<not> io_identifier (proposal_request pr) \<or> proposal_schema pr \<noteq> 1
        \<or> epoch_bad (history_epoch pr) \<or> 64 < bm_size (proposal_inputs pr) \<or> 64 < bm_size (proposal_targets pr)
     then Err ''DAG plan proposal is malformed''
     else if \<not> list_all source_ok (bm_values (proposal_inputs pr))
     then Err ''DAG stored source identity is malformed''
     else if \<not> list_all target_ok (bm_values (proposal_targets pr))
     then Err ''DAG stored target is malformed''
     else let inputs = nodes_of_kind (exec_graph ex) FileRead; targets = nodes_of_kind (exec_graph ex) ArtifactWrite in
     if inputs \<noteq> bm_keys (proposal_inputs pr) \<or> targets \<noteq> bm_keys (proposal_targets pr)
        \<or> card (set (map artifact_id (bm_values (proposal_targets pr)))) \<noteq> length targets
     then Err ''DAG stored source or output topology differs''
     else if \<not> device_ok (storage_device p) then Err ''DAG stored device identity is malformed''
     else Ok stored)))"

definition execution_binding :: "plan \<Rightarrow> string \<Rightarrow> string \<Rightarrow> u64 \<Rightarrow> string \<Rightarrow> executable \<Rightarrow> unit result" where
  "execution_binding p inst prin gen device ex =
     and_then (ok_or (plan_owner p) ''DAG owner is missing'') (\<lambda>ow.
     if prin \<noteq> principal ow \<or> gen \<noteq> owner_generation ow \<or> inst \<noteq> plan_installation p \<or> device \<noteq> storage_device p
     then Err ''DAG principal, installation or physical storage generation changed''
     else if exec_sha256 ex \<noteq> workflow_sha256 (plan_proposal p) \<or> exec_graph ex \<noteq> plan_graph p
        \<or> exec_order ex \<noteq> plan_order p
     then Err ''DAG signed graph changed; saved checkpoints confer no authority''
     else Ok ())"

section \<open>Replay\<close>

fun collect_sources ::
  "('b, 'r) services \<Rightarrow> (string, 'r dag_output) bmap \<Rightarrow> (string, 'b) bmap \<Rightarrow> string list \<Rightarrow> (string, 'b) bmap result" where
  "collect_sources sv outs sources [] = Ok sources"
| "collect_sources sv outs sources (d # ds) =
     (case bm_get outs d of
        Some (OutText sha _) \<Rightarrow>
          and_then (object_bytes sv sha) (\<lambda>b. collect_sources sv outs (bm_insert d b sources) ds)
      | _ \<Rightarrow> Err ''DAG calculation dependency is not completed text'')"

definition batch :: "('b, 'r) services \<Rightarrow> node \<Rightarrow> (string, 'r dag_output) bmap \<Rightarrow> 'b result" where
  "batch sv n outs = and_then (collect_sources sv outs bm_empty (dependencies n)) (batch_bytes sv)"

definition report :: "('b, 'r) services \<Rightarrow> node \<Rightarrow> (string, 'r dag_output) bmap \<Rightarrow> (string \<times> 'b \<times> token) result" where
  "report sv n outs =
     (case dependencies n of
        [] \<Rightarrow> Inl Panic
      | d # _ \<Rightarrow> (case bm_get outs d of
          Some (OutReport sha _ input lease) \<Rightarrow> and_then (object_bytes sv sha) (\<lambda>b. Ok (input, b, lease))
        | _ \<Rightarrow> Err ''DAG publication dependency is not completed report''))"

record 'r chain =
  previous :: "'r event option"
  cursor :: nat
  outputs :: "(string, 'r dag_output) bmap"

definition chain_start :: "'r chain" where
  "chain_start = \<lparr>previous = None, cursor = 0, outputs = bm_empty\<rparr>"

definition next_ordinal :: "'r event option \<Rightarrow> u32 result" where
  "next_ordinal prev = (case prev of None \<Rightarrow> Ok 0 | Some e \<Rightarrow> ok_or_panic (checked_add (ordinal e) 1))"

definition preceding_hash :: "('b, 'r) services \<Rightarrow> plan \<Rightarrow> 'r event option \<Rightarrow> string" where
  "preceding_hash sv p prev = (case prev of None \<Rightarrow> plan_hash sv p | Some e \<Rightarrow> event_hash sv e)"

definition was_applying :: "'r event option \<Rightarrow> bool" where
  "was_applying prev = (case prev of None \<Rightarrow> False | Some e \<Rightarrow> event_phase e = Applying)"

definition order_at :: "executable \<Rightarrow> nat \<Rightarrow> string result" where
  "order_at ex i = (if i < length (exec_order ex) then Ok (exec_order ex ! i) else Inl Panic)"

definition check_output ::
  "('b, 'r) services \<Rightarrow> plan \<Rightarrow> 'r chain \<Rightarrow> node \<Rightarrow> 'r dag_output \<Rightarrow> unit result" where
  "check_output sv p c n out =
     (case (node_kind n, out) of
        (FileRead, OutText sha bytes) \<Rightarrow>
          and_then (ok_or (bm_get (proposal_inputs (plan_proposal p)) (node_id n)) ''DAG source missing'') (\<lambda>i.
          if sha \<noteq> src_sha256 i \<or> bytes \<noteq> src_bytes i then Err ''DAG source checkpoint differs''
          else and_then (object_bytes sv sha) (\<lambda>b.
          if object_length sv b \<noteq> bytes then Err ''DAG source checkpoint differs'' else Ok ()))
      | (DeterministicCalculate, OutReport sha bytes input lease) \<Rightarrow>
          and_then (batch sv n (outputs c)) (\<lambda>bt.
          and_then (object_bytes sv sha) (\<lambda>rep.
          if object_length sv rep \<noteq> bytes \<or> input \<noteq> batch_sha sv bt \<or> \<not> token_valid lease
          then Err ''DAG calculated checkpoint differs''
          else and_then (report_source sv rep) (\<lambda>source.
          if source \<noteq> Some input then Err ''DAG calculated checkpoint differs'' else Ok ())))
      | (ArtifactWrite, OutArtifact receipt) \<Rightarrow>
          if \<not> was_applying (previous c) then Err ''DAG artifact lacked its applying checkpoint''
          else and_then (report sv n (outputs c)) (\<lambda>(input, rep, _).
          and_then (owned_receipt sv p (node_id n) input rep) (\<lambda>expected.
          if expected \<noteq> receipt then Err ''DAG artifact receipt differs'' else Ok ()))
      | _ \<Rightarrow> Err ''DAG checkpoint output type differs'')"

definition apply_phase ::
  "('b, 'r) services \<Rightarrow> plan \<Rightarrow> executable \<Rightarrow> 'r chain \<Rightarrow> u32 \<Rightarrow> 'r event \<Rightarrow> 'r chain result" where
  "apply_phase sv p ex c ord e =
     (case event_phase e of
        Prepared \<Rightarrow>
          if ord \<noteq> 0 \<or> event_node e \<noteq> [] \<or> event_output e \<noteq> None then Err ''invalid prepared DAG checkpoint''
          else Ok (c\<lparr>previous := Some e\<rparr>)
      | Cancelled \<Rightarrow>
          if ord = 0 \<or> was_applying (previous c) \<or> event_node e \<noteq> [] \<or> event_output e \<noteq> None
          then Err ''invalid DAG cancellation'' else Ok (c\<lparr>previous := Some e\<rparr>)
      | Applying \<Rightarrow>
          if ord = 0 then Err ''invalid applying DAG checkpoint''
          else and_then (order_at ex (cursor c)) (\<lambda>expected.
          if event_node e \<noteq> expected then Err ''invalid applying DAG checkpoint''
          else and_then (find_node (exec_graph ex) (event_node e)) (\<lambda>n.
          if node_kind n \<noteq> ArtifactWrite \<or> event_output e \<noteq> None \<or> was_applying (previous c)
          then Err ''invalid applying DAG checkpoint'' else Ok (c\<lparr>previous := Some e\<rparr>)))
      | Completed \<Rightarrow>
          if ord = 0 then Err ''DAG node completion order differs''
          else and_then (order_at ex (cursor c)) (\<lambda>expected.
          if event_node e \<noteq> expected then Err ''DAG node completion order differs''
          else and_then (find_node (exec_graph ex) (event_node e)) (\<lambda>n.
          and_then (ok_or (event_output e) ''DAG completed node lacks output'') (\<lambda>out.
          and_then (check_output sv p c n out) (\<lambda>_.
          Ok \<lparr>previous = Some e, cursor = Suc (cursor c), outputs = bm_insert (node_id n) out (outputs c)\<rparr>)))))"

definition replay_row ::
  "('b, 'r) services \<Rightarrow> plan \<Rightarrow> executable \<Rightarrow> 'r chain \<Rightarrow> string \<times> string \<Rightarrow> 'r chain result" where
  "replay_row sv p ex c row =
     and_then (ok_or (parse_event sv (snd row)) ''malformed DAG event'') (\<lambda>e.
     and_then (next_ordinal (previous c)) (\<lambda>ord.
     if event_schema e \<noteq> 1 \<or> ordinal e \<noteq> ord \<or> decimal (unat (ordinal e)) \<noteq> fst row \<or> print_event sv e \<noteq> snd row
        \<or> plan_sha256 e \<noteq> plan_hash sv p \<or> previous_sha256 e \<noteq> preceding_hash sv p (previous c)
        \<or> \<not> operation_id (policy_operation_id e)
     then Err ''DAG checkpoint chain differs''
     else if (case previous c of None \<Rightarrow> False | Some l \<Rightarrow> event_phase l = Cancelled \<or> cursor c = length (exec_order ex))
     then Err ''DAG transition after terminal state''
     else apply_phase sv p ex c ord e))"

fun replay_rows ::
  "('b, 'r) services \<Rightarrow> plan \<Rightarrow> executable \<Rightarrow> 'r chain \<Rightarrow> (string \<times> string) list \<Rightarrow> 'r chain result" where
  "replay_rows sv p ex c [] = Ok c"
| "replay_rows sv p ex c (row # rows) = and_then (replay_row sv p ex c row) (\<lambda>c'. replay_rows sv p ex c' rows)"

definition load ::
  "('b, 'r) services \<Rightarrow> string \<Rightarrow> string \<Rightarrow> string \<Rightarrow> string option \<Rightarrow> (string \<times> string) list \<Rightarrow> 'r run result" where
  "load sv inst prin req plan_row rows =
     (if \<not> io_identifier req then Err ''invalid DAG request''
      else and_then (ok_or plan_row ''DAG run not found'') (\<lambda>text.
      and_then (ok_or (parse_plan sv text) ''malformed DAG plan'') (\<lambda>p.
      and_then (plan_validate sv p inst) (\<lambda>ex.
      if print_plan sv p \<noteq> text \<or> proposal_request (plan_proposal p) \<noteq> req
         \<or> map_option principal (plan_owner p) \<noteq> Some prin
      then Err ''DAG plan canonical identity or security domain differs''
      else and_then (replay_rows sv p ex chain_start rows) (\<lambda>c.
      and_then (ok_or (previous c) ''DAG checkpoint missing'') (\<lambda>e.
      Ok \<lparr>run_plan = p, run_event = e, run_cursor = cursor c, run_outputs = outputs c\<rparr>))))))"

section \<open>Decisions on a replayed run\<close>

definition status_state :: "'r run \<Rightarrow> string" where
  "status_state r =
     (if event_phase (run_event r) = Cancelled then ''cancelled''
      else if run_cursor r = length (plan_order (run_plan r)) then ''completed''
      else if event_phase (run_event r) = Applying then ''applying'' else ''ready'')"

definition next_event ::
  "('b, 'r) services \<Rightarrow> plan \<Rightarrow> 'r event option \<Rightarrow> string \<Rightarrow> phase \<Rightarrow> 'r dag_output option \<Rightarrow> string \<Rightarrow> 'r event result" where
  "next_event sv p prev node ph out op =
     (if \<not> operation_id op then Err ''DAG requires its actual policy operation correlation''
      else and_then (next_ordinal prev) (\<lambda>ord.
      Ok \<lparr>event_schema = 1, ordinal = ord, plan_sha256 = plan_hash sv p, previous_sha256 = preceding_hash sv p prev,
          event_node = node, event_phase = ph, event_output = out, policy_operation_id = op\<rparr>))"

definition schedule_review :: "('b, 'r) services \<Rightarrow> 'r run \<Rightarrow> string \<Rightarrow> unit result" where
  "schedule_review sv r rvw =
     (if run_cursor r = length (plan_order (run_plan r)) \<or> event_phase (run_event r) \<in> {Cancelled, Applying}
         \<or> review_hash sv (run_plan r) (run_event r) \<noteq> rvw
      then Err ''scheduler requires an exact current nonterminal checkpoint without publication uncertainty''
      else Ok ())"

definition node_inputs :: "('b, 'r) services \<Rightarrow> plan \<Rightarrow> node \<Rightarrow> string list result" where
  "node_inputs sv p n =
     and_then (plan_validate sv p (plan_installation p)) (\<lambda>ex.
     case node_kind n of
       FileRead \<Rightarrow> Ok [node_id n]
     | DeterministicCalculate \<Rightarrow> Ok (dependencies n)
     | ArtifactWrite \<Rightarrow> (case dependencies n of [] \<Rightarrow> Inl Panic | d # _ \<Rightarrow>
         and_then (find_node (exec_graph ex) d) (\<lambda>m. Ok (dependencies m))))"

fun replayed_rows :: "('b, 'r) services \<Rightarrow> string \<Rightarrow> 'r run \<Rightarrow> string \<Rightarrow> bool \<Rightarrow> string list \<Rightarrow> bool result" where
  "replayed_rows sv inst r rvw cancel [] = Err ''DAG review does not name a retained checkpoint''"
| "replayed_rows sv inst r rvw cancel (row # rows) =
     and_then (ok_or (parse_event sv row) ''malformed DAG event'') (\<lambda>prior.
     if review_hash sv (run_plan r) prior \<noteq> rvw then replayed_rows sv inst r rvw cancel rows
     else and_then (ok_or (checked_sub (ordinal (run_event r)) (ordinal prior)) ''DAG replay ordinal regression'') (\<lambda>difference.
     and_then (if cancel then Ok (event_phase (run_event r) = Cancelled \<and> difference = 1)
       else if event_phase (run_event r) \<noteq> Completed then Ok False
       else if difference = 1 then Ok True
       else if difference \<noteq> 2 then Ok False
       else and_then (plan_validate sv (run_plan r) inst) (\<lambda>ex.
            and_then (find_node (exec_graph ex) (event_node (run_event r))) (\<lambda>n.
            Ok (node_kind n = ArtifactWrite)))) (\<lambda>terminal.
     if terminal then Ok True else Err ''DAG stale review is not the exact acknowledged transition'')))"

definition replayed_review :: "('b, 'r) services \<Rightarrow> string \<Rightarrow> 'r run \<Rightarrow> string \<Rightarrow> bool \<Rightarrow> string list \<Rightarrow> bool result" where
  "replayed_review sv inst r rvw cancel rows =
     (if review_hash sv (run_plan r) (run_event r) = rvw then Ok False
      else replayed_rows sv inst r rvw cancel rows)"

definition grant :: "(string, string) bmap \<Rightarrow> string \<Rightarrow> 'u \<Rightarrow> (string \<times> 'u) result" where
  "grant gs key use =
     and_then (ok_or (bm_get gs key) ''missing exact DAG grant'') (\<lambda>i.
     if \<not> scope_id i then Err ''malformed DAG grant identifier'' else Ok (i, use))"

section \<open>The checkpoint chain\<close>

fun output_kind :: "'r dag_output \<Rightarrow> kind" where
  "output_kind (OutText _ _) = FileRead"
| "output_kind (OutReport _ _ _ _) = DeterministicCalculate"
| "output_kind (OutArtifact _) = ArtifactWrite"

definition phase_of :: "'r chain \<Rightarrow> phase option" where
  "phase_of c = map_option event_phase (previous c)"

text \<open>How many rows a chain may have taken: two for each completed node, and one for its last checkpoint.\<close>

fun spent :: "phase option \<Rightarrow> nat \<Rightarrow> nat" where
  "spent None k = 0"
| "spent (Some Prepared) k = 1"
| "spent (Some Completed) k = 2 * k + 1"
| "spent (Some _) k = 2 * k + 2"

definition chain_ok :: "executable \<Rightarrow> nat \<Rightarrow> 'r chain \<Rightarrow> bool" where
  "chain_ok ex rows c \<longleftrightarrow> cursor c \<le> length (exec_order ex)
     \<and> set (bm_keys (outputs c)) = set (take (cursor c) (exec_order ex))
     \<and> (\<forall>k out. bm_get (outputs c) k = Some out \<longrightarrow> (\<exists>n. find_node (exec_graph ex) k = Ok n \<and> node_kind n = output_kind out))
     \<and> rows \<le> spent (phase_of c) (cursor c)
     \<and> (previous c = None \<longrightarrow> cursor c = 0)
     \<and> (phase_of c = Some Prepared \<longrightarrow> cursor c = 0)
     \<and> (phase_of c \<in> {Some Applying, Some Cancelled} \<longrightarrow> cursor c < length (exec_order ex))
     \<and> (\<forall>e. previous c = Some e \<and> event_phase e = Applying \<longrightarrow> event_node e = exec_order ex ! cursor c)"

definition terminal :: "executable \<Rightarrow> 'r chain \<Rightarrow> bool" where
  "terminal ex c \<longleftrightarrow> previous c \<noteq> None \<and> (phase_of c = Some Cancelled \<or> cursor c = length (exec_order ex))"

lemma chain_start_ok: "chain_ok ex 0 chain_start"
  by (simp add: chain_ok_def chain_start_def phase_of_def bm_keys_def)

lemma find_node_id: "find_node g k = Ok n \<Longrightarrow> node_id n = k \<and> n \<in> set (nodes g)"
  by (auto simp: find_node_def result_simps find_Some_iff)

lemma check_output_kind: "check_output sv p c n out = Ok () \<Longrightarrow> node_kind n = output_kind out"
  by (cases "node_kind n"; cases out) (simp_all add: check_output_def)

lemma check_output_applying:
  "check_output sv p c n out = Ok () \<Longrightarrow> node_kind n = ArtifactWrite \<Longrightarrow> was_applying (previous c)"
  by (cases out) (simp_all add: check_output_def split: if_splits)

lemma replay_row_Ok:
  assumes "replay_row sv p ex c row = Ok c'"
  obtains e ord where "parse_event sv (snd row) = Some e" "next_ordinal (previous c) = Ok ord" "ordinal e = ord"
    "\<not> terminal ex c" "apply_phase sv p ex c ord e = Ok c'"
  using assms
  by (auto simp: replay_row_def result_simps terminal_def phase_of_def split: option.splits if_splits)

lemma apply_phase_cases:
  assumes "apply_phase sv p ex c ord e = Ok c'"
  obtains (prepared) "event_phase e = Prepared" "ord = 0" "c' = c\<lparr>previous := Some e\<rparr>"
  | (cancelled) "event_phase e = Cancelled" "ord \<noteq> 0" "\<not> was_applying (previous c)" "c' = c\<lparr>previous := Some e\<rparr>"
  | (applying) n where "event_phase e = Applying" "ord \<noteq> 0" "\<not> was_applying (previous c)" "cursor c < length (exec_order ex)"
      "event_node e = exec_order ex ! cursor c" "find_node (exec_graph ex) (event_node e) = Ok n" "node_kind n = ArtifactWrite"
      "c' = c\<lparr>previous := Some e\<rparr>"
  | (completed) n out where "event_phase e = Completed" "ord \<noteq> 0" "cursor c < length (exec_order ex)"
      "event_node e = exec_order ex ! cursor c" "find_node (exec_graph ex) (event_node e) = Ok n" "event_output e = Some out"
      "check_output sv p c n out = Ok ()"
      "c' = \<lparr>previous = Some e, cursor = Suc (cursor c), outputs = bm_insert (node_id n) out (outputs c)\<rparr>"
  using assms
  by (cases "event_phase e") (auto simp: apply_phase_def result_simps order_at_def split: if_splits)

lemma next_ordinal_zero: "next_ordinal prev = Ok ord \<Longrightarrow> ord = 0 \<longleftrightarrow> prev = None"
  by (cases prev) (auto simp: next_ordinal_def result_simps dest: checked_add_unat)

lemma spent_step:
  assumes "rows \<le> spent ph k" "ph \<noteq> None" "ph \<noteq> Some Cancelled" "ph = Some Prepared \<longrightarrow> k = 0"
  shows "Suc rows \<le> spent (Some Completed) (Suc k)"
    and "ph \<noteq> Some Applying \<Longrightarrow> Suc rows \<le> 2 * k + 2"
  using assms by (cases ph; cases "the ph"; simp)+

lemma take_Suc_set: "i < length xs \<Longrightarrow> set (take (Suc i) xs) = insert (xs ! i) (set (take i xs))"
  by (simp add: take_Suc_conv_app_nth)

lemma was_applying_phase: "was_applying (previous c) \<longleftrightarrow> phase_of c = Some Applying"
  by (auto simp: was_applying_def phase_of_def split: option.splits)

lemma chain_ok_step:
  assumes ok: "chain_ok ex rows c" and row: "replay_row sv p ex c row = Ok c'"
  shows "chain_ok ex (Suc rows) c'"
proof -
  obtain e ord where ord: "next_ordinal (previous c) = Ok ord" and live: "\<not> terminal ex c"
    and ap: "apply_phase sv p ex c ord e = Ok c'" using row by (rule replay_row_Ok)
  have zero: "ord = 0 \<longleftrightarrow> phase_of c = None" using next_ordinal_zero [OF ord] by (simp add: phase_of_def)
  have open_chain: "phase_of c \<noteq> Some Cancelled" "cursor c < length (exec_order ex)" if "phase_of c \<noteq> None"
    using that live ok by (auto simp: terminal_def phase_of_def chain_ok_def)
  have init: "phase_of c = Some Prepared \<longrightarrow> cursor c = 0" and rows: "rows \<le> spent (phase_of c) (cursor c)"
    using ok by (auto simp: chain_ok_def)
  from ap show ?thesis
  proof (cases rule: apply_phase_cases)
    case prepared
    then show ?thesis using ok zero by (auto simp: chain_ok_def phase_of_def)
  next
    case cancelled
    then have "Suc rows \<le> 2 * cursor c + 2" "cursor c < length (exec_order ex)"
      using spent_step(2) [OF rows] zero open_chain init by (auto simp: was_applying_phase)
    then show ?thesis using ok cancelled by (auto simp: chain_ok_def phase_of_def)
  next
    case (applying n)
    then have "Suc rows \<le> 2 * cursor c + 2"
      using spent_step(2) [OF rows] zero open_chain init by (auto simp: was_applying_phase)
    then show ?thesis using ok applying by (auto simp: chain_ok_def phase_of_def)
  next
    case (completed n out)
    have id: "node_id n = exec_order ex ! cursor c" using find_node_id [OF completed(5)] completed(4) by simp
    have "Suc rows \<le> spent (Some Completed) (Suc (cursor c))"
      using spent_step(1) [OF rows] zero open_chain init completed(2) by auto
    moreover have "find_node (exec_graph ex) (node_id n) = Ok n" using completed(4,5) id by simp
    ultimately show ?thesis
      using ok completed id check_output_kind [OF completed(7)]
      by (auto simp: chain_ok_def phase_of_def bm.keys_put take_Suc_set)
  qed
qed

lemma replay_rows_ok:
  "chain_ok ex k c \<Longrightarrow> replay_rows sv p ex c rows = Ok c' \<Longrightarrow> chain_ok ex (k + length rows) c'"
proof (induction rows arbitrary: k c)
  case (Cons row rows)
  then obtain m where "replay_row sv p ex c row = Ok m" "replay_rows sv p ex m rows = Ok c'" by (auto simp: and_then_Inr_iff)
  then show ?case using Cons.IH [OF chain_ok_step [OF Cons.prems(1)]] by fastforce
qed simp

lemma load_Ok:
  assumes "load sv inst prin req plan_row rows = Ok r"
  obtains ex c where "plan_validate sv (run_plan r) inst = Ok ex" "replay_rows sv (run_plan r) ex chain_start rows = Ok c"
    "previous c = Some (run_event r)" "run_cursor r = cursor c" "run_outputs r = outputs c" "chain_ok ex (length rows) c"
proof -
  obtain p ex c e where *: "plan_validate sv p inst = Ok ex" "replay_rows sv p ex chain_start rows = Ok c"
      "previous c = Some e" "r = \<lparr>run_plan = p, run_event = e, run_cursor = cursor c, run_outputs = outputs c\<rparr>"
    using assms unfolding load_def and_then_Inr_iff if_err_Inr_iff ok_or_Inr_iff by blast
  then show thesis using that [of ex c] replay_rows_ok [OF chain_start_ok *(2)] by simp
qed

lemma plan_validate_Ok:
  assumes "plan_validate sv p inst = Ok ex"
  obtains v where "validate (graph_digest sv) (exec_graph ex) = Ok v" "exec_order ex = order v" "plan_order p = order v"
proof -
  obtain ex0 where ex0: "from_bytes (parse_graph sv) (graph_digest sv) (byte_sha sv) (graph_bytes sv (plan_graph p)) = Ok ex0"
      "exec_order ex0 = plan_order p" "ex = ex0\<lparr>exec_sha256 := workflow_sha256 (plan_proposal p)\<rparr>"
    using assms unfolding plan_validate_def and_then_Inr_iff if_err_Inr_iff Let_def by auto
  then obtain v where "validate (graph_digest sv) (exec_graph ex0) = Ok v" "exec_order ex0 = order v"
    by (auto simp: from_bytes_def validate_bytes_def result_simps)
  with ex0 that show thesis by simp
qed

lemma replay_rows_append:
  "replay_rows sv p ex c (xs @ ys) = and_then (replay_rows sv p ex c xs) (\<lambda>c'. replay_rows sv p ex c' ys)"
proof (induction xs arbitrary: c)
  case (Cons x xs)
  then show ?case by (cases "replay_row sv p ex c x") simp_all
qed simp

lemma terminal_refuses: "terminal ex c \<Longrightarrow> \<not> is_ok (replay_row sv p ex c row)"
  by (cases "replay_row sv p ex c row") (auto elim: replay_row_Ok)

lemma load_append:
  assumes "load sv inst prin req plan_row rows = Ok r" "load sv inst prin req plan_row (rows @ ext) = Ok r'"
    "plan_validate sv (run_plan r) inst = Ok ex" "replay_rows sv (run_plan r) ex chain_start rows = Ok c"
  shows "\<exists>c'. replay_rows sv (run_plan r) ex c ext = Ok c' \<and> run_plan r' = run_plan r
    \<and> previous c' = Some (run_event r') \<and> run_cursor r' = cursor c' \<and> run_outputs r' = outputs c'"
  using assms by (auto simp: load_def result_simps replay_rows_append)

lemma status_state_chain:
  assumes c: "previous c = Some (run_event r)" "run_cursor r = cursor c" "length (plan_order (run_plan r)) = length (exec_order ex)"
  shows "status_state r \<in> {''cancelled'', ''completed''} \<longleftrightarrow> terminal ex c"
    and "status_state r = ''applying'' \<longleftrightarrow> \<not> terminal ex c \<and> phase_of c = Some Applying"
  using c by (auto simp: status_state_def terminal_def phase_of_def)

section \<open>Properties\<close>

text \<open>
  C30: A run that loads has followed its plan: its cursor is within the order, its recorded outputs are
  exactly those of the nodes before the cursor, and whenever a node is complete so are all of its inputs.
\<close>

theorem load_follows_plan:
  assumes codec: "parse_graph sv (graph_bytes sv (plan_graph (run_plan r))) = Some (plan_graph (run_plan r))"
    and ok: "load sv inst prin req plan_row rows = Ok r"
  shows "run_cursor r \<le> length (plan_order (run_plan r))
    \<and> set (bm_keys (run_outputs r)) = set (take (run_cursor r) (plan_order (run_plan r)))
    \<and> (\<forall>n \<in> set (nodes (plan_graph (run_plan r))). node_id n \<in> set (bm_keys (run_outputs r)) \<longrightarrow>
         set (dependencies n) \<subseteq> set (bm_keys (run_outputs r)))"
proof -
  obtain ex c where pv: "plan_validate sv (run_plan r) inst = Ok ex" and c: "run_cursor r = cursor c" "run_outputs r = outputs c"
    and inv: "chain_ok ex (length rows) c" using ok by (rule load_Ok)
  obtain v where v: "validate (graph_digest sv) (exec_graph ex) = Ok v" "exec_order ex = order v" "plan_order (run_plan r) = order v"
    using pv by (rule plan_validate_Ok)
  have "exec_graph ex = plan_graph (run_plan r)"
    using pv codec by (auto simp: plan_validate_def Let_def from_bytes_def result_simps split: if_splits)
  note topo = validate_topological [OF v(1), unfolded this]
  have keys: "set (bm_keys (outputs c)) = set (take (cursor c) (order v))" and le: "cursor c \<le> length (order v)"
    using inv v by (auto simp: chain_ok_def)
  have "set (dependencies n) \<subseteq> set (bm_keys (outputs c))"
    if n: "n \<in> set (nodes (plan_graph (run_plan r)))" "node_id n \<in> set (bm_keys (outputs c))" for n
  proof -
    obtain i where i: "i < cursor c" "order v ! i = node_id n" using n(2) le unfolding keys by (auto simp: in_set_conv_nth)
    then have "set (dependencies n) \<subseteq> set (take i (order v))" using topo n(1) le by auto
    also have "\<dots> \<subseteq> set (take (cursor c) (order v))" using i(1) by (intro set_take_subset_set_take) simp
    finally show ?thesis unfolding keys .
  qed
  then show ?thesis using keys le v(3) c by simp
qed

text \<open>
  Terminal checkpoints are final and a publication in doubt cannot be hidden: a cancelled or
  completed run does not load with further events, and the event after an applying checkpoint is the completion
  of that same node.
\<close>

theorem load_terminal_final:
  assumes ok: "load sv inst prin req plan_row rows = Ok r"
  shows "(status_state r \<in> {''cancelled'', ''completed''} \<longrightarrow> \<not> is_ok (load sv inst prin req plan_row (rows @ row # ext)))
    \<and> (status_state r = ''applying'' \<longrightarrow> load sv inst prin req plan_row (rows @ [row]) = Ok r' \<longrightarrow>
         event_phase (run_event r') = Completed \<and> event_node (run_event r') = event_node (run_event r))"
proof -
  obtain ex c where pv: "plan_validate sv (run_plan r) inst = Ok ex" and rp: "replay_rows sv (run_plan r) ex chain_start rows = Ok c"
    and prev: "previous c = Some (run_event r)" and c: "run_cursor r = cursor c" "run_outputs r = outputs c"
    and inv: "chain_ok ex (length rows) c" using ok by (rule load_Ok)
  obtain v :: validation where "exec_order ex = order v" "plan_order (run_plan r) = order v"
    using pv by (rule plan_validate_Ok) blast
  then have "length (plan_order (run_plan r)) = length (exec_order ex)" by simp
  note st = status_state_chain [OF prev c(1) this]
  have "\<not> is_ok (load sv inst prin req plan_row (rows @ row # ext))" if "terminal ex c"
  proof
    assume "is_ok (load sv inst prin req plan_row (rows @ row # ext))"
    then obtain x where "load sv inst prin req plan_row (rows @ row # ext) = Ok x" by (auto simp: is_ok_iff)
    from load_append [OF ok this pv rp] show False
      using terminal_refuses [OF that, of sv "run_plan r" row] by (auto simp: and_then_Inr_iff is_ok_iff)
  qed
  moreover have "event_phase (run_event r') = Completed \<and> event_node (run_event r') = event_node (run_event r)"
    if ap: "phase_of c = Some Applying" and ld: "load sv inst prin req plan_row (rows @ [row]) = Ok r'"
  proof -
    obtain c' where c': "replay_row sv (run_plan r) ex c row = Ok c'" "previous c' = Some (run_event r')"
      using load_append [OF ok ld pv rp] by (auto simp: and_then_Inr_iff)
    obtain e ord where ord: "next_ordinal (previous c) = Ok ord" and app: "apply_phase sv (run_plan r) ex c ord e = Ok c'"
      using c'(1) by (rule replay_row_Ok)
    have "ord \<noteq> 0" using next_ordinal_zero [OF ord] prev by simp
    with app ap c'(2) show ?thesis
      using inv prev by (cases rule: apply_phase_cases) (auto simp: was_applying_def chain_ok_def phase_of_def)
  qed
  ultimately show ?thesis using st by blast
qed

text \<open>
  A run never outgrows the query that loads it: the number of its events is at most twice the
  number of its nodes plus one, hence at most 129 of the 130 rows the query admits.
\<close>

theorem load_rows_bounded:
  assumes ok: "load sv inst prin req plan_row rows = Ok r"
  shows "length rows \<le> 2 * length (plan_order (run_plan r)) + 1 \<and> length rows \<le> 129"
proof -
  obtain ex c where pv: "plan_validate sv (run_plan r) inst = Ok ex"
    and "replay_rows sv (run_plan r) ex chain_start rows = Ok c" and inv: "chain_ok ex (length rows) c"
    using ok by (rule load_Ok) blast
  obtain v where v: "validate (graph_digest sv) (exec_graph ex) = Ok v" "exec_order ex = order v" "plan_order (run_plan r) = order v"
    using pv by (rule plan_validate_Ok)
  have "length (order v) = card (node_ids (exec_graph ex))"
    using validate_topological [OF v(1)] distinct_card by metis
  also have "\<dots> \<le> length (nodes (exec_graph ex))" unfolding node_ids_def by (metis card_image_le card_length le_trans finite_set)
  also have "\<dots> \<le> 64" using v(1) by (auto simp: validate_def graph_bounds_invalid_def MAX_NODES_def split: if_splits)
  finally have "length (order v) \<le> 64" .
  moreover have "length rows \<le> 2 * length (order v) + 1"
    using inv v(2) by (cases "phase_of c"; cases "the (phase_of c)") (auto simp: chain_ok_def)
  ultimately show ?thesis using v(3) by simp
qed

text \<open>
  A ready run can always be cancelled: the cancellation event that \<open>next_event\<close> builds for it is
  accepted by replay, and the run is then cancelled with its outputs kept.
\<close>

theorem ready_run_cancels:
  assumes ok: "load sv inst prin req plan_row rows = Ok r" and ready: "status_state r = ''ready''"
    and ev: "next_event sv (run_plan r) (Some (run_event r)) [] Cancelled None op = Ok e"
    and codec: "parse_event sv (print_event sv e) = Some e"
  shows "\<exists>r'. load sv inst prin req plan_row (rows @ [(decimal (unat (ordinal e)), print_event sv e)]) = Ok r'
    \<and> status_state r' = ''cancelled'' \<and> run_event r' = e \<and> run_outputs r' = run_outputs r \<and> run_cursor r' = run_cursor r"
proof -
  obtain ex c where pv: "plan_validate sv (run_plan r) inst = Ok ex" and rp: "replay_rows sv (run_plan r) ex chain_start rows = Ok c"
    and prev: "previous c = Some (run_event r)" and c: "run_cursor r = cursor c" "run_outputs r = outputs c"
    and inv: "chain_ok ex (length rows) c" using ok by (rule load_Ok)
  obtain v :: validation where "exec_order ex = order v" "plan_order (run_plan r) = order v"
    using pv by (rule plan_validate_Ok) blast
  then have len: "length (plan_order (run_plan r)) = length (exec_order ex)" by simp
  have live: "\<not> terminal ex c" "phase_of c \<noteq> Some Applying"
    using status_state_chain [OF prev c(1) len] ready by auto
  obtain ord where ord: "next_ordinal (Some (run_event r)) = Ok ord" and op: "operation_id op"
    and e: "e = \<lparr>event_schema = 1, ordinal = ord, plan_sha256 = plan_hash sv (run_plan r),
      previous_sha256 = preceding_hash sv (run_plan r) (Some (run_event r)), event_node = [], event_phase = Cancelled,
      event_output = None, policy_operation_id = op\<rparr>"
    using ev by (auto simp: next_event_def result_simps)
  have "ord \<noteq> 0" using next_ordinal_zero [OF ord] by simp
  then have "apply_phase sv (run_plan r) ex c ord e = Ok (c\<lparr>previous := Some e\<rparr>)"
    using live(2) by (simp add: apply_phase_def e was_applying_phase)
  moreover have "\<not> (event_phase (run_event r) = Cancelled \<or> cursor c = length (exec_order ex))"
    using live(1) prev by (auto simp: terminal_def phase_of_def)
  ultimately have "replay_row sv (run_plan r) ex c (decimal (unat (ordinal e)), print_event sv e) = Ok (c\<lparr>previous := Some e\<rparr>)"
    using codec prev ord op by (simp add: replay_row_def e)
  then have "replay_rows sv (run_plan r) ex chain_start (rows @ [(decimal (unat (ordinal e)), print_event sv e)])
      = Ok (c\<lparr>previous := Some e\<rparr>)" using rp by (simp add: replay_rows_append)
  then have "load sv inst prin req plan_row (rows @ [(decimal (unat (ordinal e)), print_event sv e)])
      = Ok \<lparr>run_plan = run_plan r, run_event = e, run_cursor = cursor c, run_outputs = outputs c\<rparr>"
    using ok pv by (auto simp: load_def result_simps)
  then show ?thesis using c e by (simp add: status_state_def)
qed

section \<open>A sample run\<close>

definition sample_hash :: string where "sample_hash = replicate 64 CHR ''a''"

definition sample_source :: source_identity where
  "sample_source = \<lparr>src_root = INPUT_PREFIX @ sample_hash, src_relative = ''f'', src_root_identity = (1, 2), src_device = 1,
     src_inode = 2, src_bytes = 10, src_modified = (0, 0), src_changed = (0, 0), src_uid = 0, src_gid = 0, src_mode = 0,
     src_sha256 = sample_hash\<rparr>"

definition sample_plan_dag :: plan where
  "sample_plan_dag = \<lparr>plan_schema = 1, plan_installation = sample_hash,
     plan_proposal = \<lparr>proposal_schema = 1, proposal_request = ''r1'', workflow_sha256 = sample_hash,
       proposal_inputs = bm_of_list [(''read'', sample_source)],
       proposal_targets = bm_of_list [(''art'', \<lparr>artifact_id = ''a'', expected_version = 0\<rparr>)], history_epoch = None\<rparr>,
     plan_graph = sample_graph [sample_read, sample_calculate, sample_write], plan_order = [''read'', ''calc'', ''art''],
     storage_device = ''8:1'', plan_owner = Some \<lparr>principal = sample_hash, owner_generation = 1\<rparr>\<rparr>"

definition sample_operation_id :: string where "sample_operation_id = replicate 32 CHR ''b''"

definition sample_event :: "u32 \<Rightarrow> phase \<Rightarrow> unit event" where
  "sample_event k ph = \<lparr>event_schema = 1, ordinal = k, plan_sha256 = ''h'', previous_sha256 = ''h'', event_node = [],
     event_phase = ph, event_output = None, policy_operation_id = sample_operation_id\<rparr>"

text \<open>Services that know one plan and events by their phase; graphs are their own bytes up to the sample.\<close>

definition sample_services :: "(string, unit) services" where
  "sample_services = \<lparr>graph_bytes = (\<lambda>_. ''g''), parse_graph = (\<lambda>_. Some (sample_graph [sample_read, sample_calculate, sample_write])),
     graph_digest = (\<lambda>_ _ _. []), byte_sha = (\<lambda>_. sample_hash), plan_hash = (\<lambda>_. ''h''), event_hash = (\<lambda>_. ''h''),
     review_hash = (\<lambda>_ e. decimal (unat (ordinal e))), parse_plan = (\<lambda>_. Some sample_plan_dag), print_plan = (\<lambda>_. ''p''),
     parse_event = (\<lambda>t. Some (if t = ''c'' then sample_event 1 Cancelled else sample_event 0 Prepared)),
     print_event = (\<lambda>e. if event_phase e = Cancelled then ''c'' else ''s''), object_bytes = (\<lambda>_. Err ''absent''),
     object_length = (\<lambda>_. 0), batch_bytes = (\<lambda>_. Err ''absent''), batch_sha = (\<lambda>_. []), report_source = (\<lambda>_. Ok None),
     owned_receipt = (\<lambda>_ _ _ _. Ok ())\<rparr>"

definition sample_run_dag :: "unit run" where
  "sample_run_dag = \<lparr>run_plan = sample_plan_dag, run_event = sample_event 0 Prepared, run_cursor = 0, run_outputs = bm_empty\<rparr>"

lemma sample_load: "load sample_services sample_hash sample_hash ''r1'' (Some ''p'') [(''0'', ''s'')] = Ok sample_run_dag"
  by code_simp

text \<open>The sample run is ready and is then cancelled.\<close>

theorem ready_run_cancels_witness:
  "\<exists>r'. load sample_services sample_hash sample_hash ''r1'' (Some ''p'') [(''0'', ''s''), (''1'', ''c'')] = Ok r'
     \<and> status_state r' = ''cancelled''"
proof -
  have "status_state sample_run_dag = ''ready''" by code_simp
  moreover have "next_event sample_services (run_plan sample_run_dag) (Some (run_event sample_run_dag)) [] Cancelled None
      sample_operation_id = Ok (sample_event 1 Cancelled)" by code_simp
  moreover have "parse_event sample_services (print_event sample_services (sample_event 1 Cancelled)) = Some (sample_event 1 Cancelled)"
    "decimal (unat (ordinal (sample_event 1 Cancelled))) = ''1''" "print_event sample_services (sample_event 1 Cancelled) = ''c''"
    by code_simp+
  ultimately show ?thesis using ready_run_cancels [OF sample_load] by fastforce
qed

theorem load_rows_bounded_witness: "length [(''0'', ''s'')] \<le> 2 * length (plan_order (run_plan sample_run_dag)) + 1"
  using load_rows_bounded [OF sample_load] by simp

theorem load_terminal_final_witness:
  "\<exists>r. load sample_services sample_hash sample_hash ''r1'' (Some ''p'') [(''0'', ''s''), (''1'', ''c'')] = Ok r
     \<and> \<not> is_ok (load sample_services sample_hash sample_hash ''r1'' (Some ''p'') ([(''0'', ''s''), (''1'', ''c'')] @ [(''2'', ''s'')]))"
proof -
  define r where "r = sample_run_dag\<lparr>run_event := sample_event 1 Cancelled\<rparr>"
  have ok: "load sample_services sample_hash sample_hash ''r1'' (Some ''p'') [(''0'', ''s''), (''1'', ''c'')] = Ok r"
    unfolding r_def by code_simp
  have "status_state r = ''cancelled''" unfolding r_def by code_simp
  then show ?thesis using load_terminal_final [OF ok, of "(''2'', ''s'')" "[]"] ok by blast
qed

theorem load_follows_plan_witness:
  "set (bm_keys (run_outputs sample_run_dag)) = set (take 0 (plan_order (run_plan sample_run_dag)))"
proof -
  have "parse_graph sample_services (graph_bytes sample_services (plan_graph (run_plan sample_run_dag)))
      = Some (plan_graph (run_plan sample_run_dag))"
    by (simp add: sample_services_def sample_run_dag_def sample_plan_dag_def)
  from load_follows_plan [OF this sample_load] show ?thesis by (simp add: sample_run_dag_def)
qed

end
