(* ===== verification/Calculation.thy ===== *)
theory Calculation
  imports Prelude "HOL-Library.Product_Lexorder"
begin

text \<open>
  The invoice calculation (\<open>calculation.rs\<close>): the CSV reader as a state machine over characters, exact
  decimal amounts, calendar dates, and the monthly totals. A character is the list of its UTF-8 bytes; the
  digest of the source is a parameter.
\<close>

section \<open>UTF-8\<close>

definition byte_in :: "nat \<Rightarrow> nat \<Rightarrow> char \<Rightarrow> bool" where
  "byte_in lo hi c \<longleftrightarrow> lo \<le> of_char c \<and> of_char c \<le> hi"

abbreviation continuation :: "char \<Rightarrow> bool" where
  "continuation \<equiv> byte_in 128 191"

fun utf8_chars :: "string \<Rightarrow> string list option" where
  "utf8_chars [] = Some []"
| "utf8_chars (a # bs) =
     (if byte_in 0 127 a then map_option ((#) [a]) (utf8_chars bs)
      else case bs of
        b # cs \<Rightarrow>
          if byte_in 194 223 a \<and> continuation b then map_option ((#) [a, b]) (utf8_chars cs)
          else (case cs of
            c # ds \<Rightarrow>
              if continuation c \<and> ((byte_in 224 224 a \<and> byte_in 160 191 b) \<or> (byte_in 225 236 a \<and> continuation b)
                 \<or> (byte_in 237 237 a \<and> byte_in 128 159 b) \<or> (byte_in 238 239 a \<and> continuation b))
              then map_option ((#) [a, b, c]) (utf8_chars ds)
              else (case ds of
                d # es \<Rightarrow>
                  if continuation c \<and> continuation d \<and> ((byte_in 240 240 a \<and> byte_in 144 191 b)
                     \<or> (byte_in 241 243 a \<and> continuation b) \<or> (byte_in 244 244 a \<and> byte_in 128 143 b))
                  then map_option ((#) [a, b, c, d]) (utf8_chars es) else None
              | [] \<Rightarrow> None)
          | [] \<Rightarrow> None)
      | [] \<Rightarrow> None)"

section \<open>CSV\<close>

definition MAX_SOURCE_BYTES :: nat where "MAX_SOURCE_BYTES = 1024 * 1024"
definition MAX_ROWS :: nat where "MAX_ROWS = 10001"
definition MAX_COLUMNS :: nat where "MAX_COLUMNS = 32"
definition MAX_FIELD_BYTES :: nat where "MAX_FIELD_BYTES = 4096"

datatype field_state = Start | Unquoted | Quoted | AfterQuote

record reader =
  rows :: "string list list"
  row :: "string list"
  field :: string
  fstate :: field_state

definition finish_field :: "reader \<Rightarrow> reader result" where
  "finish_field r =
     (if MAX_COLUMNS \<le> length (row r) then Err ''invoice CSV has too many columns''
      else Ok (r\<lparr>row := row r @ [field r], field := []\<rparr>))"

definition finish_row :: "reader \<Rightarrow> reader result" where
  "finish_row r =
     (if MAX_ROWS \<le> length (rows r) \<or> (length (row r) = 1 \<and> hd (row r) = [])
      then Err ''invoice CSV has an empty row or too many rows''
      else Ok (r\<lparr>rows := rows r @ [row r], row := []\<rparr>))"

definition LF :: string where "LF = [CHR 0x0A]"
definition CR :: string where "CR = [CHR 0x0D]"
definition NUL :: string where "NUL = [CHR 0x00]"
definition QUOTE :: string where "QUOTE = [CHR 0x22]"
definition COMMA :: string where "COMMA = [CHR 0x2C]"

definition push :: "reader \<Rightarrow> string \<Rightarrow> reader" where
  "push r ch = r\<lparr>field := field r @ ch\<rparr>"

definition read_char :: "reader \<Rightarrow> string \<Rightarrow> reader result" where
  "read_char r ch =
     (if fstate r = Start \<and> ch = QUOTE then Ok (r\<lparr>fstate := Quoted\<rparr>)
      else if fstate r = Quoted \<and> ch = QUOTE then Ok (r\<lparr>fstate := AfterQuote\<rparr>)
      else if fstate r = AfterQuote \<and> ch = QUOTE then Ok ((push r QUOTE)\<lparr>fstate := Quoted\<rparr>)
      else if fstate r = Quoted then Ok (push r ch)
      else if ch = COMMA then and_then (finish_field r) (\<lambda>r. Ok (r\<lparr>fstate := Start\<rparr>))
      else if ch = LF then and_then (finish_field r) (\<lambda>r. and_then (finish_row r) (\<lambda>r. Ok (r\<lparr>fstate := Start\<rparr>)))
      else if fstate r = Start then Ok ((push r ch)\<lparr>fstate := Unquoted\<rparr>)
      else if fstate r = AfterQuote \<or> ch = QUOTE then Err ''malformed invoice CSV quoting''
      else Ok (push r ch))"

fun read_chars :: "reader \<Rightarrow> string list \<Rightarrow> reader result" where
  "read_chars r [] = Ok r"
| "read_chars r (ch # chs) =
     and_then (read_char r ch) (\<lambda>r.
     if MAX_FIELD_BYTES < length (field r) then Err ''invoice CSV field exceeds bound'' else read_chars r chs)"

text \<open>\<open>replace("\r\n", "\n")\<close>.\<close>

fun normalize :: "string list \<Rightarrow> string list" where
  "normalize [] = []"
| "normalize [ch] = [ch]"
| "normalize (a # b # chs) = (if a = CR \<and> b = LF then LF # normalize chs else a # normalize (b # chs))"

definition parse_csv :: "string \<Rightarrow> string list list result" where
  "parse_csv bytes =
     (if bytes = [] \<or> MAX_SOURCE_BYTES < length bytes then Err ''empty or oversized invoice CSV''
      else and_then (ok_or (utf8_chars bytes) ''invalid UTF-8'') (\<lambda>source.
      if NUL \<in> set source then Err ''invoice CSV contains a NUL byte''
      else let normalized = normalize source in
      if CR \<in> set normalized then Err ''invoice CSV contains a bare carriage return''
      else and_then (read_chars \<lparr>rows = [], row = [], field = [], fstate = Start\<rparr> normalized) (\<lambda>r.
      if fstate r = Quoted then Err ''unterminated invoice CSV quote''
      else and_then (if row r \<noteq> [] \<or> field r \<noteq> [] \<or> fstate r \<noteq> Start
        then and_then (finish_field r) finish_row else Ok r) (\<lambda>r.
      if length (rows r) < 2 then Err ''invoice CSV has no records'' else Ok (rows r)))))"

section \<open>Dates and amounts\<close>

definition digits_value :: "string \<Rightarrow> nat" where
  "digits_value s = foldl (\<lambda>a c. 10 * a + digit_value c) 0 s"

definition month_days :: "nat \<Rightarrow> nat \<Rightarrow> nat" where
  "month_days year month =
     (if month \<in> {1, 3, 5, 7, 8, 10, 12} then 31 else if month \<in> {4, 6, 9, 11} then 30
      else if month = 2 then (if year mod 4 = 0 \<and> (year mod 100 \<noteq> 0 \<or> year mod 400 = 0) then 29 else 28) else 0)"

definition date_month :: "string \<Rightarrow> string result" where
  "date_month v =
     (if length v \<noteq> 10 \<or> v ! 4 \<noteq> CHR ''-'' \<or> v ! 7 \<noteq> CHR ''-''
         \<or> list_ex (\<lambda>(i, c). i \<noteq> 4 \<and> i \<noteq> 7 \<and> \<not> is_ascii_digit c) (enumerate 0 v)
      then Err ''invoice date must be YYYY-MM-DD''
      else let year = digits_value (take 4 v); month = digits_value (take 2 (drop 5 v)); day = digits_value (drop 8 v) in
      if year = 0 \<or> day = 0 \<or> month_days year month < day then Err ''invalid invoice calendar date''
      else Ok (take 7 v))"

definition split_at :: "char \<Rightarrow> string \<Rightarrow> (string \<times> string) option" where
  "split_at c s = (if c \<in> set s then Some (takeWhile (\<lambda>x. x \<noteq> c) s, tl (dropWhile (\<lambda>x. x \<noteq> c) s)) else None)"

text \<open>The sign, the whole digits and the fraction of an amount.\<close>

definition amount_parts :: "string \<Rightarrow> bool \<times> string \<times> string option" where
  "amount_parts v =
     (let (negative, unsgn) = (case v of c # rest \<Rightarrow> if c = CHR ''-'' then (True, rest) else (False, v) | [] \<Rightarrow> (False, v)) in
      case split_at CHR ''.'' unsgn of Some (whole, fraction) \<Rightarrow> (negative, whole, Some fraction)
      | None \<Rightarrow> (negative, unsgn, None))"

definition fraction_cents :: "string option \<Rightarrow> nat" where
  "fraction_cents fraction = (case fraction of None \<Rightarrow> 0
     | Some f \<Rightarrow> if length f = 1 then digits_value f * 10 else digits_value f)"

definition cents :: "string \<Rightarrow> int result" where
  "cents v =
     (case amount_parts v of (negative, whole, fraction) \<Rightarrow>
      if whole = [] \<or> 12 < length whole \<or> \<not> list_all is_ascii_digit whole
         \<or> (case fraction of None \<Rightarrow> False | Some f \<Rightarrow> f = [] \<or> 2 < length f \<or> \<not> list_all is_ascii_digit f)
      then Err ''invoice amount must be an exact decimal with at most two places''
      else and_then (ok_or (checked_i128 (int (digits_value whole) * 100)) ''invoice amount overflow'') (\<lambda>w.
      and_then (ok_or (checked_i128 (w + int (fraction_cents fraction))) ''invoice amount overflow'') (\<lambda>amount.
      Ok (if negative then - amount else amount))))"

definition formatted_cents :: "int \<Rightarrow> string" where
  "formatted_cents v =
     (let absolute = nat \<bar>v\<bar> in
      (if v < 0 then ''-'' else []) @ decimal (absolute div 100) @ ''.''
        @ [digit_char (absolute mod 100 div 10), digit_char (absolute mod 100 mod 10)])"

section \<open>Totals\<close>

record group =
  month :: string
  currency :: string
  invoice_count :: u32
  total :: string

record invoice_report =
  schema_version :: u32
  report_type :: string
  source_sha256 :: string
  record_count :: u32
  groups :: "group list"

type_synonym totals = "(string \<times> string, u32 \<times> int) bmap"

fun check_header :: "string set \<Rightarrow> string list \<Rightarrow> unit result" where
  "check_header names [] = Ok ()"
| "check_header names (h # hs) =
     (if h = [] \<or> 64 < length h \<or> \<not> list_all (\<lambda>b. is_ascii_lowercase b \<or> is_ascii_digit b \<or> b = CHR ''_'') h \<or> h \<in> names
      then Err ''invalid or duplicate invoice CSV header'' else check_header (insert h names) hs)"

fun column :: "string \<Rightarrow> string list \<Rightarrow> nat option" where
  "column name [] = None"
| "column name (h # hs) = (if h = name then Some 0 else map_option Suc (column name hs))"

definition currency_ok :: "string \<Rightarrow> bool" where
  "currency_ok c \<longleftrightarrow> length c = 3 \<and> list_all is_ascii_uppercase c"

definition tally_row :: "nat \<Rightarrow> nat \<Rightarrow> nat \<Rightarrow> nat \<Rightarrow> totals \<Rightarrow> string list \<Rightarrow> totals result" where
  "tally_row width date amount code totals r =
     (if length r \<noteq> width then Err ''ragged invoice CSV record''
      else and_then (date_month (r ! date)) (\<lambda>m.
      and_then (cents (r ! amount)) (\<lambda>value.
      if \<not> currency_ok (r ! code) then Err ''invoice currency must be a three-letter uppercase code''
      else let (n, t) = (case bm_get totals (m, r ! code) of None \<Rightarrow> (0, 0) | Some e \<Rightarrow> e) in
      and_then (ok_or (checked_add n 1) ''invoice count overflow'') (\<lambda>n.
      and_then (ok_or (checked_i128 (t + value)) ''invoice total overflow'') (\<lambda>t.
      Ok (bm_insert (m, r ! code) (n, t) totals))))))"

fun tally_rows :: "nat \<Rightarrow> nat \<Rightarrow> nat \<Rightarrow> nat \<Rightarrow> totals \<Rightarrow> string list list \<Rightarrow> totals result" where
  "tally_rows width date amount code totals [] = Ok totals"
| "tally_rows width date amount code totals (r # rs) =
     and_then (tally_row width date amount code totals r) (\<lambda>totals. tally_rows width date amount code totals rs)"

definition calculate :: "(string \<Rightarrow> string) \<Rightarrow> string \<Rightarrow> invoice_report result" where
  "calculate sha bytes =
     and_then (parse_csv bytes) (\<lambda>rs.
     and_then (check_header {} (hd rs)) (\<lambda>_.
     and_then (ok_or (column ''invoice_date'' (hd rs)) ''missing invoice CSV column'') (\<lambda>date.
     and_then (ok_or (column ''amount'' (hd rs)) ''missing invoice CSV column'') (\<lambda>amount.
     and_then (ok_or (column ''currency'' (hd rs)) ''missing invoice CSV column'') (\<lambda>code.
     and_then (tally_rows (length (hd rs)) date amount code bm_empty (tl rs)) (\<lambda>totals.
     Ok \<lparr>schema_version = 1, report_type = ''invoice-summary-v1'', source_sha256 = sha bytes, record_count = of_nat (length rs - 1),
         groups = map (\<lambda>((m, c), (n, t)). \<lparr>month = m, currency = c, invoice_count = n, total = formatted_cents t\<rparr>)
           (bm_entries totals)\<rparr>))))))"

section \<open>Decimal digits\<close>

lemma of_char_digit: "d < 10 \<Longrightarrow> of_char (digit_char d) = (48 + d :: nat)"
  by (simp add: digit_char_def of_char_of)

lemma digit_char_digit: "d < 10 \<Longrightarrow> is_ascii_digit (digit_char d)"
  by (simp add: is_ascii_digit_def less_eq_char_def of_char_digit)

lemma digit_char_value: "d < 10 \<Longrightarrow> digit_value (digit_char d) = d"
  by (simp add: digit_value_def of_char_digit)

lemma digit_value_less: "is_ascii_digit c \<Longrightarrow> digit_value c < 10"
  by (auto simp: is_ascii_digit_def digit_value_def less_eq_char_def)

lemma digits_value_snoc: "digits_value (s @ [c]) = 10 * digits_value s + digit_value c"
  by (simp add: digits_value_def)

lemma digits_value_less: "list_all is_ascii_digit s \<Longrightarrow> digits_value s < 10 ^ length s"
proof (induction s rule: rev_induct)
  case (snoc c s)
  then show ?case using digit_value_less [of c] by (simp add: digits_value_snoc)
qed (simp add: digits_value_def)

lemma decimal_digits: "list_all is_ascii_digit (decimal n)"
proof (induction n rule: decimal.induct)
  case (1 n)
  then show ?case by (subst decimal.simps) (simp add: digit_char_digit)
qed

lemma decimal_nonempty: "decimal n \<noteq> []"
  by (subst decimal.simps) simp

lemma digits_value_decimal: "digits_value (decimal n) = n"
proof (induction n rule: decimal.induct)
  case (1 n)
  then show ?case
    by (subst decimal.simps) (simp add: digits_value_snoc digit_char_value, simp add: digits_value_def digit_char_value)
qed

lemma decimal_length: "n < 10 ^ k \<Longrightarrow> 0 < k \<Longrightarrow> length (decimal n) \<le> k"
proof (induction n arbitrary: k rule: decimal.induct)
  case (1 n)
  show ?case
  proof (cases "n < 10")
    case True
    then show ?thesis using "1.prems" by (subst decimal.simps) simp
  next
    case False
    then obtain j where k: "k = Suc j" "0 < j" using "1.prems" by (cases k; cases "k - 1") auto
    then have "n div 10 < 10 ^ j" using "1.prems" by (simp add: less_mult_imp_div_less)
    then show ?thesis using "1.IH" [OF False, of j] k False by (subst decimal.simps) simp
  qed
qed

lemma digits_exclude: "list_all is_ascii_digit s \<Longrightarrow> CHR ''.'' \<notin> set s \<and> CHR ''-'' \<notin> set s"
  by (auto simp: list_all_iff is_ascii_digit_def less_eq_char_def)

section \<open>Amounts\<close>

lemma split_at_append: "c \<notin> set a \<Longrightarrow> split_at c (a @ c # b) = Some (a, b)"
  by (induction a) (auto simp: split_at_def)

lemma checked_i128_small: "\<bar>x\<bar> < 10 ^ 30 \<Longrightarrow> checked_i128 x = Some x"
  unfolding checked_i128_def i128_range_def by simp linarith

lemma whole_bound:
  assumes "length w \<le> 12" "list_all is_ascii_digit w"
  shows "digits_value w < 10 ^ 12"
proof -
  have "digits_value w < 10 ^ length w" using assms(2) by (rule digits_value_less)
  also have "\<dots> \<le> 10 ^ 12" using assms(1) by (intro power_increasing) auto
  finally show ?thesis .
qed

lemma fraction_bound:
  assumes "case fraction of None \<Rightarrow> True | Some f \<Rightarrow> f \<noteq> [] \<and> length f \<le> 2 \<and> list_all is_ascii_digit f"
  shows "fraction_cents fraction < 100"
proof (cases fraction)
  case (Some f)
  then have "length f = 1 \<or> length f = 2" using assms by (cases f) (auto simp: le_Suc_eq)
  then show ?thesis using digits_value_less [of f] Some assms by (auto simp: fraction_cents_def)
qed (simp add: fraction_cents_def)

text \<open>An amount is its sign and digits, and never overflows.\<close>

definition amount_ok :: "bool \<times> string \<times> string option \<Rightarrow> bool" where
  "amount_ok p = (case p of (_, whole, fraction) \<Rightarrow> whole \<noteq> [] \<and> length whole \<le> 12 \<and> list_all is_ascii_digit whole
     \<and> (case fraction of None \<Rightarrow> True | Some f \<Rightarrow> f \<noteq> [] \<and> length f \<le> 2 \<and> list_all is_ascii_digit f))"

definition amount_value :: "bool \<times> string \<times> string option \<Rightarrow> int" where
  "amount_value p = (case p of (negative, whole, fraction) \<Rightarrow>
     (if negative then -1 else 1) * int (digits_value whole * 100 + fraction_cents fraction))"

lemma amount_bound: "amount_ok p \<Longrightarrow> \<bar>amount_value p\<bar> < 10 ^ 14"
proof -
  assume ok: "amount_ok p"
  obtain neg w f where p: "p = (neg, w, f)" by (cases p)
  have "digits_value w < 10 ^ 12" "fraction_cents f < 100"
    using ok whole_bound [of w] fraction_bound [of f] by (auto simp: p amount_ok_def)
  then show ?thesis by (simp add: p amount_value_def)
qed

lemma cents_eq: "cents v = (if amount_ok (amount_parts v) then Ok (amount_value (amount_parts v))
   else Err ''invoice amount must be an exact decimal with at most two places'')"
proof -
  obtain neg w f where p: "amount_parts v = (neg, w, f)" by (cases "amount_parts v")
  show ?thesis
  proof (cases "amount_ok (amount_parts v)")
    case True
    then have b: "digits_value w < 10 ^ 12" "fraction_cents f < 100"
      using whole_bound [of w] fraction_bound [of f] by (auto simp: p amount_ok_def)
    then have "checked_i128 (int (digits_value w) * 100) = Some (int (digits_value w) * 100)"
      "checked_i128 (int (digits_value w) * 100 + int (fraction_cents f)) = Some (int (digits_value w) * 100 + int (fraction_cents f))"
      by (intro checked_i128_small; simp)+
    then show ?thesis using True
      by (auto simp: cents_def p amount_ok_def amount_value_def split: option.splits)
  next
    case False
    then show ?thesis by (auto simp: cents_def p amount_ok_def split: option.splits)
  qed
qed

lemma two_digits:
  assumes "d < 100"
  shows "list_all is_ascii_digit [digit_char (d div 10), digit_char (d mod 10)]"
    "digits_value [digit_char (d div 10), digit_char (d mod 10)] = d"
  using assms by (simp_all add: digit_char_digit digits_value_def digit_char_value)

lemma parts_formatted:
  "amount_parts (formatted_cents v) = (v < 0, decimal (nat \<bar>v\<bar> div 100),
     Some [digit_char (nat \<bar>v\<bar> mod 100 div 10), digit_char (nat \<bar>v\<bar> mod 100 mod 10)])"
proof -
  define w where "w = decimal (nat \<bar>v\<bar> div 100)"
  have w: "CHR ''.'' \<notin> set w" "CHR ''-'' \<notin> set w" "w \<noteq> []"
    using digits_exclude [OF decimal_digits] decimal_nonempty by (auto simp: w_def)
  have split: "split_at CHR ''.'' (w @ CHR ''.'' # b) = Some (w, b)" for b by (rule split_at_append [OF w(1)])
  have front: "amount_parts (w @ CHR ''.'' # b) = (False, w, Some b)" for b
  proof -
    obtain a u where a: "w = a # u" using w(3) by (cases w) auto
    then have "split_at CHR ''.'' (a # u @ CHR ''.'' # b) = Some (a # u, b)" using split [of b] by simp
    then show ?thesis using w(2) by (auto simp: a amount_parts_def)
  qed
  have neg: "amount_parts (CHR ''-'' # w @ CHR ''.'' # b) = (True, w, Some b)" for b
    by (simp add: amount_parts_def split)
  show ?thesis using front neg by (simp add: formatted_cents_def Let_def w_def [symmetric] del: abs_if zabs_def)
qed

text \<open>every total the report prints is read back as the same number of cents: \<open>cents\<close> inverts \<open>formatted_cents\<close> on every amount of up to twelve whole digits, signs and cent padding included.\<close>

theorem cents_formatted:
  assumes "\<bar>v\<bar> < 10 ^ 14"
  shows "cents (formatted_cents v) = Ok v"
proof -
  let ?n = "nat \<bar>v\<bar>"
  have small: "?n div 100 < 10 ^ 12" using assms by (simp add: div_less_iff_less_mult)
  have d: "length (decimal (?n div 100)) \<le> 12" by (rule decimal_length [OF small]) simp
  have two: "list_all is_ascii_digit [digit_char (?n mod 100 div 10), digit_char (?n mod 100 mod 10)]"
    "digits_value [digit_char (?n mod 100 div 10), digit_char (?n mod 100 mod 10)] = ?n mod 100"
    by (rule two_digits; simp)+
  have ok: "amount_ok (amount_parts (formatted_cents v))"
    using d two(1) by (simp add: parts_formatted amount_ok_def decimal_nonempty decimal_digits)
  have "digits_value (decimal (?n div 100)) * 100 + fraction_cents (Some [digit_char (?n mod 100 div 10), digit_char (?n mod 100 mod 10)]) = ?n"
    using two(2) by (simp add: fraction_cents_def digits_value_decimal)
  then have "amount_value (amount_parts (formatted_cents v)) = v"
    by (simp only: parts_formatted amount_value_def prod.case) simp
  then show ?thesis using ok by (simp add: cents_eq)
qed

theorem cents_formatted_witness: "cents (formatted_cents (-123405)) = Ok (-123405) \<and> formatted_cents (-123405) = ''-1234.05''"
proof
  show "cents (formatted_cents (-123405)) = Ok (-123405)" by (rule cents_formatted) simp
  show "formatted_cents (-123405) = ''-1234.05''" by code_simp
qed

section \<open>Totals of the records\<close>

text \<open>What a record contributes: its month and currency, and its cents.\<close>

definition invoice :: "nat \<Rightarrow> nat \<Rightarrow> nat \<Rightarrow> nat \<Rightarrow> string list \<Rightarrow> ((string \<times> string) \<times> int) option" where
  "invoice width date amount code r =
     (if length r \<noteq> width then None else
      case (date_month (r ! date), cents (r ! amount)) of
        (Inr m, Inr v) \<Rightarrow> if currency_ok (r ! code) then Some ((m, r ! code), v) else None
      | _ \<Rightarrow> None)"

abbreviation of_key :: "'k \<Rightarrow> ('k \<times> 'v) list \<Rightarrow> ('k \<times> 'v) list" where
  "of_key k invs \<equiv> filter (\<lambda>i. fst i = k) invs"

definition tallied :: "((string \<times> string) \<times> int) list \<Rightarrow> totals \<Rightarrow> bool" where
  "tallied invs t \<longleftrightarrow> (\<forall>k. bm_get t k = (if k \<in> fst ` set invs
     then Some (of_nat (length (of_key k invs)), sum_list (map snd (of_key k invs))) else None))"

definition amounts_bounded :: "('k \<times> int) list \<Rightarrow> bool" where
  "amounts_bounded invs \<longleftrightarrow> (\<forall>i \<in> set invs. \<bar>snd i\<bar> < 10 ^ 14)"

lemma invoice_bounded: "invoice w d a c r = Some i \<Longrightarrow> \<bar>snd i\<bar> < 10 ^ 14"
  using amount_bound [of "amount_parts (r ! a)"]
  by (auto simp: invoice_def cents_eq split: if_splits sum.splits)

lemma sum_bound: "amounts_bounded invs \<Longrightarrow> \<bar>sum_list (map snd invs)\<bar> \<le> int (length invs) * 10 ^ 14"
proof (induction invs)
  case (Cons i invs)
  have "\<bar>snd i + sum_list (map snd invs)\<bar> \<le> \<bar>snd i\<bar> + \<bar>sum_list (map snd invs)\<bar>" by (rule abs_triangle_ineq)
  then show ?case using Cons by (simp add: amounts_bounded_def)
qed simp

lemma of_key_bounds:
  assumes "amounts_bounded invs" "length invs \<le> 10000"
  shows "length (of_key k invs) \<le> 10000" "\<bar>sum_list (map snd (of_key k invs))\<bar> \<le> 10 ^ 18"
proof -
  show len: "length (of_key k invs) \<le> 10000" using length_filter_le [of "\<lambda>i. fst i = k" invs] assms(2) by linarith
  have "amounts_bounded (of_key k invs)" using assms(1) by (simp add: amounts_bounded_def)
  then show "\<bar>sum_list (map snd (of_key k invs))\<bar> \<le> 10 ^ 18" using sum_bound [of "of_key k invs"] len by simp
qed

lemma tallied_get: "tallied invs t \<Longrightarrow> bm_get t k = (if k \<in> fst ` set invs
   then Some (of_nat (length (of_key k invs)), sum_list (map snd (of_key k invs))) else None)"
  unfolding tallied_def by (rule spec)

lemma entry_of_tallied:
  assumes "tallied invs t"
  shows "(case bm_get t k of None \<Rightarrow> (0, 0) | Some e \<Rightarrow> e) = (of_nat (length (of_key k invs)), sum_list (map snd (of_key k invs)))"
proof (cases "k \<in> fst ` set invs")
  case False
  then have "of_key k invs = []" by (auto simp: filter_empty_conv)
  then show ?thesis using tallied_get [OF assms, of k] False by simp
qed (simp add: tallied_get [OF assms])

lemma count_u32:
  assumes "n \<le> 10000"
  shows "checked_add (of_nat n :: u32) 1 = Some (of_nat (Suc n))"
proof -
  have "n < 2 ^ LENGTH(32)" using assms by simp
  then have "unat (of_nat n :: u32) = n" by (simp only: unat_of_nat mod_less)
  then have "unat (of_nat n :: u32) + unat (1 :: u32) < 2 ^ LENGTH(32)" using assms by simp
  moreover have "of_nat n + 1 = (of_nat (Suc n) :: u32)" by (simp only: of_nat_Suc add.commute)
  ultimately show ?thesis unfolding checked_add_def by (simp only: if_True)
qed

lemma tally_row_eq:
  assumes t: "tallied invs t" and b: "amounts_bounded invs" "length invs < 10000"
  shows "tally_row w d a c t r = Ok t' \<longleftrightarrow> (\<exists>k v. invoice w d a c r = Some (k, v)
    \<and> t' = bm_insert k (of_nat (Suc (length (of_key k invs))), sum_list (map snd (of_key k invs)) + v) t)"
proof -
  have count: "checked_add (of_nat (length (of_key k invs)) :: u32) 1 = Some (of_nat (Suc (length (of_key k invs))))" for k
    using of_key_bounds(1) [OF b(1)] b(2) by (intro count_u32) simp
  have "checked_i128 (sum_list (map snd (of_key k invs)) + v) = Some (sum_list (map snd (of_key k invs)) + v)" if "\<bar>v\<bar> < 10 ^ 14" for k v
    using of_key_bounds(2) [OF b(1), of k] b(2) that by (intro checked_i128_small) simp
  then have total: "checked_i128 (sum_list (map snd (of_key k invs)) + v) = Some (sum_list (map snd (of_key k invs)) + v)"
    if "cents (r ! a) = Inr v" for k v
    using that amount_bound [of "amount_parts (r ! a)"] by (auto simp: cents_eq split: if_splits)
  have row: "tally_row w d a c t r = (if length r \<noteq> w then Err ''ragged invoice CSV record'' else
      and_then (date_month (r ! d)) (\<lambda>m. and_then (cents (r ! a)) (\<lambda>v.
      if \<not> currency_ok (r ! c) then Err ''invoice currency must be a three-letter uppercase code''
      else Ok (bm_insert (m, r ! c) (of_nat (Suc (length (of_key (m, r ! c) invs))), sum_list (map snd (of_key (m, r ! c) invs)) + v) t))))"
    unfolding tally_row_def entry_of_tallied [OF t] Let_def prod.case count
    by (intro if_cong refl and_then_cong) (simp add: total)
  show ?thesis
    unfolding row invoice_def by (cases "date_month (r ! d)"; cases "cents (r ! a)") auto
qed

lemma tallied_snoc:
  assumes "tallied invs t"
  shows "tallied (invs @ [(k, v)]) (bm_insert k (of_nat (Suc (length (of_key k invs))), sum_list (map snd (of_key k invs)) + v) t)"
  using assms by (auto simp: tallied_def)

lemma tallied_exists: "\<exists>t. tallied invs t"
proof (induction invs rule: rev_induct)
  case Nil
  then show ?case by (intro exI [of _ bm_empty]) (simp add: tallied_def)
next
  case (snoc i invs)
  then show ?case using tallied_snoc [of invs _ "fst i" "snd i"] by auto
qed

lemma tally_rows_eq:
  assumes "tallied invs t" "amounts_bounded invs" "length invs + length rs \<le> 10000"
  shows "tally_rows w d a c t rs = Ok t' \<longleftrightarrow> (\<exists>more_invs. map (invoice w d a c) rs = map Some more_invs \<and> tallied (invs @ more_invs) t')"
  using assms
proof (induction rs arbitrary: invs t)
  case Nil
  have "t = t'" if "tallied invs t'"
    by (rule bm_ext) (simp add: tallied_get [OF Nil(1)] tallied_get [OF that])
  then show ?case using Nil(1) by auto
next
  case (Cons r rs)
  have row: "tally_row w d a c t r = Ok u \<longleftrightarrow> (\<exists>k v. invoice w d a c r = Some (k, v)
    \<and> u = bm_insert k (of_nat (Suc (length (of_key k invs))), sum_list (map snd (of_key k invs)) + v) t)" for u
    using Cons.prems by (intro tally_row_eq) auto
  have rest: "tally_rows w d a c u rs = Ok t' \<longleftrightarrow> (\<exists>ms. map (invoice w d a c) rs = map Some ms \<and> tallied ((invs @ [i]) @ ms) t')"
    if "invoice w d a c r = Some i" "tallied (invs @ [i]) u" for u i
    using Cons.prems that invoice_bounded [OF that(1)] by (intro Cons.IH) (auto simp: amounts_bounded_def)
  show ?case
  proof (cases "invoice w d a c r")
    case None
    then show ?thesis using row by (auto simp: result_simps map_eq_Cons_conv)
  next
    case (Some i)
    then show ?thesis using row rest [OF Some] tallied_snoc [OF Cons.prems(1), of "fst i" "snd i"]
      by (cases i) (auto simp: result_simps Cons_eq_map_conv)
  qed
qed

subsection \<open>The reader stays in its bounds\<close>

lemma read_char_rows: "read_char r ch = Ok r' \<Longrightarrow> length (rows r) \<le> MAX_ROWS \<Longrightarrow> length (rows r') \<le> MAX_ROWS"
  by (auto simp: read_char_def finish_field_def finish_row_def push_def result_simps split: if_splits)

lemma read_chars_rows: "read_chars r chs = Ok r' \<Longrightarrow> length (rows r) \<le> MAX_ROWS \<Longrightarrow> length (rows r') \<le> MAX_ROWS"
  by (induction chs arbitrary: r) (auto simp: result_simps dest: read_char_rows)

lemma parse_csv_rows: "parse_csv bytes = Ok rs \<Longrightarrow> 2 \<le> length rs \<and> length rs \<le> MAX_ROWS"
  by (auto simp: parse_csv_def result_simps Let_def finish_field_def finish_row_def Suc_le_eq dest!: read_chars_rows split: if_splits)

text \<open>The report of a list of invoices: one group per month and currency, in order.\<close>

definition report_of :: "string \<Rightarrow> ((string \<times> string) \<times> int) list \<Rightarrow> invoice_report" where
  "report_of sha invs =
     \<lparr>schema_version = 1, report_type = ''invoice-summary-v1'', source_sha256 = sha, record_count = of_nat (length invs),
      groups = map (\<lambda>k. \<lparr>month = fst k, currency = snd k, invoice_count = of_nat (length (of_key k invs)),
          total = formatted_cents (sum_list (map snd (of_key k invs)))\<rparr>)
        (sorted_list_of_set (fst ` set invs))\<rparr>"

lemma tallied_entries:
  assumes "tallied invs t"
  shows "bm_entries t = map (\<lambda>k. (k, of_nat (length (of_key k invs)), sum_list (map snd (of_key k invs)))) (sorted_list_of_set (fst ` set invs))"
proof -
  have keys: "set (bm_keys t) = fst ` set invs"
    by (rule set_eqI) (simp add: bm_keys_iff tallied_get [OF assms])
  have sorted: "bm_keys t = sorted_list_of_set (fst ` set invs)"
    using bm_keys_sorted [of t] keys by (metis List.finite_set sorted_list_of_set.idem_if_sorted_distinct strict_sorted_iff)
  show ?thesis
    unfolding sorted [symmetric] by (subst bm_entries_by_keys) (auto simp: keys tallied_get [OF assms])
qed

definition tallied_report :: "string \<Rightarrow> nat \<Rightarrow> totals \<Rightarrow> invoice_report" where
  "tallied_report sha n t =
     \<lparr>schema_version = 1, report_type = ''invoice-summary-v1'', source_sha256 = sha, record_count = of_nat n,
      groups = map (\<lambda>((m, c), (n, t)). \<lparr>month = m, currency = c, invoice_count = n, total = formatted_cents t\<rparr>) (bm_entries t)\<rparr>"

lemma tallied_report_of: "tallied invs t \<Longrightarrow> tallied_report sha (length invs) t = report_of sha invs"
  by (simp add: tallied_report_def report_of_def tallied_entries case_prod_beta)

text \<open>C31: the calculation is exactly the reference summary. It succeeds if and only if the bytes parse as CSV, the header is valid and has the three columns, and every record is an invoice; then the report has one group for each month and currency that occurs, in increasing order, with the exact number of its invoices and the exact sum of their amounts, and no count or total overflows.\<close>

theorem calculate_exact:
  "calculate sha bytes = Ok report \<longleftrightarrow> (\<exists>header records date amount code invs.
     parse_csv bytes = Ok (header # records) \<and> check_header {} header = Ok ()
     \<and> column ''invoice_date'' header = Some date \<and> column ''amount'' header = Some amount \<and> column ''currency'' header = Some code
     \<and> map (invoice (length header) date amount code) records = map Some invs
     \<and> report = report_of (sha bytes) invs)"
proof -
  have start: "tallied [] bm_empty" "amounts_bounded []" by (simp_all add: tallied_def amounts_bounded_def)
  have rows: "tally_rows w d a c bm_empty rs = Ok t \<longleftrightarrow> (\<exists>invs. map (invoice w d a c) rs = map Some invs \<and> tallied invs t)"
    if "parse_csv bytes = Ok (h # rs)" for w d a c t h rs
    using tally_rows_eq [OF start, of rs] parse_csv_rows [OF that] by (simp add: MAX_ROWS_def)
  have whole: "calculate sha bytes = Ok report \<longleftrightarrow> (\<exists>h rs date amount code t. parse_csv bytes = Ok (h # rs) \<and> check_header {} h = Ok ()
     \<and> column ''invoice_date'' h = Some date \<and> column ''amount'' h = Some amount \<and> column ''currency'' h = Some code
     \<and> tally_rows (length h) date amount code bm_empty rs = Ok t \<and> report = tallied_report (sha bytes) (length rs) t)"
  proof (cases "parse_csv bytes")
    case (Inr ls)
    then obtain h rs where "ls = h # rs" using parse_csv_rows [OF Inr] by (cases ls) auto
    with Inr show ?thesis by (auto simp: calculate_def result_simps tallied_report_def)
  qed (simp add: calculate_def)
  have tallies: "(\<exists>t. tally_rows (length h) d a c bm_empty rs = Ok t \<and> report = tallied_report (sha bytes) (length rs) t)
      \<longleftrightarrow> (\<exists>invs. map (invoice (length h) d a c) rs = map Some invs \<and> report = report_of (sha bytes) invs)"
    if "parse_csv bytes = Ok (h # rs)" for d a c h rs
  proof -
    have "length rs = length invs" if "map (invoice (length h) d a c) rs = map Some invs" for invs
      using that by (rule map_eq_imp_length_eq)
    then show ?thesis using rows [OF that] tallied_exists tallied_report_of by metis
  qed
  show ?thesis unfolding whole using tallies by blast
qed

section \<open>Quoted tables\<close>

text \<open>The CSV text of a table of fields (lists of characters), every field quoted and its quotes doubled.\<close>

definition escaped :: "string list \<Rightarrow> string list" where
  "escaped f = concat (map (\<lambda>ch. if ch = QUOTE then [QUOTE, QUOTE] else [ch]) f)"

fun csv_row :: "string list list \<Rightarrow> string list" where
  "csv_row [] = []"
| "csv_row [f] = QUOTE # escaped f @ [QUOTE, LF]"
| "csv_row (f # fs) = QUOTE # escaped f @ [QUOTE, COMMA] @ csv_row fs"

definition csv_text :: "string list list list \<Rightarrow> string list" where
  "csv_text table = concat (map csv_row table)"

fun utf8_char :: "string \<Rightarrow> bool" where
  "utf8_char [a] \<longleftrightarrow> byte_in 0 127 a"
| "utf8_char [a, b] \<longleftrightarrow> byte_in 194 223 a \<and> continuation b"
| "utf8_char [a, b, c] \<longleftrightarrow> continuation c \<and> ((byte_in 224 224 a \<and> byte_in 160 191 b) \<or> (byte_in 225 236 a \<and> continuation b)
     \<or> (byte_in 237 237 a \<and> byte_in 128 159 b) \<or> (byte_in 238 239 a \<and> continuation b))"
| "utf8_char [a, b, c, d] \<longleftrightarrow> continuation c \<and> continuation d \<and> ((byte_in 240 240 a \<and> byte_in 144 191 b)
     \<or> (byte_in 241 243 a \<and> continuation b) \<or> (byte_in 244 244 a \<and> byte_in 128 143 b))"
| "utf8_char _ \<longleftrightarrow> False"

definition plain_char :: "string \<Rightarrow> bool" where
  "plain_char ch \<longleftrightarrow> utf8_char ch \<and> ch \<noteq> NUL \<and> ch \<noteq> CR"

definition table_row_ok :: "string list list \<Rightarrow> bool" where
  "table_row_ok r \<longleftrightarrow> r \<noteq> [] \<and> r \<noteq> [[]] \<and> length r \<le> MAX_COLUMNS
     \<and> list_all (\<lambda>f. list_all plain_char f \<and> length (concat f) \<le> MAX_FIELD_BYTES) r"

lemmas char_consts = LF_def CR_def NUL_def QUOTE_def COMMA_def

lemma char_distinct: "LF \<noteq> QUOTE" "COMMA \<noteq> QUOTE" "LF \<noteq> COMMA" "LF \<noteq> CR" "COMMA \<noteq> CR" "QUOTE \<noteq> CR" "LF \<noteq> NUL" "COMMA \<noteq> NUL" "QUOTE \<noteq> NUL"
  by (simp_all add: char_consts)

lemma read_chars_append: "read_chars r (a @ b) = and_then (read_chars r a) (\<lambda>r. read_chars r b)"
  by (induction a arbitrary: r) (auto split: and_then_split)

lemma read_escaped:
  "fstate r = Quoted \<Longrightarrow> length (field r) + length (concat f) \<le> MAX_FIELD_BYTES
     \<Longrightarrow> read_chars r (escaped f) = Ok (r\<lparr>field := field r @ concat f\<rparr>)"
proof (induction f arbitrary: r)
  case (Cons ch f)
  have "read_chars r (if ch = QUOTE then [QUOTE, QUOTE] else [ch]) = Ok (push r ch)"
    using Cons.prems by (auto simp: read_char_def push_def)
  moreover have "read_chars (push r ch) (escaped f) = Ok ((push r ch)\<lparr>field := field (push r ch) @ concat f\<rparr>)"
    using Cons.prems by (intro Cons.IH) (auto simp: push_def)
  ultimately show ?case by (simp add: escaped_def read_chars_append push_def)
qed (simp add: escaped_def)

lemma read_quoted:
  assumes "fstate r = Start" "field r = []" "length (concat f) \<le> MAX_FIELD_BYTES"
  shows "read_chars r (QUOTE # escaped f @ QUOTE # rest) = read_chars (r\<lparr>field := concat f, fstate := AfterQuote\<rparr>) rest"
  using assms by (simp add: read_char_def read_chars_append read_escaped)

lemma read_row:
  assumes "fs \<noteq> []" "list_all (\<lambda>f. length (concat f) \<le> MAX_FIELD_BYTES) fs"
    "fstate r = Start" "field r = []" "length (row r) + length fs \<le> MAX_COLUMNS" "length (rows r) < MAX_ROWS"
    "row r @ map concat fs \<noteq> [[]]"
  shows "read_chars r (csv_row fs) = Ok (r\<lparr>rows := rows r @ [row r @ map concat fs], row := []\<rparr>)"
  using assms
proof (induction fs arbitrary: r rule: csv_row.induct)
  case (2 f)
  have "read_chars r (csv_row [f]) = read_chars (r\<lparr>field := concat f, fstate := AfterQuote\<rparr>) [LF]"
    unfolding csv_row.simps using 2 by (intro read_quoted) simp_all
  with 2 show ?case
    by (cases "row r") (auto simp: read_char_def finish_field_def finish_row_def char_distinct simp del: csv_row.simps concat_eq_Nil_conv)
next
  case (3 f g fs)
  let ?r = "r\<lparr>row := row r @ [concat f]\<rparr>"
  have "read_chars r (csv_row (f # g # fs)) = read_chars (r\<lparr>field := concat f, fstate := AfterQuote\<rparr>) (COMMA # csv_row (g # fs))"
    unfolding csv_row.simps append.simps using "3.prems" by (intro read_quoted) simp_all
  also have "\<dots> = read_chars ?r (csv_row (g # fs))"
    using "3.prems" by (cases r) (simp add: read_char_def finish_field_def char_distinct)
  also have "\<dots> = Ok (?r\<lparr>rows := rows ?r @ [row ?r @ map concat (g # fs)], row := []\<rparr>)"
    using "3.prems" by (intro "3.IH") auto
  finally show ?case by simp
qed simp

lemma read_table:
  assumes "list_all (\<lambda>fs. fs \<noteq> [] \<and> map concat fs \<noteq> [[]] \<and> length fs \<le> MAX_COLUMNS
      \<and> list_all (\<lambda>f. length (concat f) \<le> MAX_FIELD_BYTES) fs) table"
    "fstate r = Start" "field r = []" "row r = []" "length (rows r) + length table \<le> MAX_ROWS"
  shows "read_chars r (csv_text table) = Ok (r\<lparr>rows := rows r @ map (map concat) table\<rparr>)"
  using assms
proof (induction table arbitrary: r)
  case (Cons fs table)
  have "read_chars r (csv_row fs) = Ok (r\<lparr>rows := rows r @ [row r @ map concat fs], row := []\<rparr>)"
    using Cons.prems by (intro read_row) auto
  also have "\<dots> = Ok (r\<lparr>rows := rows r @ [map concat fs]\<rparr>)"
    using Cons.prems(4) by (cases r) simp
  finally show ?case using Cons.prems Cons.IH [of "r\<lparr>rows := rows r @ [map concat fs]\<rparr>"]
    by (simp add: csv_text_def read_chars_append)
qed (simp add: csv_text_def)

lemma utf8_append: "utf8_char ch \<Longrightarrow> utf8_chars (ch @ bs) = map_option ((#) ch) (utf8_chars bs)"
proof (induction ch rule: utf8_char.induct)
  case (2 a b)
  then have "\<not> byte_in 0 127 a" by (simp add: byte_in_def)
  with 2 show ?case by simp
next
  case (3 a b c)
  then have "\<not> byte_in 0 127 a" "\<not> byte_in 194 223 a" by (auto simp: byte_in_def)
  with 3 show ?case by simp
next
  case (4 a b c d)
  then have "\<not> byte_in 0 127 a" "\<not> byte_in 194 223 a" "\<not> byte_in 224 224 a" "\<not> byte_in 225 236 a" "\<not> byte_in 237 237 a" "\<not> byte_in 238 239 a"
    by (auto simp: byte_in_def)
  with 4 show ?case by simp
qed simp_all

lemma utf8_concat: "list_all utf8_char chs \<Longrightarrow> utf8_chars (concat chs) = Some chs"
  by (induction chs) (simp_all add: utf8_append)

lemma normalize_plain: "CR \<notin> set chs \<Longrightarrow> normalize chs = chs"
  by (induction chs rule: normalize.induct) auto

lemma set_csv_row: "set (csv_row fs) \<subseteq> {QUOTE, COMMA, LF} \<union> \<Union> (set (map set fs))"
  by (induction fs rule: csv_row.induct) (auto simp: escaped_def)

lemma set_csv_text: "ch \<in> set (csv_text table) \<Longrightarrow> ch \<in> {QUOTE, COMMA, LF} \<or> (\<exists>fs \<in> set table. \<exists>f \<in> set fs. ch \<in> set f)"
  using set_csv_row by (fastforce simp: csv_text_def)

lemma plain_text:
  assumes "list_all table_row_ok table" "ch \<in> set (csv_text table)"
  shows "utf8_char ch" "ch \<noteq> NUL" "ch \<noteq> CR"
  using set_csv_text [OF assms(2)] assms(1)
  by (auto simp: table_row_ok_def list_all_iff plain_char_def char_distinct char_consts byte_in_def)

lemma plain_row_nonempty: "table_row_ok fs \<Longrightarrow> map concat fs \<noteq> [[]]"
  by (auto simp: table_row_ok_def plain_char_def map_eq_Cons_conv list_all_iff) (metis list.set_intros(1) neq_Nil_conv utf8_char.simps(5))

text \<open>C32: the CSV reader inverts quoting. For every table within the bounds of the format, the text in which each field is quoted and its quotes are doubled is parsed to exactly the fields of the table: commas, line feeds, quotes and multi-byte characters inside a field survive.\<close>

theorem parse_quoted_table:
  assumes "list_all table_row_ok table" "2 \<le> length table" "length table \<le> MAX_ROWS"
    "length (concat (csv_text table)) \<le> MAX_SOURCE_BYTES"
  shows "parse_csv (concat (csv_text table)) = Ok (map (map concat) table)"
proof -
  have utf8: "utf8_chars (concat (csv_text table)) = Some (csv_text table)"
    using plain_text(1) [OF assms(1)] by (intro utf8_concat) (simp add: list_all_iff)
  have plain: "NUL \<notin> set (csv_text table)" "CR \<notin> set (csv_text table)"
    using plain_text(2,3) [OF assms(1)] by blast+
  have read: "read_chars \<lparr>rows = [], row = [], field = [], fstate = Start\<rparr> (csv_text table)
      = Ok \<lparr>rows = map (map concat) table, row = [], field = [], fstate = Start\<rparr>"
    using assms by (subst read_table) (auto simp: list_all_iff plain_row_nonempty, auto simp: table_row_ok_def list_all_iff)
  have "concat (csv_text table) \<noteq> []"
    using utf8 read assms(2) by (cases "concat (csv_text table)") auto
  then show ?thesis
    using assms(2,4) by (simp add: parse_csv_def utf8 plain normalize_plain read Let_def del: concat_eq_Nil_conv)
qed

theorem parse_quoted_table_witness:
  "parse_csv ([CHR 0x22, CHR ''a'', CHR 0x22, CHR 0x2C, CHR 0x22, CHR 0x22, CHR 0x0A, CHR 0x22, CHR 0x22, CHR 0x22, CHR 0x22, CHR 0x2C,
       CHR 0x22, CHR 0x0A, CHR 0xC3, CHR 0xA9, CHR 0x22, CHR 0x0A])
     = Ok [[''a'', []], [[CHR 0x22], [CHR 0x0A, CHR 0xC3, CHR 0xA9]]]"
  using parse_quoted_table [of "[[[''a''], []], [[[CHR 0x22]], [[CHR 0x0A], [CHR 0xC3, CHR 0xA9]]]]"]
  by (simp add: table_row_ok_def plain_char_def char_consts byte_in_def csv_text_def escaped_def
      MAX_ROWS_def MAX_COLUMNS_def MAX_FIELD_BYTES_def MAX_SOURCE_BYTES_def)

end
