(* ===== verification/Broker_Effects.thy ===== *)
theory Broker_Effects
  imports Prelude
begin

text \<open>
  The replay fence of the privileged worker effects (\<open>broker_effects.rs\<close>). The journal is data; the file,
  the authorization callback, the effect itself and the JSON codec are the fields of an environment whose
  operations may fail and change the surrounding state \<open>'w\<close>.
\<close>

section \<open>Journal\<close>

definition MAX_BYTES :: nat where "MAX_BYTES = 4 * 1024 * 1024"
definition MAX_RECORDS :: nat where "MAX_RECORDS = 4096"

datatype broker_action = StartWorker | StopWorker

definition parse_action :: "string \<Rightarrow> broker_action result" where
  "parse_action s = (if s = ''start-worker'' then Ok StartWorker else if s = ''stop-worker'' then Ok StopWorker
     else Err ''unsupported journaled worker effect'')"

datatype effect_state = Applying | Completed | NotApplied

record effect_record =
  request_id :: string
  authenticated_uid :: u32
  record_action :: broker_action
  record_state :: effect_state

record journal =
  journal_schema :: u32
  records :: "effect_record list"

definition valid_request_id :: "string \<Rightarrow> bool" where
  "valid_request_id v \<longleftrightarrow> v \<noteq> [] \<and> length v \<le> 64 \<and> list_all (\<lambda>b. is_ascii_alphanumeric b \<or> b = CHR ''-'') v"

text \<open>The loop of \<open>validate\<close>: the identities seen so far and the index of the record.\<close>

fun validate_records :: "nat \<Rightarrow> string set \<Rightarrow> nat \<Rightarrow> effect_record list \<Rightarrow> unit result" where
  "validate_records n identities index [] = Ok ()"
| "validate_records n identities index (r # rs) =
     (if \<not> valid_request_id (request_id r) \<or> authenticated_uid r \<noteq> 0 \<or> request_id r \<in> identities
         \<or> (record_state r = Applying \<and> index + 1 \<noteq> n)
      then Err ''invalid broker effect record''
      else validate_records n (insert (request_id r) identities) (index + 1) rs)"

definition validate_journal :: "journal \<Rightarrow> unit result" where
  "validate_journal j =
     (if journal_schema j \<noteq> 1 \<or> MAX_RECORDS < length (records j) then Err ''invalid or exhausted broker effect journal''
      else validate_records (length (records j)) {} 0 (records j))"

definition initial_journal :: journal where
  "initial_journal = \<lparr>journal_schema = 1, records = []\<rparr>"

section \<open>Store\<close>

record ('w, 'b) broker_env =
  read_file :: "('w, 'b) action"
  write_atomic :: "'b \<Rightarrow> ('w, unit) action"
  sync_file :: "('w, unit) action"
  authorize :: "('w, unit) action"
  dispatch_effect :: "string \<Rightarrow> broker_action \<Rightarrow> ('w, unit) action"
  parse_journal :: "'b \<Rightarrow> journal option"
  print_journal :: "journal \<Rightarrow> 'b"
  byte_count :: "'b \<Rightarrow> nat"

definition store_read :: "('w, 'b) broker_env \<Rightarrow> ('w, journal) action" where
  "store_read env =
     bind_action (read_file env) (\<lambda>bytes. lift_result (
     and_then (ok_or (parse_journal env bytes) ''malformed broker effect journal'') (\<lambda>j.
     if print_journal env j \<noteq> bytes then Err ''noncanonical broker effect journal; preserve state''
     else and_then (validate_journal j) (\<lambda>_. Ok j))))"

definition store_publish :: "('w, 'b) broker_env \<Rightarrow> journal \<Rightarrow> ('w, unit) action" where
  "store_publish env j =
     bind_action (lift_result (validate_journal j)) (\<lambda>_.
     if MAX_BYTES < byte_count env (print_journal env j) then lift_result (Err ''broker effect journal exceeds capacity'')
     else write_atomic env (print_journal env j))"

definition replay_effect :: "('w, 'b) broker_env \<Rightarrow> u32 \<Rightarrow> broker_action \<Rightarrow> effect_record \<Rightarrow> ('w, bool) action" where
  "replay_effect env uid a r =
     (if authenticated_uid r \<noteq> uid \<or> record_action r \<noteq> a then lift_result (Err ''broker effect replay conflict'')
      else if record_state r = Completed then bind_action (sync_file env) (\<lambda>_. lift_result (Ok True))
      else lift_result (Err ''broker effect was not applied; use a new authorized request''))"

text \<open>\<open>journal.records[index].state = state\<close>\<close>

definition mark :: "journal \<Rightarrow> nat \<Rightarrow> effect_state \<Rightarrow> journal" where
  "mark j index st = j\<lparr>records := (records j)[index := (records j ! index)\<lparr>record_state := st\<rparr>]\<rparr>"

definition apply_effect :: "('w, 'b) broker_env \<Rightarrow> string \<Rightarrow> u32 \<Rightarrow> broker_action \<Rightarrow> journal \<Rightarrow> ('w, bool) action" where
  "apply_effect env identity uid a j =
     (let index = length (records j);
          j' = j\<lparr>records := records j @ [\<lparr>request_id = identity, authenticated_uid = uid, record_action = a, record_state = Applying\<rparr>]\<rparr> in
      bind_action (store_publish env j') (\<lambda>_ w.
      (case authorize env w of
        (Inl _, w') \<Rightarrow> bind_action (store_publish env (mark j' index NotApplied)) (\<lambda>_.
          lift_result (Err ''effect-time authorization denied before dispatch'')) w'
      | (Inr _, w') \<Rightarrow> bind_action (dispatch_effect env identity a) (\<lambda>_.
          bind_action (store_publish env (mark j' index Completed)) (\<lambda>_. lift_result (Ok False))) w')))"

definition execute :: "('w, 'b) broker_env \<Rightarrow> string \<Rightarrow> u32 \<Rightarrow> broker_action \<Rightarrow> ('w, bool) action" where
  "execute env identity uid a =
     (if \<not> valid_request_id identity \<or> uid \<noteq> 0 then lift_result (Err ''invalid laboratory effect identity'')
      else bind_action (store_read env) (\<lambda>j.
      bind_action (authorize env) (\<lambda>_.
      if list_ex (\<lambda>r. record_state r = Applying) (records j)
      then lift_result (Err ''broker effect outcome uncertain; reviewed reconciliation required'')
      else case find (\<lambda>r. request_id r = identity) (records j) of
        Some r \<Rightarrow> replay_effect env uid a r
      | None \<Rightarrow>
          if MAX_RECORDS \<le> length (records j)
          then lift_result (Err ''broker effect journal capacity exhausted; no automatic rotation'')
          else apply_effect env identity uid a j)))"

definition reconciliation_required :: "journal \<Rightarrow> bool" where
  "reconciliation_required j \<longleftrightarrow> list_ex (\<lambda>r. record_state r = Applying) (records j)"

section \<open>Validity\<close>

lemma validate_records_iff:
  "validate_records n ids i rs = Ok () \<longleftrightarrow>
     list_all (\<lambda>r. valid_request_id (request_id r) \<and> authenticated_uid r = 0) rs
     \<and> distinct (map request_id rs) \<and> set (map request_id rs) \<inter> ids = {}
     \<and> (\<forall>k < length rs. record_state (rs ! k) = Applying \<longrightarrow> i + k + 1 = n)"
proof (induction rs arbitrary: i ids)
  case (Cons r rs)
  have "(\<forall>k < length (r # rs). record_state ((r # rs) ! k) = Applying \<longrightarrow> i + k + 1 = n)
      \<longleftrightarrow> (record_state r = Applying \<longrightarrow> i + 1 = n) \<and> (\<forall>k < length rs. record_state (rs ! k) = Applying \<longrightarrow> i + 1 + k + 1 = n)"
    by (auto simp: less_Suc_eq_0_disj)
  then show ?case using Cons by auto
qed simp

text \<open>A valid journal: distinct identities, and an uncertain effect only at the end.\<close>

definition journal_ok :: "journal \<Rightarrow> bool" where
  "journal_ok j \<longleftrightarrow> journal_schema j = 1 \<and> length (records j) \<le> MAX_RECORDS
     \<and> list_all (\<lambda>r. valid_request_id (request_id r) \<and> authenticated_uid r = 0) (records j)
     \<and> distinct (map request_id (records j))
     \<and> (\<forall>k < length (records j). record_state (records j ! k) = Applying \<longrightarrow> k + 1 = length (records j))"

lemma validate_journal_iff: "validate_journal j = Ok u \<longleftrightarrow> journal_ok j"
  by (auto simp: validate_journal_def validate_records_iff journal_ok_def)

lemma store_publish_Ok: "store_publish env j w = (Ok (), w') \<Longrightarrow> journal_ok j \<and> write_atomic env (print_journal env j) w = (Ok (), w')"
  by (auto simp: store_publish_def result_simps validate_journal_iff split: if_splits)

lemma store_publish_Inl:
  "store_publish env j w = (Inl e, w') \<Longrightarrow> w' = w \<or> (journal_ok j \<and> write_atomic env (print_journal env j) w = (Inl e, w'))"
  by (auto simp: store_publish_def error_simps result_simps validate_journal_iff split: if_splits)

section \<open>At most one dispatch\<close>

text \<open>
  Documented behaviour of the surroundings while the lock is held: reading yields the content of the file or
  fails; an atomic write that succeeds leaves its bytes, one that fails leaves the old bytes or the new ones;
  nothing else touches the file; an effect is dispatched by nothing but its call; and the codec reads back what
  it prints.
\<close>

definition journaled :: "('w, 'b) broker_env \<Rightarrow> ('w \<Rightarrow> 'b) \<Rightarrow> ('w \<Rightarrow> (string \<times> broker_action) list) \<Rightarrow> bool" where
  "journaled env content dispatched \<longleftrightarrow>
     (\<forall>w r w'. read_file env w = (r, w') \<longrightarrow> content w' = content w \<and> dispatched w' = dispatched w \<and> (\<forall>b. r = Ok b \<longrightarrow> b = content w))
     \<and> (\<forall>b w r w'. write_atomic env b w = (r, w') \<longrightarrow> dispatched w' = dispatched w
          \<and> (content w' = b \<or> (content w' = content w \<and> r \<noteq> Ok ())))
     \<and> (\<forall>w r w'. sync_file env w = (r, w') \<longrightarrow> content w' = content w \<and> dispatched w' = dispatched w)
     \<and> (\<forall>w r w'. authorize env w = (r, w') \<longrightarrow> content w' = content w \<and> dispatched w' = dispatched w)
     \<and> (\<forall>i a w r w'. dispatch_effect env i a w = (r, w') \<longrightarrow> content w' = content w \<and> dispatched w' = dispatched w @ [(i, a)])
     \<and> (\<forall>j. parse_journal env (print_journal env j) = Some j)"

text \<open>
  The fence: the file holds a valid journal, no identity was dispatched twice, every dispatched effect has a
  record that is completed or uncertain, and every completed record was dispatched.
\<close>

definition recorded :: "(string \<times> broker_action) list \<Rightarrow> journal \<Rightarrow> bool" where
  "recorded ds j \<longleftrightarrow> journal_ok j \<and> distinct (map fst ds)
     \<and> (\<forall>d \<in> set ds. \<exists>r \<in> set (records j). request_id r = fst d \<and> record_action r = snd d \<and> record_state r \<noteq> NotApplied)
     \<and> (\<forall>r \<in> set (records j). record_state r = Completed \<longrightarrow> (request_id r, record_action r) \<in> set ds)"

definition fenced :: "('w, 'b) broker_env \<Rightarrow> ('w \<Rightarrow> 'b) \<Rightarrow> ('w \<Rightarrow> (string \<times> broker_action) list) \<Rightarrow> 'w \<Rightarrow> bool" where
  "fenced env content dispatched w \<longleftrightarrow> (\<exists>j. content w = print_journal env j \<and> recorded (dispatched w) j)"

definition extend :: "journal \<Rightarrow> string \<Rightarrow> broker_action \<Rightarrow> effect_state \<Rightarrow> journal" where
  "extend j i a st = j\<lparr>records := records j @ [\<lparr>request_id = i, authenticated_uid = 0, record_action = a, record_state = st\<rparr>]\<rparr>"

lemma mark_extend: "mark (extend j i a st) (length (records j)) st' = extend j i a st'"
  by (simp add: mark_def extend_def)

lemma recorded_extend:
  assumes j: "recorded ds j" "\<not> reconciliation_required j" "length (records j) < MAX_RECORDS"
    and i: "valid_request_id i" "i \<notin> set (map request_id (records j))"
    and ds': "(ds' = ds \<and> st \<noteq> Completed) \<or> (ds' = ds @ [(i, a)] \<and> st \<noteq> NotApplied)"
  shows "recorded ds' (extend j i a st)"
proof -
  have "journal_ok (extend j i a st)"
    using j i by (auto simp: journal_ok_def recorded_def extend_def reconciliation_required_def list_ex_iff nth_append less_Suc_eq dest: nth_mem)
  moreover have "distinct (map fst ds')"
  proof -
    have "i \<notin> fst ` set ds" using j(1) i(2) by (fastforce simp: recorded_def)
    then show ?thesis using ds' j(1) by (auto simp: recorded_def)
  qed
  ultimately show ?thesis
    using j(1) ds' i(2) by (fastforce simp: recorded_def extend_def)
qed

lemma journaled_write:
  "journaled env content dispatched \<Longrightarrow> write_atomic env b w = (r, w') \<Longrightarrow> dispatched w' = dispatched w
     \<and> (content w' = b \<or> (content w' = content w \<and> r \<noteq> Ok ()))"
  unfolding journaled_def by blast

lemma publish_cases:
  assumes "journaled env content dispatched" "store_publish env j w = (r, w')"
  shows "dispatched w' = dispatched w \<and> (content w' = print_journal env j \<or> (content w' = content w \<and> r \<noteq> Ok ()))"
proof (cases r)
  case (Inl e)
  then show ?thesis using store_publish_Inl [of env j w e w'] journaled_write [OF assms(1)] assms(2) by blast
next
  case (Inr u)
  then have "write_atomic env (print_journal env j) w = (Ok (), w')" using store_publish_Ok [of env j w w'] assms(2) by simp
  then show ?thesis using journaled_write [OF assms(1)] by blast
qed

lemma store_read_cases:
  assumes "journaled env content dispatched" "store_read env w = (r, w')"
  shows "content w' = content w" "dispatched w' = dispatched w"
    "r = Ok j \<Longrightarrow> content w = print_journal env j \<and> journal_ok j"
proof -
  obtain q where q: "read_file env w = (q, w')" "\<And>b. q = Ok b \<Longrightarrow> b = content w"
    and r: "r = and_then q (\<lambda>bytes. and_then (ok_or (parse_journal env bytes) ''malformed broker effect journal'') (\<lambda>j.
        if print_journal env j \<noteq> bytes then Err ''noncanonical broker effect journal; preserve state''
        else and_then (validate_journal j) (\<lambda>_. Ok j)))"
    using assms by (auto simp: store_read_def bind_action_def journaled_def split: prod.splits sum.splits)
  show "content w' = content w" "dispatched w' = dispatched w" using assms(1) q(1) by (auto simp: journaled_def)
  show "content w = print_journal env j \<and> journal_ok j" if "r = Ok j"
    using that r q(2) by (auto simp: result_simps validate_journal_iff)
qed

lemma apply_effect_fenced:
  assumes env: "journaled env content dispatched" and w: "content w = print_journal env j"
    and j: "recorded (dispatched w) j" "\<not> reconciliation_required j" "length (records j) < MAX_RECORDS"
    and i: "valid_request_id i" "i \<notin> set (map request_id (records j))"
    and run: "apply_effect env i 0 a j w = (r, w')"
  shows "fenced env content dispatched w' \<and> (is_ok r \<longrightarrow> (i, a) \<in> set (dispatched w'))"
proof -
  let ?app = "extend j i a Applying"
  have ext: "j\<lparr>records := records j @ [\<lparr>request_id = i, authenticated_uid = 0, record_action = a, record_state = Applying\<rparr>]\<rparr> = ?app"
    by (simp add: extend_def)
  note rec = recorded_extend [OF j i]
  obtain r1 w1 where 1: "store_publish env ?app w = (r1, w1)" by fastforce
  note c1 = publish_cases [OF env 1]
  obtain r2 w2 where 2: "authorize env w1 = (r2, w2)" by fastforce
  then have c2: "content w2 = content w1" "dispatched w2 = dispatched w1" using env by (auto simp: journaled_def)
  obtain r3 w3 where 3: "store_publish env (extend j i a NotApplied) w2 = (r3, w3)" by fastforce
  note c3 = publish_cases [OF env 3]
  obtain r4 w4 where 4: "dispatch_effect env i a w2 = (r4, w4)" by fastforce
  then have c4: "content w4 = content w2" "dispatched w4 = dispatched w2 @ [(i, a)]" using env by (auto simp: journaled_def)
  obtain r5 w5 where 5: "store_publish env (extend j i a Completed) w4 = (r5, w5)" by fastforce
  note c5 = publish_cases [OF env 5]
  have "(r1 \<noteq> Ok () \<and> w' = w1 \<and> \<not> is_ok r) \<or> (r1 = Ok () \<and> \<not> is_ok r2 \<and> w' = w3 \<and> \<not> is_ok r)
      \<or> (r1 = Ok () \<and> is_ok r2 \<and> \<not> is_ok r4 \<and> w' = w4 \<and> \<not> is_ok r) \<or> (r1 = Ok () \<and> is_ok r2 \<and> is_ok r4 \<and> w' = w5)"
    using run 1 2 3 4 5
    by (cases r1; cases r2; cases r3; cases r4; cases r5)
       (auto simp: apply_effect_def Let_def ext bind_action_def mark_extend)
  then consider "w' = w1" "\<not> is_ok r" | "r1 = Ok ()" "w' = w3" "\<not> is_ok r" | "r1 = Ok ()" "w' = w4" "\<not> is_ok r" | "r1 = Ok ()" "w' = w5"
    by blast
  then show ?thesis
  proof cases
    case 1
    then show ?thesis using c1 w j(1) rec [of "dispatched w" Applying a] by (auto simp: fenced_def)
  next
    case 2
    then show ?thesis using c1 c2 c3 rec [of "dispatched w" Applying a] rec [of "dispatched w" NotApplied a] by (auto simp: fenced_def)
  next
    case 3
    then show ?thesis using c1 c2 c4 rec [of "dispatched w @ [(i, a)]" Applying a] by (auto simp: fenced_def)
  next
    case 4
    then show ?thesis using c1 c2 c4 c5 rec [of "dispatched w @ [(i, a)]" Applying a] rec [of "dispatched w @ [(i, a)]" Completed a]
      by (auto simp: fenced_def)
  qed
qed

lemma store_read_printed:
  "journaled env content dispatched \<Longrightarrow> print_journal env j = print_journal env j' \<Longrightarrow> j = j'"
  unfolding journaled_def by (metis option.inject)

lemma execute_fenced:
  assumes env: "journaled env content dispatched" and w: "fenced env content dispatched w"
    and run: "execute env i u a w = (r, w')"
  shows "fenced env content dispatched w' \<and> (is_ok r \<longrightarrow> (i, a) \<in> set (dispatched w'))"
proof -
  obtain j where j: "content w = print_journal env j" "recorded (dispatched w) j" using w by (auto simp: fenced_def)
  obtain r1 w1 where 1: "store_read env w = (r1, w1)" by fastforce
  note c1 = store_read_cases [OF env 1]
  have j1: "r1 = Ok j' \<Longrightarrow> j' = j" for j' using c1(3) j(1) store_read_printed [OF env] by metis
  obtain r2 w2 where 2: "authorize env w1 = (r2, w2)" by fastforce
  then have c2: "content w2 = content w" "dispatched w2 = dispatched w" using env c1(1,2) by (auto simp: journaled_def)
  obtain r3 w3 where 3: "sync_file env w2 = (r3, w3)" by fastforce
  then have c3: "content w3 = content w" "dispatched w3 = dispatched w" using env c2 by (auto simp: journaled_def)
  have same: "fenced env content dispatched v" if "content v = content w" "dispatched v = dispatched w" for v
    using that w by (simp add: fenced_def)
  show ?thesis
  proof (cases "valid_request_id i \<and> u = 0 \<and> r1 = Ok j \<and> is_ok r2 \<and> \<not> reconciliation_required j")
    case False
    then have "\<not> is_ok r" "w' = w \<or> w' = w1 \<or> w' = w2"
      using run 1 2 j1 by (cases r1; cases r2; auto simp: execute_def bind_action_def reconciliation_required_def split: if_splits)+
    then show ?thesis using same c1 c2 w by auto
  next
    case True
    then have run2: "(case find (\<lambda>r. request_id r = i) (records j) of Some e \<Rightarrow> replay_effect env 0 a e
        | None \<Rightarrow> if MAX_RECORDS \<le> length (records j)
            then lift_result (Err ''broker effect journal capacity exhausted; no automatic rotation'')
            else apply_effect env i 0 a j) w2 = (r, w')"
      using run 1 2 by (auto simp: execute_def bind_action_def reconciliation_required_def is_ok_iff)
    show ?thesis
    proof (cases "find (\<lambda>r. request_id r = i) (records j)")
      case (Some e)
      then have e: "e \<in> set (records j)" "request_id e = i" by (auto simp: find_Some_iff)
      have "(\<not> is_ok r \<and> (w' = w2 \<or> w' = w3)) \<or> (record_state e = Completed \<and> record_action e = a \<and> w' = w3)"
        using run2 Some 3 by (cases r3) (auto simp: replay_effect_def bind_action_def split: if_splits)
      then show ?thesis using same c2 c3 e j(2) by (auto simp: recorded_def)
    next
      case None
      then have fresh: "i \<notin> set (map request_id (records j))" by (auto simp: find_None_iff)
      show ?thesis
      proof (cases "MAX_RECORDS \<le> length (records j)")
        case True
        then show ?thesis using run2 None same [OF c2] by auto
      next
        case False
        then have "apply_effect env i 0 a j w2 = (r, w')" using run2 None by simp
        with True show ?thesis
          using False j c2 fresh by (intro apply_effect_fenced [OF env, of w2 j]) auto
      qed
    qed
  qed
qed

text \<open>A sequence of calls, each with whatever result it has.\<close>

definition run_calls :: "('w, 'b) broker_env \<Rightarrow> (string \<times> u32 \<times> broker_action) list \<Rightarrow> 'w \<Rightarrow> 'w" where
  "run_calls env calls w = foldl (\<lambda>w (i, u, a). snd (execute env i u a w)) w calls"

lemma run_calls_fenced:
  assumes "journaled env content dispatched"
  shows "fenced env content dispatched w \<Longrightarrow> fenced env content dispatched (run_calls env calls w)"
proof (induction calls rule: rev_induct)
  case (snoc c calls)
  obtain i u a where c: "c = (i, u, a)" by (cases c)
  have step: "fenced env content dispatched (snd (execute env i u a (run_calls env calls w)))"
    using execute_fenced [OF assms, of "run_calls env calls w" i u a] snoc by (cases "execute env i u a (run_calls env calls w)") auto
  then show ?case by (simp add: run_calls_def c)
qed (simp add: run_calls_def)

lemma uncertain_refuses:
  assumes env: "journaled env content dispatched" and j: "content w = print_journal env j" "reconciliation_required j"
    and run: "execute env i u a w = (r, w')"
  shows "\<not> is_ok r \<and> dispatched w' = dispatched w \<and> content w' = content w"
proof -
  obtain r1 w1 where 1: "store_read env w = (r1, w1)" by fastforce
  note c1 = store_read_cases [OF env 1]
  have j1: "r1 = Ok j' \<Longrightarrow> j' = j" for j' using c1(3) j(1) store_read_printed [OF env] by metis
  obtain r2 w2 where 2: "authorize env w1 = (r2, w2)" by fastforce
  then have c2: "content w2 = content w" "dispatched w2 = dispatched w" using env c1(1,2) by (auto simp: journaled_def)
  have "\<not> is_ok r \<and> (w' = w \<or> w' = w1 \<or> w' = w2)"
    using run 1 2 j1 j(2) by (cases r1; cases r2; auto simp: execute_def bind_action_def reconciliation_required_def split: if_splits)
  then show ?thesis using c1 c2 by auto
qed

text \<open>
  C33: From a freshly initialized journal, whatever calls are made and wherever reading, writing, synchronizing,
  authorizing or the effect itself fails, no request identity is ever dispatched twice; a call that reports success
  has been dispatched; and once an outcome is uncertain, every further call is refused and dispatches nothing.
\<close>

theorem broker_at_most_once:
  assumes env: "journaled env content dispatched"
    and start: "content w = print_journal env initial_journal" "dispatched w = []"
  shows "distinct (map fst (dispatched (run_calls env calls w)))
    \<and> (\<forall>i u a r w'. execute env i u a (run_calls env calls w) = (Ok r, w') \<longrightarrow> (i, a) \<in> set (dispatched w'))
    \<and> (\<forall>j i u a r w'. content (run_calls env calls w) = print_journal env j \<and> reconciliation_required j
         \<and> execute env i u a (run_calls env calls w) = (r, w')
         \<longrightarrow> \<not> is_ok r \<and> dispatched w' = dispatched (run_calls env calls w))"
proof -
  have "fenced env content dispatched w"
    using start by (auto simp: fenced_def recorded_def journal_ok_def initial_journal_def)
  then have fence: "fenced env content dispatched (run_calls env calls w)" by (rule run_calls_fenced [OF env])
  then have "distinct (map fst (dispatched (run_calls env calls w)))" by (auto simp: fenced_def recorded_def)
  moreover have "(i, a) \<in> set (dispatched w')" if "execute env i u a (run_calls env calls w) = (Ok r, w')" for i u a r w'
    using execute_fenced [OF env fence that] by simp
  ultimately show ?thesis using uncertain_refuses [OF env] by blast
qed

text \<open>A journal in a cell beside the list of dispatched effects; the effect fails when it stops a worker.\<close>

definition cell_broker :: "(journal \<times> (string \<times> broker_action) list, journal) broker_env" where
  "cell_broker = \<lparr>read_file = (\<lambda>w. (Ok (fst w), w)), write_atomic = (\<lambda>b w. (Ok (), (b, snd w))), sync_file = (\<lambda>w. (Ok (), w)),
     authorize = (\<lambda>w. (Ok (), w)),
     dispatch_effect = (\<lambda>i a w. (if a = StartWorker then Ok () else Err ''no worker'', (fst w, snd w @ [(i, a)]))),
     parse_journal = Some, print_journal = (\<lambda>j. j), byte_count = (\<lambda>_. 1)\<rparr>"

lemma cell_journaled: "journaled cell_broker fst snd"
  by (simp add: journaled_def cell_broker_def)

theorem broker_at_most_once_witness:
  "run_calls cell_broker [(''a'', 0, StartWorker), (''a'', 0, StartWorker), (''b'', 0, StopWorker), (''b'', 0, StopWorker)] (initial_journal, [])
     = (\<lparr>journal_schema = 1, records = [\<lparr>request_id = ''a'', authenticated_uid = 0, record_action = StartWorker, record_state = Completed\<rparr>,
          \<lparr>request_id = ''b'', authenticated_uid = 0, record_action = StopWorker, record_state = Applying\<rparr>]\<rparr>,
        [(''a'', StartWorker), (''b'', StopWorker)])
   \<and> distinct (map fst (snd (run_calls cell_broker [(''a'', 0, StartWorker), (''a'', 0, StartWorker), (''b'', 0, StopWorker), (''b'', 0, StopWorker)] (initial_journal, []))))"
proof
  show "run_calls cell_broker [(''a'', 0, StartWorker), (''a'', 0, StartWorker), (''b'', 0, StopWorker), (''b'', 0, StopWorker)] (initial_journal, [])
     = (\<lparr>journal_schema = 1, records = [\<lparr>request_id = ''a'', authenticated_uid = 0, record_action = StartWorker, record_state = Completed\<rparr>,
          \<lparr>request_id = ''b'', authenticated_uid = 0, record_action = StopWorker, record_state = Applying\<rparr>]\<rparr>,
        [(''a'', StartWorker), (''b'', StopWorker)])" by code_simp
  show "distinct (map fst (snd (run_calls cell_broker [(''a'', 0, StartWorker), (''a'', 0, StartWorker), (''b'', 0, StopWorker), (''b'', 0, StopWorker)] (initial_journal, []))))"
    using broker_at_most_once [OF cell_journaled, of "(initial_journal, [])"] by (simp add: cell_broker_def)
qed

end
