(* ===== verification/Session.thy ===== *)
theory Session
  imports Encoding
begin

text \<open>
  The lifetime of an authenticated local session (\<open>authentication/session.rs\<close>): the kernel boot identity,
  the suspend-aware clock, ordering boundaries, and the session as a state machine whose only live phase is
  \<open>Active\<close>. What the kernel answers is an argument of the operations.
\<close>

section \<open>Clock\<close>

datatype session_purpose = Standard | Export | ModelImport | ModelActivation | ModelQa

definition WINDOW_NS :: u64 where "WINDOW_NS = 30000000000"
definition EXPORT_WINDOW_NS :: u64 where "EXPORT_WINDOW_NS = 1800000000000"
definition MODEL_IMPORT_WINDOW_NS :: u64 where "MODEL_IMPORT_WINDOW_NS = 1800000000000"
definition MODEL_ACTIVATION_WINDOW_NS :: u64 where "MODEL_ACTIVATION_WINDOW_NS = 1800000000000"

fun window_ns :: "session_purpose \<Rightarrow> u64" where
  "window_ns Standard = WINDOW_NS"
| "window_ns Export = EXPORT_WINDOW_NS"
| "window_ns ModelImport = MODEL_IMPORT_WINDOW_NS"
| "window_ns ModelActivation = MODEL_ACTIVATION_WINDOW_NS"
| "window_ns ModelQa = WINDOW_NS"

record clock =
  boot :: "nat list"
  process :: u32
  uid :: u32
  boottime_ns :: u64

text \<open>The loop of \<open>boot_id\<close>: index, the bytes filled so far, and the number of digits.\<close>

fun boot_digits :: "nat \<Rightarrow> nat list \<Rightarrow> nat \<Rightarrow> string \<Rightarrow> nat list result" where
  "boot_digits index bytes digits [] = Ok bytes"
| "boot_digits index bytes digits (c # cs) =
     (if index \<in> {8, 13, 18, 23}
      then if c \<noteq> CHR ''-'' then Err ''local session boot identity is not canonical'' else boot_digits (index + 1) bytes digits cs
      else if \<not> is_lower_hex c then Err ''local session boot identity is not canonical''
      else boot_digits (index + 1) (bytes[digits div 2 := (bytes ! (digits div 2) * 16) mod 256 + hex_value c]) (digits + 1) cs)"

definition boot_id :: "string \<Rightarrow> nat list result" where
  "boot_id bytes =
     (if length bytes \<noteq> 37 \<or> bytes ! 36 \<noteq> CHR 0x0A then Err ''local session boot identity unavailable''
      else and_then (boot_digits 0 (replicate 16 0) 0 (take 36 bytes)) (\<lambda>b.
      if b = replicate 16 0 then Err ''local session boot identity is uninitialized'' else Ok b))"

text \<open>
  \<open>Clock::read\<close> over the kernel's answers: boot identity, process and user before and after, and the reading of
  the boot clock (seconds and nanoseconds), absent when the call fails.
\<close>

definition clock_read :: "nat list result \<Rightarrow> u32 \<Rightarrow> u32 \<Rightarrow> (int \<times> int) option \<Rightarrow> nat list result \<Rightarrow> u32 \<Rightarrow> u32 \<Rightarrow> clock result" where
  "clock_read boot_before pid euid time boot_after pid' euid' =
     and_then boot_before (\<lambda>b.
     case time of None \<Rightarrow> Err ''local session suspend-aware clock unavailable''
     | Some (sec, nsec) \<Rightarrow>
       if sec < 0 \<or> nsec < 0 \<or> 1000000000 \<le> nsec then Err ''local session suspend-aware clock unavailable''
       else if 2 ^ 64 \<le> sec * 1000000000 + nsec then Err ''local session clock overflow''
       else and_then boot_after (\<lambda>b'.
       if b' \<noteq> b \<or> pid' \<noteq> pid \<or> euid' \<noteq> euid then Err ''local session context changed during observation''
       else Ok \<lparr>boot = b, process = pid, uid = euid, boottime_ns = of_int (sec * 1000000000 + nsec)\<rparr>))"

definition unprotected :: "clock \<Rightarrow> bool" where
  "unprotected c \<longleftrightarrow> boot c = replicate 16 0 \<or> process c = 0 \<or> uid c \<noteq> 0"

definition boundary_at :: "clock \<Rightarrow> clock result" where
  "boundary_at c = (if unprotected c then Err ''authentication ordering requires its protected process'' else Ok c)"

definition require_later :: "clock \<Rightarrow> clock \<Rightarrow> unit result" where
  "require_later login exchange =
     (if boot exchange \<noteq> boot login \<or> process exchange \<noteq> process login \<or> uid exchange \<noteq> uid login
         \<or> boottime_ns exchange \<le> boottime_ns login
      then Err ''fresh PAM exchange must start after the governed login boundary'' else Ok ())"

section \<open>Lifetime\<close>

datatype session_phase = Active | Expired | Closed | Fenced

record lifetime =
  purpose :: session_purpose
  issued :: clock
  deadline_ns :: u64
  last_ns :: u64
  session_phase :: session_phase

definition at_purpose :: "clock \<Rightarrow> session_purpose \<Rightarrow> lifetime result" where
  "at_purpose c p =
     (if unprotected c then Err ''local session requires its protected authentication process''
      else and_then (ok_or (checked_add (boottime_ns c) (window_ns p)) ''local session expiry overflow'') (\<lambda>d.
      Ok \<lparr>purpose = p, issued = c, deadline_ns = d, last_ns = boottime_ns c, session_phase = Active\<rparr>))"

definition session_fence :: "lifetime \<Rightarrow> lifetime" where
  "session_fence s = (if session_phase s = Active then s\<lparr>session_phase := Fenced\<rparr> else s)"

definition session_close :: "lifetime \<Rightarrow> lifetime" where
  "session_close s = (if session_phase s = Active then s\<lparr>session_phase := Closed\<rparr> else s)"

definition check_inner :: "clock result \<Rightarrow> (lifetime, unit) action" where
  "check_inner observed s = (case observed of Inl e \<Rightarrow> (Inl e, s) | Inr now \<Rightarrow>
     if boot now \<noteq> boot (issued s) \<or> process now \<noteq> process (issued s) \<or> uid now \<noteq> uid (issued s) \<or> boottime_ns now < last_ns s
     then (Err ''local authenticated session context changed'', s)
     else if deadline_ns s \<le> boottime_ns now
     then (Err ''local authenticated session expired'', s\<lparr>session_phase := Expired\<rparr>)
     else (Ok (), s\<lparr>last_ns := boottime_ns now\<rparr>))"

definition check_at :: "clock result \<Rightarrow> (lifetime, unit) action" where
  "check_at observed s =
     (if session_phase s \<noteq> Active then (Err ''local authenticated session is closed; authenticate again'', s)
      else on_error session_fence (check_inner observed) s)"

definition check_projection :: "u32 \<Rightarrow> u32 \<Rightarrow> u64 \<Rightarrow> (lifetime, unit) action" where
  "check_projection pid euid ns s = check_at (Ok \<lparr>boot = boot (issued s), process = pid, uid = euid, boottime_ns = ns\<rparr>) s"

text \<open>The observation guard fences the session when the observation is dropped before it completes.\<close>

definition observe_with :: "clock result \<Rightarrow> 't result \<Rightarrow> clock result \<Rightarrow> (lifetime, 't) action" where
  "observe_with before value after =
     on_error session_fence (bind_action (check_at before) (\<lambda>_. bind_action (lift_result value) (\<lambda>v.
       bind_action (check_at after) (\<lambda>_. lift_result (Ok v)))))"

section \<open>Sessions as a transition system\<close>

datatype session_event = Check "clock result" | Project u32 u32 u64 | Observe "clock result" "unit result" "clock result" | Close

fun session_call :: "session_event \<Rightarrow> (lifetime, unit) action" where
  "session_call (Check c) = check_at c"
| "session_call (Project pid euid ns) = check_projection pid euid ns"
| "session_call (Observe before value after) = observe_with before value after"
| "session_call Close = modify_state session_close"

definition session_step :: "lifetime \<Rightarrow> session_event \<Rightarrow> lifetime" where
  "session_step s e = snd (session_call e s)"

definition session_initial :: "lifetime \<Rightarrow> bool" where
  "session_initial s \<longleftrightarrow> at_purpose (issued s) (purpose s) = Ok s"

definition session_ok :: "lifetime \<Rightarrow> bool" where
  "session_ok s \<longleftrightarrow> \<not> unprotected (issued s) \<and> checked_add (boottime_ns (issued s)) (window_ns (purpose s)) = Some (deadline_ns s)
     \<and> boottime_ns (issued s) \<le> last_ns s"

definition session_le :: "lifetime \<Rightarrow> lifetime \<Rightarrow> bool" where
  "session_le s t \<longleftrightarrow> purpose t = purpose s \<and> issued t = issued s \<and> deadline_ns t = deadline_ns s \<and> last_ns s \<le> last_ns t
     \<and> (session_phase s \<noteq> Active \<longrightarrow> session_phase t = session_phase s)"

lemma session_le_refl: "reflp session_le"
  by (simp add: reflp_def session_le_def)

lemma session_le_trans: "transp session_le"
  by (auto simp: transp_def session_le_def)

lemma session_fence_le: "session_le s (session_fence s)"
  by (simp add: session_le_def session_fence_def)

lemma check_at_le: "keeps session_le (check_at c)"
  by (auto simp: keeps_def check_at_def check_inner_def on_error_def session_le_def session_fence_def split: sum.splits)

lemma session_observe_le: "keeps session_le (observe_with b v a)"
  unfolding observe_with_def
  by (intro keeps_on_error keeps_bind keeps_lift session_le_trans session_le_refl check_at_le session_fence_le)

lemma session_step_le: "session_le s (session_step s e)"
proof (cases e)
  case (Check c)
  then show ?thesis using check_at_le [of c] by (simp add: session_step_def keeps_def)
next
  case (Project pid euid ns)
  then show ?thesis using check_at_le by (simp add: session_step_def keeps_def check_projection_def)
next
  case (Observe b v a)
  then show ?thesis using session_observe_le [of b v a] by (simp add: session_step_def keeps_def)
next
  case Close
  then show ?thesis by (simp add: session_step_def session_close_def session_le_def)
qed

lemma session_ok_le: "session_ok s \<Longrightarrow> session_le s t \<Longrightarrow> session_ok t"
  by (auto simp: session_ok_def session_le_def)

lemma at_purpose_Ok:
  "at_purpose c p = Ok s \<longleftrightarrow> \<not> unprotected c \<and> (\<exists>d. checked_add (boottime_ns c) (window_ns p) = Some d
     \<and> s = \<lparr>purpose = p, issued = c, deadline_ns = d, last_ns = boottime_ns c, session_phase = Active\<rparr>)"
  by (auto simp: at_purpose_def result_simps)

lemma session_initial_ok: "session_initial s \<Longrightarrow> session_ok s"
  by (cases s) (auto simp: session_initial_def at_purpose_Ok session_ok_def)

interpretation session: monotone_system session_initial session_step session_ok session_le
proof
  show "session_le s u" if "session_le s t" "session_le t u" for s t u
    using that session_le_trans by (auto dest: transpD)
  show "session_le s s" for s using session_le_refl by (simp add: reflpD)
qed (simp_all add: session_initial_ok session_step_le session_ok_le [OF _ session_step_le])

lemma check_at_Ok:
  "check_at c s = (Ok (), t) \<longleftrightarrow> session_phase s = Active \<and> (\<exists>now. c = Ok now \<and> boot now = boot (issued s)
     \<and> process now = process (issued s) \<and> uid now = uid (issued s) \<and> last_ns s \<le> boottime_ns now \<and> boottime_ns now < deadline_ns s
     \<and> t = s\<lparr>last_ns := boottime_ns now\<rparr>)"
  by (auto simp: check_at_def on_error_Inr check_inner_def not_less not_le split: sum.splits if_splits)

lemma failed_call_ends: "fst (session_call e s) = Inl err \<Longrightarrow> session_phase (session_step s e) \<noteq> Active"
proof (cases e)
  case (Observe b v a)
  then show "fst (session_call e s) = Inl err \<Longrightarrow> ?thesis"
    by (auto simp: session_step_def observe_with_def on_error_def session_fence_def split: prod.splits sum.splits)
qed (auto simp: session_step_def check_projection_def check_at_def on_error_def session_fence_def check_inner_def split: prod.splits sum.splits if_splits)

lemma active_history:
  assumes "session_phase (foldl session_step s es) = Active" "session_ok s" "es = es1 @ e # es2"
  shows "e \<noteq> Close \<and> fst (session_call e (foldl session_step s es1)) = Ok ()"
proof -
  let ?m = "foldl session_step s es1"
  have "session_ok (session_step ?m e)" using assms(2) by (simp add: session.invariant_run session.invariant_step)
  then have "session_le (session_step ?m e) (foldl session_step s es)" using session.le_run assms(3) by simp
  then have act: "session_phase (session_step ?m e) = Active" using assms(1) by (auto simp: session_le_def)
  then have "e \<noteq> Close" by (auto simp: session_step_def session_close_def split: if_splits)
  with failed_call_ends [of e ?m] act show ?thesis by (cases "fst (session_call e ?m)") auto
qed

text \<open>The boot times a successful call was made at; each is recorded as the last time the session was seen.\<close>

fun event_times :: "session_event \<Rightarrow> u64 list" where
  "event_times (Check (Inr now)) = [boottime_ns now]"
| "event_times (Project pid euid ns) = [ns]"
| "event_times (Observe (Inr before) value (Inr after)) = [boottime_ns before, boottime_ns after]"
| "event_times e = []"

lemma observe_with_Ok:
  "observe_with b v a s = (Ok x, t) \<longleftrightarrow> v = Ok x \<and> (\<exists>m. check_at b s = (Ok (), m) \<and> check_at a m = (Ok (), t))"
  by (auto simp: observe_with_def on_error_Inr bind_action_def lift_result_def split: prod.splits sum.splits)

lemma successful_call_recorded:
  assumes "fst (session_call e s) = Ok ()" "time \<in> set (event_times e)"
  shows "time \<le> last_ns (session_step s e)"
proof -
  obtain t where t: "session_call e s = (Ok (), t)" using assms(1) by (cases "session_call e s") simp
  then have "session_step s e = t" by (simp add: session_step_def)
  with t assms(2) show ?thesis
    by (cases e rule: event_times.cases) (auto simp: check_projection_def check_at_Ok observe_with_Ok)
qed

lemma earlier_time_recorded:
  assumes act: "session_phase (foldl session_step s es) = Active" and ok: "session_ok s" and e: "e \<in> set es" "time \<in> set (event_times e)"
  shows "time \<le> last_ns (foldl session_step s es)"
proof -
  obtain es1 es2 where es: "es = es1 @ e # es2" using e(1) by (meson split_list)
  let ?m = "foldl session_step s es1"
  have "time \<le> last_ns (session_step ?m e)"
    using successful_call_recorded [OF _ e(2)] active_history [OF act ok es] by blast
  moreover have "session_ok (session_step ?m e)" using ok by (simp add: session.invariant_run session.invariant_step)
  then have "session_le (session_step ?m e) (foldl session_step s es)" using session.le_run es by simp
  ultimately show ?thesis unfolding session_le_def by (meson order_trans)
qed

text \<open>
  C34: A session check that succeeds, after any sequence of checks, projections, observations and closes since the
  session was issued, was made by the issuing boot, process and user, at a boot time inside the window of the session's
  purpose, and not before any time at which an earlier check, projection or observation of the session was made; and every
  earlier call succeeded: nothing revives a session that failed, expired or was closed.
\<close>

theorem session_window:
  assumes start: "at_purpose c p = Ok s" and check: "fst (check_at observed (foldl session_step s es)) = Ok ()"
  shows "\<exists>now. observed = Ok now \<and> boot now = boot c \<and> process now = process c \<and> uid now = 0
    \<and> unat (boottime_ns c) \<le> unat (boottime_ns now) \<and> unat (boottime_ns now) < unat (boottime_ns c) + unat (window_ns p)
    \<and> last_ns (foldl session_step s es) \<le> boottime_ns now
    \<and> (\<forall>e \<in> set es. \<forall>time \<in> set (event_times e). time \<le> boottime_ns now)
    \<and> (\<forall>es1 e es2. es = es1 @ e # es2 \<longrightarrow> e \<noteq> Close \<and> fst (session_call e (foldl session_step s es1)) = Ok ())"
proof -
  let ?t = "foldl session_step s es"
  have s: "session_ok s" "issued s = c" "purpose s = p" using start by (auto simp: at_purpose_Ok session_ok_def)
  have t: "session_ok ?t" "session_le s ?t" using s(1) by (simp_all add: session.invariant_run session.le_run)
  then have ctx: "issued ?t = c" "purpose ?t = p" using s by (simp_all add: session_le_def)
  obtain now where act: "session_phase ?t = Active" and now: "observed = Ok now" "boot now = boot c" "process now = process c"
    "uid now = uid c" "last_ns ?t \<le> boottime_ns now" "boottime_ns now < deadline_ns ?t"
    using check ctx by (cases "check_at observed ?t") (auto simp: check_at_Ok)
  have "unat (deadline_ns ?t) = unat (boottime_ns c) + unat (window_ns p)"
    using t(1) ctx checked_add_unat [of "boottime_ns c" "window_ns p" "deadline_ns ?t"] by (simp add: session_ok_def)
  moreover have "boottime_ns c \<le> boottime_ns now" "uid c = 0"
    using t(1) ctx now(5) by (auto simp: session_ok_def unprotected_def)
  moreover have "time \<le> boottime_ns now" if e: "e \<in> set es" "time \<in> set (event_times e)" for e time
    using earlier_time_recorded [OF act s(1) e] now(5) by (rule order_trans)
  ultimately show ?thesis
    using now active_history [OF act s(1)] by (intro exI [of _ now]) (simp add: word_le_nat_alt word_less_nat_alt)
qed

definition sample_clock :: "u64 \<Rightarrow> clock" where
  "sample_clock t = \<lparr>boot = replicate 16 7, process = 41, uid = 0, boottime_ns = t\<rparr>"

theorem session_window_witness:
  "\<exists>s now. at_purpose (sample_clock 1000) Standard = Ok s
     \<and> fst (check_at (Ok (sample_clock 3000)) (foldl session_step s [Check (Ok (sample_clock 2000))])) = Ok ()
     \<and> Ok (sample_clock 3000) = Ok now \<and> 2000 \<le> boottime_ns now \<and> unat (boottime_ns now) < 1000 + unat (window_ns Standard)"
proof -
  obtain s where s: "at_purpose (sample_clock 1000) Standard = Ok s"
    "fst (check_at (Ok (sample_clock 3000)) (foldl session_step s [Check (Ok (sample_clock 2000))])) = Ok ()"
    by (simp add: at_purpose_Ok sample_clock_def unprotected_def WINDOW_NS_def checked_add_def session_step_def check_at_def
        on_error_def check_inner_def)
  then show ?thesis using session_window [OF s] by (auto simp: sample_clock_def)
qed

end
