(* ===== verification/Principals.thy ===== *)
theory Principals
  imports Encoding
begin

text \<open>
  Local principals (\<open>principal.rs\<close>) and the offline recovery verifier (\<open>admin_recovery.rs\<close>): the registry an
  installation adopts, its validation, and the extension by one account. The length of a serialized registry is a
  parameter.
\<close>

section \<open>Identifiers\<close>

definition admin_identifier :: "string \<Rightarrow> bool" where
  "admin_identifier v \<longleftrightarrow> v \<noteq> [] \<and> length v \<le> 64 \<and> is_ascii_alphabetic (hd v)
     \<and> list_all (\<lambda>b. is_ascii_alphanumeric b \<or> b \<in> set ''-_.'') v"

section \<open>Recovery verifier\<close>

record verifier =
  verifier_schema :: u32
  verifier_installation :: string
  verifier_principal :: string
  verifier_uid :: u32
  verifier_generation :: u64
  verifier_salt :: string
  commitment_sha256 :: string

text \<open>A loop of \<open>tpm::decode::<32>(value)?\<close>.\<close>

definition decodable :: "string \<Rightarrow> unit result" where
  "decodable v = and_then (tpm_decode 32 v) (\<lambda>_. Ok ())"

definition verifier_validate :: "verifier \<Rightarrow> string \<Rightarrow> string \<Rightarrow> unit result" where
  "verifier_validate v inst pid =
     and_then (for_all decodable [verifier_installation v, verifier_principal v, verifier_salt v, commitment_sha256 v]) (\<lambda>_.
     if verifier_schema v \<noteq> 1 \<or> verifier_uid v \<noteq> 1001 \<or> verifier_generation v = 0
        \<or> verifier_installation v = verifier_principal v \<or> verifier_installation v \<noteq> inst \<or> verifier_principal v \<noteq> pid
     then Err ''recovery verifier does not bind the original installation Admin'' else Ok ())"

definition verifier_successor :: "verifier \<Rightarrow> verifier \<Rightarrow> unit result" where
  "verifier_successor v replacement =
     and_then (verifier_validate replacement (verifier_installation v) (verifier_principal v)) (\<lambda>_.
     and_then (ok_or (checked_add (verifier_generation v) 1) ''recovery credential generation exhausted'') (\<lambda>g.
     if verifier_generation replacement \<noteq> g \<or> verifier_salt replacement = verifier_salt v
        \<or> commitment_sha256 replacement = commitment_sha256 v
     then Err ''recovery requires a fresh next-generation verifier'' else Ok ()))"

section \<open>Registry\<close>

definition MAX_REGISTRY_BYTES :: nat where "MAX_REGISTRY_BYTES = 64 * 1024"

record principal =
  principal_id :: string
  generation :: u64
  login :: string
  uid :: u32
  enabled :: bool

record registry =
  registry_schema :: u32
  installation :: string
  principals :: "principal list"
  registry_recovery :: "verifier option"

definition valid_login :: "string \<Rightarrow> bool" where
  "valid_login v \<longleftrightarrow> v \<noteq> [] \<and> length v \<le> 32 \<and> is_ascii_lowercase (hd v)
     \<and> list_all (\<lambda>b. is_ascii_lowercase b \<or> is_ascii_digit b \<or> b \<in> set ''_-'') v"

fun validate_principals :: "string \<Rightarrow> string set \<Rightarrow> string set \<Rightarrow> u32 set \<Rightarrow> principal list \<Rightarrow> unit result" where
  "validate_principals inst ids names uids [] = Ok ()"
| "validate_principals inst ids names uids (p # ps) =
     and_then (decodable (principal_id p)) (\<lambda>_.
     if \<not> valid_login (login p) \<or> uid p < 1000 \<or> 65534 \<le> uid p \<or> generation p = 0 \<or> principal_id p = inst
        \<or> principal_id p \<in> ids \<or> login p \<in> names \<or> uid p \<in> uids
     then Err ''invalid or duplicate local principal''
     else validate_principals inst (insert (principal_id p) ids) (insert (login p) names) (insert (uid p) uids) ps)"

definition bootstrap_admin :: "registry \<Rightarrow> principal option" where
  "bootstrap_admin r = find (\<lambda>p. uid p = 1001) (principals r)"

definition registry_principal :: "registry \<Rightarrow> string \<Rightarrow> principal option" where
  "registry_principal r pid = find (\<lambda>p. principal_id p = pid) (principals r)"

definition registry_account :: "registry \<Rightarrow> string \<Rightarrow> principal option" where
  "registry_account r name = find (\<lambda>p. login p = name) (principals r)"

text \<open>\<open>Option::filter\<close>\<close>

definition filter_option :: "('a \<Rightarrow> bool) \<Rightarrow> 'a option \<Rightarrow> 'a option" where
  "filter_option P v = (case v of Some x \<Rightarrow> if P x then Some x else None | None \<Rightarrow> None)"

definition validate_recovery :: "registry \<Rightarrow> unit result" where
  "validate_recovery r = (case registry_recovery r of None \<Rightarrow> Ok () | Some v \<Rightarrow>
     and_then (ok_or (filter_option enabled (bootstrap_admin r)) ''recovery verifier requires an enabled original Admin'') (\<lambda>admin.
     and_then (verifier_validate v (installation r) (principal_id admin)) (\<lambda>_.
     if verifier_generation v \<noteq> 1 then Err ''installer recovery verifier must start at generation one'' else Ok ())))"

definition registry_validate :: "registry \<Rightarrow> unit result" where
  "registry_validate r =
     and_then (decodable (installation r)) (\<lambda>_.
     if registry_schema r \<noteq> 1 \<or> principals r = [] \<or> 128 < length (principals r) then Err ''invalid local principal registry''
     else and_then (validate_principals (installation r) {} {} {} (principals r)) (\<lambda>_. validate_recovery r))"

definition append_account :: "(registry \<Rightarrow> nat) \<Rightarrow> registry \<Rightarrow> principal \<Rightarrow> registry result" where
  "append_account json_length r p =
     (let refusal = ''new accounts require a fresh enabled installation identity at generation one'' in
      if generation p \<noteq> 1 \<or> \<not> enabled p \<or> uid p = 1001 then Err refusal
      else and_then (tpm_decode 32 (principal_id p)) (\<lambda>digest.
      if digest = zero_digest then Err refusal
      else let nxt = r\<lparr>principals := principals r @ [p]\<rparr> in
      and_then (registry_validate nxt) (\<lambda>_.
      if MAX_REGISTRY_BYTES < json_length nxt then Err ''principal registry capacity exhausted'' else Ok nxt)))"

definition binds :: "registry \<Rightarrow> string \<Rightarrow> string \<Rightarrow> u64 \<Rightarrow> string \<Rightarrow> u32 \<Rightarrow> bool" where
  "binds r inst pid g name u \<longleftrightarrow> installation r = inst
     \<and> list_ex (\<lambda>p. principal_id p = pid \<and> generation p = g \<and> login p = name \<and> uid p = u \<and> enabled p) (principals r)"

text \<open>The identity document of a principal (\<open>Registry::identity\<close>), field by field.\<close>

record identity =
  identity_installation :: string
  identity_principal :: string
  identity_generation :: u64
  identity_login :: string
  identity_uid :: u32

definition registry_identity :: "registry \<Rightarrow> principal \<Rightarrow> identity" where
  "registry_identity r p = \<lparr>identity_installation = installation r, identity_principal = principal_id p,
     identity_generation = generation p, identity_login = login p, identity_uid = uid p\<rparr>"

section \<open>Validity\<close>

lemma decodable_Ok: "decodable v = Ok u \<longleftrightarrow> io_hash v"
  by (auto simp: decodable_def result_simps simp flip: tpm_decode_hash)

definition principal_ok :: "string \<Rightarrow> principal \<Rightarrow> bool" where
  "principal_ok inst p \<longleftrightarrow> io_hash (principal_id p) \<and> valid_login (login p) \<and> 1000 \<le> uid p \<and> uid p < 65534
     \<and> generation p \<noteq> 0 \<and> principal_id p \<noteq> inst"

lemma validate_principals_iff:
  "validate_principals inst ids names uids ps = Ok u \<longleftrightarrow> list_all (principal_ok inst) ps
     \<and> distinct (map principal_id ps) \<and> distinct (map login ps) \<and> distinct (map uid ps)
     \<and> set (map principal_id ps) \<inter> ids = {} \<and> set (map login ps) \<inter> names = {} \<and> set (map uid ps) \<inter> uids = {}"
  by (induction ps arbitrary: ids names uids) (auto simp: result_simps decodable_Ok principal_ok_def not_less not_le)

text \<open>What a valid registry is: distinct identifiers, logins and user ids, all well formed.\<close>

definition registry_ok :: "registry \<Rightarrow> bool" where
  "registry_ok r \<longleftrightarrow> io_hash (installation r) \<and> registry_schema r = 1 \<and> principals r \<noteq> [] \<and> length (principals r) \<le> 128
     \<and> list_all (principal_ok (installation r)) (principals r) \<and> distinct (map principal_id (principals r))
     \<and> distinct (map login (principals r)) \<and> distinct (map uid (principals r)) \<and> validate_recovery r = Ok ()"

lemma registry_validate_iff: "registry_validate r = Ok u \<longleftrightarrow> registry_ok r"
  by (auto simp: registry_validate_def registry_ok_def result_simps decodable_Ok validate_principals_iff)

lemma registry_principal_Some:
  "registry_principal r pid = Some p \<Longrightarrow> p \<in> set (principals r) \<and> principal_id p = pid"
  by (auto simp: registry_principal_def find_Some_iff)

lemma registry_principal_mem:
  assumes "registry_ok r" "p \<in> set (principals r)"
  shows "registry_principal r (principal_id p) = Some p"
proof -
  have "registry_principal r (principal_id p) \<noteq> None"
    using assms(2) by (auto simp: registry_principal_def find_None_iff)
  then obtain q where q: "registry_principal r (principal_id p) = Some q" by blast
  then have "q \<in> set (principals r)" "principal_id q = principal_id p" using registry_principal_Some by blast+
  then have "q = p" using assms by (auto simp: registry_ok_def distinct_map inj_on_def)
  with q show ?thesis by simp
qed

lemma append_account_Ok:
  "append_account json_length r p = Ok r' \<longleftrightarrow> generation p = 1 \<and> enabled p \<and> uid p \<noteq> 1001
     \<and> io_hash (principal_id p) \<and> tpm_decode 32 (principal_id p) \<noteq> Ok zero_digest
     \<and> r' = r\<lparr>principals := principals r @ [p]\<rparr> \<and> registry_ok r' \<and> json_length r' \<le> MAX_REGISTRY_BYTES"
  by (cases "tpm_decode 32 (principal_id p)")
     (auto simp: append_account_def Let_def result_simps registry_validate_iff not_less simp flip: tpm_decode_hash)

lemma find_append: "find P (xs @ ys) = (case find P xs of None \<Rightarrow> find P ys | Some x \<Rightarrow> Some x)"
  by (induction xs) auto

lemma append_account_principal:
  assumes "append_account json_length r p = Ok r'"
  shows "registry_principal r' pid = (if pid = principal_id p then Some p else registry_principal r pid)"
proof -
  have r': "r' = r\<lparr>principals := principals r @ [p]\<rparr>" "registry_ok r'" using assms by (auto simp: append_account_Ok)
  then have "principal_id p \<notin> set (map principal_id (principals r))" by (auto simp: registry_ok_def)
  then have "find (\<lambda>q. principal_id q = principal_id p) (principals r) = None" by (simp add: find_None_iff) (metis image_eqI)
  then show ?thesis
    by (cases "find (\<lambda>q. principal_id q = pid) (principals r)")
       (auto simp: registry_principal_def r'(1) find_append)
qed

lemma append_account_bootstrap:
  "append_account json_length r p = Ok r' \<Longrightarrow> bootstrap_admin r' = bootstrap_admin r"
  by (auto simp: append_account_Ok bootstrap_admin_def find_append split: option.splits)

end
