(* ===== verification/Finite_Grants.thy ===== *)
theory Finite_Grants
  imports Principals
begin

text \<open>
  Finite authorization records (\<open>finite_grants.rs\<close>): role assignments, exact selectors, constraints, grants, the use an
  effect declares and the audit record. What they authorize is decided against the Admin catalog (theory \<open>Catalog\<close>).
\<close>

section \<open>Data\<close>

record assignment =
  asg_id :: string
  asg_subject :: string
  asg_generation :: u64
  asg_role :: string
  asg_role_version :: u64
  asg_version :: u64
  asg_not_before :: int
  asg_expires :: int
  asg_revoked :: bool

datatype grant_action = Read | Calculate | Write | Execute | Cancel | Resume | Retain | Export | Delete | Infer | StartWorker | StopWorker
  | AcquireResource | ProvisionResource | RecoverResource | ExecuteGenerated | QualifyModel

fun action_activity :: "grant_action \<Rightarrow> string" where
  "action_activity Read = ''file.read''"
| "action_activity Calculate = ''calculation.execute''"
| "action_activity Write = ''artifact.write''"
| "action_activity Execute = ''workflow.execute''"
| "action_activity Cancel = ''workflow.cancel''"
| "action_activity Resume = ''workflow.resume''"
| "action_activity Retain = ''resource.retention''"
| "action_activity Export = ''artifact.export''"
| "action_activity Delete = ''artifact.delete''"
| "action_activity Infer = ''inference.execute''"
| "action_activity StartWorker = ''worker.start''"
| "action_activity StopWorker = ''worker.stop''"
| "action_activity AcquireResource = ''resource.acquire''"
| "action_activity ProvisionResource = ''resource.provision''"
| "action_activity RecoverResource = ''resource.recover''"
| "action_activity ExecuteGenerated = ''generated.execute''"
| "action_activity QualifyModel = ''model.qa''"

datatype target_kind = FileTarget | CalculationTarget | ArtifactTarget | WorkflowTarget | ModelTarget | WorkerTarget | ResourceTarget
  | GeneratedCodeTarget | ModelQaTarget

record selector =
  sel_kind :: target_kind
  sel_id :: string
  sel_generation :: u64
  sel_digest :: string

record constraints =
  max_input_bytes :: u64
  max_output_bytes :: u64
  max_units :: u64

record grant =
  grant_id :: string
  grant_assignment :: string
  assignment_version :: u64
  grant_subject :: string
  grant_generation :: u64
  grant_action :: grant_action
  grant_selector :: selector
  grant_constraints :: constraints
  grant_version :: u64
  grant_not_before :: int
  grant_expires :: int
  grant_revoked :: bool

record usage =
  use_action :: grant_action
  use_selector :: selector
  input_bytes :: u64
  output_bytes :: u64
  units :: u64

record audit =
  audit_subject :: string
  audit_generation :: u64
  audit_grant :: string
  audit_version :: u64
  checkpoint_head :: string
  operation_id :: "string option"
  audit_usage :: usage

section \<open>Validation\<close>

definition selector_validate :: "selector \<Rightarrow> unit result" where
  "selector_validate s =
     (if \<not> admin_identifier (sel_id s) \<or> sel_generation s = 0 then Err ''finite selector requires exact identity and nonzero generation''
      else and_then (tpm_decode 32 (sel_digest s)) (\<lambda>d.
      if d = zero_digest then Err ''finite selector requires a nonzero protected target digest'' else Ok ()))"

definition permits :: "selector \<Rightarrow> grant_action \<Rightarrow> bool" where
  "permits s a = (case sel_kind s of
       FileTarget \<Rightarrow> a = Read
     | CalculationTarget \<Rightarrow> a = Calculate
     | ArtifactTarget \<Rightarrow> a \<in> {Write, Export, Delete, Retain}
     | WorkflowTarget \<Rightarrow> a \<in> {Execute, Cancel, Resume}
     | ModelTarget \<Rightarrow> a = Infer
     | WorkerTarget \<Rightarrow> a \<in> {StartWorker, StopWorker}
     | GeneratedCodeTarget \<Rightarrow> a = ExecuteGenerated
     | ModelQaTarget \<Rightarrow> a = QualifyModel
     | ResourceTarget \<Rightarrow> a \<in> {AcquireResource, Retain, ProvisionResource, RecoverResource})"

definition byte_bound :: "selector \<Rightarrow> grant_action \<Rightarrow> u64" where
  "byte_bound s a =
     (if sel_kind s = ResourceTarget \<and> a = AcquireResource
         \<and> sel_id s \<in> {''ModelPack-qwen3-4b-q4-k-m'', ''ModelPack-qwen3-1-7b-q4-k-m''}
      then 68719476736 else 1073741824)"

definition constraints_validate :: "constraints \<Rightarrow> selector \<Rightarrow> grant_action \<Rightarrow> unit result" where
  "constraints_validate c s a =
     (if byte_bound s a < max_input_bytes c \<or> byte_bound s a < max_output_bytes c \<or> max_units c = 0 \<or> 1000000 < max_units c
      then Err ''finite grant constraints exceed product bounds'' else Ok ())"

definition MAX_VALIDITY_MS :: int where "MAX_VALIDITY_MS = 366 * 86400000"

definition grant_validity :: "int \<Rightarrow> int \<Rightarrow> unit result" where
  "grant_validity start stop =
     (if start \<le> 0 \<or> 4102444800000 < stop
         \<or> filter_option (\<lambda>v. 0 < v \<and> v \<le> MAX_VALIDITY_MS) (checked_i64 (stop - start)) = None
      then Err ''grant and assignment validity must be finite and bounded'' else Ok ())"

definition assignment_validate :: "assignment \<Rightarrow> unit result" where
  "assignment_validate a =
     and_then (tpm_decode 32 (asg_subject a)) (\<lambda>_. and_then (grant_validity (asg_not_before a) (asg_expires a)) (\<lambda>_.
     if \<not> admin_identifier (asg_id a) \<or> \<not> admin_identifier (asg_role a) \<or> asg_role a = ''Admin'' \<or> asg_generation a = 0
        \<or> asg_role_version a = 0 \<or> asg_version a \<noteq> 1 \<or> asg_revoked a
     then Err ''invalid finite role assignment; Admin is not delegable'' else Ok ()))"

definition grant_validate :: "grant \<Rightarrow> unit result" where
  "grant_validate g =
     and_then (tpm_decode 32 (grant_subject g)) (\<lambda>_. and_then (grant_validity (grant_not_before g) (grant_expires g)) (\<lambda>_.
     and_then (selector_validate (grant_selector g)) (\<lambda>_.
     and_then (constraints_validate (grant_constraints g) (grant_selector g) (grant_action g)) (\<lambda>_.
     if \<not> admin_identifier (grant_id g) \<or> \<not> admin_identifier (grant_assignment g) \<or> assignment_version g = 0 \<or> grant_generation g = 0
        \<or> grant_version g \<noteq> 1 \<or> grant_revoked g \<or> \<not> permits (grant_selector g) (grant_action g)
     then Err ''invalid exact finite capability grant'' else Ok ()))))"

definition use_validate :: "usage \<Rightarrow> unit result" where
  "use_validate u =
     and_then (selector_validate (use_selector u)) (\<lambda>_.
     if units u = 0 \<or> \<not> permits (use_selector u) (use_action u) then Err ''effect use does not match its finite selector'' else Ok ())"

definition audit_validate :: "audit \<Rightarrow> unit result" where
  "audit_validate a =
     (let refusal = ''invalid finite grant attribution record'' in
      and_then (use_validate (audit_usage a)) (\<lambda>_. and_then (tpm_decode 32 (audit_subject a)) (\<lambda>d.
      if d = zero_digest then Err refusal
      else and_then (tpm_decode 32 (checkpoint_head a)) (\<lambda>h.
      if h = zero_digest \<or> audit_generation a = 0 \<or> audit_version a \<noteq> 1 \<or> \<not> admin_identifier (audit_grant a)
         \<or> (case operation_id a of None \<Rightarrow> False | Some v \<Rightarrow> length v \<noteq> 32 \<or> \<not> list_all is_lower_hex v)
      then Err refusal else Ok ()))))"

text \<open>A valid period lies inside the product horizon and lasts at most 366 days.\<close>

lemma grant_validity_Ok [result_simps]:
  "grant_validity s e = Ok u \<longleftrightarrow> 0 < s \<and> e \<le> 4102444800000 \<and> s < e \<and> e - s \<le> MAX_VALIDITY_MS"
  by (auto simp: grant_validity_def filter_option_def checked_i64_def i64_range_def MAX_VALIDITY_MS_def split: option.splits if_splits)

end
