(* ===== verification/Accounts.thy ===== *)
theory Accounts
  imports Principals Utc_Bounds
begin

text \<open>
  Protected UTC history (\<open>utc_history.rs\<close>) and the intents of the governed account transactions: credential
  transitions (\<open>account_transition.rs\<close>), deletions (\<open>account_deletion.rs\<close>) and creations
  (\<open>account_creation.rs\<close>). The digest of the approved UTC policy is a parameter.
\<close>

section \<open>UTC history\<close>

record statement =
  floor_ms :: int
  policy_sha256 :: string
  boot_id :: string
  process_generation :: u64
  source_clock_generation :: u64
  keeper_generation :: u64
  runtime_sha256 :: string

definition statement_validate :: "nat list result \<Rightarrow> statement \<Rightarrow> unit result" where
  "statement_validate approved st =
     (let refusal = ''invalid UTC history statement'' in
      if floor_ms st \<le> 0 \<or> 4102444800000 < floor_ms st then Err refusal
      else and_then (tpm_decode 32 (policy_sha256 st)) (\<lambda>digest. and_then approved (\<lambda>expected.
      if digest \<noteq> expected then Err refusal
      else and_then (tpm_decode 16 (boot_id st)) (\<lambda>boot.
      if boot = replicate 16 0 then Err refusal
      else and_then (tpm_decode 32 (runtime_sha256 st)) (\<lambda>runtime.
      if runtime = zero_digest \<or> process_generation st = 0 \<or> source_clock_generation st = 0 \<or> keeper_generation st = 0
      then Err refusal else Ok ())))))"

text \<open>A live observation: its context statement and its interval.\<close>

definition supported_by :: "nat list result \<Rightarrow> statement \<Rightarrow> statement \<Rightarrow> interval \<Rightarrow> unit result" where
  "supported_by approved st context live =
     and_then (statement_validate approved st) (\<lambda>_.
     and_then (statement_validate approved context) (\<lambda>_.
     let (lo, hi) = endpoints live in
     if context\<lparr>floor_ms := floor_ms st\<rparr> \<noteq> st \<or> floor_ms context \<noteq> lo \<or> 500 < hi - lo \<or> 4102444800000 < hi \<or> lo < floor_ms st
     then Err ''UTC history lacks matching current observation'' else Ok ()))"

record history_record =
  record_schema :: u32
  record_kind :: string
  deployment :: string
  enrollment_sha256 :: string
  record_principal :: identity
  record_request :: string
  record_sequence :: nat
  previous_head :: string
  history_version_before :: u64
  previous_floor_ms :: int
  record_statement :: statement

record history =
  history_floor_ms :: int
  history_version :: u64

definition initial_history :: history where
  "initial_history = \<lparr>history_floor_ms = 0, history_version = 0\<rparr>"

definition apply_history :: "nat list result \<Rightarrow> history \<Rightarrow> history_record \<Rightarrow> history result" where
  "apply_history approved h r =
     and_then (statement_validate approved (record_statement r)) (\<lambda>_.
     if record_schema r \<noteq> 1 \<or> record_kind r \<noteq> ''native-admin-utc-history'' \<or> previous_floor_ms r \<noteq> history_floor_ms h
        \<or> history_version_before r \<noteq> history_version h \<or> floor_ms (record_statement r) \<le> history_floor_ms h
     then Err ''invalid UTC history transition; preserve state''
     else and_then (ok_or (checked_add (history_version h) 1) ''UTC history version exhausted'') (\<lambda>v.
     Ok \<lparr>history_floor_ms = floor_ms (record_statement r), history_version = v\<rparr>))"

section \<open>Credential transitions\<close>

datatype transition_kind = Password | Activation u32 statement | AdminRecovery u32 statement | Renewal u32 statement

record intent =
  intent_kind :: "transition_kind option"
  transaction :: string
  intent_installation :: string
  intent_principal :: string
  expected_generation :: u64
  locked :: bool
  passwd_sha256 :: string
  shadow_before_sha256 :: string
  shadow_after_sha256 :: string
  credential_before :: string
  credential_after :: string

fun timed :: "transition_kind option \<Rightarrow> (u32 \<times> statement) option" where
  "timed (Some (Activation day moment)) = Some (day, moment)"
| "timed (Some (AdminRecovery day moment)) = Some (day, moment)"
| "timed (Some (Renewal day moment)) = Some (day, moment)"
| "timed _ = None"

text \<open>A commitment: a canonical digest that is not all zero.\<close>

definition commitment :: "string \<Rightarrow> string \<Rightarrow> unit result" where
  "commitment refusal v = and_then (tpm_decode 32 v) (\<lambda>digest. if digest = zero_digest then Err refusal else Ok ())"

definition bootstrap_transaction :: string where
  "bootstrap_transaction = ''admin-bootstrap-v1''"

definition intent_validate :: "nat list result \<Rightarrow> intent \<Rightarrow> unit result" where
  "intent_validate approved i =
     and_then (case timed (intent_kind i) of None \<Rightarrow> Ok () | Some (day, moment) \<Rightarrow>
       and_then (statement_validate approved moment) (\<lambda>_.
       if locked i \<or> day = 0 \<or> int (unat day) \<noteq> floor_ms moment div 86400000
       then Err ''activation requires the protected UTC day and unlocked publication'' else Ok ())) (\<lambda>_.
     if \<not> admin_identifier (transaction i) \<or> transaction i = bootstrap_transaction
        \<or> expected_generation i = 0 \<or> expected_generation i = - 1 \<or> intent_installation i = intent_principal i
        \<or> shadow_before_sha256 i = shadow_after_sha256 i \<or> credential_before i = credential_after i
     then Err ''invalid account lock transition''
     else for_all (commitment ''empty account transition commitment'')
       [intent_installation i, intent_principal i, passwd_sha256 i, shadow_before_sha256 i, shadow_after_sha256 i,
        credential_before i, credential_after i])"

datatype account_phase = Prepared | PublicationPermitted | Complete

record transition =
  transition_intent :: intent
  transition_phase :: account_phase

section \<open>Deletions\<close>

record change =
  before_sha256 :: string
  after_sha256 :: string
  mode :: u32
  gid :: u32

record deletion_intent =
  deletion_transaction :: string
  deletion_installation :: string
  deletion_principal :: string
  deletion_generation :: u64
  deletion_credential :: string
  deletion_files :: "(string, change) bmap"

definition DELETION_FILES :: "string list" where
  "DELETION_FILES = [''shadow'', ''gshadow'', ''group'', ''passwd'']"

definition ends_with :: "string \<Rightarrow> string \<Rightarrow> bool" where
  "ends_with suffix s \<longleftrightarrow> length suffix \<le> length s \<and> drop (length s - length suffix) s = suffix"

definition mode_ok :: "string \<Rightarrow> change \<Rightarrow> bool" where
  "mode_ok name c \<longleftrightarrow> mode c \<in> {384, 416, 420} \<and> \<not> (ends_with ''shadow'' name \<and> mode c = 420)"

definition deletion_change :: "string \<times> change \<Rightarrow> unit result" where
  "deletion_change e = (case e of (name, c) \<Rightarrow>
     let refusal = ''invalid deletion file commitment or permissions'' in
     if \<not> mode_ok name c then Err refusal
     else and_then (commitment refusal (before_sha256 c)) (\<lambda>_. and_then (commitment refusal (after_sha256 c)) (\<lambda>_.
     if before_sha256 c = after_sha256 c then Err refusal else Ok ())))"

definition deletion_validate :: "deletion_intent \<Rightarrow> unit result" where
  "deletion_validate i =
     (if \<not> admin_identifier (deletion_transaction i) \<or> deletion_transaction i = bootstrap_transaction
        \<or> deletion_generation i = 0 \<or> deletion_generation i = - 1 \<or> deletion_installation i = deletion_principal i
        \<or> set (bm_keys (deletion_files i)) \<noteq> set DELETION_FILES
      then Err ''invalid account deletion intent''
      else and_then (for_all (commitment ''empty deletion identity or credential commitment'')
        [deletion_installation i, deletion_principal i, deletion_credential i]) (\<lambda>_.
      for_all deletion_change (bm_entries (deletion_files i))))"

record deletion =
  deletion_intent_of :: deletion_intent
  deletion_phase :: account_phase

section \<open>Creations\<close>

record creation_intent =
  creation_transaction :: string
  creation_principal :: principal
  registry_before :: registry
  registry_after :: registry
  home_nonce :: string
  creation_credential :: string
  creation_files :: "(string, change) bmap"

definition CREATION_FILES :: "string list" where
  "CREATION_FILES = [''gshadow'', ''group'', ''shadow'', ''passwd'', ''registry'']"

definition creation_change :: "string \<times> change \<Rightarrow> unit result" where
  "creation_change e = (case e of (name, c) \<Rightarrow>
     let refusal = ''invalid account creation file manifest'' in
     and_then (commitment refusal (before_sha256 c)) (\<lambda>_. and_then (commitment refusal (after_sha256 c)) (\<lambda>_.
     if before_sha256 c = after_sha256 c \<or> \<not> mode_ok name c \<or> (name = ''registry'' \<and> (mode c \<noteq> 384 \<or> gid c \<noteq> 0))
     then Err refusal else Ok ())))"

definition creation_validate :: "(registry \<Rightarrow> nat) \<Rightarrow> creation_intent \<Rightarrow> unit result" where
  "creation_validate json_length i =
     (let refusal = ''invalid account creation intent'' in
      if \<not> admin_identifier (creation_transaction i) \<or> creation_transaction i = bootstrap_transaction
        \<or> uid (creation_principal i) < 1000 \<or> 60000 \<le> uid (creation_principal i)
      then Err refusal
      else and_then (append_account json_length (registry_before i) (creation_principal i)) (\<lambda>r.
      if r \<noteq> registry_after i \<or> set (bm_keys (creation_files i)) \<noteq> set CREATION_FILES then Err refusal
      else and_then (commitment refusal (home_nonce i)) (\<lambda>_. and_then (commitment refusal (creation_credential i)) (\<lambda>_.
      for_all creation_change (bm_entries (creation_files i))))))"

record creation =
  creation_intent_of :: creation_intent
  creation_phase :: account_phase

section \<open>What valid intents guarantee\<close>

lemma intent_validate_generation:
  "intent_validate pd i = Ok u \<Longrightarrow> expected_generation i \<noteq> 0 \<and> expected_generation i \<noteq> - 1 \<and> credential_before i \<noteq> credential_after i"
  by (auto simp: intent_validate_def result_simps)

lemma deletion_validate_generation:
  "deletion_validate i = Ok u \<Longrightarrow> deletion_generation i \<noteq> 0 \<and> deletion_generation i \<noteq> - 1"
  by (auto simp: deletion_validate_def result_simps)

lemma creation_validate_registry:
  "creation_validate len i = Ok u \<Longrightarrow> append_account len (registry_before i) (creation_principal i) = Ok (registry_after i)"
  by (auto simp: creation_validate_def result_simps Let_def)

lemma history_step:
  "apply_history pd h r = Ok h' \<Longrightarrow> history_floor_ms h < history_floor_ms h' \<and> history_version h < history_version h'"
  by (auto simp: apply_history_def result_simps checked_add_one_less)

end
