(* ===== verification/Trust_History.thy ===== *)
theory Trust_History
  imports Principals
begin

text \<open>
  The contract that the platform's three trust stores (operating-system releases, skills, models) share: a state
  publishes a list of keys, a version and an admission floor; every operation keeps every key identity with its
  material, never undoes a revocation, and never lowers the floor or the version. The consequences for whole
  histories are proved once here.
\<close>

text \<open>\<open>i64::MAX as u64\<close>, the largest version and sequence number.\<close>

definition I64_MAX :: u64 where "I64_MAX = 9223372036854775807"

section \<open>The contract\<close>

locale trust_history = transition_system initial step invariant
  for initial :: "'s \<Rightarrow> bool" and step :: "'s \<Rightarrow> 'e \<Rightarrow> 's" and invariant :: "'s \<Rightarrow> bool" +
  fixes keys :: "'s \<Rightarrow> 'k list"
    and key_name :: "'k \<Rightarrow> string"
    and material :: "'k \<Rightarrow> 'm"
    and dead :: "'k \<Rightarrow> 't \<Rightarrow> bool"
    and floor_of :: "'s \<Rightarrow> nat"
    and version_of :: "'s \<Rightarrow> nat"
  assumes names_distinct: "invariant s \<Longrightarrow> distinct (map key_name (keys s))"
    and key_kept: "invariant s \<Longrightarrow> k \<in> set (keys s) \<Longrightarrow>
      \<exists>k' \<in> set (keys (step s e)). key_name k' = key_name k \<and> material k' = material k \<and> (\<forall>t. dead k t \<longrightarrow> dead k' t)"
    and floor_step: "invariant s \<Longrightarrow> floor_of s \<le> floor_of (step s e)"
    and version_step: "invariant s \<Longrightarrow> version_of s \<le> version_of (step s e)"
begin

lemma key_kept_run:
  "invariant s \<Longrightarrow> k \<in> set (keys s) \<Longrightarrow>
     \<exists>k' \<in> set (keys (foldl step s es)). key_name k' = key_name k \<and> material k' = material k \<and> (\<forall>t. dead k t \<longrightarrow> dead k' t)"
proof (induction es arbitrary: s k)
  case (Cons e es)
  obtain k1 where k1: "k1 \<in> set (keys (step s e))" "key_name k1 = key_name k" "material k1 = material k" "\<forall>t. dead k t \<longrightarrow> dead k1 t"
    using key_kept [OF Cons.prems] by blast
  show ?case using Cons.IH [OF invariant_step [OF Cons.prems(1)] k1(1)] k1 by force
qed auto

lemma unique_name:
  "invariant s \<Longrightarrow> k \<in> set (keys s) \<Longrightarrow> k' \<in> set (keys s) \<Longrightarrow> key_name k = key_name k' \<Longrightarrow> k = k'"
  using names_distinct by (auto simp: distinct_map inj_on_def)

text \<open>A key that is dead stays dead under its name, and its name never stands for other material.\<close>

lemma dead_forever:
  assumes "invariant s" "k \<in> set (keys s)" "dead k t" "k' \<in> set (keys (foldl step s es))" "key_name k' = key_name k"
  shows "dead k' t \<and> material k' = material k"
proof -
  obtain k1 where "k1 \<in> set (keys (foldl step s es))" "key_name k1 = key_name k" "material k1 = material k" "dead k1 t"
    using key_kept_run [OF assms(1,2)] assms(3) by blast
  moreover from this have "k1 = k'" using unique_name [OF invariant_run [OF assms(1)]] assms(4,5) by metis
  ultimately show ?thesis by simp
qed

lemma floor_run: "invariant s \<Longrightarrow> floor_of s \<le> floor_of (foldl step s es)"
proof (induction es arbitrary: s)
  case (Cons e es)
  have "floor_of s \<le> floor_of (step s e)" "floor_of (step s e) \<le> floor_of (foldl step (step s e) es)"
    using Cons by (simp_all add: floor_step invariant_step)
  then show ?case by simp
qed simp

lemma version_run: "invariant s \<Longrightarrow> version_of s \<le> version_of (foldl step s es)"
proof (induction es arbitrary: s)
  case (Cons e es)
  have "version_of s \<le> version_of (step s e)" "version_of (step s e) \<le> version_of (foldl step (step s e) es)"
    using Cons by (simp_all add: version_step invariant_step)
  then show ?case by simp
qed simp

end

end
