(* ===== verification/Release_Trust.thy ===== *)
theory Release_Trust
  imports Trust_History Utc_Bounds
begin

text \<open>
  Release manifests (\<open>bundle.rs\<close>) and release trust (\<open>release_trust.rs\<close>): the signed key bundle, signed releases,
  and the admission state machine with its monotonic floor. JSON, SHA-256 and Ed25519 are the services of the model.
\<close>

section \<open>Manifests\<close>

record artifact =
  artifact_name :: string
  artifact_bytes :: u64
  artifact_sha256 :: string

record manifest =
  manifest_schema :: u32
  release :: string
  sequence :: u64
  manifest_environment :: string
  architecture :: string
  ubuntu :: string
  edition :: string
  root_hash :: string
  root_bytes :: u64
  hash_bytes :: u64
  artifacts :: "artifact list"

definition valid_environment :: "string \<Rightarrow> bool" where
  "valid_environment e \<longleftrightarrow> e = ''lab'' \<or> e = ''production''"

definition required_artifacts :: "string list" where
  "required_artifacts = [''root.ext4'', ''root.verity'', ''slot-a.efi'', ''slot-b.efi'', ''bootloader.efi'', ''secureboot.cer'']"

definition artifact_maximum :: "string \<Rightarrow> u64 option" where
  "artifact_maximum name =
     (if name = ''root.ext4'' then Some (32 * 1024 * 1024 * 1024)
      else if name = ''root.verity'' then Some (512 * 1024 * 1024)
      else if name = ''slot-a.efi'' \<or> name = ''slot-b.efi'' then Some (256 * 1024 * 1024)
      else if name = ''bootloader.efi'' then Some (16 * 1024 * 1024)
      else if name = ''secureboot.cer'' then Some (16 * 1024) else None)"

definition check_artifact :: "manifest \<Rightarrow> artifact \<Rightarrow> unit result" where
  "check_artifact m a =
     and_then (ok_or (artifact_maximum (artifact_name a)) ''unsupported release artifact'') (\<lambda>maximum.
     if artifact_bytes a = 0 \<or> maximum < artifact_bytes a \<or> \<not> io_hash (artifact_sha256 a) then Err ''invalid artifact bounds''
     else if (artifact_name a = ''root.ext4'' \<and> artifact_bytes a \<noteq> root_bytes m)
        \<or> (artifact_name a = ''root.verity'' \<and> artifact_bytes a \<noteq> hash_bytes m)
     then Err ''root geometry mismatch'' else Ok ())"

definition validate_manifest :: "manifest \<Rightarrow> unit result" where
  "validate_manifest m =
     (if manifest_schema m \<noteq> 1 \<or> \<not> valid_environment (manifest_environment m) \<or> architecture m \<noteq> ''amd64'' \<or> ubuntu m \<noteq> ''24.04''
        \<or> (edition m \<noteq> ''desktop'' \<and> edition m \<noteq> ''headless'') \<or> sequence m = 0 \<or> I64_MAX < sequence m
        \<or> release m = [] \<or> 64 < length (release m) \<or> \<not> list_all (\<lambda>b. is_ascii_alphanumeric b \<or> b \<in> set ''.-_'') (release m)
        \<or> \<not> io_hash (root_hash m) \<or> root_bytes m < 512 * 1024 * 1024 \<or> 32 * 1024 * 1024 * 1024 < root_bytes m
        \<or> root_bytes m mod 4096 \<noteq> 0 \<or> hash_bytes m = 0 \<or> 512 * 1024 * 1024 < hash_bytes m \<or> hash_bytes m mod 4096 \<noteq> 0
      then Err ''invalid or unsupported release manifest''
      else if length (artifacts m) \<noteq> length required_artifacts \<or> set (map artifact_name (artifacts m)) \<noteq> set required_artifacts
      then Err ''closed artifact inventory mismatch''
      else for_all (check_artifact m) (artifacts m))"

section \<open>Trust bundles\<close>

record release_key =
  key_id :: string
  public_key_hex :: string
  key_purpose :: string
  key_not_before :: int
  key_expires :: int
  key_revoked :: bool

record release_trust =
  trust_schema :: u32
  trust_environment :: string
  trust_version :: u64
  root_sha256 :: string
  trust_not_before :: int
  trust_expires :: int
  trust_keys :: "release_key list"

record signed_trust =
  trust :: release_trust
  trust_signature :: string

record signed_release =
  manifest :: manifest
  manifest_json :: string
  release_signature :: string
  signer :: string

datatype outcome = Confirmed | Fallback | Abandoned

record admission =
  prior :: manifest
  candidate :: signed_release
  admission_version :: u64
  admission_sha256 :: string

record release_state =
  anchored :: signed_trust
  release_floor :: u64
  acknowledged :: "manifest option"
  pending :: "admission option"
  retained :: "manifest option"

record release_services =
  trust_length :: "signed_trust \<Rightarrow> nat"
  trust_hash :: "signed_trust \<Rightarrow> string"
  parse_manifest :: "string \<Rightarrow> manifest option"
  text_sha256 :: "string \<Rightarrow> string"
  spki_sha256 :: "nat list \<Rightarrow> string"
  verify_key :: "nat list \<Rightarrow> string \<Rightarrow> nat list \<Rightarrow> unit result"

definition MAX_TRUST :: nat where "MAX_TRUST = 16384"

definition release_validity :: "int \<Rightarrow> int \<Rightarrow> unit result" where
  "release_validity start end' =
     (if start \<le> 0 \<or> 4102444800000 < end' \<or> end' \<le> start \<or> 366 * 86400000 < end' - start
      then Err ''release trust validity must be finite, positive and at most 366 days'' else Ok ())"

fun validate_keys :: "release_services \<Rightarrow> release_trust \<Rightarrow> string set \<Rightarrow> string set \<Rightarrow> release_key list \<Rightarrow> unit result" where
  "validate_keys sv t ids public [] = Ok ()"
| "validate_keys sv t ids public (k # ks) =
     (let refusal = ''release key must have a unique fixed ID/public key and os-release purpose'' in
      if \<not> admin_identifier (key_id k) \<or> key_purpose k \<noteq> ''os-release'' \<or> key_id k \<in> ids \<or> public_key_hex k \<in> public then Err refusal
      else and_then (tpm_decode 32 (public_key_hex k)) (\<lambda>raw.
      if raw = zero_digest then Err refusal
      else and_then (release_validity (key_not_before k) (key_expires k)) (\<lambda>_.
      if trust_environment t = ''production'' \<and> spki_sha256 sv raw = root_sha256 t
      then Err ''offline production trust root cannot also be a delegated OS release signing key''
      else if key_not_before k < trust_not_before t \<or> trust_expires t < key_expires k
      then Err ''release key validity escapes root-authorized bundle''
      else validate_keys sv t (insert (key_id k) ids) (insert (public_key_hex k) public) ks)))"

definition signed_trust_validate :: "release_services \<Rightarrow> signed_trust \<Rightarrow> unit result" where
  "signed_trust_validate sv s =
     (let t = trust s in
      if trust_schema t \<noteq> 1 \<or> \<not> valid_environment (trust_environment t) \<or> trust_version t = 0 \<or> I64_MAX < trust_version t
        \<or> trust_keys t = [] \<or> 64 < length (trust_keys t) \<or> MAX_TRUST < trust_length sv s
      then Err ''invalid release trust schema/environment/version/bounds''
      else and_then (tpm_decode 32 (root_sha256 t)) (\<lambda>_. and_then (tpm_decode 64 (trust_signature s)) (\<lambda>_.
      and_then (release_validity (trust_not_before t) (trust_expires t)) (\<lambda>_.
      validate_keys sv t {} {} (trust_keys t)))))"

definition signed_trust_digest :: "release_services \<Rightarrow> signed_trust \<Rightarrow> string result" where
  "signed_trust_digest sv s = and_then (signed_trust_validate sv s) (\<lambda>_. Ok (trust_hash sv s))"

definition trust_key :: "signed_trust \<Rightarrow> string \<Rightarrow> release_key result" where
  "trust_key s name = ok_or (find (\<lambda>k. key_id k = name \<and> \<not> key_revoked k) (trust_keys (trust s))) ''unknown or revoked release signer''"

definition trust_check_time :: "signed_trust \<Rightarrow> interval \<Rightarrow> unit result" where
  "trust_check_time s i =
     and_then (interval_within i (trust_not_before (trust s)) (trust_expires (trust s))) (\<lambda>b.
     if \<not> b then Err ''release trust is outside the entire protected UTC interval'' else Ok ())"

section \<open>Signed releases\<close>

definition release_validate :: "release_services \<Rightarrow> signed_release \<Rightarrow> unit result" where
  "release_validate sv r =
     and_then (validate_manifest (manifest r)) (\<lambda>_. and_then (tpm_decode 64 (release_signature r)) (\<lambda>_.
     let refusal = ''release admission must bind exact signed manifest bytes and signer'' in
     if \<not> admin_identifier (signer r) \<or> manifest_json r = [] \<or> 65536 < length (manifest_json r) then Err refusal
     else and_then (ok_or (parse_manifest sv (manifest_json r)) ''malformed manifest'') (\<lambda>m.
     if m \<noteq> manifest r then Err refusal else Ok ())))"

definition release_verify :: "release_services \<Rightarrow> signed_release \<Rightarrow> signed_trust \<Rightarrow> unit result" where
  "release_verify sv r s =
     and_then (release_validate sv r) (\<lambda>_.
     if manifest_environment (manifest r) \<noteq> trust_environment (trust s)
     then Err ''release environment differs from its root-authorized trust''
     else and_then (trust_key s (signer r)) (\<lambda>k.
     and_then (tpm_decode 32 (public_key_hex k)) (\<lambda>raw.
     and_then (tpm_decode 64 (release_signature r)) (\<lambda>signature.
     verify_key sv raw (manifest_json r) signature))))"

definition release_check_time :: "signed_release \<Rightarrow> signed_trust \<Rightarrow> interval \<Rightarrow> unit result" where
  "release_check_time r s i =
     and_then (trust_check_time s i) (\<lambda>_. and_then (trust_key s (signer r)) (\<lambda>k.
     and_then (interval_within i (key_not_before k) (key_expires k)) (\<lambda>b.
     if \<not> b then Err ''release signer is outside the entire protected UTC interval'' else Ok ())))"

definition release_digest :: "release_services \<Rightarrow> signed_release \<Rightarrow> string result" where
  "release_digest sv r = and_then (release_validate sv r) (\<lambda>_. Ok (text_sha256 sv (manifest_json r)))"

text \<open>The loop of \<open>signed_release_verified_root\<close>: exactly one unrevoked key verifies the bytes.\<close>

fun matching_release :: "release_services \<Rightarrow> signed_trust \<Rightarrow> manifest \<Rightarrow> string \<Rightarrow> string \<Rightarrow> signed_release option \<Rightarrow> release_key list
    \<Rightarrow> signed_release option result" where
  "matching_release sv s m json signature matched [] = Ok matched"
| "matching_release sv s m json signature matched (k # ks) =
     (if key_revoked k then matching_release sv s m json signature matched ks
      else let r = \<lparr>manifest = m, manifest_json = json, release_signature = signature, signer = key_id k\<rparr> in
      if is_ok (release_verify sv r s)
      then if matched \<noteq> None then Err ''release signature ambiguously matches multiple keys''
        else matching_release sv s m json signature (Some r) ks
      else matching_release sv s m json signature matched ks)"

definition signed_release_verified_root :: "release_services \<Rightarrow> signed_trust \<Rightarrow> string \<Rightarrow> nat list \<Rightarrow> signed_release result" where
  "signed_release_verified_root sv s json signature =
     and_then (ok_or (parse_manifest sv json) ''malformed manifest'') (\<lambda>m.
     and_then (matching_release sv s m json (hex signature) None (trust_keys (trust s))) (\<lambda>matched.
     ok_or matched ''release signature lacks one exact root-authorized signer''))"

section \<open>Admission\<close>

definition retains_key :: "signed_trust \<Rightarrow> release_key \<Rightarrow> unit result" where
  "retains_key nxt k =
     and_then (ok_or (find (\<lambda>k'. key_id k' = key_id k) (trust_keys (trust nxt)))
       ''release trust must retain historical key identities and revocations'') (\<lambda>k'.
     if public_key_hex k \<noteq> public_key_hex k' \<or> key_purpose k \<noteq> key_purpose k' \<or> (key_revoked k \<and> \<not> key_revoked k')
     then Err ''release trust cannot reuse an ID/key or undo revocation'' else Ok ())"

definition release_publish :: "release_services \<Rightarrow> release_state option \<Rightarrow> u64 \<Rightarrow> signed_trust \<Rightarrow> release_state result" where
  "release_publish sv state expected nxt =
     and_then (signed_trust_validate sv nxt) (\<lambda>_.
     let refusal = ''release trust publication has a stale/nonconsecutive version'';
         version = (case state of None \<Rightarrow> 0 | Some s \<Rightarrow> trust_version (trust (anchored s))) in
     if expected \<noteq> version then Err refusal
     else and_then (ok_or (checked_add expected 1) ''release trust version exhausted'') (\<lambda>v.
     if trust_version (trust nxt) \<noteq> v then Err refusal
     else case state of
       None \<Rightarrow> Ok \<lparr>anchored = nxt, release_floor = 0, acknowledged = None, pending = None, retained = None\<rparr>
     | Some old \<Rightarrow>
         if trust_environment (trust (anchored old)) \<noteq> trust_environment (trust nxt)
            \<or> root_sha256 (trust (anchored old)) \<noteq> root_sha256 (trust nxt)
         then Err ''release trust cannot replace its provisioned root or environment''
         else and_then (for_all (retains_key nxt) (trust_keys (trust (anchored old)))) (\<lambda>_. Ok (old\<lparr>anchored := nxt\<rparr>))))"

definition release_prepare :: "release_services \<Rightarrow> release_state option \<Rightarrow> u64 \<Rightarrow> admission \<Rightarrow> release_state result" where
  "release_prepare sv state expected_floor a =
     and_then (release_validate sv (candidate a)) (\<lambda>_. and_then (validate_manifest (prior a)) (\<lambda>_.
     and_then (ok_or state ''release trust must be anchored before admission'') (\<lambda>s.
     let refusal = ''release admission conflicts with floor, pending transaction, geometry, edition or acknowledged identity'';
         m = manifest (candidate a) in
     if pending s \<noteq> None \<or> release_floor s \<noteq> expected_floor \<or> admission_version a \<noteq> trust_version (trust (anchored s)) then Err refusal
     else and_then (signed_trust_digest sv (anchored s)) (\<lambda>digest.
     if admission_sha256 a \<noteq> digest \<or> manifest_environment (prior a) \<noteq> trust_environment (trust (anchored s))
        \<or> manifest_environment m \<noteq> trust_environment (trust (anchored s))
        \<or> sequence m \<le> max (release_floor s) (sequence (prior a))
        \<or> edition m \<noteq> edition (prior a) \<or> root_bytes m \<noteq> root_bytes (prior a) \<or> hash_bytes m \<noteq> hash_bytes (prior a)
        \<or> (acknowledged s \<noteq> None \<and> acknowledged s \<noteq> Some (prior a))
     then Err refusal
     else and_then (trust_key (anchored s) (signer (candidate a))) (\<lambda>_.
     Ok (s\<lparr>release_floor := sequence m, acknowledged := Some (prior a), pending := Some a\<rparr>))))))"

definition release_initialize :: "release_services \<Rightarrow> release_state option \<Rightarrow> signed_release \<Rightarrow> release_state result" where
  "release_initialize sv state r =
     and_then (release_validate sv r) (\<lambda>_.
     and_then (ok_or state ''initial release requires anchored public trust'') (\<lambda>s.
     if release_floor s \<noteq> 0 \<or> acknowledged s \<noteq> None \<or> pending s \<noteq> None \<or> retained s \<noteq> None
        \<or> manifest_environment (manifest r) \<noteq> trust_environment (trust (anchored s))
     then Err ''initial release cannot reset or replace existing release authority''
     else and_then (trust_key (anchored s) (signer r)) (\<lambda>_.
     Ok (s\<lparr>release_floor := sequence (manifest r), acknowledged := Some (manifest r)\<rparr>))))"

definition release_resolve :: "release_services \<Rightarrow> release_state option \<Rightarrow> string \<Rightarrow> outcome \<Rightarrow> release_state result" where
  "release_resolve sv state digest outcome =
     and_then (tpm_decode 32 digest) (\<lambda>_.
     and_then (ok_or state ''missing release authority'') (\<lambda>s.
     and_then (ok_or (pending s) ''no release transaction to resolve'') (\<lambda>a.
     and_then (release_digest sv (candidate a)) (\<lambda>d.
     if d \<noteq> digest \<or> release_floor s \<noteq> sequence (manifest (candidate a))
     then Err ''release recovery must select its exact admitted candidate and unchanged floor''
     else if outcome = Confirmed
     then and_then (trust_key (anchored s) (signer (candidate a))) (\<lambda>_.
       Ok (s\<lparr>retained := Some (prior a), acknowledged := Some (manifest (candidate a)), pending := None\<rparr>))
     else Ok (s\<lparr>acknowledged := Some (prior a), pending := None\<rparr>)))))"

definition repair_identity :: "release_services \<Rightarrow> release_state \<Rightarrow> manifest \<Rightarrow> unit result" where
  "repair_identity sv s m =
     and_then (validate_manifest m) (\<lambda>_.
     let known = acknowledged s = Some m \<or> retained s = Some m
        \<or> (case pending s of None \<Rightarrow> False | Some p \<Rightarrow> prior p = m \<or> manifest (candidate p) = m) in
     if \<not> known \<or> manifest_environment m \<noteq> trust_environment (trust (anchored s)) \<or> release_floor s < sequence m
     then Err ''repair image is not an exact retained, acknowledged or prepared TPM identity''
     else case pending s of None \<Rightarrow> Ok () | Some p \<Rightarrow>
       if manifest (candidate p) \<noteq> m then Ok ()
       else if admission_version p \<noteq> trust_version (trust (anchored s)) then Err ''prepared repair identity was invalidated by trust rotation''
       else and_then (signed_trust_digest sv (anchored s)) (\<lambda>d.
       if admission_sha256 p \<noteq> d then Err ''prepared repair identity was invalidated by trust rotation'' else Ok ()))"

definition check_effect_time :: "release_services \<Rightarrow> release_state \<Rightarrow> interval \<Rightarrow> unit result" where
  "check_effect_time sv s i =
     and_then (ok_or (pending s) ''no current exact release admission'') (\<lambda>a.
     let refusal = ''release trust rotated after admission; resolve and re-admit at a higher sequence'' in
     if admission_version a \<noteq> trust_version (trust (anchored s)) then Err refusal
     else and_then (signed_trust_digest sv (anchored s)) (\<lambda>d.
     if admission_sha256 a \<noteq> d then Err refusal else release_check_time (candidate a) (anchored s) i))"

section \<open>Histories of release authority\<close>

datatype release_event =
    PublishRelease u64 signed_trust
  | PrepareRelease u64 admission
  | InitializeRelease signed_release
  | ResolveRelease string outcome

fun release_apply :: "release_services \<Rightarrow> release_state option \<Rightarrow> release_event \<Rightarrow> release_state result" where
  "release_apply sv st (PublishRelease expected t) = release_publish sv st expected t"
| "release_apply sv st (PrepareRelease expected a) = release_prepare sv st expected a"
| "release_apply sv st (InitializeRelease r) = release_initialize sv st r"
| "release_apply sv st (ResolveRelease digest outcome) = release_resolve sv st digest outcome"

text \<open>A refused operation leaves the authority as it was.\<close>

definition release_step :: "release_services \<Rightarrow> release_state option \<Rightarrow> release_event \<Rightarrow> release_state option" where
  "release_step sv st e = (case release_apply sv st e of Inl _ \<Rightarrow> st | Inr s \<Rightarrow> Some s)"

definition release_keys :: "release_state option \<Rightarrow> release_key list" where
  "release_keys st = (case st of None \<Rightarrow> [] | Some s \<Rightarrow> trust_keys (trust (anchored s)))"

definition release_floor_of :: "release_state option \<Rightarrow> nat" where
  "release_floor_of st = (case st of None \<Rightarrow> 0 | Some s \<Rightarrow> unat (release_floor s))"

definition release_version_of :: "release_state option \<Rightarrow> nat" where
  "release_version_of st = (case st of None \<Rightarrow> 0 | Some s \<Rightarrow> unat (trust_version (trust (anchored s))))"

definition release_material :: "release_key \<Rightarrow> string \<times> string" where
  "release_material k = (public_key_hex k, key_purpose k)"

text \<open>Distinct key identities; everything admitted lies at or below the floor, a pending candidate exactly at it.\<close>

definition release_state_ok :: "release_state \<Rightarrow> bool" where
  "release_state_ok s \<longleftrightarrow> distinct (map key_id (trust_keys (trust (anchored s))))
     \<and> (\<forall>m. acknowledged s = Some m \<longrightarrow> sequence m \<le> release_floor s)
     \<and> (\<forall>m. retained s = Some m \<longrightarrow> sequence m \<le> release_floor s)
     \<and> (\<forall>a. pending s = Some a \<longrightarrow> sequence (manifest (candidate a)) = release_floor s \<and> sequence (prior a) < release_floor s
          \<and> acknowledged s = Some (prior a))"

definition release_ok :: "release_state option \<Rightarrow> bool" where
  "release_ok st \<longleftrightarrow> (\<forall>s. st = Some s \<longrightarrow> release_state_ok s)"

lemma validate_keys_distinct:
  "validate_keys sv t ids public ks = Ok u \<Longrightarrow> distinct (map key_id ks) \<and> set (map key_id ks) \<inter> ids = {}"
  by (induction ks arbitrary: ids public) (auto simp: result_simps Let_def)

lemma signed_trust_distinct: "signed_trust_validate sv s = Ok u \<Longrightarrow> distinct (map key_id (trust_keys (trust s)))"
  by (auto simp: signed_trust_validate_def result_simps Let_def dest: validate_keys_distinct)

lemma publish_Ok:
  assumes "release_publish sv st expected nxt = Ok s"
  shows "signed_trust_validate sv nxt = Ok ()" "unat (trust_version (trust nxt)) = Suc (release_version_of st)" "anchored s = nxt"
    "\<And>old. st = Some old \<Longrightarrow> s = old\<lparr>anchored := nxt\<rparr> \<and> (\<forall>k \<in> set (trust_keys (trust (anchored old))). retains_key nxt k = Ok ())
       \<and> trust_environment (trust nxt) = trust_environment (trust (anchored old)) \<and> root_sha256 (trust nxt) = root_sha256 (trust (anchored old))"
    "st = None \<Longrightarrow> s = \<lparr>anchored = nxt, release_floor = 0, acknowledged = None, pending = None, retained = None\<rparr>"
  using assms
  by (auto simp: release_publish_def result_simps Let_def release_version_of_def dest!: checked_add_one split: option.splits)

lemma prepare_Ok:
  assumes "release_prepare sv st expected a = Ok s'"
  obtains s where "st = Some s" "pending s = None" "release_floor s < sequence (manifest (candidate a))"
    "sequence (prior a) < sequence (manifest (candidate a))" "\<exists>k. trust_key (anchored s) (signer (candidate a)) = Ok k"
    "s' = s\<lparr>release_floor := sequence (manifest (candidate a)), acknowledged := Some (prior a), pending := Some a\<rparr>"
  using assms by (auto simp: release_prepare_def result_simps Let_def not_le)

lemma initialize_Ok:
  assumes "release_initialize sv st r = Ok s'"
  obtains s where "st = Some s" "release_floor s = 0" "acknowledged s = None" "pending s = None" "retained s = None"
    "\<exists>k. trust_key (anchored s) (signer r) = Ok k"
    "s' = s\<lparr>release_floor := sequence (manifest r), acknowledged := Some (manifest r)\<rparr>"
  using assms by (auto simp: release_initialize_def result_simps)

lemma resolve_Ok:
  assumes "release_resolve sv st digest outcome = Ok s'"
  obtains s a where "st = Some s" "pending s = Some a" "outcome = Confirmed \<longrightarrow> (\<exists>k. trust_key (anchored s) (signer (candidate a)) = Ok k)"
    "s' = (if outcome = Confirmed then s\<lparr>retained := Some (prior a), acknowledged := Some (manifest (candidate a)), pending := None\<rparr>
       else s\<lparr>acknowledged := Some (prior a), pending := None\<rparr>)"
  using assms by (auto simp: release_resolve_def result_simps split: if_splits)

lemma release_apply_ok:
  assumes "release_ok st" "release_apply sv st e = Ok s"
  shows "release_state_ok s"
proof (cases e)
  case (PublishRelease x t)
  then have "release_publish sv st x t = Ok s" using assms(2) by simp
  from publish_Ok [OF this] show ?thesis
    using assms(1) signed_trust_distinct [of sv t] by (cases st) (auto simp: release_ok_def release_state_ok_def)
next
  case (PrepareRelease x a)
  then show ?thesis using assms by (auto simp: release_state_ok_def release_ok_def elim!: prepare_Ok)
next
  case (InitializeRelease r)
  then show ?thesis using assms by (auto simp: release_state_ok_def release_ok_def elim!: initialize_Ok)
next
  case (ResolveRelease d x)
  then show ?thesis using assms by (auto simp: release_state_ok_def release_ok_def elim!: resolve_Ok split: if_splits)
qed

lemma release_keys_kept:
  assumes "release_apply sv st e = Ok s" "k \<in> set (release_keys st)"
  shows "\<exists>k' \<in> set (release_keys (Some s)). key_id k' = key_id k \<and> release_material k' = release_material k \<and> (key_revoked k \<longrightarrow> key_revoked k')"
proof (cases e)
  case (PublishRelease x t)
  then have pub: "release_publish sv st x t = Ok s" using assms(1) by simp
  obtain old where old: "st = Some old" "k \<in> set (trust_keys (trust (anchored old)))"
    using assms(2) by (auto simp: release_keys_def split: option.splits)
  then have "retains_key t k = Ok ()" "anchored s = t" using publish_Ok [OF pub] by blast+
  then show ?thesis by (auto simp: retains_key_def result_simps find_Some_iff release_keys_def release_material_def)
qed (use assms in \<open>auto simp: release_keys_def elim!: prepare_Ok initialize_Ok resolve_Ok split: if_splits\<close>)

lemma release_floor_mono:
  assumes "release_apply sv st e = Ok s"
  shows "release_floor_of st \<le> unat (release_floor s)" "release_version_of st \<le> unat (trust_version (trust (anchored s)))"
proof -
  show "release_floor_of st \<le> unat (release_floor s)"
  proof (cases e)
    case (PublishRelease x t)
    then have "release_publish sv st x t = Ok s" using assms by simp
    from publish_Ok [OF this] show ?thesis by (cases st) (auto simp: release_floor_of_def)
  qed (use assms in \<open>auto simp: release_floor_of_def word_less_nat_alt elim!: prepare_Ok initialize_Ok resolve_Ok split: if_splits\<close>)
  show "release_version_of st \<le> unat (trust_version (trust (anchored s)))"
  proof (cases e)
    case (PublishRelease x t)
    then have "release_publish sv st x t = Ok s" using assms by simp
    from publish_Ok [OF this] show ?thesis by simp
  qed (use assms in \<open>auto simp: release_version_of_def elim!: prepare_Ok initialize_Ok resolve_Ok split: if_splits\<close>)
qed

interpretation release: trust_history "\<lambda>st. st = None" "release_step sv" release_ok release_keys key_id release_material
  "\<lambda>k (_ :: unit). key_revoked k" release_floor_of release_version_of for sv
proof
  show "release_ok (release_step sv st e)" if "release_ok st" for st e
    using that release_apply_ok [OF that] by (auto simp: release_step_def release_ok_def split: sum.splits)
  show "distinct (map key_id (release_keys st))" if "release_ok st" for st
    using that by (auto simp: release_ok_def release_keys_def release_state_ok_def split: option.splits)
  show "\<exists>k' \<in> set (release_keys (release_step sv st e)). key_id k' = key_id k \<and> release_material k' = release_material k
      \<and> (\<forall>t :: unit. key_revoked k \<longrightarrow> key_revoked k')" if "release_ok st" "k \<in> set (release_keys st)" for st k e
    using that release_keys_kept [of sv st e _ k] by (cases "release_apply sv st e") (auto simp: release_step_def)
  show "release_floor_of st \<le> release_floor_of (release_step sv st e)" for st e
    using release_floor_mono(1) [of sv st e] by (auto simp: release_step_def release_floor_of_def split: sum.splits)
  show "release_version_of st \<le> release_version_of (release_step sv st e)" for st e
    using release_floor_mono(2) [of sv st e] by (auto simp: release_step_def release_version_of_def split: sum.splits)
qed (simp_all add: release_ok_def)

abbreviation release_run :: "release_services \<Rightarrow> release_event list \<Rightarrow> release_state option" where
  "release_run sv es \<equiv> foldl (release_step sv) None es"

lemma release_reachable: "release_ok (foldl (release_step sv) (release_run sv es) es')"
  by (rule release.invariant_run, rule release.invariant_reachable) simp

text \<open>
  C35: The release floor is final. Once a candidate was admitted, then after every further sequence of publications,
  preparations, initializations and resolutions (confirmed, fallen back or abandoned), a new admission is accepted only
  for a strictly higher sequence number, the first-release initialization is refused, and the floor stays at or above
  the admitted sequence number.
\<close>

theorem release_no_rollback:
  assumes first: "release_prepare sv (release_run sv es) f a = Ok s"
    and later: "st = foldl (release_step sv) (Some s) es'"
  shows "(\<forall>g b t. release_prepare sv st g b = Ok t \<longrightarrow> sequence (manifest (candidate a)) < sequence (manifest (candidate b)))
    \<and> (\<forall>r. \<not> is_ok (release_initialize sv st r))
    \<and> unat (sequence (manifest (candidate a))) \<le> release_floor_of st"
proof -
  have ok: "release_ok (Some s)"
    using release_apply_ok [of "release_run sv es" sv "PrepareRelease f a" s] first release_reachable [of sv es "[]"]
    by (simp add: release_ok_def)
  have "sequence (manifest (candidate a)) = release_floor s" "release_floor s \<noteq> 0"
    using first by (auto elim!: prepare_Ok)
  then have floor: "unat (sequence (manifest (candidate a))) \<le> release_floor_of st" and pos: "0 < unat (sequence (manifest (candidate a)))"
    using release.floor_run [OF ok, of sv es'] later by (auto simp: release_floor_of_def unat_gt_0)
  have "unat (sequence (manifest (candidate a))) < unat (sequence (manifest (candidate b)))" if "release_prepare sv st g b = Ok t" for g b t
    using that floor by (auto simp: release_floor_of_def word_less_nat_alt elim!: prepare_Ok)
  moreover have "\<not> is_ok (release_initialize sv st r)" for r
    using floor pos by (auto simp: is_ok_iff release_floor_of_def elim!: initialize_Ok)
  ultimately show ?thesis using floor by (auto simp: word_less_nat_alt)
qed

lemma trust_key_alive: "trust_key s name = Ok k \<Longrightarrow> k \<in> set (trust_keys (trust s)) \<and> key_id k = name \<and> \<not> key_revoked k"
  by (auto simp: trust_key_def result_simps find_Some_iff)

text \<open>
  C36: Revocation of a release key is final. After a key is revoked in a reachable state, then after every further sequence
  of operations the key of that name is still the same public key and still revoked, no candidate and no initial release
  signed under that name is accepted, and a pending one cannot be confirmed.
\<close>

theorem release_revocation_final:
  assumes revoked: "k \<in> set (release_keys (release_run sv es))" "key_revoked k"
    and later: "st = foldl (release_step sv) (release_run sv es) es'"
  shows "(\<exists>k' \<in> set (release_keys st). key_id k' = key_id k \<and> public_key_hex k' = public_key_hex k \<and> key_revoked k')
    \<and> (\<forall>f a. signer (candidate a) = key_id k \<longrightarrow> \<not> is_ok (release_prepare sv st f a))
    \<and> (\<forall>r. signer r = key_id k \<longrightarrow> \<not> is_ok (release_initialize sv st r))
    \<and> (\<forall>s a d. st = Some s \<and> pending s = Some a \<and> signer (candidate a) = key_id k \<longrightarrow> \<not> is_ok (release_resolve sv st d Confirmed))"
proof -
  have ok: "release_ok (release_run sv es)" using release_reachable [of sv es "[]"] by simp
  have kept: "\<exists>k' \<in> set (release_keys st). key_id k' = key_id k \<and> public_key_hex k' = public_key_hex k \<and> key_revoked k'"
    using release.key_kept_run [OF ok revoked(1), of sv es'] later revoked(2) by (auto simp: release_material_def)
  have dead: "trust_key (anchored s) (key_id k) \<noteq> Ok k1" if "st = Some s" for s k1
  proof
    assume key: "trust_key (anchored s) (key_id k) = Ok k1"
    have "k1 \<in> set (release_keys st)" "key_id k1 = key_id k" "\<not> key_revoked k1"
      using trust_key_alive [OF key] that by (auto simp: release_keys_def)
    then show False using release.dead_forever [OF ok revoked(1), of k1 sv es'] revoked(2) later by simp
  qed
  have "\<not> is_ok (release_prepare sv st f a)" if "signer (candidate a) = key_id k" for f a
    using that dead by (auto simp: is_ok_iff elim!: prepare_Ok)
  moreover have "\<not> is_ok (release_initialize sv st r)" if "signer r = key_id k" for r
    using that dead by (auto simp: is_ok_iff elim!: initialize_Ok)
  moreover have "\<not> is_ok (release_resolve sv st d Confirmed)" if "st = Some s" "pending s = Some a" "signer (candidate a) = key_id k" for s a d
    using that dead by (auto simp: is_ok_iff elim!: resolve_Ok)
  ultimately show ?thesis using kept by blast
qed

section \<open>A sample history\<close>

definition sample_release_services :: release_services where
  "sample_release_services = \<lparr>trust_length = (\<lambda>_. 100), trust_hash = (\<lambda>_. replicate 64 CHR ''a''), parse_manifest = (\<lambda>_. None),
     text_sha256 = (\<lambda>_. replicate 64 CHR ''b''), spki_sha256 = (\<lambda>_. replicate 64 CHR ''c''), verify_key = (\<lambda>_ _ _. Ok ())\<rparr>"

definition sample_manifest :: "u64 \<Rightarrow> manifest" where
  "sample_manifest n = \<lparr>manifest_schema = 1, release = ''r1'', sequence = n, manifest_environment = ''lab'', architecture = ''amd64'',
     ubuntu = ''24.04'', edition = ''desktop'', root_hash = replicate 64 CHR ''0'', root_bytes = 536870912, hash_bytes = 4096,
     artifacts = map (\<lambda>(name, n). \<lparr>artifact_name = name, artifact_bytes = n, artifact_sha256 = replicate 64 CHR ''1''\<rparr>)
       [(''root.ext4'', 536870912), (''root.verity'', 4096), (''slot-a.efi'', 1), (''slot-b.efi'', 1), (''bootloader.efi'', 1), (''secureboot.cer'', 1)]\<rparr>"

definition sample_release :: "u64 \<Rightarrow> signed_release" where
  "sample_release n = \<lparr>manifest = sample_manifest n, manifest_json = ''json'', release_signature = replicate 128 CHR ''2'', signer = ''k1''\<rparr>"

definition sample_key :: "bool \<Rightarrow> release_key" where
  "sample_key dead = \<lparr>key_id = ''k1'', public_key_hex = replicate 64 CHR ''3'', key_purpose = ''os-release'', key_not_before = 1000,
     key_expires = 2000, key_revoked = dead\<rparr>"

definition sample_trust :: "u64 \<Rightarrow> bool \<Rightarrow> signed_trust" where
  "sample_trust v dead = \<lparr>trust = \<lparr>trust_schema = 1, trust_environment = ''lab'', trust_version = v, root_sha256 = replicate 64 CHR ''4'',
     trust_not_before = 1000, trust_expires = 2000, trust_keys = [sample_key dead]\<rparr>, trust_signature = replicate 128 CHR ''5''\<rparr>"

definition sample_admission :: admission where
  "sample_admission = \<lparr>prior = sample_manifest 6, candidate = sample_release 7, admission_version = 1,
     admission_sha256 = replicate 64 CHR ''a''\<rparr>"

definition sample_services :: release_services where
  "sample_services = sample_release_services\<lparr>parse_manifest := (\<lambda>_. Some (sample_manifest 7))\<rparr>"

lemma sample_hash: "is_lower_hex c \<Longrightarrow> io_hash (replicate 64 c)"
  by (simp add: io_hash_def list_all_iff)

lemma sample_decode: "is_lower_hex c \<Longrightarrow> tpm_decode n (replicate (n * 2) c) = Ok (decode_pairs (replicate (n * 2) c))"
  by (simp add: tpm_decode_def list_all_iff)

lemma sample_manifest_valid: "n \<noteq> 0 \<Longrightarrow> n \<le> I64_MAX \<Longrightarrow> validate_manifest (sample_manifest n) = Ok ()"
  by (auto simp: validate_manifest_def sample_manifest_def valid_environment_def required_artifacts_def check_artifact_def
      artifact_maximum_def sample_hash ascii_defs)

lemma sample_digits: "is_lower_hex CHR ''2''" "is_lower_hex CHR ''3''" "is_lower_hex CHR ''4''" "is_lower_hex CHR ''5''"
  by code_simp+

lemma sample_release_valid: "release_validate sample_services (sample_release 7) = Ok ()"
  using sample_decode [of "CHR ''2''" 64] sample_digits
  by (simp add: release_validate_def sample_release_def sample_manifest_valid I64_MAX_def sample_services_def
      sample_release_services_def admin_identifier_def ascii_defs)

lemma sample_trust_valid: "v \<noteq> 0 \<Longrightarrow> v < 10 \<Longrightarrow> signed_trust_validate sample_services (sample_trust v dead) = Ok ()"
proof -
  assume v: "v \<noteq> 0" "v < 10"
  have "tpm_decode 32 (replicate 64 CHR ''3'') = Ok (decode_pairs (replicate 64 CHR ''3''))"
    "tpm_decode 32 (replicate 64 CHR ''4'') = Ok (decode_pairs (replicate 64 CHR ''4''))"
    "tpm_decode 64 (replicate 128 CHR ''5'') = Ok (decode_pairs (replicate 128 CHR ''5''))"
    using sample_decode [of "CHR ''3''" 32] sample_decode [of "CHR ''4''" 32] sample_decode [of "CHR ''5''" 64] sample_digits by simp_all
  moreover have "decode_pairs (replicate 64 CHR ''3'') \<noteq> zero_digest" by code_simp
  moreover have "\<not> I64_MAX < v" using v by (simp add: I64_MAX_def word_less_nat_alt)
  ultimately show ?thesis
    using v by (auto simp: Let_def signed_trust_validate_def sample_trust_def sample_key_def valid_environment_def MAX_TRUST_def
        sample_services_def sample_release_services_def release_validity_def admin_identifier_def ascii_defs)
qed

definition sample_authority :: "u64 \<Rightarrow> bool \<Rightarrow> release_state" where
  "sample_authority v dead = \<lparr>anchored = sample_trust v dead, release_floor = 0, acknowledged = None, pending = None, retained = None\<rparr>"

lemma sample_trust_simps [simp]:
  "trust_version (trust (sample_trust v dead)) = v" "trust_keys (trust (sample_trust v dead)) = [sample_key dead]"
  "trust_environment (trust (sample_trust v dead)) = ''lab''" "root_sha256 (trust (sample_trust v dead)) = replicate 64 CHR ''4''"
  by (simp_all add: sample_trust_def)

lemma sample_publish: "release_run sample_services [PublishRelease 0 (sample_trust 1 False)] = Some (sample_authority 1 False)"
  using sample_trust_valid [of 1 False]
  by (simp add: release_step_def release_publish_def checked_add_def sample_authority_def)

lemma sample_release_revoke: "release_run sample_services [PublishRelease 0 (sample_trust 1 False), PublishRelease 1 (sample_trust 2 True)] = Some (sample_authority 2 True)"
proof -
  have "release_publish sample_services (Some (sample_authority 1 False)) 1 (sample_trust 2 True) = Ok (sample_authority 2 True)"
    using sample_trust_valid [of 2 True]
    by (simp add: release_publish_def checked_add_def sample_authority_def retains_key_def sample_key_def)
  then show ?thesis using sample_publish by (simp add: release_step_def)
qed

lemma sample_manifest_simps [simp]:
  "sequence (sample_manifest n) = n" "manifest_environment (sample_manifest n) = ''lab''" "edition (sample_manifest n) = ''desktop''"
  "root_bytes (sample_manifest n) = 536870912" "hash_bytes (sample_manifest n) = 4096"
  "manifest (sample_release n) = sample_manifest n" "signer (sample_release n) = ''k1''"
  "trust_hash sample_services t = replicate 64 CHR ''a''" "key_id (sample_key dead) = ''k1''" "key_revoked (sample_key dead) = dead"
  by (simp_all add: sample_manifest_def sample_release_def sample_services_def sample_release_services_def sample_key_def)

lemma sample_prepare:
  "\<exists>s. release_prepare sample_services (release_run sample_services [PublishRelease 0 (sample_trust 1 False)]) 0 sample_admission = Ok s"
  unfolding sample_publish using sample_trust_valid [of 1 False] sample_release_valid sample_manifest_valid [of 6]
  by (simp add: release_prepare_def sample_admission_def sample_authority_def signed_trust_digest_def I64_MAX_def trust_key_def max_def)

theorem release_no_rollback_witness:
  "\<exists>s. release_prepare sample_services (release_run sample_services [PublishRelease 0 (sample_trust 1 False)]) 0 sample_admission = Ok s
     \<and> \<not> is_ok (release_initialize sample_services (foldl (release_step sample_services) (Some s) [ResolveRelease (replicate 64 CHR ''b'') Fallback]) (sample_release 7))"
  using sample_prepare release_no_rollback by metis

theorem release_revocation_final_witness:
  "sample_key True \<in> set (release_keys (release_run sample_services [PublishRelease 0 (sample_trust 1 False), PublishRelease 1 (sample_trust 2 True)]))
   \<and> \<not> is_ok (release_prepare sample_services (foldl (release_step sample_services)
        (release_run sample_services [PublishRelease 0 (sample_trust 1 False), PublishRelease 1 (sample_trust 2 True)]) [PublishRelease 2 (sample_trust 3 False)])
        0 sample_admission)"
proof -
  let ?es = "[PublishRelease 0 (sample_trust 1 False), PublishRelease 1 (sample_trust 2 True)]"
  have "sample_key True \<in> set (release_keys (release_run sample_services ?es))"
    unfolding sample_release_revoke by (simp add: release_keys_def sample_authority_def sample_trust_def)
  then show ?thesis
    using release_revocation_final [of "sample_key True" sample_services ?es _ "[PublishRelease 2 (sample_trust 3 False)]"]
    by (simp add: sample_key_def sample_admission_def sample_release_def)
qed

end
