(* ===== verification/Skill_Trust.thy ===== *)
theory Skill_Trust
  imports Trust_History Utc_Bounds
begin

text \<open>
  Skill registry trust (\<open>skill_trust.rs\<close>): the purpose-separated key bundle, its immutable root policy, signed registry
  admissions, and the state machine that anchors both. JSON, SHA-256 and Ed25519 are the services of the model.
\<close>

section \<open>Data\<close>

definition SKILL_DOMAIN :: string where "SKILL_DOMAIN = ''skill-registry''"
definition SKILL_ROLE :: string where "SKILL_ROLE = ''skill-registry-signer''"
definition SKILL_POLICY :: string where "SKILL_POLICY = ''closed-file-to-artifact-v1''"
definition MAX_BUNDLE :: nat where "MAX_BUNDLE = 32768"

record root_policy =
  policy_schema :: u32
  policy_environment :: string
  policy_domain :: string
  policy_purpose :: string
  policy_root :: string
  policy_not_before :: int
  policy_expires :: int
  separated_keys :: "string list"

record skill_key =
  skill_key_id :: string
  skill_public_key :: string
  skill_key_role :: string
  skill_key_purpose :: string
  skill_key_not_before :: int
  skill_key_expires :: int
  skill_key_revoked :: bool

record skill_trust =
  skill_schema :: u32
  skill_environment :: string
  skill_domain :: string
  skill_purpose :: string
  skill_policy :: string
  skill_version :: u64
  skill_previous :: string
  skill_root :: string
  skill_not_before :: int
  skill_expires :: int
  skill_keys :: "skill_key list"

record signed_skill_trust =
  skill_trust_of :: skill_trust
  skill_signature :: string

record registry_admission =
  adm_schema :: u32
  adm_environment :: string
  adm_domain :: string
  adm_purpose :: string
  adm_policy :: string
  adm_sequence :: u64
  adm_trust_version :: u64
  adm_trust_sha256 :: string
  adm_registry_sha256 :: string
  adm_workflow_sha256 :: string
  adm_not_before :: int
  adm_expires :: int
  adm_signer :: string

record skill_admission =
  metadata :: registry_admission
  adm_signature :: string

record skill_state =
  skill_anchored :: signed_skill_trust
  skill_floor :: u64
  skill_current :: "skill_admission option"

record skill_services =
  skill_trust_length :: "signed_skill_trust \<Rightarrow> nat"
  skill_trust_hash :: "signed_skill_trust \<Rightarrow> string"
  skill_admission_length :: "skill_admission \<Rightarrow> nat"
  skill_fingerprint :: "nat list \<Rightarrow> string"
  skill_verify :: "nat list \<Rightarrow> registry_admission \<Rightarrow> nat list \<Rightarrow> unit result"

section \<open>Validation\<close>

definition skill_validity :: "int \<Rightarrow> int \<Rightarrow> unit result" where
  "skill_validity start stop =
     (if start \<le> 0 \<or> stop \<le> start \<or> 4102444800000 < stop then Err ''skill trust validity must be positive and finite'' else Ok ())"

definition skill_finite :: "int \<Rightarrow> int \<Rightarrow> unit result" where
  "skill_finite start stop =
     and_then (skill_validity start stop) (\<lambda>_.
     if 366 * 86400000 < stop - start then Err ''skill trust interval exceeds 366 days'' else Ok ())"

definition skill_valid_environment :: "string \<Rightarrow> bool" where
  "skill_valid_environment e \<longleftrightarrow> e = ''lab'' \<or> e = ''production''"

text \<open>\<open>key_der\<close> and \<open>signature\<close>: the raw key or signature behind its canonical text.\<close>

definition skill_key_raw :: "string \<Rightarrow> nat list result" where
  "skill_key_raw public =
     and_then (tpm_decode 32 public) (\<lambda>key.
     if key = zero_digest \<or> hex key \<noteq> public then Err ''skill signer requires a canonical nonzero Ed25519 public key'' else Ok key)"

definition skill_signature_raw :: "string \<Rightarrow> nat list result" where
  "skill_signature_raw v =
     and_then (tpm_decode 64 v) (\<lambda>bytes.
     if hex bytes \<noteq> v then Err ''skill signature requires canonical lowercase hexadecimal'' else Ok bytes)"

definition policy_check :: "root_policy \<Rightarrow> unit result" where
  "policy_check p =
     and_then (skill_validity (policy_not_before p) (policy_expires p)) (\<lambda>_.
     if policy_schema p \<noteq> 1 \<or> \<not> skill_valid_environment (policy_environment p) \<or> policy_domain p \<noteq> SKILL_DOMAIN
        \<or> policy_purpose p \<noteq> SKILL_DOMAIN \<or> \<not> io_hash (policy_root p) \<or> 128 < length (separated_keys p)
        \<or> card (set (separated_keys p)) \<noteq> length (separated_keys p)
        \<or> list_ex (\<lambda>k. \<not> io_hash k \<or> k = policy_root p) (separated_keys p)
     then Err ''invalid independently provisioned skill root policy'' else Ok ())"

definition policy_contains :: "root_policy \<Rightarrow> skill_trust \<Rightarrow> unit result" where
  "policy_contains p t =
     and_then (policy_check p) (\<lambda>_.
     if skill_environment t \<noteq> policy_environment p \<or> skill_root t \<noteq> policy_root p
        \<or> skill_not_before t < policy_not_before p \<or> policy_expires p < skill_expires t
     then Err ''skill bundle escapes its immutable root environment or effective validity'' else Ok ())"

fun validate_skill_keys :: "skill_services \<Rightarrow> skill_trust \<Rightarrow> string set \<Rightarrow> string set \<Rightarrow> skill_key list \<Rightarrow> unit result" where
  "validate_skill_keys sv t ids public [] = Ok ()"
| "validate_skill_keys sv t ids public (k # ks) =
     and_then (skill_finite (skill_key_not_before k) (skill_key_expires k)) (\<lambda>_.
     and_then (skill_key_raw (skill_public_key k)) (\<lambda>raw.
     if \<not> admin_identifier (skill_key_id k) \<or> skill_key_role k \<noteq> SKILL_ROLE \<or> skill_key_purpose k \<noteq> SKILL_DOMAIN
        \<or> skill_key_id k \<in> ids \<or> skill_public_key k \<in> public \<or> skill_fingerprint sv raw = skill_root t
        \<or> skill_key_not_before k < skill_not_before t \<or> skill_expires t < skill_key_expires k
     then Err ''skill leaf identity/purpose/role/validity is invalid or reuses its root''
     else validate_skill_keys sv t (insert (skill_key_id k) ids) (insert (skill_public_key k) public) ks))"

definition skill_trust_validate :: "skill_services \<Rightarrow> signed_skill_trust \<Rightarrow> unit result" where
  "skill_trust_validate sv s =
     (let t = skill_trust_of s in
      and_then (skill_finite (skill_not_before t) (skill_expires t)) (\<lambda>_.
      and_then (skill_signature_raw (skill_signature s)) (\<lambda>_.
      if skill_schema t \<noteq> 1 \<or> \<not> skill_valid_environment (skill_environment t) \<or> skill_domain t \<noteq> SKILL_DOMAIN
        \<or> skill_purpose t \<noteq> SKILL_DOMAIN \<or> skill_policy t \<noteq> SKILL_POLICY \<or> skill_version t = 0 \<or> I64_MAX < skill_version t
        \<or> \<not> io_hash (skill_previous t) \<or> \<not> io_hash (skill_root t) \<or> skill_keys t = [] \<or> 64 < length (skill_keys t)
        \<or> MAX_BUNDLE < skill_trust_length sv s
      then Err ''invalid bounded purpose-separated skill trust bundle''
      else validate_skill_keys sv t {} {} (skill_keys t))))"

definition skill_trust_digest :: "skill_services \<Rightarrow> signed_skill_trust \<Rightarrow> string result" where
  "skill_trust_digest sv s = and_then (skill_trust_validate sv s) (\<lambda>_. Ok (skill_trust_hash sv s))"

definition find_skill_key :: "signed_skill_trust \<Rightarrow> string \<Rightarrow> skill_key result" where
  "find_skill_key s name =
     ok_or (find (\<lambda>k. skill_key_id k = name \<and> \<not> skill_key_revoked k) (skill_keys (skill_trust_of s))) ''unknown or revoked skill registry signer''"

definition skill_trust_check_time :: "signed_skill_trust \<Rightarrow> interval \<Rightarrow> unit result" where
  "skill_trust_check_time s i =
     and_then (interval_within i (skill_not_before (skill_trust_of s)) (skill_expires (skill_trust_of s))) (\<lambda>b.
     if \<not> b then Err ''skill trust excludes the entire protected UTC interval'' else Ok ())"

text \<open>\<open>check_separation\<close>: neither the root nor a leaf is a prohibited key.\<close>

fun skill_fingerprints :: "skill_services \<Rightarrow> skill_key list \<Rightarrow> string list result" where
  "skill_fingerprints sv [] = Ok []"
| "skill_fingerprints sv (k # ks) =
     and_then (skill_key_raw (skill_public_key k)) (\<lambda>raw. and_then (skill_fingerprints sv ks) (\<lambda>fs. Ok (skill_fingerprint sv raw # fs)))"

definition check_separation :: "skill_services \<Rightarrow> skill_trust \<Rightarrow> string set \<Rightarrow> unit result" where
  "check_separation sv t prohibited =
     (let refusal = ''skill registry root/leaf reuses another environment or OS/model signing identity'' in
      if skill_root t \<in> prohibited then Err refusal
      else and_then (skill_fingerprints sv (skill_keys t)) (\<lambda>fs.
      if list_ex (\<lambda>f. f \<in> prohibited) fs then Err refusal else Ok ()))"

section \<open>Admissions\<close>

definition skill_admission_validate :: "skill_services \<Rightarrow> skill_admission \<Rightarrow> unit result" where
  "skill_admission_validate sv a =
     (let m = metadata a in
      and_then (skill_finite (adm_not_before m) (adm_expires m)) (\<lambda>_.
      and_then (skill_signature_raw (adm_signature a)) (\<lambda>_.
      if adm_schema m \<noteq> 1 \<or> \<not> skill_valid_environment (adm_environment m) \<or> adm_domain m \<noteq> SKILL_DOMAIN
        \<or> adm_purpose m \<noteq> SKILL_DOMAIN \<or> adm_policy m \<noteq> SKILL_POLICY \<or> adm_sequence m = 0 \<or> I64_MAX < adm_sequence m
        \<or> adm_trust_version m = 0 \<or> \<not> io_hash (adm_trust_sha256 m) \<or> \<not> io_hash (adm_registry_sha256 m)
        \<or> \<not> io_hash (adm_workflow_sha256 m) \<or> \<not> admin_identifier (adm_signer m) \<or> 4096 < skill_admission_length sv a
      then Err ''invalid finite signed skill registry admission metadata'' else Ok ())))"

definition skill_binding :: "skill_services \<Rightarrow> skill_admission \<Rightarrow> signed_skill_trust \<Rightarrow> unit result" where
  "skill_binding sv a s =
     and_then (skill_admission_validate sv a) (\<lambda>_. and_then (skill_trust_validate sv s) (\<lambda>_.
     let m = metadata a;
         refusal = ''registry admission does not bind the exact current skill trust and contained leaf validity'' in
     and_then (find_skill_key s (adm_signer m)) (\<lambda>k.
     if adm_environment m \<noteq> skill_environment (skill_trust_of s) \<or> adm_trust_version m \<noteq> skill_version (skill_trust_of s) then Err refusal
     else and_then (skill_trust_digest sv s) (\<lambda>digest.
     if adm_trust_sha256 m \<noteq> digest \<or> adm_not_before m < skill_key_not_before k \<or> skill_key_expires k < adm_expires m
     then Err refusal else Ok ()))))"

definition skill_admission_verify :: "skill_services \<Rightarrow> skill_admission \<Rightarrow> signed_skill_trust \<Rightarrow> unit result" where
  "skill_admission_verify sv a s =
     and_then (skill_binding sv a s) (\<lambda>_. and_then (find_skill_key s (adm_signer (metadata a))) (\<lambda>k.
     and_then (skill_key_raw (skill_public_key k)) (\<lambda>raw. and_then (tpm_decode 64 (adm_signature a)) (\<lambda>signature.
     skill_verify sv raw (metadata a) signature))))"

definition skill_admission_check_time :: "skill_admission \<Rightarrow> signed_skill_trust \<Rightarrow> interval \<Rightarrow> unit result" where
  "skill_admission_check_time a s i =
     and_then (skill_trust_check_time s i) (\<lambda>_. and_then (find_skill_key s (adm_signer (metadata a))) (\<lambda>k.
     let refusal = ''registry signer/admission excludes the entire protected UTC interval'' in
     and_then (interval_within i (skill_key_not_before k) (skill_key_expires k)) (\<lambda>b.
     if \<not> b then Err refusal
     else and_then (interval_within i (adm_not_before (metadata a)) (adm_expires (metadata a))) (\<lambda>b.
     if \<not> b then Err refusal else Ok ()))))"

section \<open>Anchored state\<close>

definition retains_skill_key :: "signed_skill_trust \<Rightarrow> skill_key \<Rightarrow> unit result" where
  "retains_skill_key nxt k =
     and_then (ok_or (find (\<lambda>k'. skill_key_id k' = skill_key_id k) (skill_keys (skill_trust_of nxt)))
       ''skill trust must retain historical signer identities'') (\<lambda>k'.
     if skill_public_key k \<noteq> skill_public_key k' \<or> (skill_key_revoked k \<and> \<not> skill_key_revoked k')
     then Err ''skill signer identity reuse or revocation reversal refused'' else Ok ())"

definition skill_publish :: "skill_services \<Rightarrow> skill_state option \<Rightarrow> u64 \<Rightarrow> signed_skill_trust \<Rightarrow> skill_state result" where
  "skill_publish sv state expected nxt =
     and_then (skill_trust_validate sv nxt) (\<lambda>_.
     let refusal = ''skill trust publication requires the exact current version and predecessor'';
         version = (case state of None \<Rightarrow> 0 | Some s \<Rightarrow> skill_version (skill_trust_of (skill_anchored s))) in
     if expected \<noteq> version then Err refusal
     else and_then (ok_or (checked_add expected 1) ''skill trust version exhausted'') (\<lambda>v.
     if skill_version (skill_trust_of nxt) \<noteq> v then Err refusal
     else and_then (case state of None \<Rightarrow> Ok (replicate 64 CHR ''0'') | Some s \<Rightarrow> skill_trust_digest sv (skill_anchored s)) (\<lambda>previous.
     if skill_previous (skill_trust_of nxt) \<noteq> previous then Err refusal
     else case state of
       None \<Rightarrow> Ok \<lparr>skill_anchored = nxt, skill_floor = 0, skill_current = None\<rparr>
     | Some old \<Rightarrow>
         if skill_environment (skill_trust_of nxt) \<noteq> skill_environment (skill_trust_of (skill_anchored old))
            \<or> skill_root (skill_trust_of nxt) \<noteq> skill_root (skill_trust_of (skill_anchored old))
         then Err ''skill publication cannot replace the provisioned root or environment''
         else and_then (for_all (retains_skill_key nxt) (skill_keys (skill_trust_of (skill_anchored old)))) (\<lambda>_.
           Ok (old\<lparr>skill_anchored := nxt\<rparr>)))))"

definition skill_admit :: "skill_services \<Rightarrow> skill_state option \<Rightarrow> u64 \<Rightarrow> skill_admission \<Rightarrow> skill_state result" where
  "skill_admit sv state expected_floor a =
     and_then (ok_or state ''skill trust must be anchored before registry admission'') (\<lambda>s.
     and_then (skill_binding sv a (skill_anchored s)) (\<lambda>_.
     if expected_floor \<noteq> skill_floor s \<or> adm_sequence (metadata a) < skill_floor s
        \<or> (adm_sequence (metadata a) = skill_floor s \<and> skill_current s \<noteq> Some a)
     then Err ''skill registry admission lowers a floor, changes a same-sequence digest or uses a stale review''
     else Ok (s\<lparr>skill_floor := adm_sequence (metadata a), skill_current := Some a\<rparr>)))"

definition current_admission :: "skill_services \<Rightarrow> skill_state \<Rightarrow> skill_admission result" where
  "current_admission sv s =
     and_then (ok_or (skill_current s) ''no committed skill registry admission'') (\<lambda>a.
     and_then (skill_binding sv a (skill_anchored s)) (\<lambda>_.
     if adm_sequence (metadata a) \<noteq> skill_floor s then Err ''skill registry admission differs from its current monotonic floor'' else Ok a))"

section \<open>Histories of skill authority\<close>

datatype skill_event = PublishSkill u64 signed_skill_trust | AdmitSkill u64 skill_admission

fun skill_apply :: "skill_services \<Rightarrow> skill_state option \<Rightarrow> skill_event \<Rightarrow> skill_state result" where
  "skill_apply sv st (PublishSkill expected t) = skill_publish sv st expected t"
| "skill_apply sv st (AdmitSkill expected a) = skill_admit sv st expected a"

definition skill_step :: "skill_services \<Rightarrow> skill_state option \<Rightarrow> skill_event \<Rightarrow> skill_state option" where
  "skill_step sv st e = (case skill_apply sv st e of Inl _ \<Rightarrow> st | Inr s \<Rightarrow> Some s)"

definition skill_keys_of :: "skill_state option \<Rightarrow> skill_key list" where
  "skill_keys_of st = (case st of None \<Rightarrow> [] | Some s \<Rightarrow> skill_keys (skill_trust_of (skill_anchored s)))"

definition skill_floor_of :: "skill_state option \<Rightarrow> nat" where
  "skill_floor_of st = (case st of None \<Rightarrow> 0 | Some s \<Rightarrow> unat (skill_floor s))"

definition skill_version_of :: "skill_state option \<Rightarrow> nat" where
  "skill_version_of st = (case st of None \<Rightarrow> 0 | Some s \<Rightarrow> unat (skill_version (skill_trust_of (skill_anchored s))))"

definition skill_ok :: "skill_state option \<Rightarrow> bool" where
  "skill_ok st \<longleftrightarrow> (\<forall>s. st = Some s \<longrightarrow> distinct (map skill_key_id (skill_keys (skill_trust_of (skill_anchored s))))
     \<and> (\<forall>a. skill_current s = Some a \<longrightarrow> adm_sequence (metadata a) = skill_floor s))"

lemma validate_skill_keys_distinct:
  "validate_skill_keys sv t ids public ks = Ok u \<Longrightarrow> distinct (map skill_key_id ks) \<and> set (map skill_key_id ks) \<inter> ids = {}"
  by (induction ks arbitrary: ids public) (auto simp: result_simps)

lemma skill_trust_distinct: "skill_trust_validate sv s = Ok u \<Longrightarrow> distinct (map skill_key_id (skill_keys (skill_trust_of s)))"
  by (auto simp: skill_trust_validate_def result_simps Let_def dest: validate_skill_keys_distinct)

lemma skill_publish_Ok:
  assumes "skill_publish sv st expected nxt = Ok s"
  shows "skill_trust_validate sv nxt = Ok ()" "unat (skill_version (skill_trust_of nxt)) = Suc (skill_version_of st)" "skill_anchored s = nxt"
    "\<And>old. st = Some old \<Longrightarrow> s = old\<lparr>skill_anchored := nxt\<rparr>
       \<and> (\<forall>k \<in> set (skill_keys (skill_trust_of (skill_anchored old))). retains_skill_key nxt k = Ok ())"
    "st = None \<Longrightarrow> s = \<lparr>skill_anchored = nxt, skill_floor = 0, skill_current = None\<rparr>"
  using assms
  by (auto simp: skill_publish_def result_simps Let_def skill_version_of_def dest!: checked_add_one split: option.splits)

lemma skill_binding_key: "skill_binding sv a s = Ok u \<Longrightarrow> \<exists>k. find_skill_key s (adm_signer (metadata a)) = Ok k"
  by (auto simp: skill_binding_def result_simps Let_def)

lemma skill_admit_Ok:
  assumes "skill_admit sv st expected a = Ok s'"
  obtains s where "st = Some s" "\<exists>k. find_skill_key (skill_anchored s) (adm_signer (metadata a)) = Ok k" "skill_floor s \<le> adm_sequence (metadata a)"
    "adm_sequence (metadata a) = skill_floor s \<longrightarrow> skill_current s = Some a"
    "s' = s\<lparr>skill_floor := adm_sequence (metadata a), skill_current := Some a\<rparr>"
  using assms skill_binding_key by (fastforce simp: skill_admit_def result_simps not_less)

lemma skill_apply_ok:
  assumes "skill_ok st" "skill_apply sv st e = Ok s"
  shows "skill_ok (Some s)"
proof (cases e)
  case (PublishSkill x t)
  then have "skill_publish sv st x t = Ok s" using assms(2) by simp
  from skill_publish_Ok [OF this] show ?thesis
    using assms(1) skill_trust_distinct [of sv t] by (cases st) (auto simp: skill_ok_def)
next
  case (AdmitSkill x a)
  then show ?thesis using assms by (auto simp: skill_ok_def elim!: skill_admit_Ok)
qed

lemma skill_keys_kept:
  assumes "skill_apply sv st e = Ok s" "k \<in> set (skill_keys_of st)"
  shows "\<exists>k' \<in> set (skill_keys_of (Some s)). skill_key_id k' = skill_key_id k \<and> skill_public_key k' = skill_public_key k
    \<and> (skill_key_revoked k \<longrightarrow> skill_key_revoked k')"
proof (cases e)
  case (PublishSkill x t)
  then have pub: "skill_publish sv st x t = Ok s" using assms(1) by simp
  obtain old where old: "st = Some old" "k \<in> set (skill_keys (skill_trust_of (skill_anchored old)))"
    using assms(2) by (auto simp: skill_keys_of_def split: option.splits)
  then have "retains_skill_key t k = Ok ()" "skill_anchored s = t" using skill_publish_Ok [OF pub] by blast+
  then show ?thesis by (auto simp: retains_skill_key_def result_simps find_Some_iff skill_keys_of_def)
qed (use assms in \<open>auto simp: skill_keys_of_def elim!: skill_admit_Ok\<close>)

lemma skill_floor_mono:
  assumes "skill_apply sv st e = Ok s"
  shows "skill_floor_of st \<le> unat (skill_floor s)" "skill_version_of st \<le> unat (skill_version (skill_trust_of (skill_anchored s)))"
proof -
  have "skill_floor_of st \<le> unat (skill_floor s) \<and> skill_version_of st \<le> unat (skill_version (skill_trust_of (skill_anchored s)))"
  proof (cases e)
    case (PublishSkill x t)
    then have "skill_publish sv st x t = Ok s" using assms by simp
    from skill_publish_Ok [OF this] show ?thesis by (cases st) (auto simp: skill_floor_of_def)
  qed (use assms in \<open>auto simp: skill_floor_of_def skill_version_of_def word_le_nat_alt elim!: skill_admit_Ok\<close>)
  then show "skill_floor_of st \<le> unat (skill_floor s)" "skill_version_of st \<le> unat (skill_version (skill_trust_of (skill_anchored s)))" by auto
qed

interpretation skill: trust_history "\<lambda>st. st = None" "skill_step sv" skill_ok skill_keys_of skill_key_id skill_public_key
  "\<lambda>k (_ :: unit). skill_key_revoked k" skill_floor_of skill_version_of for sv
proof
  show "skill_ok (skill_step sv st e)" if "skill_ok st" for st e
    using that skill_apply_ok [OF that] by (auto simp: skill_step_def split: sum.splits)
  show "distinct (map skill_key_id (skill_keys_of st))" if "skill_ok st" for st
    using that by (auto simp: skill_ok_def skill_keys_of_def split: option.splits)
  show "\<exists>k' \<in> set (skill_keys_of (skill_step sv st e)). skill_key_id k' = skill_key_id k \<and> skill_public_key k' = skill_public_key k
      \<and> (\<forall>t :: unit. skill_key_revoked k \<longrightarrow> skill_key_revoked k')" if "skill_ok st" "k \<in> set (skill_keys_of st)" for st k e
    using that skill_keys_kept [of sv st e _ k] by (cases "skill_apply sv st e") (auto simp: skill_step_def)
  show "skill_floor_of st \<le> skill_floor_of (skill_step sv st e)" for st e
    using skill_floor_mono(1) [of sv st e] by (auto simp: skill_step_def skill_floor_of_def split: sum.splits)
  show "skill_version_of st \<le> skill_version_of (skill_step sv st e)" for st e
    using skill_floor_mono(2) [of sv st e] by (auto simp: skill_step_def skill_version_of_def split: sum.splits)
qed (simp_all add: skill_ok_def)

abbreviation skill_run :: "skill_services \<Rightarrow> skill_event list \<Rightarrow> skill_state option" where
  "skill_run sv es \<equiv> foldl (skill_step sv) None es"

lemma skill_reachable: "skill_ok (skill_run sv es)"
  by (rule skill.invariant_reachable) simp

text \<open>The sequence number of an admission is taken by it.\<close>

definition sequence_taken :: "skill_admission \<Rightarrow> skill_state option \<Rightarrow> bool" where
  "sequence_taken a st \<longleftrightarrow> (\<exists>s. st = Some s \<and> adm_sequence (metadata a) \<le> skill_floor s
     \<and> (skill_floor s = adm_sequence (metadata a) \<longrightarrow> skill_current s = Some a))"

lemma sequence_taken_step: "sequence_taken a st \<Longrightarrow> sequence_taken a (skill_step sv st e)"
proof -
  assume taken: "sequence_taken a st"
  have "sequence_taken a (Some s)" if "skill_apply sv st e = Ok s" for s
  proof (cases e)
    case (PublishSkill x t)
    then have "skill_publish sv st x t = Ok s" using that by simp
    then obtain old where "st = Some old" "s = old\<lparr>skill_anchored := t\<rparr>" using skill_publish_Ok(4) taken by (fastforce simp: sequence_taken_def)
    then show ?thesis using taken by (auto simp: sequence_taken_def)
  next
    case (AdmitSkill x b)
    then show ?thesis using that taken by (auto simp: sequence_taken_def elim!: skill_admit_Ok)
  qed
  with taken show ?thesis by (auto simp: skill_step_def split: sum.splits)
qed

lemma sequence_taken_run: "sequence_taken a st \<Longrightarrow> sequence_taken a (foldl (skill_step sv) st es)"
  by (induction es arbitrary: st) (simp_all add: sequence_taken_step)

lemma find_skill_key_alive:
  "find_skill_key s name = Ok k \<Longrightarrow> k \<in> set (skill_keys (skill_trust_of s)) \<and> skill_key_id k = name \<and> \<not> skill_key_revoked k"
  by (auto simp: find_skill_key_def result_simps find_Some_iff)

text \<open>
  C37: A skill registry admission is final. After an admission was accepted, whatever publications and admissions follow,
  an admission is accepted only with a higher sequence number or as the identical admission, and never under the name of
  a key that was revoked by then.
\<close>

theorem skill_admission_final:
  assumes first: "skill_admit sv (skill_run sv es) f a = Ok s"
    and later: "skill_admit sv (foldl (skill_step sv) (Some s) es') g b = Ok t"
  shows "(adm_sequence (metadata a) < adm_sequence (metadata b) \<or> b = a)
    \<and> (\<forall>k. k \<in> set (skill_keys_of (Some s)) \<and> skill_key_revoked k \<longrightarrow> adm_signer (metadata b) \<noteq> skill_key_id k)"
proof -
  let ?st = "foldl (skill_step sv) (Some s) es'"
  have ok: "skill_ok (Some s)"
    using skill_apply_ok [OF skill_reachable [of sv es], of sv "AdmitSkill f a" s] first by simp
  have "sequence_taken a (Some s)" using first by (auto simp: sequence_taken_def elim!: skill_admit_Ok)
  then have "sequence_taken a ?st" by (rule sequence_taken_run)
  then have order: "adm_sequence (metadata a) < adm_sequence (metadata b) \<or> b = a"
    using later by (fastforce simp: sequence_taken_def elim!: skill_admit_Ok)
  moreover have "adm_signer (metadata b) \<noteq> skill_key_id k" if "k \<in> set (skill_keys_of (Some s))" "skill_key_revoked k" for k
  proof
    assume same: "adm_signer (metadata b) = skill_key_id k"
    obtain st k1 where "?st = Some st" "find_skill_key (skill_anchored st) (skill_key_id k) = Ok k1"
      using later same by (auto elim!: skill_admit_Ok)
    then have "k1 \<in> set (skill_keys_of ?st)" "skill_key_id k1 = skill_key_id k" "\<not> skill_key_revoked k1"
      using find_skill_key_alive [of "skill_anchored st" "skill_key_id k" k1] by (simp_all add: skill_keys_of_def)
    then show False using skill.dead_forever [OF ok that(1), of k1 sv es'] that(2) by simp
  qed
  ultimately show ?thesis by blast
qed

section \<open>A sample history\<close>

definition sample_skill_services :: skill_services where
  "sample_skill_services = \<lparr>skill_trust_length = (\<lambda>_. 100), skill_trust_hash = (\<lambda>_. replicate 64 CHR ''a''),
     skill_admission_length = (\<lambda>_. 100), skill_fingerprint = (\<lambda>_. replicate 64 CHR ''b''), skill_verify = (\<lambda>_ _ _. Ok ())\<rparr>"

definition sample_skill_trust :: signed_skill_trust where
  "sample_skill_trust = \<lparr>skill_trust_of = \<lparr>skill_schema = 1, skill_environment = ''lab'', skill_domain = SKILL_DOMAIN,
     skill_purpose = SKILL_DOMAIN, skill_policy = SKILL_POLICY, skill_version = 1, skill_previous = replicate 64 CHR ''0'',
     skill_root = replicate 64 CHR ''1'', skill_not_before = 1000, skill_expires = 2000,
     skill_keys = [\<lparr>skill_key_id = ''k1'', skill_public_key = replicate 64 CHR ''2'', skill_key_role = SKILL_ROLE,
       skill_key_purpose = SKILL_DOMAIN, skill_key_not_before = 1000, skill_key_expires = 2000, skill_key_revoked = False\<rparr>]\<rparr>,
     skill_signature = replicate 128 CHR ''3''\<rparr>"

definition sample_skill_admission :: "u64 \<Rightarrow> skill_admission" where
  "sample_skill_admission n = \<lparr>metadata = \<lparr>adm_schema = 1, adm_environment = ''lab'', adm_domain = SKILL_DOMAIN, adm_purpose = SKILL_DOMAIN,
     adm_policy = SKILL_POLICY, adm_sequence = n, adm_trust_version = 1, adm_trust_sha256 = replicate 64 CHR ''a'',
     adm_registry_sha256 = replicate 64 CHR ''4'', adm_workflow_sha256 = replicate 64 CHR ''5'', adm_not_before = 1000, adm_expires = 2000,
     adm_signer = ''k1''\<rparr>, adm_signature = replicate 128 CHR ''6''\<rparr>"

definition sample_skill_history :: "skill_event list" where
  "sample_skill_history = [PublishSkill 0 sample_skill_trust]"

text \<open>The sample texts are canonical, so the history is computed by rewriting.\<close>

lemma sample_skill_digits: "is_lower_hex CHR ''0''" "is_lower_hex CHR ''1''" "is_lower_hex CHR ''2''" "is_lower_hex CHR ''3''" "is_lower_hex CHR ''4''"
  "is_lower_hex CHR ''5''" "is_lower_hex CHR ''6''" "is_lower_hex CHR ''a''" "admin_identifier ''k1''" "hex_value CHR ''2'' = 2"
  by code_simp+

lemma sample_skill_canonical: "is_lower_hex c \<Longrightarrow> io_hash (replicate 64 c)"
  "is_lower_hex c \<Longrightarrow> hex_value c \<noteq> 0 \<Longrightarrow> skill_key_raw (replicate 64 c) = Ok (replicate 32 (17 * hex_value c))"
  "is_lower_hex c \<Longrightarrow> skill_signature_raw (replicate 128 c) = Ok (replicate 64 (17 * hex_value c))"
  by (simp_all add: skill_key_raw_def skill_signature_raw_def tpm_decode_replicate hex_replicate_value zero_digest_def replicate_eq_replicate io_hash_def hex_string_def list_all_iff)

lemma sample_skill_valid: "skill_trust_validate sample_skill_services sample_skill_trust = Ok ()"
  by (simp add: skill_trust_validate_def sample_skill_trust_def sample_skill_services_def Let_def skill_finite_def skill_validity_def sample_skill_canonical
      sample_skill_digits SKILL_DOMAIN_def SKILL_ROLE_def SKILL_POLICY_def skill_valid_environment_def I64_MAX_def MAX_BUNDLE_def)

definition sample_skill_state :: "u64 \<Rightarrow> skill_state" where
  "sample_skill_state n = \<lparr>skill_anchored = sample_skill_trust, skill_floor = n,
     skill_current = (if n = 0 then None else Some (sample_skill_admission n))\<rparr>"

lemma sample_skill_run: "skill_run sample_skill_services sample_skill_history = Some (sample_skill_state 0)"
  by (simp add: sample_skill_history_def skill_step_def skill_publish_def sample_skill_valid checked_add_def Let_def)
    (simp add: sample_skill_trust_def sample_skill_state_def)

lemma sample_skill_again: "foldl (skill_step sample_skill_services) (Some (sample_skill_state n)) sample_skill_history = Some (sample_skill_state n)"
  by (simp add: sample_skill_history_def skill_step_def skill_publish_def sample_skill_valid Let_def)
    (simp add: sample_skill_trust_def sample_skill_state_def)

lemma sample_skill_digest: "skill_trust_digest sample_skill_services sample_skill_trust = Ok (replicate 64 CHR ''a'')"
  by (simp add: skill_trust_digest_def sample_skill_valid) (simp add: sample_skill_services_def)

lemma sample_skill_bound:
  assumes "n \<noteq> 0" "n \<le> I64_MAX"
  shows "skill_binding sample_skill_services (sample_skill_admission n) sample_skill_trust = Ok ()"
  using assms unfolding skill_binding_def skill_admission_validate_def sample_skill_valid sample_skill_digest find_skill_key_def Let_def
  by (simp add: sample_skill_trust_def sample_skill_admission_def sample_skill_services_def skill_finite_def skill_validity_def sample_skill_canonical
      sample_skill_digits SKILL_DOMAIN_def SKILL_POLICY_def skill_valid_environment_def not_less)

lemma sample_skill_admit:
  assumes "m < n" "n \<le> I64_MAX"
  shows "skill_admit sample_skill_services (Some (sample_skill_state m)) m (sample_skill_admission n) = Ok (sample_skill_state n)"
proof -
  have "n \<noteq> 0" using assms(1) by auto
  moreover have "adm_sequence (metadata (sample_skill_admission n)) = n" by (simp add: sample_skill_admission_def)
  ultimately show ?thesis using assms sample_skill_bound [of n] by (simp add: skill_admit_def sample_skill_state_def not_less less_imp_le)
qed

theorem skill_admission_final_witness:
  "skill_admit sample_skill_services (skill_run sample_skill_services sample_skill_history) 0 (sample_skill_admission 3) = Ok (sample_skill_state 3)
     \<and> skill_admit sample_skill_services (foldl (skill_step sample_skill_services) (Some (sample_skill_state 3)) sample_skill_history) 3
         (sample_skill_admission 4) = Ok (sample_skill_state 4)
     \<and> (adm_sequence (metadata (sample_skill_admission 3)) < adm_sequence (metadata (sample_skill_admission 4))
        \<or> sample_skill_admission 4 = sample_skill_admission 3)"
proof -
  have s: "skill_admit sample_skill_services (skill_run sample_skill_services sample_skill_history) 0 (sample_skill_admission 3) = Ok (sample_skill_state 3)"
    by (simp add: sample_skill_run sample_skill_admit I64_MAX_def)
  have t: "skill_admit sample_skill_services (foldl (skill_step sample_skill_services) (Some (sample_skill_state 3)) sample_skill_history) 3
         (sample_skill_admission 4) = Ok (sample_skill_state 4)"
    by (simp add: sample_skill_again sample_skill_admit I64_MAX_def)
  show ?thesis using skill_admission_final [OF s t] s t by blast
qed

end
