(* ===== verification/Calendar.thy ===== *)
theory Calendar
  imports Prelude
begin

text \<open>
  The UTC timestamps of the model documents (\<open>timestamp\<close> and \<open>utc_timestamp\<close> of \<open>model_trust.rs\<close>): the proleptic
  Gregorian calendar by eras of 400 years, in both directions. The values stay far below the bounds of \<open>i64\<close>, so the
  arithmetic is that of the integers; \<open>div_euclid\<close> is \<open>div\<close>.
\<close>

section \<open>Reading\<close>

definition decimal_value :: "string \<Rightarrow> int" where
  "decimal_value s = foldl (\<lambda>a c. 10 * a + int (digit_value c)) 0 s"

definition slice :: "nat \<Rightarrow> nat \<Rightarrow> string \<Rightarrow> string" where
  "slice start stop s = take (stop - start) (drop start s)"

definition number :: "string \<Rightarrow> nat \<Rightarrow> nat \<Rightarrow> int result" where
  "number text start stop =
     (if \<not> list_all is_ascii_digit (slice start stop text) then Err ''invalid UTC timestamp digits''
      else Ok (decimal_value (slice start stop text)))"

definition leap_year :: "int \<Rightarrow> bool" where
  "leap_year year \<longleftrightarrow> year mod 4 = 0 \<and> (year mod 100 \<noteq> 0 \<or> year mod 400 = 0)"

definition days_in_month :: "int \<Rightarrow> int \<Rightarrow> int" where
  "days_in_month year month =
     (if month \<in> {1, 3, 5, 7, 8, 10, 12} then 31 else if month \<in> {4, 6, 9, 11} then 30
      else if month = 2 then (if leap_year year then 29 else 28) else 0)"

definition days_from_civil :: "int \<Rightarrow> int \<Rightarrow> int \<Rightarrow> int" where
  "days_from_civil year month day =
     (let y = year - (if month \<le> 2 then 1 else 0);
          era = y div 400;
          yoe = y - era * 400;
          m = month + (if month > 2 then -3 else 9);
          doy = (153 * m + 2) div 5 + day - 1
      in era * 146097 + yoe * 365 + yoe div 4 - yoe div 100 + doy - 719468)"

definition timestamp :: "string \<Rightarrow> int result" where
  "timestamp text =
     (if length text \<noteq> 20 \<or> text ! 4 \<noteq> CHR ''-'' \<or> text ! 7 \<noteq> CHR ''-'' \<or> text ! 10 \<noteq> CHR ''T'' \<or> text ! 13 \<noteq> CHR '':''
         \<or> text ! 16 \<noteq> CHR '':'' \<or> text ! 19 \<noteq> CHR ''Z''
      then Err ''model timestamps require exact second-precision UTC''
      else and_then (number text 0 4) (\<lambda>year. and_then (number text 5 7) (\<lambda>month. and_then (number text 8 10) (\<lambda>day.
      and_then (number text 11 13) (\<lambda>hour. and_then (number text 14 16) (\<lambda>minute. and_then (number text 17 19) (\<lambda>second.
      if year < 1 \<or> day < 1 \<or> days_in_month year month < day \<or> 23 < hour \<or> 59 < minute \<or> 59 < second
      then Err ''invalid Gregorian UTC timestamp''
      else Ok ((days_from_civil year month day * 86400 + hour * 3600 + minute * 60 + second) * 1000))))))))"

section \<open>Writing\<close>

text \<open>\<open>{n:0w}\<close>\<close>

definition padded :: "nat \<Rightarrow> int \<Rightarrow> string" where
  "padded w n = (let s = decimal (nat n) in replicate (w - length s) CHR ''0'' @ s)"

definition civil_from_days :: "int \<Rightarrow> int \<times> int \<times> int" where
  "civil_from_days days =
     (let z = days + 719468;
          era = z div 146097;
          doe = z - era * 146097;
          yoe = (doe - doe div 1460 + doe div 36524 - doe div 146096) div 365;
          year = yoe + era * 400;
          doy = doe - (365 * yoe + yoe div 4 - yoe div 100);
          mp = (5 * doy + 2) div 153;
          day = doy - (153 * mp + 2) div 5 + 1;
          month = mp + (if mp < 10 then 3 else -9)
      in (year + (if month \<le> 2 then 1 else 0), month, day))"

definition format_timestamp :: "int \<Rightarrow> int \<Rightarrow> int \<Rightarrow> int \<Rightarrow> string" where
  "format_timestamp year month day seconds =
     padded 4 year @ ''-'' @ padded 2 month @ ''-'' @ padded 2 day @ ''T'' @ padded 2 (seconds div 3600) @ '':''
       @ padded 2 ((seconds div 60) mod 60) @ '':'' @ padded 2 (seconds mod 60) @ ''Z''"

definition utc_timestamp :: "int \<Rightarrow> string result" where
  "utc_timestamp ms =
     (if ms < 0 then Err ''model decisions require positive protected UTC''
      else case civil_from_days (ms div 86400000) of (year, month, day) \<Rightarrow>
        let text = format_timestamp year month day (ms mod 86400000 div 1000) in
        and_then (timestamp text) (\<lambda>_. Ok text))"

section \<open>The year of the era\<close>

lemma div_shift: "c * k \<le> x \<Longrightarrow> x < c * k + c \<Longrightarrow> 0 < c \<Longrightarrow> x div c = (k :: int)"
  by (rule int_div_pos_eq [of x c k "x - c * k"]) auto

text \<open>A day of the era is century, four-year cycle, year of the cycle and day of the year.\<close>

lemma year_of_era_full:
  fixes doe b q s :: int
  assumes b: "0 \<le> b" "b \<le> 3" and q: "0 \<le> q" "q \<le> 24" and s: "0 \<le> s" "s < 1461" "q = 24 \<longrightarrow> s < 1460"
    and doe: "doe = 36524 * b + 1461 * q + s"
    and yoe: "yoe = (doe - doe div 1460 + doe div 36524 - doe div 146096) div 365"
  shows "\<exists>u. 0 \<le> u \<and> u \<le> 3 \<and> yoe = 100 * b + 4 * q + u \<and> 365 * u \<le> s \<and> s \<le> 365 * u + 365
    \<and> (s = 365 * u + 365 \<longrightarrow> u = 3 \<and> q < 24)"
proof -
  define e where "e = (if 1460 \<le> q + s + 24 * b then 1 else 0 :: int)"
  define u where "u = (s - e) div 365"
  have e: "e = 1 \<longrightarrow> 1364 \<le> s" "e = 0 \<longrightarrow> s \<le> 1459" "0 \<le> e" "e \<le> 1" using b q s by (auto simp: e_def)
  have d1: "doe div 1460 = 25 * b + q + e" using b q s by (intro div_shift) (auto simp: doe e_def)
  have d2: "doe div 36524 = b" using b q s by (intro div_shift) (auto simp: doe)
  have d3: "doe div 146096 = 0" using b q s by (intro div_shift) (auto simp: doe)
  have u: "365 * u \<le> s - e" "s - e < 365 * u + 365" by (auto simp: u_def)
  have range: "0 \<le> s - e" "s - e \<le> 1459" using e s by (auto simp: e_def)
  have ur: "0 \<le> u" "u \<le> 3" using u range by linarith+
  have "yoe = (365 * (100 * b + 4 * q) + (s - e)) div 365"
    unfolding yoe d1 d2 d3 by (simp add: doe algebra_simps)
  also have "\<dots> = 100 * b + 4 * q + u" using u by (intro div_shift) auto
  finally have y: "yoe = 100 * b + 4 * q + u" .
  have last: "s = 365 * u + 365 \<longrightarrow> u = 3 \<and> q < 24"
  proof
    assume s': "s = 365 * u + 365"
    then have "e = 1" using u e by linarith
    then have "1364 \<le> s" using e by simp
    then have "u = 3" using s' ur by linarith
    then show "u = 3 \<and> q < 24" using s' s q by auto
  qed
  show ?thesis using y ur u e last by (intro exI [of _ u]) auto
qed

lemma year_of_era:
  fixes doe :: int
  assumes doe: "0 \<le> doe" "doe < 146097"
    and yoe: "yoe = (doe - doe div 1460 + doe div 36524 - doe div 146096) div 365"
    and doy: "doy = doe - (365 * yoe + yoe div 4 - yoe div 100)"
  shows "0 \<le> yoe \<and> yoe < 400 \<and> 0 \<le> doy \<and> doy \<le> 365
    \<and> (doy = 365 \<longrightarrow> (yoe + 1) mod 4 = 0 \<and> ((yoe + 1) mod 100 \<noteq> 0 \<or> (yoe + 1) mod 400 = 0))"
proof (cases "doe = 146096")
  case True
  then show ?thesis by (simp add: yoe doy)
next
  case False
  define b where "b = doe div 36524"
  define r where "r = doe mod 36524"
  define q where "q = r div 1461"
  define s where "s = r mod 1461"
  have r: "0 \<le> r" "r < 36524" "doe = 36524 * b + r" by (auto simp: r_def b_def)
  have b: "0 \<le> b" "b \<le> 3" using doe False r by linarith+
  have q0: "0 \<le> s" "s < 1461" "r = 1461 * q + s" by (auto simp: s_def q_def)
  have q: "0 \<le> q" "q \<le> 24" "q = 24 \<longrightarrow> s < 1460" using r q0 by linarith+
  have split: "doe = 36524 * b + 1461 * q + s" using r q0 by simp
  obtain u where u: "0 \<le> u" "u \<le> 3" "yoe = 100 * b + 4 * q + u" "365 * u \<le> s" "s \<le> 365 * u + 365"
    "s = 365 * u + 365 \<longrightarrow> u = 3 \<and> q < 24"
    using year_of_era_full [OF b q(1,2) q0(1,2) q(3) split yoe] by blast
  have y4: "yoe div 4 = 25 * b + q" using u by (intro div_shift) auto
  have y100: "yoe div 100 = b" using u b q by (intro div_shift) auto
  have d: "doy = s - 365 * u" unfolding doy y4 y100 by (simp add: split u(3))
  have leap: "(yoe + 1) mod 4 = 0 \<and> (yoe + 1) mod 100 \<noteq> 0" if "doy = 365"
  proof -
    have uq: "u = 3" "q < 24" using that d u(6) by auto
    then have "yoe + 1 = 4 * (25 * b + q + 1)" "yoe + 1 = 100 * b + 4 * (q + 1)" using u(3) by simp_all
    moreover have "(100 * b + 4 * (q + 1)) mod 100 = 4 * (q + 1)" using uq q by simp
    ultimately show ?thesis using q by (metis mod_mult_self1_is_0 add_nonneg_pos mult_pos_pos zero_less_numeral zero_less_one less_irrefl)
  qed
  show ?thesis using u b q d leap by auto
qed

lemma month_of_year:
  fixes doy :: int
  assumes doy: "0 \<le> doy" "doy \<le> 365" and mp: "mp = (5 * doy + 2) div 153"
    and day: "day = doy - (153 * mp + 2) div 5 + 1" and month: "month = mp + (if mp < 10 then 3 else -9)"
  shows "0 \<le> mp" "mp \<le> 11" "1 \<le> day" "day \<le> 31" "month \<in> {4, 6, 9, 11} \<Longrightarrow> day \<le> 30"
    "month = 2 \<Longrightarrow> day \<le> (if doy = 365 then 29 else 28)" "mp < 10 \<longleftrightarrow> doy < 306"
proof -
  have m: "153 * mp \<le> 5 * doy + 2" "5 * doy + 2 < 153 * mp + 153" by (auto simp: mp)
  show "0 \<le> mp" "mp \<le> 11" using m doy by linarith+
  then have cases: "mp = 0 \<or> mp = 1 \<or> mp = 2 \<or> mp = 3 \<or> mp = 4 \<or> mp = 5 \<or> mp = 6 \<or> mp = 7 \<or> mp = 8 \<or> mp = 9 \<or> mp = 10 \<or> mp = 11"
    by presburger
  show "1 \<le> day" "day \<le> 31" using cases m doy by (auto simp: day)
  show "month \<in> {4, 6, 9, 11} \<Longrightarrow> day \<le> 30" using cases m doy by (auto simp: day month)
  show "month = 2 \<Longrightarrow> day \<le> (if doy = 365 then 29 else 28)" using cases m doy by (auto simp: day month)
  show "mp < 10 \<longleftrightarrow> doy < 306" using m by linarith
qed

lemma leap_era: "leap_year (y + era * 400) \<longleftrightarrow> y mod 4 = 0 \<and> (y mod 100 \<noteq> 0 \<or> y mod 400 = 0)"
proof -
  have "(y + era * 400) mod 4 = y mod 4" "(y + era * 400) mod 100 = y mod 100" "(y + era * 400) mod 400 = y mod 400"
    using mod_mult_self2 [of y 4 "era * 100"] mod_mult_self2 [of y 100 "era * 4"] mod_mult_self2 [of y 400 era] by (simp_all add: algebra_simps)
  then show ?thesis by (simp add: leap_year_def)
qed

text \<open>The two calendar conversions are inverse on valid dates.\<close>

lemma civil_round_trip:
  assumes "civil_from_days days = (year, month, day)"
  shows "days_from_civil year month day = days" "1 \<le> month" "month \<le> 12" "1 \<le> day" "day \<le> days_in_month year month"
    "0 \<le> days \<Longrightarrow> 1970 - 1 \<le> year" "days < 2932897 \<Longrightarrow> year \<le> 9999" "day \<le> 31"
proof -
  define z where "z = days + 719468"
  define era where "era = z div 146097"
  define doe where "doe = z - era * 146097"
  define yoe where "yoe = (doe - doe div 1460 + doe div 36524 - doe div 146096) div 365"
  define doy where "doy = doe - (365 * yoe + yoe div 4 - yoe div 100)"
  define mp where "mp = (5 * doy + 2) div 153"
  have doe: "0 \<le> doe" "doe < 146097" by (auto simp: doe_def era_def minus_div_mult_eq_mod)
  note y = year_of_era [OF doe yoe_def doy_def]
  have d: "day = doy - (153 * mp + 2) div 5 + 1" and m: "month = mp + (if mp < 10 then 3 else -9)"
    and yr: "year = yoe + era * 400 + (if month \<le> 2 then 1 else 0)"
    using assms
    unfolding civil_from_days_def Let_def z_def [symmetric] era_def [symmetric] doe_def [symmetric] yoe_def [symmetric]
      doy_def [symmetric] mp_def [symmetric] by auto
  have mo: "0 \<le> mp" "mp \<le> 11" "1 \<le> day" "day \<le> 31" "month \<in> {4, 6, 9, 11} \<Longrightarrow> day \<le> 30"
    "month = 2 \<Longrightarrow> day \<le> (if doy = 365 then 29 else 28)" "mp < 10 \<longleftrightarrow> doy < 306"
    using month_of_year [OF _ _ mp_def d m] y by auto
  show "1 \<le> month" "month \<le> 12" using mo(1,2) m by auto
  show "1 \<le> day" "day \<le> 31" by (fact mo)+
  have low: "month \<le> 2 \<longleftrightarrow> 10 \<le> mp" using mo(1,2) m by auto
  show "days_from_civil year month day = days"
  proof -
    have "(yoe + era * 400) div 400 = era" using y by (intro div_shift) auto
    moreover have "month + (if month > 2 then -3 else 9) = mp" using low m by auto
    ultimately show ?thesis using yr d by (simp add: days_from_civil_def Let_def doy_def doe_def z_def)
  qed
  show "day \<le> days_in_month year month"
  proof (cases "month = 2")
    case True
    have "leap_year year" if "doy = 365" using that y True yr leap_era [of "yoe + 1" era] by (simp add: algebra_simps)
    then show ?thesis using mo(6) True by (auto simp: days_in_month_def split: if_splits)
  next
    case False
    then have "month \<in> {1, 3, 5, 7, 8, 10, 12} \<or> month \<in> {4, 6, 9, 11}" using \<open>1 \<le> month\<close> \<open>month \<le> 12\<close> by simp presburger
    then show ?thesis using mo(4,5) by (auto simp: days_in_month_def)
  qed
  have z: "z = era * 146097 + doe" by (simp add: doe_def)
  show "0 \<le> days \<Longrightarrow> 1970 - 1 \<le> year"
  proof -
    assume "0 \<le> days"
    then have "4 \<le> era" using z doe by (simp add: z_def)
    moreover have "era = 4 \<Longrightarrow> 135080 \<le> doe" using \<open>0 \<le> days\<close> z by (simp add: z_def)
    moreover have "365 * yoe + 99 + 365 \<ge> doe"
      using y by (auto simp: doy_def)
    ultimately show ?thesis using yr y by (cases "era = 4") auto
  qed
  show "days < 2932897 \<Longrightarrow> year \<le> 9999"
  proof -
    assume "days < 2932897"
    then have "era \<le> 24" "era = 24 \<Longrightarrow> doe \<le> 146036" using z doe by (simp_all add: z_def)
    moreover have "doy \<le> 305" if "yoe = 399" "doe \<le> 146036" using that by (simp add: doy_def)
    ultimately show ?thesis using yr y low mo(7) by (cases "era = 24"; cases "yoe = 399") auto
  qed
qed

section \<open>Text\<close>

lemma digit_char_is_digit: "d < 10 \<Longrightarrow> is_ascii_digit (digit_char d)"
  by (simp add: is_ascii_digit_def less_eq_char_def digit_char_def of_char_of)

lemma digit_value_char: "d < 10 \<Longrightarrow> digit_value (digit_char d) = d"
  by (simp add: digit_value_def digit_char_def of_char_of)

lemma decimal_all_digits: "list_all is_ascii_digit (decimal n)"
proof (induction n rule: decimal.induct)
  case (1 n)
  then show ?case by (subst decimal.simps) (simp add: digit_char_is_digit)
qed

lemma decimal_value_snoc: "decimal_value (s @ [c]) = 10 * decimal_value s + int (digit_value c)"
  by (simp add: decimal_value_def)

lemma decimal_value_decimal: "decimal_value (decimal n) = int n"
proof (induction n rule: decimal.induct)
  case (1 n)
  show ?case
  proof (cases "n < 10")
    case True
    then show ?thesis by (subst decimal.simps) (simp add: decimal_value_def digit_value_char)
  next
    case False
    have "decimal n = decimal (n div 10) @ [digit_char (n mod 10)]" using False by (subst decimal.simps) simp
    then have "decimal_value (decimal n) = 10 * int (n div 10) + int (n mod 10)"
      using "1.IH" [OF False] by (simp only: decimal_value_snoc) (simp add: digit_value_char)
    also have "\<dots> = int (10 * (n div 10) + n mod 10)" by (simp only: of_nat_add of_nat_mult of_nat_numeral)
    finally show ?thesis by (simp only: mult_div_mod_eq)
  qed
qed

lemma decimal_short: "n < 10 ^ k \<Longrightarrow> 0 < k \<Longrightarrow> length (decimal n) \<le> k"
proof (induction n arbitrary: k rule: decimal.induct)
  case (1 n)
  show ?case
  proof (cases "n < 10")
    case True
    then show ?thesis using "1.prems" by (subst decimal.simps) simp
  next
    case False
    then obtain j where k: "k = Suc j" "0 < j" using "1.prems" by (cases k; cases "k - 1") auto
    then have "n div 10 < 10 ^ j" using "1.prems" by (simp add: less_mult_imp_div_less)
    then show ?thesis using "1.IH" [OF False, of j] k False by (subst decimal.simps) simp
  qed
qed

lemma decimal_value_zeros: "decimal_value (replicate k CHR ''0'' @ s) = decimal_value s"
proof -
  have "foldl (\<lambda>a c. 10 * a + int (digit_value c)) 0 (replicate k CHR ''0'') = 0"
    by (induction k) (simp_all add: digit_value_def)
  then show ?thesis by (simp add: decimal_value_def)
qed

lemma padded_ok:
  assumes "0 \<le> n" "n < 10 ^ w" "0 < w"
  shows "length (padded w n) = w" "list_all is_ascii_digit (padded w n)" "decimal_value (padded w n) = n"
proof -
  have "nat n < 10 ^ w" using assms by (simp add: nat_less_iff)
  then have len: "length (decimal (nat n)) \<le> w" using assms(3) by (rule decimal_short)
  then show "length (padded w n) = w" by (simp add: padded_def Let_def)
  show "list_all is_ascii_digit (padded w n)" using decimal_all_digits by (auto simp: padded_def Let_def list_all_iff is_ascii_digit_def)
  show "decimal_value (padded w n) = n" using assms(1) by (simp add: padded_def Let_def decimal_value_zeros decimal_value_decimal)
qed

text \<open>A text of fixed-width fields is read back field by field.\<close>

lemma timestamp_fields:
  assumes "length a = 4" "length b = 2" "length c = 2" "length d = 2" "length e = 2" "length f = 2"
  shows "timestamp (a @ ''-'' @ b @ ''-'' @ c @ ''T'' @ d @ '':'' @ e @ '':'' @ f @ ''Z'') =
    (let n = (\<lambda>s. if \<not> list_all is_ascii_digit s then Err ''invalid UTC timestamp digits'' else Ok (decimal_value s)) in
     and_then (n a) (\<lambda>year. and_then (n b) (\<lambda>month. and_then (n c) (\<lambda>day. and_then (n d) (\<lambda>hour. and_then (n e) (\<lambda>minute. and_then (n f) (\<lambda>second.
      if year < 1 \<or> day < 1 \<or> days_in_month year month < day \<or> 23 < hour \<or> 59 < minute \<or> 59 < second
      then Err ''invalid Gregorian UTC timestamp''
      else Ok ((days_from_civil year month day * 86400 + hour * 3600 + minute * 60 + second) * 1000))))))))"
proof -
  let ?t = "a @ ''-'' @ b @ ''-'' @ c @ ''T'' @ d @ '':'' @ e @ '':'' @ f @ ''Z''"
  have "slice 0 4 ?t = a" "slice 5 7 ?t = b" "slice 8 10 ?t = c" "slice 11 13 ?t = d" "slice 14 16 ?t = e" "slice 17 19 ?t = f"
    using assms by (simp_all add: slice_def)
  moreover have "length ?t = 20" "?t ! 4 = CHR ''-''" "?t ! 7 = CHR ''-''" "?t ! 10 = CHR ''T''" "?t ! 13 = CHR '':''" "?t ! 16 = CHR '':''" "?t ! 19 = CHR ''Z''"
    using assms by (simp_all add: nth_append)
  ultimately show ?thesis unfolding timestamp_def number_def Let_def by (simp only: simp_thms if_False)
qed

text \<open>
  Every protected UTC instant up to the end of the year 9999 has a timestamp, and that timestamp denotes the instant
  rounded down to its second: the calendar conversion in one direction inverts the other, leap years included, and the
  printed date is always one the reader accepts.
\<close>

theorem utc_timestamp_roundtrip:
  assumes "0 \<le> ms" "ms < 253402300800000"
  shows "\<exists>text. utc_timestamp ms = Ok text \<and> timestamp text = Ok (ms - ms mod 1000)"
proof -
  obtain year month day where civil: "civil_from_days (ms div 86400000) = (year, month, day)" by (metis prod_cases3)
  note c = civil_round_trip [OF civil]
  define t where "t = ms mod 86400000 div 1000"
  have t: "0 \<le> t" "t < 86400" by (simp_all add: t_def div_less_iff_less_mult)
  have days: "0 \<le> ms div 86400000" "ms div 86400000 < 2932897" using assms by (simp_all add: div_less_iff_less_mult)
  have y: "1 \<le> year" "year \<le> 9999" using c(6) [OF days(1)] c(7) [OF days(2)] by simp_all
  have hms: "0 \<le> t div 3600" "t div 3600 \<le> 23" "0 \<le> t div 60 mod 60" "t div 60 mod 60 \<le> 59" "0 \<le> t mod 60" "t mod 60 \<le> 59"
    using t by (simp_all add: div_less_iff_less_mult zdiv_mono1)
  have p4: "length (padded 4 year) = 4" "list_all is_ascii_digit (padded 4 year)" "decimal_value (padded 4 year) = year"
    using padded_ok [of year 4] y by simp_all
  have p2: "length (padded 2 n) = 2 \<and> list_all is_ascii_digit (padded 2 n) \<and> decimal_value (padded 2 n) = n" if "0 \<le> n" "n \<le> 59" for n
    using padded_ok [of n 2] that by simp
  have secs: "t = t div 3600 * 3600 + t div 60 mod 60 * 60 + t mod 60"
  proof -
    have "t div 3600 = t div 60 div 60" using zdiv_zmult2_eq [of 60 t 60] by simp
    then show ?thesis using div_mult_mod_eq [of "t div 60" 60] div_mult_mod_eq [of t 60] by linarith
  qed
  have split: "ms - ms mod 1000 = (ms div 86400000 * 86400 + t) * 1000"
  proof -
    have "ms mod 86400000 mod 1000 = ms mod 1000" by (rule mod_mod_cancel) simp
    then have "t * 1000 + ms mod 1000 = ms mod 86400000" unfolding t_def using div_mult_mod_eq [of "ms mod 86400000" 1000] by metis
    moreover have "m - c = (a * 86400 + u) * 1000" if "a * 86400000 + b = m" "u * 1000 + c = b" for a b c m u :: int
      using that by simp
    ultimately show ?thesis using div_mult_mod_eq [of ms 86400000] by metis
  qed
  define h mi se where hms_def: "h = t div 3600" "mi = t div 60 mod 60" "se = t mod 60"
  note range = hms [folded hms_def]
  have m: "0 \<le> month" "month \<le> 59" "0 \<le> day" "day \<le> 59" using c(2-4,8) by linarith+
  have total: "(ms div 86400000 * 86400 + h * 3600 + mi * 60 + se) * 1000 = ms - ms mod 1000"
    unfolding split using secs [folded hms_def] by (simp add: algebra_simps)
  have valid: "\<not> (year < 1 \<or> day < 1 \<or> days_in_month year month < day \<or> 23 < h \<or> 59 < mi \<or> 59 < se)"
    using c(4,5) y range by linarith
  have "timestamp (format_timestamp year month day t) = Ok ((days_from_civil year month day * 86400 + h * 3600 + mi * 60 + se) * 1000)"
    unfolding format_timestamp_def hms_def [symmetric]
    using valid p4 p2 [OF m(1,2)] p2 [OF m(3,4)] p2 [of h] p2 [of mi] p2 [of se] range
    by (subst timestamp_fields) (simp_all add: Let_def del: de_Morgan_disj)
  also have "\<dots> = Ok (ms - ms mod 1000)" unfolding c(1) total ..
  finally have "timestamp (format_timestamp year month day t) = Ok (ms - ms mod 1000)" .
  then show ?thesis using assms(1) by (auto simp: utc_timestamp_def civil Let_def t_def)
qed

theorem utc_timestamp_roundtrip_witness:
  "utc_timestamp 951782399999 = Ok ''2000-02-28T23:59:59Z'' \<and> timestamp ''2000-02-28T23:59:59Z'' = Ok 951782399000"
proof -
  have "utc_timestamp 951782399999 = Ok ''2000-02-28T23:59:59Z''" by code_simp
  then show ?thesis using utc_timestamp_roundtrip [of 951782399999] by simp
qed

end
