(* ===== verification/Model_Trust.thy ===== *)
theory Model_Trust
  imports Trust_History Calendar Utc_Bounds
begin

text \<open>
  Model trust (\<open>model_trust.rs\<close>): the signing-key bundle with timed revocations, release requests, approvals, signed
  catalog statements and envelopes, and the anchored state with its compare-and-swap publication and catalog floor.
  Canonical JSON, SHA-256, Ed25519 and the catalog document are the services of the model.
\<close>

section \<open>Field checks\<close>

definition SAFE :: u64 where "SAFE = 9007199254740991"
definition MODEL_DOMAIN :: string where "MODEL_DOMAIN = ''luma-models''"
definition MAX_TRUST :: nat where "MAX_TRUST = 1024 * 1024"
definition MAX_CATALOG :: nat where "MAX_CATALOG = 4 * 1024 * 1024"
definition MAX_ENVELOPE :: nat where "MAX_ENVELOPE = 1024 * 1024"

text \<open>Among printable characters \<open>trim\<close> removes only blanks.\<close>

definition check_ascii :: "nat \<Rightarrow> string \<Rightarrow> unit result" where
  "check_ascii maximum text =
     (if text = [] \<or> hd text = CHR '' '' \<or> last text = CHR '' '' \<or> maximum < length text
         \<or> \<not> list_all (\<lambda>b. CHR '' '' \<le> b \<and> b \<le> CHR ''~'') text
      then Err ''model metadata requires bounded trimmed printable ASCII'' else Ok ())"

definition check_environment :: "string \<Rightarrow> unit result" where
  "check_environment v = (if v \<noteq> ''lab'' \<and> v \<noteq> ''production'' then Err ''model environment must be lab or production'' else Ok ())"

definition check_positive :: "u64 \<Rightarrow> unit result" where
  "check_positive v = (if v = 0 \<or> SAFE < v then Err ''model integer is outside the positive interoperable range'' else Ok ())"

definition check_hash :: "string \<Rightarrow> unit result" where
  "check_hash v = (if \<not> io_hash v then Err ''model metadata requires a lowercase SHA256 digest'' else Ok ())"

definition check_dates :: "string \<Rightarrow> string \<Rightarrow> (int \<times> int) result" where
  "check_dates start stop =
     and_then (timestamp start) (\<lambda>s. and_then (timestamp stop) (\<lambda>e.
     if e \<le> s then Err ''model lifecycle interval must be nonempty'' else Ok (s, e)))"

definition check_live :: "string \<Rightarrow> string \<Rightarrow> string option \<Rightarrow> interval \<Rightarrow> unit result" where
  "check_live start stop revoked i =
     and_then (check_dates start stop) (\<lambda>(s, e).
     and_then (case revoked of None \<Rightarrow> Ok e | Some r \<Rightarrow> and_then (timestamp r) (\<lambda>t. Ok (min e t))) (\<lambda>e.
     and_then (interval_within i s e) (\<lambda>b.
     if \<not> b then Err ''model trust is not valid for the complete protected UTC interval'' else Ok ())))"

definition purpose_role :: "string \<Rightarrow> string result" where
  "purpose_role p =
     (if p = ''model-pack-manifest'' then Ok ''model-pack-signer''
      else if p = ''model-pack-execution-certification'' \<or> p = ''model-pack-interactive-certification'' then Ok ''model-pack-certification-signer''
      else if p = ''model-profile-catalog-lab'' then Ok ''model-profile-catalog-lab-signer''
      else if p = ''model-profile-catalog-production'' then Ok ''model-profile-catalog-production-signer''
      else Err ''unknown model signing purpose'')"

definition ascending :: "string list \<Rightarrow> bool" where
  "ascending xs \<longleftrightarrow> list_all (\<lambda>(a, b). a < b) (zip xs (tl xs))"

section \<open>Trust bundles\<close>

record model_key =
  mk_environment :: string
  mk_id :: string
  mk_not_after :: string
  mk_not_before :: string
  mk_public :: string
  mk_encoding :: string
  mk_purposes :: "string list"
  mk_reason :: "string option"
  mk_revoked_at :: "string option"
  mk_role :: string

record trust_bundle =
  artifact_type :: string
  bundle_sequence :: u64
  tb_environment :: string
  issued_at :: string
  tb_keys :: "model_key list"
  tb_not_after :: string
  tb_not_before :: string
  tb_policy :: string
  previous_bundle :: "string option"
  root_key_id :: string
  tb_schema :: u32
  trust_domain :: string

record signed_model_trust =
  tbundle :: trust_bundle
  smt_schema :: u32
  smt_signature :: string
  signature_algorithm :: string
  signature_encoding :: string

text \<open>The purposes of a key fit its role and the environment of the bundle.\<close>

definition check_purpose :: "trust_bundle \<Rightarrow> model_key \<Rightarrow> string \<Rightarrow> unit result" where
  "check_purpose b k p =
     and_then (purpose_role p) (\<lambda>r.
     if r \<noteq> mk_role k \<or> (p = ''model-profile-catalog-lab'' \<and> tb_environment b \<noteq> ''lab'')
        \<or> (p = ''model-profile-catalog-production'' \<and> tb_environment b \<noteq> ''production'')
     then Err ''model leaf role/purpose/environment mismatch'' else Ok ())"

definition check_revocation :: "model_key \<Rightarrow> int \<Rightarrow> int \<Rightarrow> unit result" where
  "check_revocation k ks ke =
     (if (mk_revoked_at k \<noteq> None) \<noteq> (mk_reason k \<noteq> None) then Err ''model revocation time and reason must be paired''
      else case mk_revoked_at k of None \<Rightarrow> Ok () | Some v \<Rightarrow>
        and_then (timestamp v) (\<lambda>t.
        if t < ks \<or> ke \<le> t then Err ''model revocation escapes leaf validity''
        else and_then (ok_or (mk_reason k) ''missing revocation reason'') (check_ascii 256)))"

fun validate_model_keys :: "trust_bundle \<Rightarrow> int \<Rightarrow> int \<Rightarrow> string set \<Rightarrow> nat list set \<Rightarrow> string option \<Rightarrow> model_key list \<Rightarrow> unit result" where
  "validate_model_keys b start stop ids public previous [] = Ok ()"
| "validate_model_keys b start stop ids public previous (k # ks) =
     (let refusal = ''model leaf identity/order/environment/validity mismatch'' in
      and_then (check_ascii 256 (mk_id k)) (\<lambda>_.
      and_then (check_dates (mk_not_before k) (mk_not_after k)) (\<lambda>(ks0, ke0).
      if mk_environment k \<noteq> tb_environment b \<or> ks0 < start \<or> stop < ke0 \<or> mk_encoding k \<noteq> ''raw-ed25519-base64'' \<or> mk_id k \<in> ids
      then Err refusal
      else and_then (decode64 32 (mk_public k)) (\<lambda>raw.
      if raw \<in> public \<or> (case previous of None \<Rightarrow> False | Some v \<Rightarrow> mk_id k \<le> v) \<or> mk_purposes k = [] \<or> \<not> ascending (mk_purposes k)
      then Err refusal
      else and_then (for_all (check_purpose b k) (mk_purposes k)) (\<lambda>_.
      and_then (check_revocation k ks0 ke0) (\<lambda>_.
      validate_model_keys b start stop (insert (mk_id k) ids) (insert raw public) (Some (mk_id k)) ks))))))"

record approval =
  ap_activity :: string
  approved_at :: string
  decision_receipt :: string
  ap_assignment :: string
  ap_receipt :: string
  ap_catalog_sha256 :: string
  decision :: string
  ap_principal :: string
  ap_request_sha256 :: string
  ap_release :: string

record release_request =
  rq_artifact_type :: string
  rq_catalog :: string
  rq_sequence :: u64
  rq_catalog_sha256 :: string
  rq_environment :: string
  rq_not_after :: string
  rq_not_before :: string
  rq_policy :: string
  rq_purpose :: string
  rq_release :: string
  rq_schema :: u32
  rq_algorithm :: string
  rq_signer_key :: string
  rq_activity :: string
  rq_assignment :: string
  rq_receipt :: string
  rq_principal :: string

record catalog_statement =
  approval_set_sha256 :: string
  request_sha256 :: string
  signed_at :: string
  st_artifact_type :: string
  st_request :: release_request

record envelope =
  approvals :: "approval list"
  envelope_schema :: u32
  envelope_signature :: string
  envelope_encoding :: string
  envelope_statement :: catalog_statement

record model_admission =
  catalog_json :: string
  envelope_json :: string
  ma_trust_sha256 :: string

record model_services =
  canonical_length :: "signed_model_trust \<Rightarrow> nat result"
  trust_digest :: "signed_model_trust \<Rightarrow> string result"
  request_digest :: "release_request \<Rightarrow> string result"
  statement_digest :: "catalog_statement \<Rightarrow> string result"
  approvals_digest :: "approval list \<Rightarrow> string result"
  decode_envelope :: "string \<Rightarrow> envelope result"
  parse_catalog :: "string \<Rightarrow> (string \<times> string) result"
  canonical_bundle :: "trust_bundle \<Rightarrow> nat list result"
  fingerprint :: "nat list \<Rightarrow> string"
  verify_der :: "nat list \<Rightarrow> nat list \<Rightarrow> nat list \<Rightarrow> unit result"

definition model_trust_validate :: "model_services \<Rightarrow> signed_model_trust \<Rightarrow> unit result" where
  "model_trust_validate sv s =
     (let b = tbundle s; refusal = ''invalid frozen model trust schema/domain/bounds'' in
      and_then (check_environment (tb_environment b)) (\<lambda>_. and_then (check_positive (bundle_sequence b)) (\<lambda>_.
      if smt_schema s \<noteq> 1 \<or> tb_schema b \<noteq> 1 \<or> signature_algorithm s \<noteq> ''Ed25519'' \<or> signature_encoding s \<noteq> ''base64''
        \<or> artifact_type b \<noteq> ''luma-os-signing-trust-bundle'' \<or> trust_domain b \<noteq> MODEL_DOMAIN \<or> tb_keys b = [] \<or> 256 < length (tb_keys b)
      then Err refusal
      else and_then (canonical_length sv s) (\<lambda>n.
      if MAX_TRUST < n then Err refusal
      else and_then (decode64 64 (smt_signature s)) (\<lambda>_. and_then (check_ascii 256 (tb_policy b)) (\<lambda>_. and_then (check_ascii 256 (root_key_id b)) (\<lambda>_.
      and_then (if bundle_sequence b = 1
        then if previous_bundle b \<noteq> None then Err ''genesis model trust cannot carry a predecessor'' else Ok ()
        else and_then (ok_or (previous_bundle b) ''model trust predecessor missing'') check_hash) (\<lambda>_.
      and_then (check_dates (tb_not_before b) (tb_not_after b)) (\<lambda>(start, stop).
      and_then (timestamp (issued_at b)) (\<lambda>issued.
      if issued < start \<or> stop \<le> issued then Err ''model trust issue time escapes validity''
      else validate_model_keys b start stop {} {} None (tb_keys b)))))))))))"

definition model_check_time :: "signed_model_trust \<Rightarrow> interval \<Rightarrow> unit result" where
  "model_check_time s i =
     and_then (check_live (tb_not_before (tbundle s)) (tb_not_after (tbundle s)) None i) (\<lambda>_.
     and_then (timestamp (issued_at (tbundle s))) (\<lambda>issued.
     if fst (endpoints i) < issued then Err ''model trust is issued after protected UTC'' else Ok ()))"

definition check_key_time :: "signed_model_trust \<Rightarrow> string \<Rightarrow> string \<Rightarrow> interval \<Rightarrow> unit result" where
  "check_key_time s name purpose i =
     and_then (ok_or (find (\<lambda>k. mk_id k = name) (tb_keys (tbundle s))) ''unknown model signing key'') (\<lambda>k.
     and_then (purpose_role purpose) (\<lambda>r.
     if r \<noteq> mk_role k \<or> purpose \<notin> set (mk_purposes k) then Err ''wrong model signing role/purpose''
     else check_live (mk_not_before k) (mk_not_after k) (mk_revoked_at k) i))"

section \<open>Provisioned roots\<close>

record root_anchor =
  ra_id :: string
  ra_environment :: string
  ra_domain :: string
  ra_public :: string
  ra_not_before :: string
  ra_not_after :: string
  ra_revoked_at :: "string option"

record model_root_policy =
  mr_schema :: u32
  mr_domain :: string
  accepted_trust :: "string list"
  accepted_catalog :: "string list"
  mr_roots :: "root_anchor list"
  separated_sha256 :: "string list"

definition check_versions :: "string list \<Rightarrow> unit result" where
  "check_versions vs =
     (if vs = [] \<or> 32 < length vs \<or> \<not> ascending vs then Err ''model policy versions must be finite, nonempty and canonically ordered''
      else for_all (check_ascii 256) vs)"

fun validate_roots :: "string set \<Rightarrow> nat list set \<Rightarrow> root_anchor list \<Rightarrow> unit result" where
  "validate_roots ids keys [] = Ok ()"
| "validate_roots ids keys (r # rs) =
     (let refusal = ''model roots cannot reuse IDs, keys or domains'' in
      and_then (check_ascii 256 (ra_id r)) (\<lambda>_. and_then (check_environment (ra_environment r)) (\<lambda>_.
      if ra_domain r \<noteq> MODEL_DOMAIN \<or> ra_id r \<in> ids then Err refusal
      else and_then (decode64 32 (ra_public r)) (\<lambda>raw.
      if raw \<in> keys then Err refusal
      else and_then (check_dates (ra_not_before r) (ra_not_after r)) (\<lambda>(start, stop).
      if (case ra_revoked_at r of None \<Rightarrow> False | Some v \<Rightarrow> (case timestamp v of Inl _ \<Rightarrow> True | Inr t \<Rightarrow> t < start \<or> stop \<le> t))
      then Err ''invalid model root revocation''
      else validate_roots (insert (ra_id r) ids) (insert raw keys) rs)))))"

definition model_policy_validate :: "model_root_policy \<Rightarrow> unit result" where
  "model_policy_validate p =
     (if mr_schema p \<noteq> 1 \<or> mr_domain p \<noteq> MODEL_DOMAIN \<or> mr_roots p = [] \<or> 32 < length (mr_roots p)
      then Err ''invalid independently provisioned model roots''
      else and_then (for_all check_versions [accepted_trust p, accepted_catalog p]) (\<lambda>_.
      and_then (validate_roots {} {} (mr_roots p)) (\<lambda>_.
      if 1024 < length (separated_sha256 p) \<or> \<not> ascending (separated_sha256 p)
      then Err ''model separated public keys must be bounded unique ordered digests''
      else for_all check_hash (separated_sha256 p))))"

definition effective_end :: "string \<Rightarrow> string option \<Rightarrow> int result" where
  "effective_end stop revoked =
     and_then (timestamp stop) (\<lambda>e. and_then (case revoked of None \<Rightarrow> Ok (2 ^ 63 - 1) | Some r \<Rightarrow> timestamp r) (\<lambda>t. Ok (min e t)))"

fun decode_keys :: "string list \<Rightarrow> nat list list result" where
  "decode_keys [] = Ok []"
| "decode_keys (t # ts) = and_then (decode64 32 t) (\<lambda>k. and_then (decode_keys ts) (\<lambda>ks. Ok (k # ks)))"

text \<open>\<open>root_with\<close>: the bundle is signed by a provisioned root that is live over the whole interval and at the time of issue.\<close>

definition root_with :: "model_services \<Rightarrow> signed_model_trust \<Rightarrow> model_root_policy \<Rightarrow> interval \<Rightarrow> unit result" where
  "root_with sv s p i =
     and_then (model_trust_validate sv s) (\<lambda>_. and_then (model_policy_validate p) (\<lambda>_.
     let b = tbundle s in
     if tb_policy b \<notin> set (accepted_trust p) then Err ''model trust policy is not independently accepted''
     else and_then (ok_or (find (\<lambda>r. ra_id r = root_key_id b \<and> ra_environment r = tb_environment b \<and> ra_domain r = trust_domain b) (mr_roots p))
       ''model bundle does not select an independently provisioned root'') (\<lambda>root.
     and_then (check_dates (tb_not_before b) (tb_not_after b)) (\<lambda>(start, stop).
     let escape = ''model bundle escapes root effective validity'' in
     and_then (timestamp (ra_not_before root)) (\<lambda>root_start.
     if start < root_start then Err escape
     else and_then (effective_end (ra_not_after root) (ra_revoked_at root)) (\<lambda>root_end.
     if root_end < stop then Err escape
     else and_then (check_live (ra_not_before root) (ra_not_after root) (ra_revoked_at root) i) (\<lambda>_.
     and_then (timestamp (issued_at b)) (\<lambda>issued. and_then (interval_new issued issued) (\<lambda>at_issue.
     and_then (check_live (ra_not_before root) (ra_not_after root) (ra_revoked_at root) at_issue) (\<lambda>_.
     and_then (model_check_time s i) (\<lambda>_.
     and_then (decode64 32 (ra_public root)) (\<lambda>public.
     and_then (decode_keys (map ra_public (mr_roots p))) (\<lambda>roots.
     if fingerprint sv public \<in> set (separated_sha256 p)
        \<or> list_ex (\<lambda>k. case decode64 32 (mk_public k) of Inl _ \<Rightarrow> True
            | Inr key \<Rightarrow> key \<in> set roots \<or> fingerprint sv key \<in> set (separated_sha256 p)) (tb_keys b)
     then Err ''model root/leaf reuses a separated environment or OS/skill key''
     else and_then (canonical_bundle sv b) (\<lambda>bytes. and_then (decode64 64 (smt_signature s)) (\<lambda>signature.
       verify_der sv public bytes signature)))))))))))))))"

definition verify_leaf :: "model_services \<Rightarrow> signed_model_trust \<Rightarrow> string \<Rightarrow> string \<Rightarrow> nat list \<Rightarrow> nat list \<Rightarrow> interval \<Rightarrow> unit result" where
  "verify_leaf sv s name purpose message signature i =
     and_then (check_key_time s name purpose i) (\<lambda>_.
     and_then (ok_or (find (\<lambda>k. mk_id k = name) (tb_keys (tbundle s))) ''unknown model signing key'') (\<lambda>k.
     and_then (decode64 32 (mk_public k)) (\<lambda>public. verify_der sv public message signature)))"

definition verify_with_policy ::
    "model_services \<Rightarrow> signed_model_trust \<Rightarrow> model_root_policy \<Rightarrow> string \<Rightarrow> string \<Rightarrow> nat list \<Rightarrow> nat list \<Rightarrow> interval \<Rightarrow> unit result" where
  "verify_with_policy sv s p name purpose message signature i =
     and_then (root_with sv s p i) (\<lambda>_. verify_leaf sv s name purpose message signature i)"

section \<open>Approvals and signed catalogs\<close>

definition signing_activity :: "string \<Rightarrow> string result" where
  "signing_activity env = and_then (check_environment env) (\<lambda>_.
     Ok (if env = ''production'' then ''model-catalog.sign.production'' else ''model-catalog.sign.lab''))"

definition catalog_purpose :: "string \<Rightarrow> string result" where
  "catalog_purpose env = and_then (check_environment env) (\<lambda>_.
     Ok (if env = ''production'' then ''model-profile-catalog-production'' else ''model-profile-catalog-lab''))"

definition approval_activities :: "string \<Rightarrow> string list result" where
  "approval_activities env = and_then (check_environment env) (\<lambda>_.
     Ok (if env = ''production'' then [''model-catalog.approve.license'', ''model-catalog.approve.release'', ''model-catalog.approve.security'']
       else [''model-catalog.approve.lab-release'']))"

definition request_validate :: "release_request \<Rightarrow> unit result" where
  "request_validate r =
     (let refusal = ''invalid model release-request schema/purpose/activity'' in
      if rq_artifact_type r \<noteq> ''model-profile-catalog-release-request'' \<or> rq_schema r \<noteq> 1 \<or> rq_algorithm r \<noteq> ''Ed25519'' then Err refusal
      else and_then (catalog_purpose (rq_environment r)) (\<lambda>p.
      if rq_purpose r \<noteq> p then Err refusal
      else and_then (signing_activity (rq_environment r)) (\<lambda>a.
      if rq_activity r \<noteq> a then Err refusal
      else and_then (check_positive (rq_sequence r)) (\<lambda>_. and_then (check_hash (rq_catalog_sha256 r)) (\<lambda>_.
      and_then (check_hash (rq_receipt r)) (\<lambda>_.
      and_then (for_all (check_ascii 256) [rq_catalog r, rq_policy r, rq_release r, rq_signer_key r, rq_assignment r, rq_principal r]) (\<lambda>_.
      and_then (check_dates (rq_not_before r) (rq_not_after r)) (\<lambda>_. Ok ()))))))))"

definition approval_validate :: "approval \<Rightarrow> unit result" where
  "approval_validate a =
     and_then (for_all (check_ascii 256) [ap_activity a, ap_principal a, ap_assignment a, ap_release a]) (\<lambda>_.
     and_then (for_all check_hash [ap_receipt a, decision_receipt a, ap_request_sha256 a, ap_catalog_sha256 a]) (\<lambda>_.
     and_then (timestamp (approved_at a)) (\<lambda>_.
     if decision a \<noteq> ''approved'' then Err ''model catalog approval must be an explicit approved decision'' else Ok ())))"

definition check_request :: "model_services \<Rightarrow> approval \<Rightarrow> release_request \<Rightarrow> unit result" where
  "check_request sv a r =
     (let refusal = ''model approval does not bind the exact request or independent activity/principal'' in
      and_then (approval_validate a) (\<lambda>_. and_then (request_validate r) (\<lambda>_.
      and_then (approval_activities (rq_environment r)) (\<lambda>acts.
      if ap_activity a \<notin> set acts \<or> ap_release a \<noteq> rq_release r \<or> ap_catalog_sha256 a \<noteq> rq_catalog_sha256 r then Err refusal
      else and_then (request_digest sv r) (\<lambda>d.
      if ap_request_sha256 a \<noteq> d \<or> ap_principal a = rq_principal r then Err refusal else Ok ())))))"

text \<open>
  A statement has the fields of its request, its own artifact type, and three fields of its own; \<open>st_request\<close> is what
  \<open>Statement::request\<close> rebuilds, up to the artifact type it sets.
\<close>

definition statement_request :: "catalog_statement \<Rightarrow> release_request" where
  "statement_request st = (st_request st)\<lparr>rq_artifact_type := ''model-profile-catalog-release-request''\<rparr>"

definition statement_validate :: "model_services \<Rightarrow> catalog_statement \<Rightarrow> unit result" where
  "statement_validate sv st =
     (if st_artifact_type st \<noteq> ''model-profile-catalog'' then Err ''unknown signed model catalog statement''
      else let r = statement_request st; refusal = ''model statement signing time or exact request mismatch'' in
      and_then (request_validate r) (\<lambda>_. and_then (check_hash (approval_set_sha256 st)) (\<lambda>_. and_then (check_hash (request_sha256 st)) (\<lambda>_.
      and_then (check_dates (rq_not_before r) (rq_not_after r)) (\<lambda>(start, stop).
      and_then (timestamp (signed_at st)) (\<lambda>signed.
      if signed < start \<or> stop \<le> signed then Err refusal
      else and_then (request_digest sv r) (\<lambda>d. if request_sha256 st \<noteq> d then Err refusal else Ok ())))))))"

fun check_approvals :: "model_services \<Rightarrow> catalog_statement \<Rightarrow> string set \<Rightarrow> string set \<Rightarrow> (string \<times> string) option \<Rightarrow> approval list \<Rightarrow> string set result" where
  "check_approvals sv st people activities previous [] = Ok activities"
| "check_approvals sv st people activities previous (a # rest) =
     (let refusal = ''model approval quorum is duplicate, unordered, non-independent or after signing'' in
      and_then (check_request sv a (statement_request st)) (\<lambda>_.
      if ap_principal a \<in> people \<or> ap_activity a \<in> activities
         \<or> (case previous of None \<Rightarrow> False | Some (act, who) \<Rightarrow> \<not> (act < ap_activity a \<or> (act = ap_activity a \<and> who < ap_principal a)))
      then Err refusal
      else and_then (timestamp (approved_at a)) (\<lambda>t. and_then (timestamp (signed_at st)) (\<lambda>signed.
      if signed < t then Err refusal
      else check_approvals sv st (insert (ap_principal a) people) (insert (ap_activity a) activities) (Some (ap_activity a, ap_principal a)) rest))))"

definition envelope_validate :: "model_services \<Rightarrow> envelope \<Rightarrow> unit result" where
  "envelope_validate sv e =
     and_then (statement_validate sv (envelope_statement e)) (\<lambda>_. and_then (decode64 64 (envelope_signature e)) (\<lambda>_.
     if envelope_schema e \<noteq> 1 \<or> envelope_encoding e \<noteq> ''base64'' \<or> approvals e = [] then Err ''invalid model catalog signature envelope''
     else and_then (check_approvals sv (envelope_statement e) {} {} None (approvals e)) (\<lambda>activities.
     and_then (approval_activities (rq_environment (st_request (envelope_statement e)))) (\<lambda>required.
     if activities \<noteq> set required then Err ''model approval quorum does not match environment''
     else and_then (approvals_digest sv (approvals e)) (\<lambda>d.
     if d \<noteq> approval_set_sha256 (envelope_statement e) then Err ''model statement does not bind exact canonical approval set'' else Ok ())))))"

definition envelope_parse :: "model_services \<Rightarrow> string \<Rightarrow> envelope result" where
  "envelope_parse sv json =
     (if json = [] \<or> MAX_ENVELOPE < length json then Err ''model artifact exceeds its closed byte bound''
      else and_then (decode_envelope sv json) (\<lambda>e. and_then (envelope_validate sv e) (\<lambda>_. Ok e)))"

definition model_admission_validate :: "model_services \<Rightarrow> model_admission \<Rightarrow> unit result" where
  "model_admission_validate sv a =
     and_then (check_hash (ma_trust_sha256 a)) (\<lambda>_.
     and_then (parse_catalog sv (catalog_json a)) (\<lambda>(name, digest).
     and_then (envelope_parse sv (envelope_json a)) (\<lambda>e.
     if name \<noteq> rq_catalog (st_request (envelope_statement e)) \<or> digest \<noteq> rq_catalog_sha256 (st_request (envelope_statement e))
     then Err ''model catalog does not bind exact signed identity/bytes'' else Ok ())))"

section \<open>Anchored state\<close>

record model_state =
  model_anchored :: signed_model_trust
  model_floor :: u64
  model_current :: "model_admission option"

definition retains_model_key :: "signed_model_trust \<Rightarrow> model_key \<Rightarrow> unit result" where
  "retains_model_key nxt k =
     and_then (ok_or (find (\<lambda>k'. mk_id k' = mk_id k) (tb_keys (tbundle nxt)))
       ''model trust rotation drops historical key identity/revocation tombstone'') (\<lambda>k'.
     if mk_public k' \<noteq> mk_public k \<or> mk_environment k' \<noteq> mk_environment k \<or> mk_role k' \<noteq> mk_role k \<or> mk_purposes k' \<noteq> mk_purposes k
     then Err ''model trust rotation reuses historical key identity for another material/purpose''
     else case mk_revoked_at k of None \<Rightarrow> Ok () | Some revoked \<Rightarrow>
       and_then (timestamp revoked) (\<lambda>before.
       case mk_revoked_at k' of None \<Rightarrow> Err ''model key revocation cannot be removed'' | Some r \<Rightarrow>
       and_then (timestamp r) (\<lambda>after.
       if before < after then Err ''model key revocation is irreversible and cannot be postponed'' else Ok ())))"

definition model_publish :: "model_services \<Rightarrow> model_state option \<Rightarrow> u64 \<Rightarrow> signed_model_trust \<Rightarrow> model_state result" where
  "model_publish sv state expected nxt =
     and_then (model_trust_validate sv nxt) (\<lambda>_.
     let sq = (case state of None \<Rightarrow> 0 | Some s \<Rightarrow> bundle_sequence (tbundle (model_anchored s))) in
     if sq = expected \<and> sq = bundle_sequence (tbundle nxt)
     then (case state of None \<Rightarrow> Err ''model trust digest forks an anchored sequence''
       | Some s \<Rightarrow> if model_anchored s = nxt then Ok s else Err ''model trust digest forks an anchored sequence'')
     else if sq \<noteq> expected then Err ''model trust compare-and-swap sequence mismatch''
     else and_then (ok_or (checked_add expected 1) ''model trust sequence overflow'') (\<lambda>v.
     if bundle_sequence (tbundle nxt) \<noteq> v then Err ''model trust compare-and-swap sequence mismatch''
     else case state of
       None \<Rightarrow> Ok \<lparr>model_anchored = nxt, model_floor = 0, model_current = None\<rparr>
     | Some old \<Rightarrow>
         if tb_environment (tbundle (model_anchored old)) \<noteq> tb_environment (tbundle nxt) then Err ''model trust environment/predecessor mismatch''
         else and_then (trust_digest sv (model_anchored old)) (\<lambda>d.
         if previous_bundle (tbundle nxt) \<noteq> Some d then Err ''model trust environment/predecessor mismatch''
         else and_then (for_all (retains_model_key nxt) (tb_keys (tbundle (model_anchored old)))) (\<lambda>_.
         Ok (old\<lparr>model_anchored := nxt\<rparr>)))))"

definition model_admit :: "model_services \<Rightarrow> model_state option \<Rightarrow> u64 \<Rightarrow> model_admission \<Rightarrow> model_state result" where
  "model_admit sv state expected a =
     and_then (model_admission_validate sv a) (\<lambda>_.
     and_then (ok_or state ''model trust must be committed before catalog admission'') (\<lambda>s.
     and_then (envelope_parse sv (envelope_json a)) (\<lambda>e.
     let sq = rq_sequence (st_request (envelope_statement e)); refusal = ''model catalog trust/environment/CAS floor mismatch'' in
     if expected \<noteq> model_floor s then Err refusal
     else and_then (trust_digest sv (model_anchored s)) (\<lambda>d.
     if ma_trust_sha256 a \<noteq> d \<or> rq_environment (st_request (envelope_statement e)) \<noteq> tb_environment (tbundle (model_anchored s))
        \<or> sq < model_floor s \<or> (model_floor s = 0 \<and> sq \<noteq> 1)
     then Err refusal
     else if sq = model_floor s \<and> (case model_current s of None \<Rightarrow> True | Some old \<Rightarrow> catalog_json old \<noteq> catalog_json a)
     then Err ''model catalog digest forks an anchored sequence''
     else Ok (s\<lparr>model_floor := sq, model_current := Some a\<rparr>)))))"

section \<open>Histories of model authority\<close>

datatype model_event = PublishModel u64 signed_model_trust | AdmitModel u64 model_admission

fun model_apply :: "model_services \<Rightarrow> model_state option \<Rightarrow> model_event \<Rightarrow> model_state result" where
  "model_apply sv st (PublishModel expected t) = model_publish sv st expected t"
| "model_apply sv st (AdmitModel expected a) = model_admit sv st expected a"

definition model_step :: "model_services \<Rightarrow> model_state option \<Rightarrow> model_event \<Rightarrow> model_state option" where
  "model_step sv st e = (case model_apply sv st e of Inl _ \<Rightarrow> st | Inr s \<Rightarrow> Some s)"

definition model_keys_of :: "model_state option \<Rightarrow> model_key list" where
  "model_keys_of st = (case st of None \<Rightarrow> [] | Some s \<Rightarrow> tb_keys (tbundle (model_anchored s)))"

definition model_floor_of :: "model_state option \<Rightarrow> nat" where
  "model_floor_of st = (case st of None \<Rightarrow> 0 | Some s \<Rightarrow> unat (model_floor s))"

definition model_version_of :: "model_state option \<Rightarrow> nat" where
  "model_version_of st = (case st of None \<Rightarrow> 0 | Some s \<Rightarrow> unat (bundle_sequence (tbundle (model_anchored s))))"

definition model_material :: "model_key \<Rightarrow> string \<times> string \<times> string \<times> string list" where
  "model_material k = (mk_public k, mk_environment k, mk_role k, mk_purposes k)"

text \<open>A key is revoked from time \<open>t\<close> on.\<close>

definition revoked_by :: "model_key \<Rightarrow> int \<Rightarrow> bool" where
  "revoked_by k t \<longleftrightarrow> (case mk_revoked_at k of None \<Rightarrow> False | Some r \<Rightarrow> (case timestamp r of Inl _ \<Rightarrow> False | Inr v \<Rightarrow> v \<le> t))"

definition model_ok :: "model_state option \<Rightarrow> bool" where
  "model_ok st \<longleftrightarrow> distinct (map mk_id (model_keys_of st))"

lemma validate_model_keys_distinct:
  "validate_model_keys b start stop ids public previous ks = Ok u \<Longrightarrow> distinct (map mk_id ks) \<and> set (map mk_id ks) \<inter> ids = {}"
proof (induction ks arbitrary: ids public previous)
  case (Cons k ks)
  then obtain raw where "mk_id k \<notin> ids" "validate_model_keys b start stop (insert (mk_id k) ids) (insert raw public) (Some (mk_id k)) ks = Ok u"
    by (auto simp: result_simps Let_def split: prod.splits)
  with Cons.IH [OF this(2)] show ?case by auto
qed simp

lemma model_trust_distinct: "model_trust_validate sv s = Ok u \<Longrightarrow> distinct (map mk_id (tb_keys (tbundle s)))"
  by (auto simp: model_trust_validate_def result_simps Let_def dest: validate_model_keys_distinct split: prod.splits)

lemma model_publish_Ok:
  assumes "model_publish sv st expected nxt = Ok s"
  shows "model_trust_validate sv nxt = Ok ()" "model_anchored s = nxt"
    "st = Some s \<or> unat (bundle_sequence (tbundle nxt)) = Suc (model_version_of st)
       \<and> (st = None \<and> s = \<lparr>model_anchored = nxt, model_floor = 0, model_current = None\<rparr>
          \<or> (\<exists>old. st = Some old \<and> s = old\<lparr>model_anchored := nxt\<rparr>
              \<and> (\<forall>k \<in> set (tb_keys (tbundle (model_anchored old))). retains_model_key nxt k = Ok ())))"
  using assms
  by (auto simp: model_publish_def result_simps Let_def model_version_of_def dest!: checked_add_one split: option.splits if_splits)

lemma model_admit_Ok:
  assumes "model_admit sv st expected a = Ok s'"
  obtains s e where "st = Some s" "envelope_parse sv (envelope_json a) = Ok e" "model_floor s \<le> rq_sequence (st_request (envelope_statement e))"
    "s' = s\<lparr>model_floor := rq_sequence (st_request (envelope_statement e)), model_current := Some a\<rparr>"
  using assms by (fastforce simp: model_admit_def result_simps Let_def not_less)

lemma model_apply_ok:
  assumes "model_ok st" "model_apply sv st e = Ok s"
  shows "model_ok (Some s)"
proof (cases e)
  case (PublishModel x t)
  then have "model_publish sv st x t = Ok s" using assms(2) by simp
  from model_publish_Ok(1,2) [OF this] show ?thesis using model_trust_distinct by (auto simp: model_ok_def model_keys_of_def)
qed (use assms in \<open>auto simp: model_ok_def model_keys_of_def elim!: model_admit_Ok\<close>)

lemma retains_model_key_Ok:
  assumes "retains_model_key nxt k = Ok u"
  shows "\<exists>k' \<in> set (tb_keys (tbundle nxt)). mk_id k' = mk_id k \<and> model_material k' = model_material k \<and> (\<forall>t. revoked_by k t \<longrightarrow> revoked_by k' t)"
proof -
  obtain k' where k': "find (\<lambda>k'. mk_id k' = mk_id k) (tb_keys (tbundle nxt)) = Some k'" "model_material k' = model_material k"
    and revoked: "\<And>r. mk_revoked_at k = Some r \<Longrightarrow> \<exists>r' b a. mk_revoked_at k' = Some r' \<and> timestamp r = Ok b \<and> timestamp r' = Ok a \<and> a \<le> b"
    using assms unfolding retains_model_key_def model_material_def
    by (fastforce simp: result_simps split: option.splits)
  have "revoked_by k' t" if dead: "revoked_by k t" for t
  proof -
    obtain r where r: "mk_revoked_at k = Some r" using dead by (auto simp: revoked_by_def split: option.splits)
    then show ?thesis using revoked [OF r] dead by (auto simp: revoked_by_def)
  qed
  moreover have "k' \<in> set (tb_keys (tbundle nxt))" "mk_id k' = mk_id k" using k'(1) by (auto simp: find_Some_iff)
  ultimately show ?thesis using k'(2) by blast
qed

lemma model_keys_kept:
  assumes "model_apply sv st e = Ok s" "k \<in> set (model_keys_of st)"
  shows "\<exists>k' \<in> set (model_keys_of (Some s)). mk_id k' = mk_id k \<and> model_material k' = model_material k \<and> (\<forall>t. revoked_by k t \<longrightarrow> revoked_by k' t)"
proof (cases e)
  case (PublishModel x t)
  then have pub: "model_publish sv st x t = Ok s" using assms(1) by simp
  obtain old where old: "st = Some old" "k \<in> set (tb_keys (tbundle (model_anchored old)))"
    using assms(2) by (auto simp: model_keys_of_def split: option.splits)
  show ?thesis
  proof (cases "st = Some s")
    case False
    then have "retains_model_key t k = Ok ()" "model_anchored s = t" using model_publish_Ok(2,3) [OF pub] old by auto
    then show ?thesis using retains_model_key_Ok by (simp add: model_keys_of_def)
  qed (use assms(2) in auto)
qed (use assms in \<open>auto simp: model_keys_of_def elim!: model_admit_Ok\<close>)

lemma model_floor_mono:
  assumes "model_apply sv st e = Ok s"
  shows "model_floor_of st \<le> model_floor_of (Some s) \<and> model_version_of st \<le> model_version_of (Some s)"
proof (cases e)
  case (PublishModel x t)
  then have "model_publish sv st x t = Ok s" using assms by simp
  note pub = model_publish_Ok(2,3) [OF this]
  from pub(2) show ?thesis
  proof (elim disjE conjE exE)
    fix old assume "st = Some old" "s = old\<lparr>model_anchored := t\<rparr>" "unat (bundle_sequence (tbundle t)) = Suc (model_version_of st)"
    then show ?thesis using pub(1) by (simp add: model_floor_of_def model_version_of_def)
  qed (use pub(1) in \<open>simp_all add: model_floor_of_def model_version_of_def\<close>)
qed (use assms in \<open>auto simp: model_floor_of_def model_version_of_def word_le_nat_alt elim!: model_admit_Ok\<close>)

interpretation model: trust_history "\<lambda>st. st = None" "model_step sv" model_ok model_keys_of mk_id model_material
  revoked_by model_floor_of model_version_of for sv
proof
  show "model_ok (model_step sv st e)" if "model_ok st" for st e
    using that model_apply_ok [OF that] by (auto simp: model_step_def split: sum.splits)
  show "distinct (map mk_id (model_keys_of st))" if "model_ok st" for st
    using that by (simp add: model_ok_def)
  show "\<exists>k' \<in> set (model_keys_of (model_step sv st e)). mk_id k' = mk_id k \<and> model_material k' = model_material k
      \<and> (\<forall>t. revoked_by k t \<longrightarrow> revoked_by k' t)" if "model_ok st" "k \<in> set (model_keys_of st)" for st k e
    using that model_keys_kept [of sv st e _ k] by (cases "model_apply sv st e") (auto simp: model_step_def)
  show "model_floor_of st \<le> model_floor_of (model_step sv st e)" for st e
    using model_floor_mono [of sv st e] by (auto simp: model_step_def split: sum.splits)
  show "model_version_of st \<le> model_version_of (model_step sv st e)" for st e
    using model_floor_mono [of sv st e] by (auto simp: model_step_def split: sum.splits)
qed (simp_all add: model_ok_def model_keys_of_def)

abbreviation model_run :: "model_services \<Rightarrow> model_event list \<Rightarrow> model_state option" where
  "model_run sv es \<equiv> foldl (model_step sv) None es"

lemma model_reachable: "model_ok (model_run sv es)"
  by (rule model.invariant_reachable) simp

lemma check_live_revoked: "check_live start stop (mk_revoked_at k) i = Ok u \<Longrightarrow> revoked_by k t \<Longrightarrow> upper_ms i < t"
  by (auto simp: check_live_def result_simps revoked_by_def interval_within_def split: option.splits sum.splits prod.splits if_splits)

text \<open>A successful verification finds the key alive over the whole interval, and its signature by exactly that key.\<close>

lemma verify_leaf_Ok:
  assumes "verify_leaf sv s name purpose message signature i = Ok u"
  obtains k raw where "k \<in> set (tb_keys (tbundle s))" "mk_id k = name" "purpose \<in> set (mk_purposes k)"
    "decode64 32 (mk_public k) = Ok raw" "verify_der sv raw message signature = Ok ()" "\<And>t. revoked_by k t \<Longrightarrow> upper_ms i < t"
proof -
  obtain k raw where k: "find (\<lambda>k. mk_id k = name) (tb_keys (tbundle s)) = Some k" "purpose \<in> set (mk_purposes k)"
    "check_live (mk_not_before k) (mk_not_after k) (mk_revoked_at k) i = Ok ()" "decode64 32 (mk_public k) = Ok raw" "verify_der sv raw message signature = Ok ()"
    using assms by (auto simp: verify_leaf_def check_key_time_def result_simps)
  then have "k \<in> set (tb_keys (tbundle s))" "mk_id k = name" by (auto simp: find_Some_iff)
  then show ?thesis using that k check_live_revoked by blast
qed

text \<open>
  C38: Revocation of a model signing key is final and is never postponed, and a key name never changes hands. Let a key be
  revoked as of time \<open>r\<close> in a state reached by any publications and admissions. After any further ones, a signature under
  that key's name is accepted only for a protected interval that ends before \<open>r\<close>, under a purpose the key had, and only
  if it verifies under the public key the name had.
\<close>

theorem model_revocation_final:
  assumes "k \<in> set (model_keys_of (model_run sv es))" "mk_revoked_at k = Some v" "timestamp v = Ok r"
    and "model_run sv (es @ es') = Some s" "verify_leaf sv (model_anchored s) (mk_id k) purpose message signature i = Ok u"
  shows "upper_ms i < r \<and> purpose \<in> set (mk_purposes k)
    \<and> (\<exists>raw. decode64 32 (mk_public k) = Ok raw \<and> verify_der sv raw message signature = Ok ())"
proof -
  obtain k' raw where k': "k' \<in> set (tb_keys (tbundle (model_anchored s)))" "mk_id k' = mk_id k" "purpose \<in> set (mk_purposes k')"
    "decode64 32 (mk_public k') = Ok raw" "verify_der sv raw message signature = Ok ()" "\<And>t. revoked_by k' t \<Longrightarrow> upper_ms i < t"
    using assms(5) by (rule verify_leaf_Ok) blast
  have "revoked_by k r" using assms(2,3) by (simp add: revoked_by_def)
  moreover have "k' \<in> set (model_keys_of (foldl (model_step sv) (model_run sv es) es'))"
    using assms(4) k'(1) by (simp add: model_keys_of_def)
  ultimately have "revoked_by k' r \<and> model_material k' = model_material k"
    using model.dead_forever [OF model_reachable assms(1)] k'(2) by blast
  then show ?thesis using k' by (auto simp: model_material_def)
qed

section \<open>A sample history\<close>

definition sample_model_services :: model_services where
  "sample_model_services = \<lparr>canonical_length = (\<lambda>_. Ok 100), trust_digest = (\<lambda>_. Ok (replicate 64 CHR ''a'')),
     request_digest = (\<lambda>_. Ok (replicate 64 CHR ''b'')), statement_digest = (\<lambda>_. Ok (replicate 64 CHR ''c'')),
     approvals_digest = (\<lambda>_. Ok (replicate 64 CHR ''d'')), decode_envelope = (\<lambda>_. Err ''''), parse_catalog = (\<lambda>_. Err ''''),
     canonical_bundle = (\<lambda>_. Ok []), fingerprint = (\<lambda>_. replicate 64 CHR ''e''), verify_der = (\<lambda>_ _ _. Ok ())\<rparr>"

definition sample_model_key :: model_key where
  "sample_model_key = \<lparr>mk_environment = ''lab'', mk_id = ''pack-a'', mk_not_after = ''2026-10-12T23:59:59Z'', mk_not_before = ''2026-10-12T00:00:01Z'',
     mk_public = base64 (replicate 32 2), mk_encoding = ''raw-ed25519-base64'', mk_purposes = [''model-pack-manifest''],
     mk_reason = Some ''lost'', mk_revoked_at = Some ''2026-10-12T12:00:00Z'', mk_role = ''model-pack-signer''\<rparr>"

definition sample_model_trust :: "u64 \<Rightarrow> string option \<Rightarrow> signed_model_trust" where
  "sample_model_trust n previous = \<lparr>tbundle = \<lparr>artifact_type = ''luma-os-signing-trust-bundle'', bundle_sequence = n, tb_environment = ''lab'',
     issued_at = ''2026-10-12T00:00:01Z'', tb_keys = [sample_model_key], tb_not_after = ''2026-10-13T00:00:00Z'', tb_not_before = ''2026-10-12T00:00:00Z'',
     tb_policy = ''trust-policy-v1'', previous_bundle = previous, root_key_id = ''model-root'', tb_schema = 1, trust_domain = MODEL_DOMAIN\<rparr>,
     smt_schema = 1, smt_signature = base64 (replicate 64 1), signature_algorithm = ''Ed25519'', signature_encoding = ''base64''\<rparr>"

definition sample_model_history :: "model_event list" where
  "sample_model_history = [PublishModel 0 (sample_model_trust 1 None)]"

definition sample_model_later :: "model_event list" where
  "sample_model_later = [PublishModel 1 (sample_model_trust 2 (Some (replicate 64 CHR ''a'')))]"

definition sample_model_state :: model_state where
  "sample_model_state = \<lparr>model_anchored = sample_model_trust 2 (Some (replicate 64 CHR ''a'')), model_floor = 0, model_current = None\<rparr>"

lemma sample_times:
  "timestamp ''2026-10-12T00:00:00Z'' = Ok 1791763200000" "timestamp ''2026-10-12T00:00:01Z'' = Ok 1791763201000"
  "timestamp ''2026-10-12T12:00:00Z'' = Ok 1791806400000" "timestamp ''2026-10-12T23:59:59Z'' = Ok 1791849599000"
  "timestamp ''2026-10-13T00:00:00Z'' = Ok 1791849600000"
  by code_simp+

lemma sample_ascii: "check_ascii 256 ''pack-a'' = Ok ()" "check_ascii 256 ''lost'' = Ok ()" "check_ascii 256 ''trust-policy-v1'' = Ok ()"
  "check_ascii 256 ''model-root'' = Ok ()" "is_lower_hex CHR ''a''"
  by code_simp+

lemma sample_model_valid:
  assumes "n \<noteq> 0" "n \<le> SAFE" "if n = 1 then previous = None else previous = Some (replicate 64 CHR ''a'')"
  shows "model_trust_validate sample_model_services (sample_model_trust n previous) = Ok ()"
proof -
  have "decode64 64 (base64 (replicate 64 1)) = Ok (replicate 64 1)" "decode64 32 (base64 (replicate 32 2)) = Ok (replicate 32 2)"
    by (rule decode64_base64; simp add: list_all_iff)+
  moreover have "check_hash (replicate 64 CHR ''a'') = Ok ()"
    by (simp add: check_hash_def io_hash_def hex_string_def list_all_iff sample_ascii)
  ultimately show ?thesis using assms unfolding model_trust_validate_def Let_def
    by (simp add: sample_model_trust_def sample_model_key_def sample_model_services_def check_environment_def check_positive_def check_dates_def
      MODEL_DOMAIN_def MAX_TRUST_def sample_times sample_ascii check_purpose_def purpose_role_def check_revocation_def ascending_def not_less
      split: if_splits)
qed

lemma sample_model_fields:
  "bundle_sequence (tbundle (sample_model_trust n p)) = n" "tb_environment (tbundle (sample_model_trust n p)) = ''lab''"
  "previous_bundle (tbundle (sample_model_trust n p)) = p" "tb_keys (tbundle (sample_model_trust n p)) = [sample_model_key]"
  "trust_digest sample_model_services t = Ok (replicate 64 CHR ''a'')" "checked_add 0 1 = Some (1 :: u64)" "checked_add 1 1 = Some (2 :: u64)"
  by (simp_all add: sample_model_trust_def sample_model_services_def checked_add_def)

lemma sample_model_first:
  "model_run sample_model_services sample_model_history = Some \<lparr>model_anchored = sample_model_trust 1 None, model_floor = 0, model_current = None\<rparr>"
  using sample_model_valid [of 1 None]
  by (simp add: sample_model_history_def model_step_def model_publish_def SAFE_def sample_model_fields Let_def)

lemma sample_model_second: "model_run sample_model_services (sample_model_history @ sample_model_later) = Some sample_model_state"
proof -
  let ?a = "Some (replicate 64 CHR ''a'')"
  have "retains_model_key (sample_model_trust 2 ?a) sample_model_key = Ok ()"
    by (simp add: retains_model_key_def sample_model_fields) (simp add: sample_model_key_def sample_times)
  then show ?thesis
    using sample_model_valid [of 2 ?a]
    by (simp add: sample_model_first sample_model_later_def model_step_def model_publish_def SAFE_def sample_model_fields sample_model_state_def Let_def)
qed

text \<open>At 11:00 UTC of the day the key is revoked at noon, its signatures still count.\<close>

theorem model_revocation_final_witness:
  "model_run sample_model_services (sample_model_history @ sample_model_later) = Some sample_model_state
   \<and> verify_leaf sample_model_services (model_anchored sample_model_state) (mk_id sample_model_key) ''model-pack-manifest'' [] []
       \<lparr>lower_ms = 1791802800000, upper_ms = 1791802801000\<rparr> = Ok ()
   \<and> upper_ms \<lparr>lower_ms = 1791802800000, upper_ms = 1791802801000\<rparr> < (1791806400000 :: int)"
proof -
  let ?i = "\<lparr>lower_ms = 1791802800000, upper_ms = 1791802801000\<rparr>"
  have keys: "sample_model_key \<in> set (model_keys_of (model_run sample_model_services sample_model_history))"
    by (simp add: sample_model_first model_keys_of_def sample_model_trust_def)
  have revoked: "mk_revoked_at sample_model_key = Some ''2026-10-12T12:00:00Z''" by (simp add: sample_model_key_def)
  have "decode64 32 (base64 (replicate 32 2)) = Ok (replicate 32 2)" by (rule decode64_base64) (simp_all add: list_all_iff)
  then have ok: "verify_leaf sample_model_services (model_anchored sample_model_state) (mk_id sample_model_key) ''model-pack-manifest'' [] [] ?i = Ok ()"
    by (simp add: verify_leaf_def check_key_time_def check_live_def check_dates_def interval_within_def sample_model_state_def sample_model_trust_def
        sample_model_key_def sample_times purpose_role_def sample_model_services_def)
  show ?thesis using model_revocation_final [OF keys revoked sample_times(3) sample_model_second ok] sample_model_second ok by blast
qed

end
