(* ===== verification/Catalog.thy ===== *)
theory Catalog
  imports Finite_Grants Accounts Release_Trust Skill_Trust Model_Trust
begin

text \<open>
  The governance catalog (\<open>admin_roles.rs\<close>): its state, what it authorizes (\<open>finite_grants.rs\<close>,
  \<open>model_trust::check_custodian\<close>), the commands with their validation, and one definition for every arm of
  \<open>Catalog::apply\<close>. The services of the trust components, the digest of the approved UTC policy and the length of a
  serialized registry are parameters.
\<close>

section \<open>State\<close>

definition MAX_ACTIVITIES :: nat where "MAX_ACTIVITIES = 128"
definition MAX_ROLES :: nat where "MAX_ROLES = 128"

definition CONTROL :: "string list" where
  "CONTROL = [''admin.activity.register'', ''admin.role.define'', ''admin.role.assign'', ''admin.role.revoke'']"

record role =
  role_name :: string
  role_activities :: "string list"
  role_version :: u64

record principal_state =
  state_generation :: u64
  state_enabled :: bool

record catalog =
  model_authority :: "model_state option"
  assignment_receipts :: "(string, string) bmap"
  model_approvals :: "(string, approval) bmap"
  model_signings :: "(string, catalog_statement) bmap"
  skill_authority :: "skill_state option"
  release_authority :: "release_state option"
  state_version :: u64
  activities :: "string set"
  roles :: "(string, role) bmap"
  assignments :: "(string, assignment) bmap"
  grants :: "(string, grant) bmap"
  principal_registry :: "registry option"
  current_registry :: "registry option"
  account_creations :: "(string, creation) bmap"
  needs_password_aging :: "string set"
  principal_states :: "(string, principal_state) bmap"
  account_commitments :: "(string, string) bmap"
  account_transitions :: "(string, transition) bmap"
  account_deletions :: "(string, deletion) bmap"
  deleted_principals :: "string set"
  admin_recovery :: "verifier option"

definition catalog_initial :: catalog where
  "catalog_initial = \<lparr>model_authority = None, assignment_receipts = bm_empty, model_approvals = bm_empty, model_signings = bm_empty,
     skill_authority = None, release_authority = None, state_version = 1, activities = set CONTROL, roles = bm_empty, assignments = bm_empty,
     grants = bm_empty, principal_registry = None, current_registry = None, account_creations = bm_empty, needs_password_aging = {},
     principal_states = bm_empty, account_commitments = bm_empty, account_transitions = bm_empty, account_deletions = bm_empty,
     deleted_principals = {}, admin_recovery = None\<rparr>"

definition catalog_registry :: "catalog \<Rightarrow> registry result" where
  "catalog_registry c =
     ok_or (case current_registry c of Some r \<Rightarrow> Some r | None \<Rightarrow> principal_registry c) ''explicit principal adoption required''"

definition accepts_registry :: "catalog \<Rightarrow> registry \<Rightarrow> bool result" where
  "accepts_registry c r =
     and_then (catalog_registry c) (\<lambda>current.
     Ok (current = r \<or> list_ex (\<lambda>v. creation_phase v = PublicationPermitted \<and> registry_after (creation_intent_of v) = r)
       (bm_values (account_creations c))))"

definition creation_pending :: "catalog \<Rightarrow> bool" where
  "creation_pending c \<longleftrightarrow> list_ex (\<lambda>v. creation_phase v \<noteq> Complete) (bm_values (account_creations c))"

definition deletion_pending :: "catalog \<Rightarrow> bool" where
  "deletion_pending c \<longleftrightarrow> list_ex (\<lambda>v. deletion_phase v \<noteq> Complete) (bm_values (account_deletions c))"

definition transition_pending :: "catalog \<Rightarrow> bool" where
  "transition_pending c \<longleftrightarrow> list_ex (\<lambda>v. transition_phase v \<noteq> Complete) (bm_values (account_transitions c))"

definition transaction_capacity :: "catalog \<Rightarrow> nat" where
  "transaction_capacity c = bm_size (account_creations c) + bm_size (account_deletions c) + bm_size (account_transitions c)"

text \<open>The current generation of a principal: the governed one, or the one it was adopted with.\<close>

definition current_generation :: "catalog \<Rightarrow> principal \<Rightarrow> string \<Rightarrow> u64" where
  "current_generation c p name = (case bm_get (principal_states c) name of Some s \<Rightarrow> state_generation s | None \<Rightarrow> generation p)"

definition state_disabled :: "catalog \<Rightarrow> string \<Rightarrow> bool" where
  "state_disabled c name = (case bm_get (principal_states c) name of Some s \<Rightarrow> \<not> state_enabled s | None \<Rightarrow> False)"

definition recovery_verifier :: "catalog \<Rightarrow> verifier result" where
  "recovery_verifier c =
     and_then (ok_or (principal_registry c) ''explicit principal adoption required'') (\<lambda>r.
     ok_or (case admin_recovery c of Some v \<Rightarrow> Some v | None \<Rightarrow> registry_recovery r) ''no installer-enrolled offline Admin recovery credential; no root or TPM-owner fallback'')"

text \<open>
  \<open>password_day\<close>: the day of the completed timed transition with the greatest generation (\<open>max_by_key\<close> keeps the last of
  equal ones, in the order of the map).
\<close>

definition later_day :: "(u64 \<times> u32) option \<Rightarrow> u64 \<times> u32 \<Rightarrow> (u64 \<times> u32) option" where
  "later_day best v = (case best of None \<Rightarrow> Some v | Some b \<Rightarrow> if fst b \<le> fst v then Some v else best)"

definition timed_days :: "catalog \<Rightarrow> string \<Rightarrow> (u64 \<times> u32) list" where
  "timed_days c name =
     List.map_filter (\<lambda>t. map_option (\<lambda>(day, _). (expected_generation (transition_intent t), day)) (timed (intent_kind (transition_intent t))))
       (filter (\<lambda>t. intent_principal (transition_intent t) = name \<and> transition_phase t = Complete) (bm_values (account_transitions c)))"

definition password_day :: "catalog \<Rightarrow> string \<Rightarrow> u32 option" where
  "password_day c name = map_option snd (foldl later_day None (timed_days c name))"

definition resolve_principal :: "catalog \<Rightarrow> identity \<Rightarrow> identity result" where
  "resolve_principal c local =
     and_then (catalog_registry c) (\<lambda>r.
     and_then (ok_or (registry_account r (identity_login local)) ''unknown adopted account'') (\<lambda>p.
     if \<not> enabled p \<or> registry_identity r p \<noteq> local then Err ''local identity does not match adopted installation baseline''
     else let now = (case bm_get (principal_states c) (principal_id p) of Some s \<Rightarrow> p\<lparr>generation := state_generation s, enabled := state_enabled s\<rparr> | None \<Rightarrow> p) in
     if \<not> enabled now then Err ''governed principal is disabled'' else Ok (registry_identity r now)))"

section \<open>Authorization\<close>

definition subject_current :: "catalog \<Rightarrow> string \<Rightarrow> u64 \<Rightarrow> unit result" where
  "subject_current c name g =
     and_then (catalog_registry c) (\<lambda>r. and_then (ok_or (registry_principal r name) ''unknown grant subject'') (\<lambda>p.
     if \<not> enabled p \<or> state_disabled c name \<or> current_generation c p name \<noteq> g \<or> name \<in> deleted_principals c
        \<or> name \<in> needs_password_aging c \<or> \<not> bm_contains (account_commitments c) name
     then Err ''grant subject is disabled, stale, uncheckpointed or awaiting activation'' else Ok ()))"

definition assignment_current :: "catalog \<Rightarrow> assignment \<Rightarrow> interval \<Rightarrow> unit result" where
  "assignment_current c a i =
     (let refusal = ''role assignment revoked, superseded or outside full UTC interval'' in
      and_then (subject_current c (asg_subject a) (asg_generation a)) (\<lambda>_.
      and_then (ok_or (bm_get (roles c) (asg_role a)) ''assigned role no longer exists'') (\<lambda>r.
      if bm_get (assignments c) (asg_id a) \<noteq> Some a \<or> asg_revoked a \<or> role_version r \<noteq> asg_role_version a then Err refusal
      else and_then (interval_within i (asg_not_before a) (asg_expires a)) (\<lambda>b. if \<not> b then Err refusal else Ok ()))))"

definition grant_issue :: "grant \<Rightarrow> catalog \<Rightarrow> unit result" where
  "grant_issue g c =
     and_then (grant_validate g) (\<lambda>_. and_then (subject_current c (grant_subject g) (grant_generation g)) (\<lambda>_.
     and_then (ok_or (bm_get (assignments c) (grant_assignment g)) ''grant requires checkpointed assignment'') (\<lambda>a.
     and_then (ok_or (bm_get (roles c) (asg_role a)) ''grant requires registered role'') (\<lambda>r.
     if asg_revoked a \<or> asg_version a \<noteq> assignment_version g \<or> asg_subject a \<noteq> grant_subject g \<or> asg_generation a \<noteq> grant_generation g
        \<or> asg_role_version a \<noteq> role_version r \<or> action_activity (grant_action g) \<notin> set (role_activities r)
        \<or> grant_not_before g < asg_not_before a \<or> asg_expires a < grant_expires g
     then Err ''grant cannot expand role, subject, version or assignment validity'' else Ok ()))))"

definition authorize :: "grant \<Rightarrow> catalog \<Rightarrow> identity \<Rightarrow> interval \<Rightarrow> usage \<Rightarrow> unit result" where
  "authorize g c who i u =
     (let refusal = ''finite grant denied exact subject, target, operation, constraints or UTC validity'' in
      and_then (use_validate u) (\<lambda>_.
      if bm_get (grants c) (grant_id g) \<noteq> Some g \<or> grant_revoked g \<or> identity_principal who \<noteq> grant_subject g
         \<or> identity_generation who \<noteq> grant_generation g \<or> grant_action g \<noteq> use_action u \<or> grant_selector g \<noteq> use_selector u
         \<or> max_input_bytes (grant_constraints g) < input_bytes u \<or> max_output_bytes (grant_constraints g) < output_bytes u
         \<or> max_units (grant_constraints g) < units u
      then Err refusal
      else and_then (interval_within i (grant_not_before g) (grant_expires g)) (\<lambda>b.
      if \<not> b then Err refusal
      else and_then (ok_or (bm_get (assignments c) (grant_assignment g)) ''grant assignment missing'') (\<lambda>a.
      and_then (assignment_current c a i) (\<lambda>_.
      if asg_version a \<noteq> assignment_version g \<or> asg_subject a \<noteq> grant_subject g \<or> asg_generation a \<noteq> grant_generation g
      then Err ''finite grant role or assignment changed''
      else and_then (ok_or (bm_get (roles c) (asg_role a)) ''grant role missing'') (\<lambda>r.
      if action_activity (grant_action g) \<notin> set (role_activities r) then Err ''finite grant role or assignment changed'' else Ok ()))))))"

definition check_custodian :: "catalog \<Rightarrow> string \<Rightarrow> string \<Rightarrow> string \<Rightarrow> string \<Rightarrow> interval \<Rightarrow> unit result" where
  "check_custodian c name assignment receipt activity i =
     (let refusal = ''model custody requires exact current finite principal/role/assignment and actual checkpointed receipt'' in
      and_then (ok_or (bm_get (assignments c) assignment) ''unknown model custodian assignment'') (\<lambda>a.
      and_then (ok_or (bm_get (roles c) (asg_role a)) ''unknown model custodian role'') (\<lambda>r.
      and_then (catalog_registry c) (\<lambda>reg. and_then (ok_or (registry_principal reg name) ''unknown model custodian principal'') (\<lambda>p.
      if asg_subject a \<noteq> name \<or> asg_revoked a \<or> role_version r \<noteq> asg_role_version a \<or> activity \<notin> set (role_activities r)
         \<or> \<not> enabled p \<or> state_disabled c name \<or> current_generation c p name \<noteq> asg_generation a \<or> name \<in> deleted_principals c
         \<or> name \<in> needs_password_aging c \<or> \<not> bm_contains (account_commitments c) name \<or> bm_get (assignment_receipts c) assignment \<noteq> Some receipt
      then Err refusal
      else and_then (interval_within i (asg_not_before a) (asg_expires a)) (\<lambda>b.
      if \<not> b then Err refusal
      else case password_day c name of None \<Rightarrow> Ok () | Some day \<Rightarrow>
        and_then (interval_within i (int (unat day) * 86400000) ((int (unat day) + 90) * 86400000)) (\<lambda>b.
        if \<not> b then Err ''model custodian password aging is outside protected UTC'' else Ok ())))))))"

end
