(* ===== verification/Catalog_Commands.thy ===== *)
theory Catalog_Commands
  imports Catalog
begin

text \<open>
  The commands of the governance catalog: \<open>Command\<close>, \<open>Command::activity\<close>, \<open>Command::validate\<close> and \<open>Catalog::apply\<close>, one
  definition for every arm. A body yields the new catalog, or \<open>None\<close> where the code returns early because nothing would
  change; the bodies that may fail after they have already written are actions on the catalog itself.
\<close>

section \<open>Commands\<close>

datatype command =
    PublishModelTrust u64 signed_model_trust
  | AdmitModelCatalog u64 model_admission
  | RecordModelCatalogApproval release_request approval
  | RecordModelCatalogSigning catalog_statement
  | PublishSkillTrust u64 signed_skill_trust
  | AdmitSkillRegistry u64 skill_admission
  | PublishReleaseTrust u64 signed_trust
  | PrepareRelease u64 admission
  | InitializeRelease signed_release
  | ResolveRelease string outcome
  | RegisterActivity string
  | DefineRole string "string list" u64
  | AssignRole assignment
  | RevokeAssignment string u64
  | IssueGrant grant
  | RevokeGrant string u64
  | AdoptPrincipals registry
  | CheckpointAccounts "(string, string) bmap"
  | PrepareAccountLock intent
  | PrepareAccountDeletion deletion_intent
  | PrepareAccountCreation creation_intent
  | PermitAccountCreation string
  | CompleteAccountCreation string
  | PermitAccountDeletion string
  | CompleteAccountDeletion string
  | PermitAccountPublication string
  | CompleteAccountLock string
  | AdvancePrincipal string u64 bool
  | RotateAdmin u64
  | RecoverAdmin u64 u64 verifier
  | PrepareAdminAccountRecovery intent string u64 verifier
  | PermitAdminAccountRecovery string
  | CompleteAdminAccountRecovery string

record catalog_services =
  release_sv :: release_services
  skill_sv :: skill_services
  model_sv :: model_services
  approved_utc :: "nat list result"
  registry_length :: "registry \<Rightarrow> nat"

fun is_activation :: "transition_kind option \<Rightarrow> bool" where
  "is_activation (Some (Activation _ _)) = True"
| "is_activation _ = False"

fun is_recovery :: "transition_kind option \<Rightarrow> bool" where
  "is_recovery (Some (AdminRecovery _ _)) = True"
| "is_recovery _ = False"

fun is_renewal :: "transition_kind option \<Rightarrow> bool" where
  "is_renewal (Some (Renewal _ _)) = True"
| "is_renewal _ = False"

fun command_activity :: "command \<Rightarrow> string" where
  "command_activity (PublishModelTrust _ _) = ''admin.models.trust_publish''"
| "command_activity (AdmitModelCatalog _ _) = ''admin.models.catalog_admit''"
| "command_activity (RecordModelCatalogApproval _ a) =
     (if ap_activity a \<in> {''model-catalog.approve.license'', ''model-catalog.approve.release'', ''model-catalog.approve.security'', ''model-catalog.approve.lab-release''}
      then ap_activity a else ''invalid-model-catalog-approval'')"
| "command_activity (RecordModelCatalogSigning st) =
     (if rq_environment (st_request st) = ''production'' then ''model-catalog.sign.production''
      else if rq_environment (st_request st) = ''lab'' then ''model-catalog.sign.lab'' else ''invalid-model-catalog-signing'')"
| "command_activity (PublishSkillTrust _ _) = ''admin.skills.trust_publish''"
| "command_activity (AdmitSkillRegistry _ _) = ''admin.skills.registry_admit''"
| "command_activity (PublishReleaseTrust _ _) = ''admin.release.trust_publish''"
| "command_activity (PrepareRelease _ _) = ''admin.release.prepare''"
| "command_activity (InitializeRelease _) = ''admin.release.initialize''"
| "command_activity (ResolveRelease _ _) = ''admin.release.resolve''"
| "command_activity (RegisterActivity _) = ''admin.activity.register''"
| "command_activity (DefineRole _ _ _) = ''admin.role.define''"
| "command_activity (AssignRole _) = ''admin.role.assign''"
| "command_activity (RevokeAssignment _ _) = ''admin.role.revoke''"
| "command_activity (IssueGrant _) = ''admin.grant.issue''"
| "command_activity (RevokeGrant _ _) = ''admin.grant.revoke''"
| "command_activity (AdoptPrincipals _) = ''admin.principal.adopt''"
| "command_activity (CheckpointAccounts _) = ''admin.account.checkpoint''"
| "command_activity (PrepareAccountLock i) =
     (if intent_kind i = Some Password then ''admin.account.password_prepare''
      else if is_activation (intent_kind i) then ''admin.account.activation_prepare''
      else if is_renewal (intent_kind i) then ''admin.account.password_renew_prepare'' else ''admin.account.lock_prepare'')"
| "command_activity (PrepareAccountDeletion _) = ''admin.account.delete_prepare''"
| "command_activity (PrepareAccountCreation _) = ''admin.account.create_prepare''"
| "command_activity (PermitAccountCreation _) = ''admin.account.create_permit''"
| "command_activity (CompleteAccountCreation _) = ''admin.account.create_complete''"
| "command_activity (PermitAccountDeletion _) = ''admin.account.delete_permit''"
| "command_activity (CompleteAccountDeletion _) = ''admin.account.delete_complete''"
| "command_activity (PermitAccountPublication _) = ''admin.account.lock_publish''"
| "command_activity (CompleteAccountLock _) = ''admin.account.lock_complete''"
| "command_activity (AdvancePrincipal _ _ _) = ''admin.principal.advance''"
| "command_activity (RotateAdmin _) = ''admin.principal.rotate_admin''"
| "command_activity (RecoverAdmin _ _ _) = ''admin.principal.recover''"
| "command_activity (PrepareAdminAccountRecovery _ _ _ _) = ''admin.account.recovery_prepare''"
| "command_activity (PermitAdminAccountRecovery _) = ''admin.account.recovery_publish''"
| "command_activity (CompleteAdminAccountRecovery _) = ''admin.account.recovery_complete''"

section \<open>Validation\<close>

definition valid_activity :: "string \<Rightarrow> bool" where
  "valid_activity v \<longleftrightarrow> admin_identifier v \<and> v \<noteq> ''admin.bootstrap''"

definition transaction_name :: "string \<Rightarrow> string \<Rightarrow> unit result" where
  "transaction_name refusal t = (if \<not> admin_identifier t \<or> t = bootstrap_transaction then Err refusal else Ok ())"

definition checkpoint_entry :: "string \<times> string \<Rightarrow> unit result" where
  "checkpoint_entry e = (case e of (name, commit) \<Rightarrow>
     and_then (tpm_decode 32 name) (\<lambda>_. and_then (tpm_decode 32 commit) (\<lambda>_.
     if commit = replicate 64 CHR ''0'' then Err ''empty credential commitment'' else Ok ())))"

fun command_validate :: "catalog_services \<Rightarrow> command \<Rightarrow> unit result" where
  "command_validate sv (PublishModelTrust expected b) =
     (if SAFE \<le> expected then Err ''model trust sequence exhausted'' else model_trust_validate (model_sv sv) b)"
| "command_validate sv (AdmitModelCatalog expected a) =
     (if SAFE < expected then Err ''model catalog floor exhausted'' else model_admission_validate (model_sv sv) a)"
| "command_validate sv (RecordModelCatalogApproval r a) = check_request (model_sv sv) a r"
| "command_validate sv (RecordModelCatalogSigning st) = Model_Trust.statement_validate (model_sv sv) st"
| "command_validate sv (PublishSkillTrust expected b) =
     (if I64_MAX \<le> expected then Err ''skill trust version exhausted'' else skill_trust_validate (skill_sv sv) b)"
| "command_validate sv (AdmitSkillRegistry expected a) =
     (if I64_MAX < expected then Err ''skill registry floor exhausted'' else skill_admission_validate (skill_sv sv) a)"
| "command_validate sv (PublishReleaseTrust expected b) =
     (if I64_MAX \<le> expected then Err ''release trust version exhausted'' else signed_trust_validate (release_sv sv) b)"
| "command_validate sv (PrepareRelease expected a) =
     (if I64_MAX \<le> expected then Err ''release admission floor exhausted''
      else and_then (validate_manifest (prior a)) (\<lambda>_. and_then (release_validate (release_sv sv) (candidate a)) (\<lambda>_.
        decodable (admission_sha256 a))))"
| "command_validate sv (InitializeRelease r) = release_validate (release_sv sv) r"
| "command_validate sv (ResolveRelease digest out) = decodable digest"
| "command_validate sv (AssignRole a) = assignment_validate a"
| "command_validate sv (IssueGrant g) = grant_validate g"
| "command_validate sv (RevokeAssignment a v) =
     (if \<not> admin_identifier a \<or> v = 0 then Err ''revocation requires an exact assignment/grant ID and version'' else Ok ())"
| "command_validate sv (RevokeGrant g v) =
     (if \<not> admin_identifier g \<or> v = 0 then Err ''revocation requires an exact assignment/grant ID and version'' else Ok ())"
| "command_validate sv (PrepareAccountLock i) = intent_validate (approved_utc sv) i"
| "command_validate sv (PrepareAdminAccountRecovery i credential g replacement) =
     and_then (intent_validate (approved_utc sv) i) (\<lambda>_. and_then (tpm_decode 32 credential) (\<lambda>d.
     if d = zero_digest then Err ''missing prior Admin credential authority''
     else if g = 0 \<or> \<not> is_recovery (intent_kind i) then Err ''Admin account recovery requires offline custody and an exact OS transition''
     else Ok ()))"
| "command_validate sv (PrepareAccountDeletion i) = deletion_validate i"
| "command_validate sv (PrepareAccountCreation i) = creation_validate (registry_length sv) i"
| "command_validate sv (PermitAccountPublication t) = transaction_name ''invalid account transition identifier'' t"
| "command_validate sv (PermitAdminAccountRecovery t) = transaction_name ''invalid account transition identifier'' t"
| "command_validate sv (CompleteAdminAccountRecovery t) = transaction_name ''invalid account transition identifier'' t"
| "command_validate sv (CompleteAccountLock t) = transaction_name ''invalid account transition identifier'' t"
| "command_validate sv (PermitAccountDeletion t) = transaction_name ''invalid account transition identifier'' t"
| "command_validate sv (CompleteAccountDeletion t) = transaction_name ''invalid account transition identifier'' t"
| "command_validate sv (PermitAccountCreation t) = transaction_name ''invalid account creation identifier'' t"
| "command_validate sv (CompleteAccountCreation t) = transaction_name ''invalid account creation identifier'' t"
| "command_validate sv (CheckpointAccounts m) =
     (if bm_is_empty m \<or> 128 < bm_size m then Err ''account checkpoint requires a finite complete inventory''
      else for_all checkpoint_entry (bm_entries m))"
| "command_validate sv (RecoverAdmin g rg replacement) =
     (if g = 0 \<or> rg = 0 then Err ''recovery requires nonzero principal and credential generations'' else Ok ())"
| "command_validate sv (AdoptPrincipals r) = registry_validate r"
| "command_validate sv (RotateAdmin g) = (if g = 0 then Err ''Admin generation must be nonzero'' else Ok ())"
| "command_validate sv (AdvancePrincipal p g e) =
     and_then (tpm_decode 32 p) (\<lambda>_. if g = 0 then Err ''principal generation must be nonzero'' else Ok ())"
| "command_validate sv (RegisterActivity a) =
     (if valid_activity a then Ok () else Err ''invalid finite Admin catalog command; no wildcards or root delegation'')"
| "command_validate sv (DefineRole name acts v) =
     (if admin_identifier name \<and> name \<noteq> ''Admin'' \<and> acts \<noteq> [] \<and> length acts \<le> 64 \<and> list_all valid_activity acts \<and> ascending acts
      then Ok () else Err ''invalid finite Admin catalog command; no wildcards or root delegation'')"

section \<open>Trust arms\<close>

type_synonym arm = "catalog option result"

abbreviation changed :: "catalog \<Rightarrow> arm" where
  "changed c \<equiv> Ok (Some c)"

definition publish_model_arm :: "catalog_services \<Rightarrow> catalog \<Rightarrow> u64 \<Rightarrow> signed_model_trust \<Rightarrow> arm" where
  "publish_model_arm sv c expected b =
     and_then (model_publish (model_sv sv) (model_authority c) expected b) (\<lambda>s.
     if Some s = model_authority c then Ok None else changed (c\<lparr>model_authority := Some s\<rparr>))"

definition admit_model_arm :: "catalog_services \<Rightarrow> catalog \<Rightarrow> u64 \<Rightarrow> model_admission \<Rightarrow> arm" where
  "admit_model_arm sv c expected a =
     and_then (model_admit (model_sv sv) (model_authority c) expected a) (\<lambda>s. changed (c\<lparr>model_authority := Some s\<rparr>))"

definition approve_model_arm :: "catalog_services \<Rightarrow> catalog \<Rightarrow> release_request \<Rightarrow> approval \<Rightarrow> arm" where
  "approve_model_arm sv c r a =
     and_then (check_request (model_sv sv) a r) (\<lambda>_. and_then (timestamp (approved_at a)) (\<lambda>t. and_then (interval_new t t) (\<lambda>i.
     and_then (check_custodian c (ap_principal a) (ap_assignment a) (ap_receipt a) (ap_activity a) i) (\<lambda>_.
     if 1024 \<le> bm_size (model_approvals c) \<or> bm_contains (model_approvals c) (decision_receipt a)
     then Err ''model approval decision is duplicate or bounded history is full''
     else changed (c\<lparr>model_approvals := bm_insert (decision_receipt a) a (model_approvals c)\<rparr>)))))"

definition sign_model_arm :: "catalog_services \<Rightarrow> catalog \<Rightarrow> catalog_statement \<Rightarrow> arm" where
  "sign_model_arm sv c st =
     and_then (Model_Trust.statement_validate (model_sv sv) st) (\<lambda>_. and_then (timestamp (signed_at st)) (\<lambda>t. and_then (interval_new t t) (\<lambda>i.
     and_then (check_custodian c (rq_principal (st_request st)) (rq_assignment (st_request st)) (rq_receipt (st_request st)) (rq_activity (st_request st)) i) (\<lambda>_.
     and_then (statement_digest (model_sv sv) st) (\<lambda>d.
     if 1024 \<le> bm_size (model_signings c) \<or> bm_contains (model_signings c) d then Err ''model signing event is duplicate or bounded history is full''
     else changed (c\<lparr>model_signings := bm_insert d st (model_signings c)\<rparr>))))))"

definition skill_arm :: "catalog \<Rightarrow> skill_state result \<Rightarrow> arm" where
  "skill_arm c r = and_then r (\<lambda>s. changed (c\<lparr>skill_authority := Some s\<rparr>))"

definition release_arm :: "catalog \<Rightarrow> release_state result \<Rightarrow> arm" where
  "release_arm c r = and_then r (\<lambda>s. changed (c\<lparr>release_authority := Some s\<rparr>))"

section \<open>Role and grant arms\<close>

definition register_arm :: "catalog \<Rightarrow> string \<Rightarrow> arm" where
  "register_arm c a =
     (if a \<in> activities c then Ok None
      else if MAX_ACTIVITIES \<le> card (activities c) then Err ''Admin activity catalog capacity exhausted''
      else changed (c\<lparr>activities := insert a (activities c)\<rparr>))"

definition define_role_arm :: "catalog \<Rightarrow> string \<Rightarrow> string list \<Rightarrow> u64 \<Rightarrow> arm" where
  "define_role_arm c name acts expected =
     (if list_ex (\<lambda>v. v \<notin> activities c) acts then Err ''role names an unregistered activity''
      else let current = bm_get (roles c) name in
      if (case current of None \<Rightarrow> 0 | Some r \<Rightarrow> role_version r) \<noteq> expected then Err ''Admin role version conflict''
      else if (case current of None \<Rightarrow> False | Some r \<Rightarrow> role_activities r = acts) then Ok None
      else if current = None \<and> MAX_ROLES \<le> bm_size (roles c) then Err ''Admin role catalog capacity exhausted''
      else and_then (ok_or (checked_add expected 1) ''Admin role version exhausted'') (\<lambda>v.
      changed (c\<lparr>roles := bm_insert name \<lparr>role_name = name, role_activities = acts, role_version = v\<rparr> (roles c)\<rparr>)))"

definition assign_arm :: "catalog \<Rightarrow> assignment \<Rightarrow> arm" where
  "assign_arm c a =
     and_then (ok_or (bm_get (roles c) (asg_role a)) ''assignment requires defined role'') (\<lambda>r.
     and_then (catalog_registry c) (\<lambda>reg. and_then (ok_or (registry_principal reg (asg_subject a)) ''assignment requires adopted principal'') (\<lambda>p.
     if role_version r \<noteq> asg_role_version a \<or> \<not> enabled p \<or> state_disabled c (asg_subject a) \<or> current_generation c p (asg_subject a) \<noteq> asg_generation a
        \<or> asg_subject a \<in> deleted_principals c \<or> asg_subject a \<in> needs_password_aging c \<or> \<not> bm_contains (account_commitments c) (asg_subject a)
        \<or> bm_contains (assignments c) (asg_id a) \<or> 512 \<le> bm_size (assignments c)
     then Err ''assignment subject, role/version or bounded history is unavailable''
     else changed (c\<lparr>assignments := bm_insert (asg_id a) a (assignments c)\<rparr>))))"

definition revoke_assignment_arm :: "catalog \<Rightarrow> string \<Rightarrow> u64 \<Rightarrow> arm" where
  "revoke_assignment_arm c name expected =
     and_then (ok_or (bm_get (assignments c) name) ''unknown assignment revocation'') (\<lambda>a.
     if asg_revoked a \<or> asg_version a \<noteq> expected then Err ''assignment revocation version conflict''
     else and_then (ok_or (checked_add (asg_version a) 1) ''assignment version exhausted'') (\<lambda>v.
     changed (c\<lparr>assignments := bm_insert name (a\<lparr>asg_version := v, asg_revoked := True\<rparr>) (assignments c)\<rparr>)))"

definition issue_grant_arm :: "catalog \<Rightarrow> grant \<Rightarrow> arm" where
  "issue_grant_arm c g =
     and_then (grant_issue g c) (\<lambda>_.
     if bm_contains (grants c) (grant_id g) \<or> 1024 \<le> bm_size (grants c) then Err ''grant identifier used or bounded grant history exhausted''
     else changed (c\<lparr>grants := bm_insert (grant_id g) g (grants c)\<rparr>))"

definition revoke_grant_arm :: "catalog \<Rightarrow> string \<Rightarrow> u64 \<Rightarrow> arm" where
  "revoke_grant_arm c name expected =
     and_then (ok_or (bm_get (grants c) name) ''unknown grant revocation'') (\<lambda>g.
     if grant_revoked g \<or> grant_version g \<noteq> expected then Err ''grant revocation version conflict''
     else and_then (ok_or (checked_add (grant_version g) 1) ''grant version exhausted'') (\<lambda>v.
     changed (c\<lparr>grants := bm_insert name (g\<lparr>grant_version := v, grant_revoked := True\<rparr>) (grants c)\<rparr>)))"

section \<open>Principal arms\<close>

definition adopt_arm :: "catalog \<Rightarrow> registry \<Rightarrow> arm" where
  "adopt_arm c r = (case principal_registry c of
       Some old \<Rightarrow> if old = r then Ok None
         else Err ''principal authority already adopted; a new snapshot cannot replace governed generations''
     | None \<Rightarrow> changed (c\<lparr>principal_registry := Some r\<rparr>))"

definition checkpoint_arm :: "catalog \<Rightarrow> (string, string) bmap \<Rightarrow> arm" where
  "checkpoint_arm c m =
     and_then (catalog_registry c) (\<lambda>r.
     if set (bm_keys m) \<noteq> set (map principal_id (filter enabled (principals r)))
     then Err ''account checkpoint does not bind every installed enabled principal''
     else if \<not> bm_is_empty (account_commitments c)
     then if account_commitments c = m then Ok None
       else Err ''credential authority is already checkpointed; lifecycle reconciliation required''
     else changed (c\<lparr>account_commitments := m\<rparr>))"

definition advance_arm :: "catalog \<Rightarrow> string \<Rightarrow> u64 \<Rightarrow> bool \<Rightarrow> arm" where
  "advance_arm c name expected on =
     (if name \<in> deleted_principals c \<or> (on \<and> name \<in> needs_password_aging c)
         \<or> list_ex (\<lambda>v. principal_id (creation_principal (creation_intent_of v)) = name \<and> creation_phase v \<noteq> Complete) (bm_values (account_creations c))
         \<or> list_ex (\<lambda>v. deletion_principal (deletion_intent_of v) = name \<and> deletion_phase v \<noteq> Complete) (bm_values (account_deletions c))
         \<or> list_ex (\<lambda>v. intent_principal (transition_intent v) = name \<and> transition_phase v \<noteq> Complete) (bm_values (account_transitions c))
      then Err ''pending account transaction fences principal changes''
      else and_then (catalog_registry c) (\<lambda>r. and_then (ok_or (registry_principal r name) ''unknown adopted principal'') (\<lambda>p.
      if uid p = 1001 \<or> \<not> enabled p then Err ''bootstrap Admin or initially disabled account requires separate governed custody recovery''
      else if current_generation c p name \<noteq> expected then Err ''governed principal generation conflict''
      else and_then (ok_or (checked_add (current_generation c p name) 1) ''principal generation exhausted'') (\<lambda>g.
      changed (c\<lparr>principal_states := bm_insert name \<lparr>state_generation = g, state_enabled = on\<rparr> (principal_states c)\<rparr>)))))"

definition rotate_arm :: "catalog \<Rightarrow> u64 \<Rightarrow> arm" where
  "rotate_arm c expected =
     and_then (ok_or (principal_registry c) ''explicit principal adoption required'') (\<lambda>r.
     and_then (ok_or (filter_option enabled (bootstrap_admin r)) ''missing enabled adopted bootstrap Admin'') (\<lambda>p.
     if state_disabled c (principal_id p) then Err ''disabled Admin requires separate governed custody recovery''
     else if current_generation c p (principal_id p) \<noteq> expected then Err ''governed Admin generation conflict''
     else and_then (ok_or (checked_add (current_generation c p (principal_id p)) 1) ''Admin generation exhausted'') (\<lambda>g.
     changed (c\<lparr>principal_states := bm_insert (principal_id p) \<lparr>state_generation = g, state_enabled = True\<rparr> (principal_states c)\<rparr>))))"

definition recover_arm :: "catalog \<Rightarrow> u64 \<Rightarrow> u64 \<Rightarrow> verifier \<Rightarrow> arm" where
  "recover_arm c expected recovery_generation replacement =
     and_then (ok_or (principal_registry c) ''explicit principal adoption required'') (\<lambda>r.
     and_then (ok_or (filter_option enabled (bootstrap_admin r)) ''missing enabled original Admin'') (\<lambda>p.
     and_then (recovery_verifier c) (\<lambda>v.
     if verifier_generation v \<noteq> recovery_generation then Err ''recovery credential generation conflict''
     else and_then (verifier_successor v replacement) (\<lambda>_. and_then (verifier_validate replacement (installation r) (principal_id p)) (\<lambda>_.
     if state_disabled c (principal_id p) then Err ''disabled Admin requires separate account-lifecycle recovery''
     else if current_generation c p (principal_id p) \<noteq> expected then Err ''recovery Admin generation conflict''
     else and_then (ok_or (checked_add (current_generation c p (principal_id p)) 1) ''Admin generation exhausted'') (\<lambda>g.
     changed (c\<lparr>principal_states := bm_insert (principal_id p) \<lparr>state_generation = g, state_enabled = True\<rparr> (principal_states c),
       admin_recovery := Some replacement\<rparr>)))))))"

section \<open>Account creation and deletion arms\<close>

definition transaction_known :: "catalog \<Rightarrow> string \<Rightarrow> bool" where
  "transaction_known c t \<longleftrightarrow> bm_contains (account_creations c) t \<or> bm_contains (account_deletions c) t \<or> bm_contains (account_transitions c) t"

definition transaction_blocked :: "catalog \<Rightarrow> string \<Rightarrow> bool" where
  "transaction_blocked c t \<longleftrightarrow> transaction_known c t \<or> 128 \<le> transaction_capacity c \<or> creation_pending c \<or> deletion_pending c \<or> transition_pending c"

definition prepare_creation_arm :: "catalog \<Rightarrow> creation_intent \<Rightarrow> arm" where
  "prepare_creation_arm c i =
     and_then (catalog_registry c) (\<lambda>r.
     let name = principal_id (creation_principal i) in
     if r \<noteq> registry_before i \<or> bm_is_empty (account_commitments c) \<or> bm_contains (principal_states c) name
        \<or> bm_contains (account_commitments c) name \<or> transaction_blocked c (creation_transaction i)
     then Err ''creation conflicts with checkpointed history or pending account publication''
     else changed (c\<lparr>principal_states := bm_insert name \<lparr>state_generation = 1, state_enabled = False\<rparr> (principal_states c),
       account_creations := bm_insert (creation_transaction i) \<lparr>creation_intent_of = i, creation_phase = Prepared\<rparr> (account_creations c)\<rparr>))"

definition permit_creation_arm :: "catalog \<Rightarrow> string \<Rightarrow> arm" where
  "permit_creation_arm c t =
     and_then (ok_or (bm_get (account_creations c) t) ''no anchored creation'') (\<lambda>v.
     if creation_phase v \<noteq> Prepared then Err ''creation permission requires its exact prepared phase''
     else changed (c\<lparr>account_creations := bm_insert t (v\<lparr>creation_phase := PublicationPermitted\<rparr>) (account_creations c)\<rparr>))"

definition complete_creation_arm :: "catalog \<Rightarrow> string \<Rightarrow> arm" where
  "complete_creation_arm c t =
     (let refusal = ''creation completion requires its exact permitted fenced generation'' in
      and_then (ok_or (bm_get (account_creations c) t) ''no anchored creation'') (\<lambda>v.
      if creation_phase v \<noteq> PublicationPermitted then Err refusal
      else and_then (catalog_registry c) (\<lambda>r.
      let i = creation_intent_of v; name = principal_id (creation_principal i) in
      if r \<noteq> registry_before i \<or> bm_get (principal_states c) name \<noteq> Some \<lparr>state_generation = 1, state_enabled = False\<rparr> then Err refusal
      else changed (c\<lparr>current_registry := Some (registry_after i),
        account_commitments := bm_insert name (creation_credential i) (account_commitments c),
        needs_password_aging := insert name (needs_password_aging c),
        account_creations := bm_insert t (v\<lparr>creation_phase := Complete\<rparr>) (account_creations c)\<rparr>))))"

definition prepare_deletion_arm :: "catalog \<Rightarrow> deletion_intent \<Rightarrow> arm" where
  "prepare_deletion_arm c i =
     and_then (catalog_registry c) (\<lambda>r.
     and_then (ok_or (filter_option (\<lambda>p. enabled p \<and> uid p \<noteq> 1001) (registry_principal r (deletion_principal i)))
       ''deletion cannot remove the original Admin'') (\<lambda>p.
     let g = current_generation c p (deletion_principal i) in
     if deletion_principal i \<in> deleted_principals c \<or> deletion_installation i \<noteq> installation r \<or> deletion_generation i \<noteq> g
        \<or> bm_get (account_commitments c) (deletion_principal i) \<noteq> Some (deletion_credential i) \<or> transaction_blocked c (deletion_transaction i)
     then Err ''deletion conflicts with installed credentials, generation or pending publication''
     else and_then (ok_or_panic (checked_add g 1)) (\<lambda>g'.
     changed (c\<lparr>principal_states := bm_insert (deletion_principal i) \<lparr>state_generation = g', state_enabled = False\<rparr> (principal_states c),
       account_deletions := bm_insert (deletion_transaction i) \<lparr>deletion_intent_of = i, deletion_phase = Prepared\<rparr> (account_deletions c)\<rparr>))))"

definition permit_deletion_arm :: "catalog \<Rightarrow> string \<Rightarrow> arm" where
  "permit_deletion_arm c t =
     and_then (ok_or (bm_get (account_deletions c) t) ''no anchored account deletion'') (\<lambda>v.
     if deletion_phase v \<noteq> Prepared then Err ''deletion permission requires its exact prepared phase''
     else changed (c\<lparr>account_deletions := bm_insert t (v\<lparr>deletion_phase := PublicationPermitted\<rparr>) (account_deletions c)\<rparr>))"

definition complete_deletion_arm :: "catalog \<Rightarrow> string \<Rightarrow> arm" where
  "complete_deletion_arm c t =
     (let refusal = ''deletion completion requires its exact permitted fenced generation'' in
      and_then (ok_or (bm_get (account_deletions c) t) ''no anchored account deletion'') (\<lambda>v.
      let i = deletion_intent_of v; name = deletion_principal i in
      if deletion_phase v \<noteq> PublicationPermitted \<or> bm_get (account_commitments c) name \<noteq> Some (deletion_credential i) then Err refusal
      else and_then (ok_or_panic (checked_add (deletion_generation i) 1)) (\<lambda>g.
      if bm_get (principal_states c) name \<noteq> Some \<lparr>state_generation = g, state_enabled = False\<rparr> then Err refusal
      else changed (c\<lparr>deleted_principals := insert name (deleted_principals c),
        account_deletions := bm_insert t (v\<lparr>deletion_phase := Complete\<rparr>) (account_deletions c)\<rparr>))))"

section \<open>Credential transition arms\<close>

text \<open>
  \<open>PrepareAccountLock\<close> and \<open>PrepareAdminAccountRecovery\<close> share an arm; the latter brings the offline custody: the
  expected credential, the expected generation of the recovery credential and its replacement.
\<close>

type_synonym custody = "(string \<times> u64 \<times> verifier) option"

definition transition_checks :: "catalog \<Rightarrow> intent \<Rightarrow> custody \<Rightarrow> u64 result" where
  "transition_checks c i custody =
     and_then (catalog_registry c) (\<lambda>r.
     and_then (ok_or (filter_option (\<lambda>p. enabled p \<and> (uid p = 1001) = (custody \<noteq> None)) (registry_principal r (intent_principal i)))
       ''account lock changes cannot mutate the original Admin'') (\<lambda>p.
     let name = intent_principal i; g = current_generation c p name in
     if (intent_kind i = Some Password \<or> is_renewal (intent_kind i)) \<and> \<not> locked i \<and> state_disabled c name
     then Err ''password changes cannot implicitly enable a disabled principal; use governed lock/unlock''
     else if installation r \<noteq> intent_installation i
        \<or> (custody = None \<and> is_activation (intent_kind i) \<noteq> (name \<in> needs_password_aging c) \<and> (is_activation (intent_kind i) \<or> \<not> locked i))
        \<or> is_recovery (intent_kind i) \<noteq> (custody \<noteq> None) \<or> name \<in> deleted_principals c \<or> g \<noteq> expected_generation i
        \<or> bm_get (account_commitments c) name \<noteq> Some (case custody of Some (credential, _) \<Rightarrow> credential | None \<Rightarrow> credential_before i)
        \<or> transaction_blocked c (transaction i)
     then Err ''account transition conflicts with current credential, generation or pending publication''
     else Ok g))"

definition custody_update :: "catalog \<Rightarrow> intent \<Rightarrow> custody \<Rightarrow> catalog result" where
  "custody_update c i custody = (case custody of None \<Rightarrow> Ok c | Some (_, recovery_generation, replacement) \<Rightarrow>
     and_then (recovery_verifier c) (\<lambda>v.
     if verifier_generation v \<noteq> recovery_generation then Err ''Admin recovery credential generation conflict''
     else and_then (verifier_successor v replacement) (\<lambda>_.
     Ok (c\<lparr>admin_recovery := Some replacement,
       account_commitments := bm_insert (intent_principal i) (credential_before i) (account_commitments c)\<rparr>))))"

definition prepare_transition :: "intent \<Rightarrow> custody \<Rightarrow> (catalog, bool) action" where
  "prepare_transition i custody c = (case transition_checks c i custody of Inl e \<Rightarrow> (Inl e, c) | Inr g \<Rightarrow>
     (case custody_update c i custody of Inl e \<Rightarrow> (Inl e, c) | Inr c' \<Rightarrow>
     (case checked_add g 1 of None \<Rightarrow> (Err ''principal generation exhausted'', c') | Some g' \<Rightarrow>
       (Ok True, c'\<lparr>principal_states := bm_insert (intent_principal i) \<lparr>state_generation = g', state_enabled = False\<rparr> (principal_states c'),
         account_transitions := bm_insert (transaction i) \<lparr>transition_intent = i, transition_phase = Prepared\<rparr> (account_transitions c')\<rparr>))))"

definition permit_transition_arm :: "catalog \<Rightarrow> string \<Rightarrow> bool \<Rightarrow> arm" where
  "permit_transition_arm c t custody =
     and_then (ok_or (bm_get (account_transitions c) t) ''no anchored account transition'') (\<lambda>v.
     if transition_phase v \<noteq> Prepared \<or> is_recovery (intent_kind (transition_intent v)) \<noteq> custody
     then Err ''account publication requires its exact prepared phase''
     else changed (c\<lparr>account_transitions := bm_insert t (v\<lparr>transition_phase := PublicationPermitted\<rparr>) (account_transitions c)\<rparr>))"

definition complete_checks :: "catalog \<Rightarrow> string \<Rightarrow> bool \<Rightarrow> (transition \<times> u64) result" where
  "complete_checks c t custody =
     (let refusal = ''account completion requires its exact permitted fenced generation'' in
      and_then (ok_or (bm_get (account_transitions c) t) ''no anchored account transition'') (\<lambda>v.
      let i = transition_intent v; name = intent_principal i in
      if transition_phase v \<noteq> PublicationPermitted \<or> is_recovery (intent_kind i) \<noteq> custody
         \<or> bm_get (account_commitments c) name \<noteq> Some (credential_before i)
      then Err refusal
      else and_then (ok_or_panic (checked_add (expected_generation i) 1)) (\<lambda>g.
      if bm_get (principal_states c) name \<noteq> Some \<lparr>state_generation = g, state_enabled = False\<rparr> then Err refusal else Ok (v, g))))"

definition complete_transition :: "string \<Rightarrow> bool \<Rightarrow> (catalog, bool) action" where
  "complete_transition t custody c = (case complete_checks c t custody of Inl e \<Rightarrow> (Inl e, c) | Inr (v, g) \<Rightarrow>
     let i = transition_intent v; name = intent_principal i;
         c' = c\<lparr>account_commitments := bm_insert name (credential_after i) (account_commitments c),
           principal_states := bm_insert name \<lparr>state_generation = g, state_enabled = \<not> locked i\<rparr> (principal_states c)\<rparr>;
         finish = (\<lambda>c. c\<lparr>account_transitions := bm_insert t (v\<lparr>transition_phase := Complete\<rparr>) (account_transitions c)\<rparr>) in
     if is_activation (intent_kind i)
     then if name \<notin> needs_password_aging c' then (Err ''activation completion lost its creation aging fence'', c')
       else (Ok True, finish (c'\<lparr>needs_password_aging := needs_password_aging c' - {name}\<rparr>))
     else (Ok True, finish c'))"

section \<open>Application\<close>

definition pure_arm :: "arm \<Rightarrow> catalog \<Rightarrow> bool result \<times> catalog" where
  "pure_arm r c = (case r of Inl e \<Rightarrow> (Inl e, c) | Inr None \<Rightarrow> (Ok False, c) | Inr (Some c') \<Rightarrow> (Ok True, c'))"

fun run_command :: "catalog_services \<Rightarrow> command \<Rightarrow> (catalog, bool) action" where
  "run_command sv (PublishModelTrust expected b) c = pure_arm (publish_model_arm sv c expected b) c"
| "run_command sv (AdmitModelCatalog expected a) c = pure_arm (admit_model_arm sv c expected a) c"
| "run_command sv (RecordModelCatalogApproval r a) c = pure_arm (approve_model_arm sv c r a) c"
| "run_command sv (RecordModelCatalogSigning st) c = pure_arm (sign_model_arm sv c st) c"
| "run_command sv (PublishSkillTrust expected b) c = pure_arm (skill_arm c (skill_publish (skill_sv sv) (skill_authority c) expected b)) c"
| "run_command sv (AdmitSkillRegistry expected a) c = pure_arm (skill_arm c (skill_admit (skill_sv sv) (skill_authority c) expected a)) c"
| "run_command sv (PublishReleaseTrust expected b) c = pure_arm (release_arm c (release_publish (release_sv sv) (release_authority c) expected b)) c"
| "run_command sv (PrepareRelease expected a) c = pure_arm (release_arm c (release_prepare (release_sv sv) (release_authority c) expected a)) c"
| "run_command sv (InitializeRelease r) c = pure_arm (release_arm c (release_initialize (release_sv sv) (release_authority c) r)) c"
| "run_command sv (ResolveRelease digest out) c = pure_arm (release_arm c (release_resolve (release_sv sv) (release_authority c) digest out)) c"
| "run_command sv (RegisterActivity a) c = pure_arm (register_arm c a) c"
| "run_command sv (DefineRole name acts expected) c = pure_arm (define_role_arm c name acts expected) c"
| "run_command sv (AssignRole a) c = pure_arm (assign_arm c a) c"
| "run_command sv (RevokeAssignment a expected) c = pure_arm (revoke_assignment_arm c a expected) c"
| "run_command sv (IssueGrant g) c = pure_arm (issue_grant_arm c g) c"
| "run_command sv (RevokeGrant g expected) c = pure_arm (revoke_grant_arm c g expected) c"
| "run_command sv (AdoptPrincipals r) c = pure_arm (adopt_arm c r) c"
| "run_command sv (CheckpointAccounts m) c = pure_arm (checkpoint_arm c m) c"
| "run_command sv (PrepareAccountLock i) c = prepare_transition i None c"
| "run_command sv (PrepareAccountDeletion i) c = pure_arm (prepare_deletion_arm c i) c"
| "run_command sv (PrepareAccountCreation i) c = pure_arm (prepare_creation_arm c i) c"
| "run_command sv (PermitAccountCreation t) c = pure_arm (permit_creation_arm c t) c"
| "run_command sv (CompleteAccountCreation t) c = pure_arm (complete_creation_arm c t) c"
| "run_command sv (PermitAccountDeletion t) c = pure_arm (permit_deletion_arm c t) c"
| "run_command sv (CompleteAccountDeletion t) c = pure_arm (complete_deletion_arm c t) c"
| "run_command sv (PermitAccountPublication t) c = pure_arm (permit_transition_arm c t False) c"
| "run_command sv (CompleteAccountLock t) c = complete_transition t False c"
| "run_command sv (AdvancePrincipal p g on) c = pure_arm (advance_arm c p g on) c"
| "run_command sv (RotateAdmin g) c = pure_arm (rotate_arm c g) c"
| "run_command sv (RecoverAdmin g rg replacement) c = pure_arm (recover_arm c g rg replacement) c"
| "run_command sv (PrepareAdminAccountRecovery i credential g replacement) c = prepare_transition i (Some (credential, g, replacement)) c"
| "run_command sv (PermitAdminAccountRecovery t) c = pure_arm (permit_transition_arm c t True) c"
| "run_command sv (CompleteAdminAccountRecovery t) c = complete_transition t True c"

definition apply_command :: "catalog_services \<Rightarrow> command \<Rightarrow> (catalog, bool) action" where
  "apply_command sv cmd c = (case command_validate sv cmd of Inl e \<Rightarrow> (Inl e, c) | Inr _ \<Rightarrow>
     (case checked_add (state_version c) 1 of None \<Rightarrow> (Err ''Admin catalog version exhausted'', c) | Some v \<Rightarrow>
     (case run_command sv cmd c of (Inr True, c') \<Rightarrow> (Ok True, c'\<lparr>state_version := v\<rparr>) | r \<Rightarrow> r)))"

end
