(* ===== verification/Catalog_Moves.thy ===== *)
theory Catalog_Moves
  imports Catalog_Commands
begin

text \<open>
  What the commands of the governance catalog may do, as a small set of moves: every successful arm of \<open>Catalog::apply\<close>
  is a trust move, an authority move (roles, assignments, grants) or an account move (registry, generations, credentials,
  account transactions). The arms are analysed once, here; the safety theory reasons about moves.
\<close>

section \<open>Pending transactions\<close>

definition pending_in :: "('v \<Rightarrow> account_phase) \<Rightarrow> (string, 'v) bmap \<Rightarrow> string set" where
  "pending_in phase m = {t. \<exists>v. bm_get m t = Some v \<and> phase v \<noteq> Complete}"

lemma pending_in_empty [simp]: "pending_in phase bm_empty = {}"
  by (simp add: pending_in_def)

lemma pending_in_insert [simp]:
  "pending_in phase (bm_insert t v m) = (if phase v = Complete then pending_in phase m - {t} else insert t (pending_in phase m))"
  by (auto simp: pending_in_def)

lemma list_ex_values: "list_ex P (bm_values m) \<longleftrightarrow> (\<exists>t v. bm_get m t = Some v \<and> P v)"
  by (auto simp: list_ex_iff bm_values_iff Bex_def)

abbreviation pending_creations :: "catalog \<Rightarrow> string set" where
  "pending_creations c \<equiv> pending_in creation_phase (account_creations c)"

abbreviation pending_deletions :: "catalog \<Rightarrow> string set" where
  "pending_deletions c \<equiv> pending_in deletion_phase (account_deletions c)"

abbreviation pending_transitions :: "catalog \<Rightarrow> string set" where
  "pending_transitions c \<equiv> pending_in transition_phase (account_transitions c)"

lemma pending_iff:
  "creation_pending c \<longleftrightarrow> pending_creations c \<noteq> {}" "deletion_pending c \<longleftrightarrow> pending_deletions c \<noteq> {}"
  "transition_pending c \<longleftrightarrow> pending_transitions c \<noteq> {}"
  by (auto simp: creation_pending_def deletion_pending_def transition_pending_def pending_in_def list_ex_values)

definition idle :: "catalog \<Rightarrow> bool" where
  "idle c \<longleftrightarrow> pending_creations c = {} \<and> pending_deletions c = {} \<and> pending_transitions c = {}"

definition one_pending :: "catalog \<Rightarrow> bool" where
  "one_pending c \<longleftrightarrow> (\<exists>t. pending_creations c \<subseteq> {t} \<and> pending_deletions c = {} \<and> pending_transitions c = {}
     \<or> pending_creations c = {} \<and> pending_deletions c \<subseteq> {t} \<and> pending_transitions c = {}
     \<or> pending_creations c = {} \<and> pending_deletions c = {} \<and> pending_transitions c \<subseteq> {t})"

lemma pending_inI: "bm_get m t = Some v \<Longrightarrow> phase v \<noteq> Complete \<Longrightarrow> t \<in> pending_in phase m"
  unfolding pending_in_def by blast

lemma one_pending_unique:
  assumes "one_pending c"
  shows "t \<in> pending_creations c \<Longrightarrow> pending_creations c = {t} \<and> pending_deletions c = {} \<and> pending_transitions c = {}"
    "t \<in> pending_deletions c \<Longrightarrow> pending_creations c = {} \<and> pending_deletions c = {t} \<and> pending_transitions c = {}"
    "t \<in> pending_transitions c \<Longrightarrow> pending_creations c = {} \<and> pending_deletions c = {} \<and> pending_transitions c = {t}"
  using assms unfolding one_pending_def by blast+

definition pending_on :: "catalog \<Rightarrow> string \<Rightarrow> bool" where
  "pending_on c name \<longleftrightarrow>
     (\<exists>t v. bm_get (account_creations c) t = Some v \<and> creation_phase v \<noteq> Complete \<and> principal_id (creation_principal (creation_intent_of v)) = name)
   \<or> (\<exists>t v. bm_get (account_deletions c) t = Some v \<and> deletion_phase v \<noteq> Complete \<and> deletion_principal (deletion_intent_of v) = name)
   \<or> (\<exists>t v. bm_get (account_transitions c) t = Some v \<and> transition_phase v \<noteq> Complete \<and> intent_principal (transition_intent v) = name)"

definition fresh_transaction :: "catalog \<Rightarrow> string \<Rightarrow> bool" where
  "fresh_transaction c t \<longleftrightarrow> idle c \<and> \<not> transaction_known c t \<and> transaction_capacity c < 128"

lemma not_blocked_iff: "\<not> transaction_blocked c t \<longleftrightarrow> fresh_transaction c t"
  by (auto simp: transaction_blocked_def fresh_transaction_def idle_def pending_iff)

section \<open>Registries and generations\<close>

text \<open>The adopted registry is valid and the current one extends it.\<close>

definition registries_ok :: "catalog \<Rightarrow> bool" where
  "registries_ok c \<longleftrightarrow>
     (\<forall>r. principal_registry c = Some r \<longrightarrow> registry_ok r)
   \<and> (\<forall>r. current_registry c = Some r \<longrightarrow> registry_ok r
        \<and> (\<exists>r0 ps. principal_registry c = Some r0 \<and> r = r0\<lparr>principals := principals r0 @ ps\<rparr>))"

lemma catalog_registry_update [simp]:
  "catalog_registry (c\<lparr>model_authority := x0\<rparr>) = catalog_registry c"
  "catalog_registry (c\<lparr>assignment_receipts := x1\<rparr>) = catalog_registry c"
  "catalog_registry (c\<lparr>model_approvals := x2\<rparr>) = catalog_registry c"
  "catalog_registry (c\<lparr>model_signings := x3\<rparr>) = catalog_registry c"
  "catalog_registry (c\<lparr>skill_authority := x4\<rparr>) = catalog_registry c"
  "catalog_registry (c\<lparr>release_authority := x5\<rparr>) = catalog_registry c"
  "catalog_registry (c\<lparr>state_version := x6\<rparr>) = catalog_registry c"
  "catalog_registry (c\<lparr>activities := x7\<rparr>) = catalog_registry c"
  "catalog_registry (c\<lparr>roles := x8\<rparr>) = catalog_registry c"
  "catalog_registry (c\<lparr>assignments := x9\<rparr>) = catalog_registry c"
  "catalog_registry (c\<lparr>grants := x10\<rparr>) = catalog_registry c"
  "catalog_registry (c\<lparr>account_creations := x11\<rparr>) = catalog_registry c"
  "catalog_registry (c\<lparr>needs_password_aging := x12\<rparr>) = catalog_registry c"
  "catalog_registry (c\<lparr>principal_states := x13\<rparr>) = catalog_registry c"
  "catalog_registry (c\<lparr>account_commitments := x14\<rparr>) = catalog_registry c"
  "catalog_registry (c\<lparr>account_transitions := x15\<rparr>) = catalog_registry c"
  "catalog_registry (c\<lparr>account_deletions := x16\<rparr>) = catalog_registry c"
  "catalog_registry (c\<lparr>deleted_principals := x17\<rparr>) = catalog_registry c"
  "catalog_registry (c\<lparr>admin_recovery := x18\<rparr>) = catalog_registry c"
  by (simp_all add: catalog_registry_def cong: option.case_cong)

lemma catalog_registry_ok: "registries_ok c \<Longrightarrow> catalog_registry c = Ok r \<Longrightarrow> registry_ok r"
  by (auto simp: registries_ok_def catalog_registry_def result_simps split: option.splits)

lemma adopted_principal:
  assumes "registries_ok c" "principal_registry c = Some r0" "p \<in> set (principals r0)"
  shows "\<exists>r. catalog_registry c = Ok r \<and> registry_principal r (principal_id p) = Some p"
proof (cases "current_registry c")
  case None
  then show ?thesis using assms registry_principal_mem [of r0 p] by (auto simp: registries_ok_def catalog_registry_def)
next
  case (Some r)
  then have "registry_ok r" "p \<in> set (principals r)" using assms by (auto simp: registries_ok_def)
  then show ?thesis using Some registry_principal_mem [of r p] by (auto simp: catalog_registry_def)
qed

definition generation_of :: "catalog \<Rightarrow> string \<Rightarrow> u64 option" where
  "generation_of c name = (case bm_get (principal_states c) name of Some s \<Rightarrow> Some (state_generation s)
     | None \<Rightarrow> (case catalog_registry c of Inl _ \<Rightarrow> None | Inr r \<Rightarrow> map_option generation (registry_principal r name)))"

lemma current_generation_of:
  "catalog_registry c = Ok r \<Longrightarrow> registry_principal r name = Some p \<Longrightarrow> generation_of c name = Some (current_generation c p name)"
  by (auto simp: generation_of_def current_generation_def split: option.splits)

lemma bootstrap_generation:
  assumes "registries_ok c" "principal_registry c = Some r" "bootstrap_admin r = Some p"
  shows "generation_of c (principal_id p) = Some (current_generation c p (principal_id p))"
proof -
  have "p \<in> set (principals r)" using assms(3) by (auto simp: bootstrap_admin_def find_Some_iff)
  then show ?thesis using adopted_principal [OF assms(1,2)] current_generation_of by blast
qed

section \<open>Moves\<close>

inductive trust_move :: "catalog \<Rightarrow> catalog \<Rightarrow> bool" where
  model: "trust_move c (c\<lparr>model_authority := s\<rparr>)"
| approval: "trust_move c (c\<lparr>model_approvals := a\<rparr>)"
| signing: "trust_move c (c\<lparr>model_signings := g\<rparr>)"
| skill: "trust_move c (c\<lparr>skill_authority := k\<rparr>)"
| release: "trust_move c (c\<lparr>release_authority := r\<rparr>)"

inductive authority_move :: "catalog \<Rightarrow> catalog \<Rightarrow> bool" where
  activity: "authority_move c (c\<lparr>activities := insert a (activities c)\<rparr>)"
| define_role: "set acts \<subseteq> activities c \<Longrightarrow> (case bm_get (roles c) name of None \<Rightarrow> 0 | Some r \<Rightarrow> role_version r) = v \<Longrightarrow> checked_add v 1 = Some v' \<Longrightarrow>
    authority_move c (c\<lparr>roles := bm_insert name \<lparr>role_name = name, role_activities = acts, role_version = v'\<rparr> (roles c)\<rparr>)"
| assign: "assignment_validate a = Ok () \<Longrightarrow> bm_get (assignments c) (asg_id a) = None \<Longrightarrow>
    authority_move c (c\<lparr>assignments := bm_insert (asg_id a) a (assignments c)\<rparr>)"
| revoke_assignment: "bm_get (assignments c) name = Some a \<Longrightarrow> \<not> asg_revoked a \<Longrightarrow> checked_add (asg_version a) 1 = Some v \<Longrightarrow>
    authority_move c (c\<lparr>assignments := bm_insert name (a\<lparr>asg_version := v, asg_revoked := True\<rparr>) (assignments c)\<rparr>)"
| issue: "grant_issue g c = Ok () \<Longrightarrow> bm_get (grants c) (grant_id g) = None \<Longrightarrow>
    authority_move c (c\<lparr>grants := bm_insert (grant_id g) g (grants c)\<rparr>)"
| revoke_grant: "bm_get (grants c) name = Some g \<Longrightarrow> \<not> grant_revoked g \<Longrightarrow> checked_add (grant_version g) 1 = Some v \<Longrightarrow>
    authority_move c (c\<lparr>grants := bm_insert name (g\<lparr>grant_version := v, grant_revoked := True\<rparr>) (grants c)\<rparr>)"

inductive account_move :: "catalog_services \<Rightarrow> catalog \<Rightarrow> catalog \<Rightarrow> bool" for sv where
  adopt: "principal_registry c = None \<Longrightarrow> registry_ok r \<Longrightarrow> account_move sv c (c\<lparr>principal_registry := Some r\<rparr>)"
| checkpoint: "bm_keys (account_commitments c) = [] \<Longrightarrow> account_move sv c (c\<lparr>account_commitments := m\<rparr>)"
| advance: "generation_of c name = Some g \<Longrightarrow> checked_add g 1 = Some g' \<Longrightarrow> \<not> state_disabled c name \<or> \<not> pending_on c name \<Longrightarrow>
    account_move sv c (c\<lparr>principal_states := bm_insert name \<lparr>state_generation = g', state_enabled = on\<rparr> (principal_states c), admin_recovery := v\<rparr>)"
| prepare_creation: "creation_validate (registry_length sv) i = Ok () \<Longrightarrow> catalog_registry c = Ok (registry_before i) \<Longrightarrow>
    fresh_transaction c (creation_transaction i) \<Longrightarrow> bm_get (principal_states c) (principal_id (creation_principal i)) = None \<Longrightarrow>
    account_move sv c (c\<lparr>principal_states := bm_insert (principal_id (creation_principal i)) \<lparr>state_generation = 1, state_enabled = False\<rparr> (principal_states c),
      account_creations := bm_insert (creation_transaction i) \<lparr>creation_intent_of = i, creation_phase = Prepared\<rparr> (account_creations c)\<rparr>)"
| permit_creation: "bm_get (account_creations c) t = Some v \<Longrightarrow> creation_phase v = Prepared \<Longrightarrow>
    account_move sv c (c\<lparr>account_creations := bm_insert t (v\<lparr>creation_phase := PublicationPermitted\<rparr>) (account_creations c)\<rparr>)"
| complete_creation: "bm_get (account_creations c) t = Some v \<Longrightarrow> creation_phase v = PublicationPermitted \<Longrightarrow>
    catalog_registry c = Ok (registry_before (creation_intent_of v)) \<Longrightarrow>
    bm_get (principal_states c) (principal_id (creation_principal (creation_intent_of v))) = Some \<lparr>state_generation = 1, state_enabled = False\<rparr> \<Longrightarrow>
    account_move sv c (c\<lparr>current_registry := Some (registry_after (creation_intent_of v)),
      account_commitments := bm_insert (principal_id (creation_principal (creation_intent_of v))) (creation_credential (creation_intent_of v)) (account_commitments c),
      needs_password_aging := insert (principal_id (creation_principal (creation_intent_of v))) (needs_password_aging c),
      account_creations := bm_insert t (v\<lparr>creation_phase := Complete\<rparr>) (account_creations c)\<rparr>)"
| prepare_deletion: "deletion_validate i = Ok () \<Longrightarrow> fresh_transaction c (deletion_transaction i) \<Longrightarrow>
    generation_of c (deletion_principal i) = Some (deletion_generation i) \<Longrightarrow> checked_add (deletion_generation i) 1 = Some g \<Longrightarrow>
    bm_get (account_commitments c) (deletion_principal i) = Some (deletion_credential i) \<Longrightarrow>
    account_move sv c (c\<lparr>principal_states := bm_insert (deletion_principal i) \<lparr>state_generation = g, state_enabled = False\<rparr> (principal_states c),
      account_deletions := bm_insert (deletion_transaction i) \<lparr>deletion_intent_of = i, deletion_phase = Prepared\<rparr> (account_deletions c)\<rparr>)"
| permit_deletion: "bm_get (account_deletions c) t = Some v \<Longrightarrow> deletion_phase v = Prepared \<Longrightarrow>
    account_move sv c (c\<lparr>account_deletions := bm_insert t (v\<lparr>deletion_phase := PublicationPermitted\<rparr>) (account_deletions c)\<rparr>)"
| complete_deletion: "bm_get (account_deletions c) t = Some v \<Longrightarrow> deletion_phase v = PublicationPermitted \<Longrightarrow>
    account_move sv c (c\<lparr>deleted_principals := insert (deletion_principal (deletion_intent_of v)) (deleted_principals c),
      account_deletions := bm_insert t (v\<lparr>deletion_phase := Complete\<rparr>) (account_deletions c)\<rparr>)"
| prepare_transition: "intent_validate (approved_utc sv) i = Ok () \<Longrightarrow> fresh_transaction c (transaction i) \<Longrightarrow>
    generation_of c (intent_principal i) = Some (expected_generation i) \<Longrightarrow> checked_add (expected_generation i) 1 = Some g \<Longrightarrow>
    bm_get m (intent_principal i) = Some (credential_before i) \<Longrightarrow> (is_activation (intent_kind i) \<longrightarrow> intent_principal i \<in> needs_password_aging c) \<Longrightarrow>
    account_move sv c (c\<lparr>admin_recovery := rv, account_commitments := m,
      principal_states := bm_insert (intent_principal i) \<lparr>state_generation = g, state_enabled = False\<rparr> (principal_states c),
      account_transitions := bm_insert (transaction i) \<lparr>transition_intent = i, transition_phase = Prepared\<rparr> (account_transitions c)\<rparr>)"
| permit_transition: "bm_get (account_transitions c) t = Some v \<Longrightarrow> transition_phase v = Prepared \<Longrightarrow>
    account_move sv c (c\<lparr>account_transitions := bm_insert t (v\<lparr>transition_phase := PublicationPermitted\<rparr>) (account_transitions c)\<rparr>)"
| complete_transition: "bm_get (account_transitions c) t = Some v \<Longrightarrow> transition_phase v = PublicationPermitted \<Longrightarrow>
    checked_add (expected_generation (transition_intent v)) 1 = Some g \<Longrightarrow>
    bm_get (principal_states c) (intent_principal (transition_intent v)) = Some \<lparr>state_generation = g, state_enabled = False\<rparr> \<Longrightarrow>
    account_move sv c (c\<lparr>account_commitments := bm_insert (intent_principal (transition_intent v)) (credential_after (transition_intent v)) (account_commitments c),
      principal_states := bm_insert (intent_principal (transition_intent v)) \<lparr>state_generation = g, state_enabled = \<not> locked (transition_intent v)\<rparr> (principal_states c),
      needs_password_aging := needs_password_aging c - (if is_activation (intent_kind (transition_intent v)) then {intent_principal (transition_intent v)} else {}),
      account_transitions := bm_insert t (v\<lparr>transition_phase := Complete\<rparr>) (account_transitions c)\<rparr>)"

definition catalog_move :: "catalog_services \<Rightarrow> catalog \<Rightarrow> catalog \<Rightarrow> bool" where
  "catalog_move sv c c' \<longleftrightarrow> trust_move c c' \<or> authority_move c c' \<or> account_move sv c c'"

section \<open>Every arm is a move\<close>

named_theorems arm_moves \<open>arms of the application as moves\<close>

lemma advance_same:
  assumes "generation_of c name = Some g" "checked_add g 1 = Some g'" "\<not> state_disabled c name \<or> \<not> pending_on c name"
  shows "account_move sv c (c\<lparr>principal_states := bm_insert name \<lparr>state_generation = g', state_enabled = on\<rparr> (principal_states c)\<rparr>)"
  using account_move.advance [OF assms, where sv = sv and on = on and v = "admin_recovery c"] by simp

lemma trust_arms [arm_moves]:
  "publish_model_arm sv c x b = changed c' \<Longrightarrow> trust_move c c'" "admit_model_arm sv c x a = changed c' \<Longrightarrow> trust_move c c'"
  "approve_model_arm sv c r ap = changed c' \<Longrightarrow> trust_move c c'" "sign_model_arm sv c st = changed c' \<Longrightarrow> trust_move c c'"
  "skill_arm c sr = changed c' \<Longrightarrow> trust_move c c'" "release_arm c rr = changed c' \<Longrightarrow> trust_move c c'"
  by (auto simp: publish_model_arm_def admit_model_arm_def approve_model_arm_def sign_model_arm_def skill_arm_def release_arm_def result_simps
      intro: trust_move.intros split: if_splits)

lemma register_move [arm_moves]: "register_arm c a = changed c' \<Longrightarrow> authority_move c c'"
  by (auto simp: register_arm_def intro: authority_move.intros split: if_splits)

lemma define_role_move [arm_moves]: "define_role_arm c name acts v = changed c' \<Longrightarrow> authority_move c c'"
  by (auto simp: define_role_arm_def result_simps Let_def list_ex_iff intro!: authority_move.define_role split: if_splits option.splits)

lemma assign_move [arm_moves]: "assign_arm c a = changed c' \<Longrightarrow> assignment_validate a = Ok () \<Longrightarrow> authority_move c c'"
  by (auto simp: assign_arm_def result_simps bm_contains_iff bm_keys_iff intro: authority_move.assign)

lemma revoke_assignment_move [arm_moves]: "revoke_assignment_arm c name v = changed c' \<Longrightarrow> authority_move c c'"
  by (auto simp: revoke_assignment_arm_def result_simps intro: authority_move.revoke_assignment)

lemma issue_move [arm_moves]: "issue_grant_arm c g = changed c' \<Longrightarrow> authority_move c c'"
  by (auto simp: issue_grant_arm_def result_simps bm_contains_iff bm_keys_iff intro: authority_move.issue)

lemma revoke_grant_move [arm_moves]: "revoke_grant_arm c name v = changed c' \<Longrightarrow> authority_move c c'"
  by (auto simp: revoke_grant_arm_def result_simps intro: authority_move.revoke_grant)

lemma adopt_move [arm_moves]: "adopt_arm c r = changed c' \<Longrightarrow> registry_validate r = Ok () \<Longrightarrow> account_move sv c c'"
  by (auto simp: adopt_arm_def registry_validate_iff intro: account_move.adopt split: option.splits if_splits)

lemma checkpoint_move [arm_moves]: "checkpoint_arm c m = changed c' \<Longrightarrow> account_move sv c c'"
  by (auto simp: checkpoint_arm_def result_simps bm_is_empty_iff intro: account_move.checkpoint split: if_splits)

lemma advance_move [arm_moves]: "advance_arm c name x on = changed c' \<Longrightarrow> account_move sv c c'"
  by (auto simp: advance_arm_def result_simps list_ex_values pending_on_def current_generation_of intro!: advance_same)

lemma rotate_move [arm_moves]: "rotate_arm c x = changed c' \<Longrightarrow> registries_ok c \<Longrightarrow> account_move sv c c'"
  by (auto simp: rotate_arm_def result_simps filter_option_def bootstrap_generation intro!: advance_same split: option.splits if_splits)

lemma recover_move [arm_moves]: "recover_arm c x y v = changed c' \<Longrightarrow> registries_ok c \<Longrightarrow> account_move sv c c'"
  by (auto simp: recover_arm_def result_simps filter_option_def bootstrap_generation intro!: account_move.advance split: option.splits if_splits)

lemma prepare_creation_move [arm_moves]:
  "prepare_creation_arm c i = changed c' \<Longrightarrow> creation_validate (registry_length sv) i = Ok () \<Longrightarrow> account_move sv c c'"
  by (auto simp: prepare_creation_arm_def result_simps Let_def not_blocked_iff bm_contains_iff bm_keys_iff intro!: account_move.prepare_creation)

lemma creation_phase_moves [arm_moves]:
  "permit_creation_arm c t = changed c' \<Longrightarrow> account_move sv c c'" "complete_creation_arm c t = changed c' \<Longrightarrow> account_move sv c c'"
  by (auto simp: permit_creation_arm_def complete_creation_arm_def result_simps Let_def intro!: account_move.permit_creation account_move.complete_creation)

lemma prepare_deletion_move [arm_moves]:
  "prepare_deletion_arm c i = changed c' \<Longrightarrow> deletion_validate i = Ok () \<Longrightarrow> account_move sv c c'"
  by (auto simp: prepare_deletion_arm_def result_simps Let_def not_blocked_iff filter_option_def current_generation_of
      intro!: account_move.prepare_deletion split: option.splits if_splits)

lemma deletion_phase_moves [arm_moves]:
  "permit_deletion_arm c t = changed c' \<Longrightarrow> account_move sv c c'" "complete_deletion_arm c t = changed c' \<Longrightarrow> account_move sv c c'"
  by (auto simp: permit_deletion_arm_def complete_deletion_arm_def result_simps Let_def intro!: account_move.permit_deletion account_move.complete_deletion)

lemma permit_transition_move [arm_moves]: "permit_transition_arm c t custody = changed c' \<Longrightarrow> account_move sv c c'"
  by (auto simp: permit_transition_arm_def result_simps intro!: account_move.permit_transition)

lemma transition_checks_Ok:
  assumes "transition_checks c i custody = Ok g"
  shows "g = expected_generation i" "generation_of c (intent_principal i) = Some g" "fresh_transaction c (transaction i)"
    "is_recovery (intent_kind i) \<longleftrightarrow> custody \<noteq> None"
    "custody = None \<Longrightarrow> bm_get (account_commitments c) (intent_principal i) = Some (credential_before i)"
    "custody = None \<Longrightarrow> is_activation (intent_kind i) \<Longrightarrow> intent_principal i \<in> needs_password_aging c"
  using assms
  by (auto simp: transition_checks_def result_simps Let_def not_blocked_iff filter_option_def current_generation_of split: option.splits if_splits)

lemma recovery_not_activation: "is_recovery k \<Longrightarrow> \<not> is_activation k"
  by (cases k rule: is_recovery.cases) auto

lemma custody_update_Ok:
  assumes "custody_update c i custody = Ok c'" "custody = None \<Longrightarrow> bm_get (account_commitments c) (intent_principal i) = Some (credential_before i)"
  obtains rv m where "c' = c\<lparr>admin_recovery := rv, account_commitments := m\<rparr>" "bm_get m (intent_principal i) = Some (credential_before i)"
proof (cases custody)
  case None
  then show ?thesis using assms that [of "account_commitments c" "admin_recovery c"] by (auto simp: custody_update_def)
next
  case (Some k)
  then show ?thesis using assms that by (fastforce simp: custody_update_def result_simps split: prod.splits)
qed

lemma prepare_transition_True:
  assumes "prepare_transition i custody c = (Ok b, c')" "intent_validate (approved_utc sv) i = Ok ()"
  shows "account_move sv c c'" "b"
proof -
  obtain g c1 g' where g: "transition_checks c i custody = Ok g" and c1: "custody_update c i custody = Ok c1" and g': "checked_add g 1 = Some g'"
    and c': "c' = c1\<lparr>principal_states := bm_insert (intent_principal i) \<lparr>state_generation = g', state_enabled = False\<rparr> (principal_states c1),
      account_transitions := bm_insert (transaction i) \<lparr>transition_intent = i, transition_phase = Prepared\<rparr> (account_transitions c1)\<rparr>" and b
    using assms(1) by (auto simp: prepare_transition_def split: sum.splits option.splits)
  show b by fact
  note ok = transition_checks_Ok [OF g]
  obtain rv m where m: "c1 = c\<lparr>admin_recovery := rv, account_commitments := m\<rparr>" "bm_get m (intent_principal i) = Some (credential_before i)"
    using c1 ok(5) by (rule custody_update_Ok)
  show "account_move sv c c'"
    unfolding c' m(1) using account_move.prepare_transition [OF assms(2) ok(3), of g' m rv] ok(1,2) g' m(2) ok(4,6) recovery_not_activation
    by (cases custody) auto
qed

lemma checked_add_below: "a \<noteq> - 1 \<Longrightarrow> checked_add a 1 \<noteq> None" for a :: u64
proof -
  assume "a \<noteq> - 1"
  then have "unat a \<noteq> unat (- 1 :: u64)" by (simp only: word_unat_eq_iff not_False_eq_True)
  moreover have "unat a < 2 ^ 64" using unsigned_less [of a] by simp
  ultimately show ?thesis by (simp add: checked_add_None unsigned_minus_1_eq_mask mask_eq_exp_minus_1)
qed

lemma prepare_transition_fails:
  assumes "prepare_transition i custody c = (Inl e, c')" "intent_validate (approved_utc sv) i = Ok ()"
  shows "c' = c"
proof -
  have "checked_add (expected_generation i) 1 \<noteq> None"
    using intent_validate_generation [OF assms(2)] checked_add_below by fastforce
  then show ?thesis using assms(1) transition_checks_Ok(1) [of c i custody]
    by (auto simp: prepare_transition_def split: sum.splits option.splits)
qed

lemma complete_checks_Ok:
  assumes "complete_checks c t custody = Ok (v, g)"
  shows "bm_get (account_transitions c) t = Some v" "transition_phase v = PublicationPermitted"
    "checked_add (expected_generation (transition_intent v)) 1 = Some g"
    "bm_get (principal_states c) (intent_principal (transition_intent v)) = Some \<lparr>state_generation = g, state_enabled = False\<rparr>"
  using assms by (auto simp: complete_checks_def result_simps Let_def)

lemma complete_transition_True:
  assumes "complete_transition t custody c = (Ok b, c')"
  shows "account_move sv c c'" "b"
proof -
  obtain v g where vg: "complete_checks c t custody = Ok (v, g)" using assms by (auto simp: complete_transition_def split: sum.splits)
  show b using assms vg by (auto simp: complete_transition_def Let_def split: if_splits)
  show "account_move sv c c'"
    using account_move.complete_transition [OF complete_checks_Ok [OF vg], of sv] assms vg
    by (auto simp: complete_transition_def Let_def split: if_splits)
qed

definition activations_fenced :: "catalog \<Rightarrow> bool" where
  "activations_fenced c \<longleftrightarrow> (\<forall>t v. bm_get (account_transitions c) t = Some v \<and> transition_phase v \<noteq> Complete
     \<and> is_activation (intent_kind (transition_intent v)) \<longrightarrow> intent_principal (transition_intent v) \<in> needs_password_aging c)"

lemma complete_transition_fails:
  assumes "complete_transition t custody c = (Inl e, c')" "activations_fenced c"
  shows "c' = c"
proof (cases "complete_checks c t custody")
  case (Inr vg)
  obtain v g where vg: "vg = (v, g)" by (cases vg)
  with Inr complete_checks_Ok [of c t custody v g] assms show ?thesis
    by (auto simp: complete_transition_def Let_def activations_fenced_def split: if_splits)
qed (use assms in \<open>simp add: complete_transition_def\<close>)

lemma pure_arm_True: "pure_arm r c = (Ok True, c') \<longleftrightarrow> r = changed c'"
  by (auto simp: pure_arm_def split: sum.splits option.splits)

lemma pure_arm_same: "pure_arm r c = (Ok False, c') \<Longrightarrow> c' = c" "pure_arm r c = (Inl e, c') \<Longrightarrow> c' = c"
  by (auto simp: pure_arm_def split: sum.splits option.splits)

lemma run_command_True:
  assumes "run_command sv cmd c = (Ok True, c')" "command_validate sv cmd = Ok ()" "registries_ok c"
  shows "catalog_move sv c c'"
  using assms unfolding catalog_move_def
  by (cases cmd) (auto simp: pure_arm_True result_simps dest: arm_moves prepare_transition_True complete_transition_True)

lemma run_command_False: "run_command sv cmd c = (Ok False, c') \<Longrightarrow> command_validate sv cmd = Ok () \<Longrightarrow> c' = c"
  by (cases cmd) (auto simp: result_simps dest: pure_arm_same prepare_transition_True(2) complete_transition_True(2))

lemma run_command_fails:
  "run_command sv cmd c = (Inl e, c') \<Longrightarrow> command_validate sv cmd = Ok () \<Longrightarrow> activations_fenced c \<Longrightarrow> c' = c"
  by (cases cmd) (auto simp: result_simps dest: pure_arm_same prepare_transition_fails complete_transition_fails)

end
