(* ===== verification/Catalog_Safety.thy ===== *)
theory Catalog_Safety
  imports Catalog_Moves
begin

text \<open>
  Safety of the governance catalog over all histories of commands: an invariant of the account transactions, atomicity of
  \<open>Catalog::apply\<close>, monotone generations and versions, and the finality of revocations.
\<close>

section \<open>The invariant\<close>

abbreviation fenced_at :: "catalog \<Rightarrow> string \<Rightarrow> u64 \<Rightarrow> bool" where
  "fenced_at c name g \<equiv> bm_get (principal_states c) name = Some \<lparr>state_generation = g, state_enabled = False\<rparr>"

definition creation_ok :: "catalog_services \<Rightarrow> catalog \<Rightarrow> string \<Rightarrow> creation \<Rightarrow> bool" where
  "creation_ok sv c t v \<longleftrightarrow> creation_validate (registry_length sv) (creation_intent_of v) = Ok () \<and> creation_transaction (creation_intent_of v) = t
     \<and> (creation_phase v \<noteq> Complete \<longrightarrow> catalog_registry c = Ok (registry_before (creation_intent_of v))
          \<and> fenced_at c (principal_id (creation_principal (creation_intent_of v))) 1)"

definition deletion_ok :: "catalog \<Rightarrow> string \<Rightarrow> deletion \<Rightarrow> bool" where
  "deletion_ok c t v \<longleftrightarrow> deletion_validate (deletion_intent_of v) = Ok () \<and> deletion_transaction (deletion_intent_of v) = t
     \<and> (deletion_phase v \<noteq> Complete \<longrightarrow> fenced_at c (deletion_principal (deletion_intent_of v)) (deletion_generation (deletion_intent_of v) + 1)
          \<and> bm_get (account_commitments c) (deletion_principal (deletion_intent_of v)) = Some (deletion_credential (deletion_intent_of v)))"

definition transition_ok :: "catalog_services \<Rightarrow> catalog \<Rightarrow> string \<Rightarrow> transition \<Rightarrow> bool" where
  "transition_ok sv c t v \<longleftrightarrow> intent_validate (approved_utc sv) (transition_intent v) = Ok () \<and> transaction (transition_intent v) = t
     \<and> (transition_phase v \<noteq> Complete \<longrightarrow> fenced_at c (intent_principal (transition_intent v)) (expected_generation (transition_intent v) + 1)
          \<and> bm_get (account_commitments c) (intent_principal (transition_intent v)) = Some (credential_before (transition_intent v))
          \<and> (is_activation (intent_kind (transition_intent v)) \<longrightarrow> intent_principal (transition_intent v) \<in> needs_password_aging c))"

definition catalog_ok :: "catalog_services \<Rightarrow> catalog \<Rightarrow> bool" where
  "catalog_ok sv c \<longleftrightarrow> registries_ok c \<and> one_pending c \<and> transaction_capacity c \<le> 128
     \<and> (\<forall>t v. bm_get (account_creations c) t = Some v \<longrightarrow> creation_ok sv c t v)
     \<and> (\<forall>t v. bm_get (account_deletions c) t = Some v \<longrightarrow> deletion_ok c t v)
     \<and> (\<forall>t v. bm_get (account_transitions c) t = Some v \<longrightarrow> transition_ok sv c t v)"

lemma catalog_okD:
  assumes "catalog_ok sv c"
  shows "registries_ok c" "one_pending c" "transaction_capacity c \<le> 128"
    "\<And>t v. bm_get (account_creations c) t = Some v \<Longrightarrow> creation_ok sv c t v"
    "\<And>t v. bm_get (account_deletions c) t = Some v \<Longrightarrow> deletion_ok c t v"
    "\<And>t v. bm_get (account_transitions c) t = Some v \<Longrightarrow> transition_ok sv c t v"
  using assms unfolding catalog_ok_def by blast+

lemma bm_size_insert: "bm_size (bm_insert k v m) = (if bm_get m k = None then Suc (bm_size m) else bm_size m)"
  unfolding bm_size_keys using bm.length_keys_put [of k v m] by (simp add: bm_keys_iff)

text \<open>A pending transaction fences its principal.\<close>

lemma pending_disabled: "catalog_ok sv c \<Longrightarrow> pending_on c name \<Longrightarrow> state_disabled c name"
  using catalog_okD(4-6) [of sv c]
  by (fastforce simp: pending_on_def creation_ok_def deletion_ok_def transition_ok_def state_disabled_def)

lemma pending_onI:
  "bm_get (account_creations c) t = Some v \<Longrightarrow> creation_phase v \<noteq> Complete \<Longrightarrow> pending_on c (principal_id (creation_principal (creation_intent_of v)))"
  "bm_get (account_deletions c) t = Some d \<Longrightarrow> deletion_phase d \<noteq> Complete \<Longrightarrow> pending_on c (deletion_principal (deletion_intent_of d))"
  "bm_get (account_transitions c) t = Some w \<Longrightarrow> transition_phase w \<noteq> Complete \<Longrightarrow> pending_on c (intent_principal (transition_intent w))"
  unfolding pending_on_def by blast+

lemma checked_add_succ: "checked_add a 1 = Some b \<Longrightarrow> b = a + 1"
  by (simp add: checked_add_def split: if_splits)

lemma one_pending_move:
  assumes "account_move sv c c'" "one_pending c"
  shows "one_pending c'"
  using assms
proof cases
  case (permit_creation t v)
  then have "t \<in> pending_creations c" by (auto simp: pending_in_def)
  with permit_creation assms(2) show ?thesis by (simp add: one_pending_def insert_absorb)
next
  case (permit_deletion t v)
  then have "t \<in> pending_deletions c" by (auto simp: pending_in_def)
  with permit_deletion assms(2) show ?thesis by (simp add: one_pending_def insert_absorb)
next
  case (permit_transition t v)
  then have "t \<in> pending_transitions c" by (auto simp: pending_in_def)
  with permit_transition assms(2) show ?thesis by (simp add: one_pending_def insert_absorb)
qed (use assms(2) in \<open>auto simp: one_pending_def fresh_transaction_def idle_def\<close>)

lemma capacity_move:
  assumes "account_move sv c c'" "transaction_capacity c \<le> 128"
  shows "transaction_capacity c' \<le> 128"
  using assms
  by cases (auto simp: transaction_capacity_def fresh_transaction_def transaction_known_def bm_contains_iff bm_keys_iff bm_size_insert)

lemma creation_extends:
  assumes "creation_validate len i = Ok u"
  shows "registry_after i = registry_before i\<lparr>principals := principals (registry_before i) @ [creation_principal i]\<rparr>" (is ?A)
    and "registry_ok (registry_after i)" (is ?B)
    and "registry_principal (registry_after i) name = (if name = principal_id (creation_principal i) then Some (creation_principal i)
      else registry_principal (registry_before i) name)" (is ?C)
    and "registry_principal (registry_before i) (principal_id (creation_principal i)) = None" (is ?D)
proof -
  have app: "append_account len (registry_before i) (creation_principal i) = Ok (registry_after i)"
    using assms by (rule creation_validate_registry)
  show ?A ?B using app unfolding append_account_Ok by blast+
  show ?C using app by (rule append_account_principal)
  have "distinct (map principal_id (principals (registry_before i) @ [creation_principal i]))"
    using \<open>?A\<close> \<open>?B\<close> by (simp add: registry_ok_def)
  then show ?D by (simp add: registry_principal_def find_None_iff) (metis image_eqI)
qed

lemma catalog_registry_extends:
  assumes "registries_ok c" "catalog_registry c = Ok r"
  shows "\<exists>r0 ps. principal_registry c = Some r0 \<and> r = r0\<lparr>principals := principals r0 @ ps\<rparr>"
proof (cases "current_registry c")
  case None
  then have "principal_registry c = Some r" "r = r\<lparr>principals := principals r @ []\<rparr>" using assms(2) by (simp_all add: catalog_registry_def result_simps)
  then show ?thesis by blast
qed (use assms in \<open>simp add: registries_ok_def catalog_registry_def\<close>)

lemma registries_move:
  assumes "account_move sv c c'" "catalog_ok sv c"
  shows "registries_ok c'"
  using assms(1)
proof cases
  case (complete_creation t v)
  let ?i = "creation_intent_of v"
  have valid: "creation_validate (registry_length sv) ?i = Ok ()" using catalog_okD(4) [OF assms(2) complete_creation(2)] by (simp add: creation_ok_def)
  note after = creation_extends(1,2) [OF valid]
  obtain r0 ps where "principal_registry c = Some r0" "registry_before ?i = r0\<lparr>principals := principals r0 @ ps\<rparr>"
    using catalog_registry_extends [OF catalog_okD(1) [OF assms(2)] complete_creation(4)] by blast
  then show ?thesis using complete_creation(1) after catalog_okD(1) [OF assms(2)] by (auto simp: registries_ok_def)
qed (use catalog_okD(1) [OF assms(2)] in \<open>auto simp: registries_ok_def\<close>)

text \<open>While one transaction is pending, every other one is complete.\<close>

lemma pending_excludes:
  assumes "one_pending c"
  shows "bm_get (account_creations c) t = Some v \<Longrightarrow> creation_phase v \<noteq> Complete \<Longrightarrow>
      (\<forall>t' v'. bm_get (account_creations c) t' = Some v' \<longrightarrow> t' \<noteq> t \<longrightarrow> creation_phase v' = Complete)
    \<and> (\<forall>t' v'. bm_get (account_deletions c) t' = Some v' \<longrightarrow> deletion_phase v' = Complete)
    \<and> (\<forall>t' v'. bm_get (account_transitions c) t' = Some v' \<longrightarrow> transition_phase v' = Complete)"
    "bm_get (account_deletions c) t = Some d \<Longrightarrow> deletion_phase d \<noteq> Complete \<Longrightarrow>
      (\<forall>t' v'. bm_get (account_creations c) t' = Some v' \<longrightarrow> creation_phase v' = Complete)
    \<and> (\<forall>t' v'. bm_get (account_deletions c) t' = Some v' \<longrightarrow> t' \<noteq> t \<longrightarrow> deletion_phase v' = Complete)
    \<and> (\<forall>t' v'. bm_get (account_transitions c) t' = Some v' \<longrightarrow> transition_phase v' = Complete)"
    "bm_get (account_transitions c) t = Some w \<Longrightarrow> transition_phase w \<noteq> Complete \<Longrightarrow>
      (\<forall>t' v'. bm_get (account_creations c) t' = Some v' \<longrightarrow> creation_phase v' = Complete)
    \<and> (\<forall>t' v'. bm_get (account_deletions c) t' = Some v' \<longrightarrow> deletion_phase v' = Complete)
    \<and> (\<forall>t' v'. bm_get (account_transitions c) t' = Some v' \<longrightarrow> t' \<noteq> t \<longrightarrow> transition_phase v' = Complete)"
  using one_pending_unique [OF assms, of t] by (auto simp: pending_in_def)

lemma idle_excludes:
  assumes "fresh_transaction c t"
  shows "bm_get (account_creations c) t' = Some v \<Longrightarrow> creation_phase v = Complete \<and> t' \<noteq> t"
    "bm_get (account_deletions c) t' = Some d \<Longrightarrow> deletion_phase d = Complete \<and> t' \<noteq> t"
    "bm_get (account_transitions c) t' = Some w \<Longrightarrow> transition_phase w = Complete \<and> t' \<noteq> t"
  using assms by (auto simp: fresh_transaction_def idle_def pending_in_def transaction_known_def bm_contains_iff bm_keys_iff)

lemma empty_keys: "bm_keys m = [] \<Longrightarrow> bm_get m k = None"
  using bm_keys_iff [of k m] by simp

lemma unadopted_registry: "registries_ok c \<Longrightarrow> principal_registry c = None \<Longrightarrow> catalog_registry c \<noteq> Ok r"
  by (cases "current_registry c") (auto simp: registries_ok_def catalog_registry_def)

lemma creations_move:
  assumes move: "account_move sv c c'" and ok: "catalog_ok sv c" and v: "bm_get (account_creations c') t = Some v"
  shows "creation_ok sv c' t v"
  using move
proof cases
  case (adopt r)
  then show ?thesis using catalog_okD(4) [OF ok, of t v] v unadopted_registry [OF catalog_okD(1) [OF ok]] by (auto simp: creation_ok_def)
next
  case (advance name g g' rv on)
  have "principal_id (creation_principal (creation_intent_of v)) \<noteq> name" if "creation_phase v \<noteq> Complete"
    using that v advance(1,4) pending_disabled [OF ok, of name] pending_onI(1) [of c t v] by auto
  then show ?thesis using catalog_okD(4) [OF ok, of t v] v advance(1) by (auto simp: creation_ok_def)
next
  case (complete_creation t1 v1)
  show ?thesis
  proof (cases "t = t1")
    case True
    then show ?thesis using catalog_okD(4) [OF ok complete_creation(2)] v complete_creation(1) by (auto simp: creation_ok_def)
  next
    case False
    then have "bm_get (account_creations c) t = Some v" "creation_phase v = Complete"
      using v complete_creation(1,3) pending_excludes(1) [OF catalog_okD(2) [OF ok] complete_creation(2)] by auto
    then show ?thesis using catalog_okD(4) [OF ok] by (simp add: creation_ok_def)
  qed
next
  case (complete_transition t1 v1 g)
  then show ?thesis using catalog_okD(4) [OF ok, of t v] v pending_excludes(3) [OF catalog_okD(2) [OF ok] complete_transition(2)]
    by (auto simp: creation_ok_def)
qed (use catalog_okD(4) [OF ok, of t] v in \<open>auto simp: creation_ok_def dest: idle_excludes split: if_splits\<close>)

lemma deletions_move:
  assumes move: "account_move sv c c'" and ok: "catalog_ok sv c" and v: "bm_get (account_deletions c') t = Some v"
  shows "deletion_ok c' t v"
  using move
proof cases
  case (checkpoint m)
  then show ?thesis using catalog_okD(5) [OF ok, of t v] v by (auto simp: deletion_ok_def empty_keys)
next
  case (advance name g g' rv on)
  have "deletion_principal (deletion_intent_of v) \<noteq> name" if "deletion_phase v \<noteq> Complete"
    using that v advance(1,4) pending_disabled [OF ok, of name] pending_onI(2) [of c t v] by auto
  then show ?thesis using catalog_okD(5) [OF ok, of t v] v advance(1) by (auto simp: deletion_ok_def)
next
  case (complete_creation t1 v1)
  then show ?thesis using catalog_okD(5) [OF ok, of t v] v pending_excludes(1) [OF catalog_okD(2) [OF ok] complete_creation(2)]
    by (auto simp: deletion_ok_def)
next
  case (prepare_deletion i g)
  then show ?thesis using catalog_okD(5) [OF ok, of t v] v checked_add_succ [OF prepare_deletion(5)]
    by (auto simp: deletion_ok_def dest: idle_excludes split: if_splits)
next
  case (complete_transition t1 v1 g)
  then show ?thesis using catalog_okD(5) [OF ok, of t v] v pending_excludes(3) [OF catalog_okD(2) [OF ok] complete_transition(2)]
    by (auto simp: deletion_ok_def)
qed (use catalog_okD(5) [OF ok, of t] v in \<open>auto simp: deletion_ok_def dest: idle_excludes split: if_splits\<close>)

lemma transitions_move:
  assumes move: "account_move sv c c'" and ok: "catalog_ok sv c" and v: "bm_get (account_transitions c') t = Some v"
  shows "transition_ok sv c' t v"
  using move
proof cases
  case (checkpoint m)
  then show ?thesis using catalog_okD(6) [OF ok, of t v] v by (auto simp: transition_ok_def empty_keys)
next
  case (advance name g g' rv on)
  have "intent_principal (transition_intent v) \<noteq> name" if "transition_phase v \<noteq> Complete"
    using that v advance(1,4) pending_disabled [OF ok, of name] pending_onI(3) [of c t v] by auto
  then show ?thesis using catalog_okD(6) [OF ok, of t v] v advance(1) by (auto simp: transition_ok_def)
next
  case (complete_creation t1 v1)
  then show ?thesis using catalog_okD(6) [OF ok, of t v] v pending_excludes(1) [OF catalog_okD(2) [OF ok] complete_creation(2)]
    by (auto simp: transition_ok_def)
next
  case (prepare_transition i g m rv)
  then show ?thesis using catalog_okD(6) [OF ok, of t v] v checked_add_succ [OF prepare_transition(5)]
    by (auto simp: transition_ok_def dest: idle_excludes split: if_splits)
next
  case (complete_transition t1 v1 g)
  then show ?thesis using catalog_okD(6) [OF ok, of t v] catalog_okD(6) [OF ok complete_transition(2)] v
      pending_excludes(3) [OF catalog_okD(2) [OF ok] complete_transition(2)]
    by (auto simp: transition_ok_def split: if_splits)
qed (use catalog_okD(6) [OF ok, of t] v in \<open>auto simp: transition_ok_def dest: idle_excludes split: if_splits\<close>)

lemma catalog_ok_update [simp]:
  "catalog_ok sv (c\<lparr>model_authority := x0\<rparr>) = catalog_ok sv c"
  "catalog_ok sv (c\<lparr>assignment_receipts := x1\<rparr>) = catalog_ok sv c"
  "catalog_ok sv (c\<lparr>model_approvals := x2\<rparr>) = catalog_ok sv c"
  "catalog_ok sv (c\<lparr>model_signings := x3\<rparr>) = catalog_ok sv c"
  "catalog_ok sv (c\<lparr>skill_authority := x4\<rparr>) = catalog_ok sv c"
  "catalog_ok sv (c\<lparr>release_authority := x5\<rparr>) = catalog_ok sv c"
  "catalog_ok sv (c\<lparr>state_version := x6\<rparr>) = catalog_ok sv c"
  "catalog_ok sv (c\<lparr>activities := x7\<rparr>) = catalog_ok sv c"
  "catalog_ok sv (c\<lparr>roles := x8\<rparr>) = catalog_ok sv c"
  "catalog_ok sv (c\<lparr>assignments := x9\<rparr>) = catalog_ok sv c"
  "catalog_ok sv (c\<lparr>grants := x10\<rparr>) = catalog_ok sv c"
  by (simp_all add: catalog_ok_def registries_ok_def one_pending_def transaction_capacity_def creation_ok_def deletion_ok_def transition_ok_def)

lemma catalog_ok_move: "catalog_move sv c c' \<Longrightarrow> catalog_ok sv c \<Longrightarrow> catalog_ok sv c'"
proof -
  assume move: "catalog_move sv c c'" and ok: "catalog_ok sv c"
  have "catalog_ok sv c'" if "account_move sv c c'"
    unfolding catalog_ok_def
    using registries_move [OF that ok] one_pending_move [OF that] capacity_move [OF that] creations_move [OF that ok]
      deletions_move [OF that ok] transitions_move [OF that ok] catalog_okD(2,3) [OF ok] by blast
  with move ok show ?thesis by (auto simp: catalog_move_def elim!: trust_move.cases authority_move.cases)
qed

lemma catalog_ok_activations: "catalog_ok sv c \<Longrightarrow> activations_fenced c"
  using catalog_okD(6) [of sv c] by (fastforce simp: activations_fenced_def transition_ok_def)

section \<open>Histories\<close>

text \<open>
  \<open>retain_assignment_receipt\<close> and the loop body of \<open>replay\<close> in \<open>admin_governance.rs\<close>: an applied event changes the
  catalog, and an assignment keeps the digest of its event.
\<close>

fun retain_assignment_receipt :: "command \<Rightarrow> string \<Rightarrow> catalog \<Rightarrow> catalog" where
  "retain_assignment_receipt (AssignRole a) digest c = c\<lparr>assignment_receipts := bm_insert (asg_id a) digest (assignment_receipts c)\<rparr>"
| "retain_assignment_receipt _ digest c = c"

definition catalog_step :: "catalog_services \<Rightarrow> catalog \<Rightarrow> command \<times> string \<Rightarrow> catalog" where
  "catalog_step sv c e = (case apply_command sv (fst e) c of
     (Inr True, c') \<Rightarrow> retain_assignment_receipt (fst e) (snd e) c' | (_, c') \<Rightarrow> c')"

lemma retain_cases: "retain_assignment_receipt cmd d c = c \<or> (\<exists>r. retain_assignment_receipt cmd d c = c\<lparr>assignment_receipts := r\<rparr>)"
  by (cases cmd) auto

lemma apply_command_cases:
  assumes "apply_command sv cmd c = (r, c')" "catalog_ok sv c"
  shows "(r = Ok True \<and> (\<exists>c1 v. catalog_move sv c c1 \<and> checked_add (state_version c) 1 = Some v \<and> c' = c1\<lparr>state_version := v\<rparr>))
    \<or> (r \<noteq> Ok True \<and> c' = c)"
proof (cases "command_validate sv cmd = Ok () \<and> checked_add (state_version c) 1 \<noteq> None")
  case True
  then obtain v where v: "command_validate sv cmd = Ok ()" "checked_add (state_version c) 1 = Some v" by blast
  obtain x c1 where run: "run_command sv cmd c = (x, c1)" by (cases "run_command sv cmd c")
  show ?thesis
  proof (cases x)
    case (Inl e)
    then show ?thesis using assms v run run_command_fails [OF _ v(1) catalog_ok_activations [OF assms(2)]] by (auto simp: apply_command_def)
  next
    case (Inr b)
    then show ?thesis
      using assms v run run_command_True [OF _ v(1) catalog_okD(1) [OF assms(2)]] run_command_False [OF _ v(1)]
      by (cases b) (auto simp: apply_command_def)
  qed
qed (use assms in \<open>auto simp: apply_command_def split: sum.splits option.splits\<close>)

lemma catalog_step_cases:
  assumes "catalog_ok sv c"
  obtains "catalog_step sv c e = c"
  | c1 v r where "catalog_move sv c c1" "checked_add (state_version c) 1 = Some v" "catalog_step sv c e = c1\<lparr>state_version := v, assignment_receipts := r\<rparr>"
proof -
  obtain x c' where app: "apply_command sv (fst e) c = (x, c')" by (cases "apply_command sv (fst e) c")
  from apply_command_cases [OF app assms] show ?thesis
  proof (elim disjE conjE exE)
    fix c1 v
    assume "x = Ok True" "catalog_move sv c c1" "checked_add (state_version c) 1 = Some v" "c' = c1\<lparr>state_version := v\<rparr>"
    then show ?thesis using app that(2) [of c1 v "assignment_receipts (c1\<lparr>state_version := v\<rparr>)"] that(2) retain_cases [of "fst e" "snd e" c']
      by (auto simp: catalog_step_def)
  next
    assume "x \<noteq> Ok True" "c' = c"
    then show ?thesis using app that(1) by (auto simp: catalog_step_def split: sum.splits bool.splits)
  qed
qed

lemma catalog_ok_step:
  assumes "catalog_ok sv c"
  shows "catalog_ok sv (catalog_step sv c e)"
  using assms by (rule catalog_step_cases [of sv c e]) (use assms catalog_ok_move in auto)

lemma catalog_ok_initial: "catalog_ok sv catalog_initial"
  by (simp add: catalog_ok_def catalog_initial_def registries_ok_def one_pending_def transaction_capacity_def bm_size_def)

lemma generation_of_update [simp]:
  "generation_of (c\<lparr>model_authority := x0\<rparr>) = generation_of c"
  "generation_of (c\<lparr>assignment_receipts := x1\<rparr>) = generation_of c"
  "generation_of (c\<lparr>model_approvals := x2\<rparr>) = generation_of c"
  "generation_of (c\<lparr>model_signings := x3\<rparr>) = generation_of c"
  "generation_of (c\<lparr>skill_authority := x4\<rparr>) = generation_of c"
  "generation_of (c\<lparr>release_authority := x5\<rparr>) = generation_of c"
  "generation_of (c\<lparr>state_version := x6\<rparr>) = generation_of c"
  "generation_of (c\<lparr>activities := x7\<rparr>) = generation_of c"
  "generation_of (c\<lparr>roles := x8\<rparr>) = generation_of c"
  "generation_of (c\<lparr>assignments := x9\<rparr>) = generation_of c"
  "generation_of (c\<lparr>grants := x10\<rparr>) = generation_of c"
  "generation_of (c\<lparr>account_creations := x11\<rparr>) = generation_of c"
  "generation_of (c\<lparr>account_deletions := x12\<rparr>) = generation_of c"
  "generation_of (c\<lparr>account_transitions := x13\<rparr>) = generation_of c"
  "generation_of (c\<lparr>account_commitments := x14\<rparr>) = generation_of c"
  "generation_of (c\<lparr>needs_password_aging := x15\<rparr>) = generation_of c"
  "generation_of (c\<lparr>deleted_principals := x16\<rparr>) = generation_of c"
  "generation_of (c\<lparr>admin_recovery := x17\<rparr>) = generation_of c"
  by (simp_all add: generation_of_def fun_eq_iff cong: option.case_cong)

section \<open>What never goes back\<close>

definition assignment_le :: "assignment \<Rightarrow> assignment \<Rightarrow> bool" where
  "assignment_le a a' \<longleftrightarrow> a' = a \<or> \<not> asg_revoked a \<and> (\<exists>v. a' = a\<lparr>asg_version := v, asg_revoked := True\<rparr>)"

definition grant_le :: "grant \<Rightarrow> grant \<Rightarrow> bool" where
  "grant_le g g' \<longleftrightarrow> g' = g \<or> \<not> grant_revoked g \<and> (\<exists>v. g' = g\<lparr>grant_version := v, grant_revoked := True\<rparr>)"

definition role_le :: "role \<Rightarrow> role \<Rightarrow> bool" where
  "role_le r r' \<longleftrightarrow> r' = r \<or> role_version r < role_version r'"

definition entries_le :: "('v \<Rightarrow> 'v \<Rightarrow> bool) \<Rightarrow> (string, 'v) bmap \<Rightarrow> (string, 'v) bmap \<Rightarrow> bool" where
  "entries_le le m m' \<longleftrightarrow> (\<forall>k v. bm_get m k = Some v \<longrightarrow> (\<exists>v'. bm_get m' k = Some v' \<and> le v v'))"

definition generations_le :: "catalog \<Rightarrow> catalog \<Rightarrow> bool" where
  "generations_le c c' \<longleftrightarrow> (\<forall>name g. generation_of c name = Some g \<longrightarrow> (\<exists>g'. generation_of c' name = Some g' \<and> g \<le> g'))"

definition catalog_le :: "catalog \<Rightarrow> catalog \<Rightarrow> bool" where
  "catalog_le c c' \<longleftrightarrow> generations_le c c' \<and> deleted_principals c \<subseteq> deleted_principals c' \<and> activities c \<subseteq> activities c'
     \<and> entries_le assignment_le (assignments c) (assignments c') \<and> entries_le grant_le (grants c) (grants c')
     \<and> entries_le role_le (roles c) (roles c') \<and> state_version c \<le> state_version c'"

lemma entries_le_refl: "(\<And>v. le v v) \<Longrightarrow> entries_le le m m"
  by (simp add: entries_le_def)

lemma entries_le_trans: "(\<And>u v w. le u v \<Longrightarrow> le v w \<Longrightarrow> le u w) \<Longrightarrow> entries_le le m m' \<Longrightarrow> entries_le le m' m'' \<Longrightarrow> entries_le le m m''"
  unfolding entries_le_def by meson

lemma entries_le_insert:
  "(\<And>v. le v v) \<Longrightarrow> (\<And>v. bm_get m k = Some v \<Longrightarrow> le v w) \<Longrightarrow> entries_le le m (bm_insert k w m)"
  by (auto simp: entries_le_def)

lemma item_le_refl [simp]: "assignment_le a a" "grant_le g g" "role_le r r"
  by (simp_all add: assignment_le_def grant_le_def role_le_def)

lemma item_le_trans:
  "assignment_le a b \<Longrightarrow> assignment_le b d \<Longrightarrow> assignment_le a d" "grant_le g h \<Longrightarrow> grant_le h k \<Longrightarrow> grant_le g k"
  "role_le r s \<Longrightarrow> role_le s t \<Longrightarrow> role_le r t"
  by (auto simp: assignment_le_def grant_le_def role_le_def)

lemma catalog_le_refl: "catalog_le c c"
  by (simp add: catalog_le_def generations_le_def entries_le_refl)

lemma catalog_le_trans: "catalog_le c d \<Longrightarrow> catalog_le d e \<Longrightarrow> catalog_le c e"
  unfolding catalog_le_def generations_le_def
  by (meson entries_le_trans item_le_trans order_trans subset_trans)

lemma generations_raise:
  assumes "generation_of c n = Some g" "g \<le> g'" "catalog_registry c' = catalog_registry c"
    "principal_states c' = bm_insert n \<lparr>state_generation = g', state_enabled = on\<rparr> (principal_states c)"
  shows "generations_le c c'"
  using assms by (auto simp: generations_le_def generation_of_def split: option.splits sum.splits)

lemma generations_succ:
  assumes "generation_of c n = Some g" "checked_add g 1 = Some g'" "catalog_registry c' = catalog_registry c"
    "principal_states c' = bm_insert n \<lparr>state_generation = g', state_enabled = on\<rparr> (principal_states c)"
  shows "generations_le c c'"
  using assms(1) less_imp_le [OF checked_add_one_less [OF assms(2)]] assms(3,4) by (rule generations_raise)

lemma generations_move:
  assumes move: "account_move sv c c'" and ok: "catalog_ok sv c"
  shows "generations_le c c'"
  using move
proof cases
  case (adopt r)
  then show ?thesis using unadopted_registry [OF catalog_okD(1) [OF ok]]
    by (auto simp: generations_le_def generation_of_def split: option.splits sum.splits)
next
  case (advance name g g' rv on)
  then show ?thesis by (intro generations_succ [of c name g g' c' on]) simp_all
next
  case (prepare_creation i)
  then have "generation_of c (principal_id (creation_principal i)) = None"
    using creation_extends(4) [OF prepare_creation(2)] by (simp add: generation_of_def)
  then show ?thesis using prepare_creation(1) by (auto simp: generations_le_def generation_of_def split: option.splits sum.splits)
next
  case (complete_creation t v)
  have valid: "creation_validate (registry_length sv) (creation_intent_of v) = Ok ()"
    using catalog_okD(4) [OF ok complete_creation(2)] by (simp add: creation_ok_def)
  have "catalog_registry c' = Ok (registry_after (creation_intent_of v))" using complete_creation(1) by (simp add: catalog_registry_def)
  then show ?thesis using complete_creation(1,4,5) creation_extends(3) [OF valid]
    by (auto simp: generations_le_def generation_of_def split: option.splits)
next
  case (prepare_deletion i g)
  then show ?thesis by (intro generations_succ [OF prepare_deletion(4,5), of c' False]) simp_all
next
  case (prepare_transition i g m rv)
  then show ?thesis by (intro generations_succ [OF prepare_transition(4,5), of c' False]) simp_all
next
  case (complete_transition t v g)
  then have "generation_of c (intent_principal (transition_intent v)) = Some g" by (simp add: generation_of_def)
  then show ?thesis using complete_transition(1) by (intro generations_raise [of c _ g g c' "\<not> locked (transition_intent v)"]) simp_all
qed (simp_all add: generations_le_def)

lemma trust_le: "trust_move c c' \<Longrightarrow> catalog_le c c'"
  by (auto simp: catalog_le_def generations_le_def entries_le_refl elim!: trust_move.cases)

lemma authority_le: "authority_move c c' \<Longrightarrow> catalog_le c c'"
proof (induction rule: authority_move.induct)
  case (define_role acts c name v v')
  then have "role_le r \<lparr>role_name = name, role_activities = acts, role_version = v'\<rparr>" if "bm_get (roles c) name = Some r" for r
    using that checked_add_one_less [OF define_role(3)] by (simp add: role_le_def)
  then show ?case by (auto simp: catalog_le_def generations_le_def entries_le_refl intro!: entries_le_insert)
qed (auto simp: catalog_le_def generations_le_def entries_le_refl assignment_le_def grant_le_def intro!: entries_le_insert)

lemma account_le: "account_move sv c c' \<Longrightarrow> catalog_ok sv c \<Longrightarrow> catalog_le c c'"
proof -
  assume move: "account_move sv c c'" and ok: "catalog_ok sv c"
  have "deleted_principals c \<subseteq> deleted_principals c' \<and> activities c' = activities c \<and> assignments c' = assignments c \<and> grants c' = grants c
    \<and> roles c' = roles c \<and> state_version c' = state_version c"
    using move by cases auto
  then show ?thesis using generations_move [OF move ok] by (simp add: catalog_le_def entries_le_refl)
qed

lemma catalog_le_version: "catalog_le c c1 \<Longrightarrow> state_version c \<le> v \<Longrightarrow> catalog_le c (c1\<lparr>state_version := v, assignment_receipts := r\<rparr>)"
  by (simp add: catalog_le_def generations_le_def)

lemma catalog_le_step:
  assumes "catalog_ok sv c"
  shows "catalog_le c (catalog_step sv c e)"
  using assms
proof (rule catalog_step_cases [of sv c e])
  fix c1 v r
  assume "catalog_move sv c c1" "checked_add (state_version c) 1 = Some v" and step: "catalog_step sv c e = c1\<lparr>state_version := v, assignment_receipts := r\<rparr>"
  then have "catalog_le c c1" "state_version c \<le> v"
    using assms trust_le authority_le account_le less_imp_le [OF checked_add_one_less] by (auto simp: catalog_move_def)
  then show ?thesis unfolding step by (rule catalog_le_version)
qed (simp add: catalog_le_refl)

interpretation catalog: monotone_system "\<lambda>c. c = catalog_initial" "catalog_step sv" "catalog_ok sv" catalog_le for sv
proof
  show "catalog_le c e" if "catalog_le c d" "catalog_le d e" for c d e using that by (rule catalog_le_trans)
qed (simp_all add: catalog_ok_initial catalog_ok_step catalog_le_refl catalog_le_step)

abbreviation catalog_run :: "catalog_services \<Rightarrow> (command \<times> string) list \<Rightarrow> catalog" where
  "catalog_run sv es \<equiv> foldl (catalog_step sv) catalog_initial es"

lemma catalog_reachable: "catalog_ok sv (catalog_run sv es)"
  by (rule catalog.invariant_reachable) simp

section \<open>Authority\<close>

text \<open>
  What the catalog stores was valid when it was issued: roles name registered activities, an assignment is finite and
  never of the role Admin, and a grant stays inside its assignment.
\<close>

definition assignment_ok :: "string \<Rightarrow> assignment \<Rightarrow> bool" where
  "assignment_ok name a \<longleftrightarrow> asg_id a = name \<and> assignment_validate (a\<lparr>asg_version := 1, asg_revoked := False\<rparr>) = Ok ()"

definition grant_ok :: "catalog \<Rightarrow> string \<Rightarrow> grant \<Rightarrow> bool" where
  "grant_ok c name g \<longleftrightarrow> grant_id g = name \<and> grant_validate (g\<lparr>grant_version := 1, grant_revoked := False\<rparr>) = Ok ()
     \<and> (\<exists>a. bm_get (assignments c) (grant_assignment g) = Some a \<and> asg_not_before a \<le> grant_not_before g \<and> grant_expires g \<le> asg_expires a
          \<and> asg_subject a = grant_subject g)"

definition authority_ok :: "catalog \<Rightarrow> bool" where
  "authority_ok c \<longleftrightarrow> (\<forall>n r. bm_get (roles c) n = Some r \<longrightarrow> set (role_activities r) \<subseteq> activities c)
     \<and> (\<forall>n a. bm_get (assignments c) n = Some a \<longrightarrow> assignment_ok n a) \<and> (\<forall>n g. bm_get (grants c) n = Some g \<longrightarrow> grant_ok c n g)"

lemma assignment_valid_base: "assignment_validate a = Ok u \<Longrightarrow> a\<lparr>asg_version := 1, asg_revoked := False\<rparr> = a"
  by (cases a) (auto simp: assignment_validate_def result_simps)

lemma grant_valid_base: "grant_validate g = Ok u \<Longrightarrow> g\<lparr>grant_version := 1, grant_revoked := False\<rparr> = g"
  by (cases g) (auto simp: grant_validate_def result_simps)

lemma authority_ok_authority:
  assumes "authority_move c c'" "authority_ok c"
  shows "authority_ok c'"
  using assms
proof (induction rule: authority_move.induct)
  case (assign a c)
  then have "assignment_ok (asg_id a) a" using assignment_valid_base by (simp add: assignment_ok_def)
  with assign show ?case by (fastforce simp: authority_ok_def grant_ok_def)
next
  case (revoke_assignment c name a v)
  then have "assignment_ok name (a\<lparr>asg_version := v, asg_revoked := True\<rparr>)" by (auto simp: authority_ok_def assignment_ok_def)
  with revoke_assignment show ?case by (fastforce simp: authority_ok_def grant_ok_def)
next
  case (issue g c)
  then have "grant_ok c (grant_id g) g"
    using grant_valid_base [of g] by (auto simp: grant_ok_def grant_issue_def result_simps not_less)
  with issue show ?case by (auto simp: authority_ok_def grant_ok_def)
next
  case (revoke_grant c name g v)
  then have "grant_ok c name (g\<lparr>grant_version := v, grant_revoked := True\<rparr>)" by (auto simp: authority_ok_def grant_ok_def)
  with revoke_grant show ?case by (auto simp: authority_ok_def grant_ok_def)
qed (auto simp: authority_ok_def grant_ok_def)

lemma authority_ok_update [simp]:
  "authority_ok (c\<lparr>model_authority := x0\<rparr>) = authority_ok c"
  "authority_ok (c\<lparr>assignment_receipts := x1\<rparr>) = authority_ok c"
  "authority_ok (c\<lparr>model_approvals := x2\<rparr>) = authority_ok c"
  "authority_ok (c\<lparr>model_signings := x3\<rparr>) = authority_ok c"
  "authority_ok (c\<lparr>skill_authority := x4\<rparr>) = authority_ok c"
  "authority_ok (c\<lparr>release_authority := x5\<rparr>) = authority_ok c"
  "authority_ok (c\<lparr>state_version := x6\<rparr>) = authority_ok c"
  "authority_ok (c\<lparr>principal_registry := x7\<rparr>) = authority_ok c"
  "authority_ok (c\<lparr>current_registry := x8\<rparr>) = authority_ok c"
  "authority_ok (c\<lparr>account_creations := x9\<rparr>) = authority_ok c"
  "authority_ok (c\<lparr>needs_password_aging := x10\<rparr>) = authority_ok c"
  "authority_ok (c\<lparr>principal_states := x11\<rparr>) = authority_ok c"
  "authority_ok (c\<lparr>account_commitments := x12\<rparr>) = authority_ok c"
  "authority_ok (c\<lparr>account_transitions := x13\<rparr>) = authority_ok c"
  "authority_ok (c\<lparr>account_deletions := x14\<rparr>) = authority_ok c"
  "authority_ok (c\<lparr>deleted_principals := x15\<rparr>) = authority_ok c"
  "authority_ok (c\<lparr>admin_recovery := x16\<rparr>) = authority_ok c"
  by (simp_all add: authority_ok_def grant_ok_def)

lemma authority_ok_move:
  assumes "catalog_move sv c c'" "authority_ok c"
  shows "authority_ok c'"
proof -
  have "authority_ok c'" if "trust_move c c'" using that assms(2) by cases simp_all
  moreover have "authority_ok c'" if "account_move sv c c'" using that assms(2) by cases simp_all
  ultimately show ?thesis using assms authority_ok_authority by (auto simp: catalog_move_def)
qed

lemma authority_reachable: "authority_ok (catalog_run sv es)"
proof (induction es rule: rev_induct)
  case Nil
  show ?case by (simp add: authority_ok_def catalog_initial_def)
next
  case (snoc e es)
  show ?case using catalog_reachable [of sv es] snoc by (cases rule: catalog_step_cases [of sv _ e]) (auto dest: authority_ok_move)
qed

end
