(* ===== verification/Admin_Journal.thy ===== *)
theory Admin_Journal
  imports Encoding
begin

text \<open>
  The durable Admin checkpoint journal (\<open>admin_journal.rs\<close>): a list of entries on disk whose hash chain is held by a TPM
  index. The files, the TPM, the writer check, the JSON encoding and SHA-256 are the fields of an environment whose
  operations may fail and change the surrounding state \<open>'w\<close>; byte strings are lists of numbers.
\<close>

section \<open>Data\<close>

definition MAX_JOURNAL_BYTES :: nat where "MAX_JOURNAL_BYTES = 4 * 1024 * 1024"
definition MAX_EVENTS :: nat where "MAX_EVENTS = 4096"

record clock =
  milliseconds :: u64
  reset_count :: u32
  restart_count :: u32

definition elapsed_since :: "clock \<Rightarrow> clock \<Rightarrow> u64 result" where
  "elapsed_since now issued =
     (if reset_count now \<noteq> reset_count issued \<or> restart_count now \<noteq> restart_count issued
      then Err ''TPM boot epoch changed; renew authorization''
      else ok_or (checked_sub (milliseconds now) (milliseconds issued)) ''TPM clock regressed'')"

record entry =
  entry_request :: string
  entry_uid :: u32
  entry_clock :: clock
  entry_activity :: string
  entry_payload :: string

record admin_journal =
  aj_schema :: u32
  aj_deployment :: string
  aj_entries :: "entry list"

definition text_id :: "string \<Rightarrow> bool" where
  "text_id v \<longleftrightarrow> v \<noteq> [] \<and> length v \<le> 64 \<and> list_all (\<lambda>b. is_ascii_alphanumeric b \<or> b \<in> set ''-_.'') v"

record publication =
  pub_schema :: u32
  pub_deployment :: string
  previous_events :: nat
  pub_request :: string
  pub_previous_head :: string
  committed_head :: string
  journal_sha256 :: string
  pending_sha256 :: string

datatype journal_file = JournalFile | PendingFile

type_synonym bytes = "nat list"

record journal_codec =
  sha256 :: "bytes \<Rightarrow> bytes"
  print_entry :: "entry \<Rightarrow> bytes"
  print_admin_journal :: "admin_journal \<Rightarrow> bytes"
  parse_admin_journal :: "bytes \<Rightarrow> admin_journal option"
  print_publication :: "publication \<Rightarrow> bytes"

record 'w journal_env =
  codec :: journal_codec
  private_read :: "journal_file \<Rightarrow> ('w, bytes) action"
  pending_exists :: "('w, bool) action"
  write_pending :: "bytes \<Rightarrow> ('w, unit) action"
  sync_pending :: "('w, unit) action"
  rename_pending :: "('w, unit) action"
  sync_directory :: "('w, unit) action"
  anchor_read :: "('w, bytes) action"
  anchor_clock :: "('w, clock) action"
  anchor_advance :: "bytes \<Rightarrow> bytes \<Rightarrow> ('w, bytes) action"

section \<open>The hash chain\<close>

text \<open>A byte string literal, and the eight bytes of a \<open>u64\<close> from the most significant one.\<close>

definition byte_text :: "string \<Rightarrow> bytes" where
  "byte_text s = map of_char s"

definition to_be_bytes :: "u64 \<Rightarrow> bytes" where
  "to_be_bytes v = map (\<lambda>k. unat v div 256 ^ k mod 256) (rev [0..<8])"

definition extend_value :: "journal_codec \<Rightarrow> bytes \<Rightarrow> bytes \<Rightarrow> bytes" where
  "extend_value cd previous event = sha256 cd (previous @ event)"

definition entry_digest :: "journal_codec \<Rightarrow> string \<Rightarrow> nat \<Rightarrow> entry \<Rightarrow> bytes result" where
  "entry_digest cd deployment position e =
     and_then (tpm_decode 32 deployment) (\<lambda>d.
     Ok (sha256 cd (byte_text ''luma-native-admin-audit-v1'' @ [0] @ d @ to_be_bytes (of_nat position) @ print_entry cd e)))"

definition genesis :: "journal_codec \<Rightarrow> string \<Rightarrow> bytes result" where
  "genesis cd deployment =
     and_then (tpm_decode 32 deployment) (\<lambda>d. Ok (sha256 cd (byte_text ''luma-native-admin-genesis-v1'' @ [0] @ d)))"

definition initial_bytes :: "journal_codec \<Rightarrow> string \<Rightarrow> bytes result" where
  "initial_bytes cd deployment =
     and_then (genesis cd deployment) (\<lambda>_. Ok (print_admin_journal cd \<lparr>aj_schema = 1, aj_deployment = deployment, aj_entries = []\<rparr>))"

definition entry_fields_ok :: "string set \<Rightarrow> entry \<Rightarrow> bool" where
  "entry_fields_ok requests e \<longleftrightarrow> text_id (entry_request e) \<and> text_id (entry_activity e) \<and> entry_request e \<notin> requests
     \<and> 1000 \<le> entry_uid e \<and> entry_uid e < 65534"

text \<open>The loop of \<open>head\<close>: the position, the requests seen so far and the value of the chain.\<close>

fun chain :: "journal_codec \<Rightarrow> string \<Rightarrow> nat \<Rightarrow> string set \<Rightarrow> bytes \<Rightarrow> entry list \<Rightarrow> bytes result" where
  "chain cd deployment i requests v [] = Ok v"
| "chain cd deployment i requests v (e # es) =
     (if \<not> entry_fields_ok requests e then Err ''invalid, duplicate or service-identity Admin event''
      else and_then (tpm_decode 32 (entry_payload e)) (\<lambda>_.
      and_then (entry_digest cd deployment i e) (\<lambda>d.
      chain cd deployment (i + 1) (insert (entry_request e) requests) (extend_value cd v d) es)))"

definition head :: "journal_codec \<Rightarrow> admin_journal \<Rightarrow> bytes result" where
  "head cd j =
     (if aj_schema j \<noteq> 1 \<or> MAX_EVENTS < length (aj_entries j) then Err ''invalid/oversized Admin journal''
      else and_then (tpm_decode 32 (aj_deployment j)) (\<lambda>_.
      and_then (genesis cd (aj_deployment j)) (\<lambda>g.
      chain cd (aj_deployment j) 0 {} (extend_value cd (replicate 32 0) g) (aj_entries j))))"

section \<open>The store\<close>

text \<open>The store keeps the journal it opened beside the surrounding state; an operation of the environment leaves it alone.\<close>

type_synonym 'w store = "'w \<times> admin_journal"

definition on_world :: "('w, 'a) action \<Rightarrow> ('w store, 'a) action" where
  "on_world m s = (case m (fst s) of (r, w) \<Rightarrow> (r, (w, snd s)))"

definition with_journal :: "(admin_journal \<Rightarrow> ('w store, 'a) action) \<Rightarrow> ('w store, 'a) action" where
  "with_journal f s = f (snd s) s"

definition read_journal :: "'w journal_env \<Rightarrow> journal_file \<Rightarrow> ('w, admin_journal \<times> bytes) action" where
  "read_journal env path =
     bind_action (private_read env path) (\<lambda>b. lift_result (
     and_then (ok_or (parse_admin_journal (codec env) b) ''malformed Admin journal'') (\<lambda>j.
     if print_admin_journal (codec env) j \<noteq> b then Err ''noncanonical Admin journal; preserve state'' else Ok (j, b))))"

definition open_store :: "'w journal_env \<Rightarrow> ('w, admin_journal) action" where
  "open_store env =
     bind_action (read_journal env JournalFile) (\<lambda>(j, _).
     bind_action (lift_result (head (codec env) j)) (\<lambda>expected.
     bind_action (anchor_read env) (\<lambda>v.
     if v \<noteq> expected then lift_result (Err ''Admin disk/TPM mismatch; explicit reconciliation required'')
     else bind_action (pending_exists env) (\<lambda>p.
     if p then lift_result (Err ''Admin pending transaction requires reconciliation'') else lift_result (Ok j)))))"

text \<open>\<open>status\<close> as a value: the head in hexadecimal and the clock.\<close>

definition store_status :: "'w journal_env \<Rightarrow> ('w store, string \<times> clock) action" where
  "store_status env =
     (let refused = lift_result (Err ''Admin checkpoint changed; authorization denied'') in
      bind_action (on_world (read_journal env JournalFile)) (\<lambda>(current, _). with_journal (\<lambda>j.
      bind_action (lift_result (head (codec env) current)) (\<lambda>h.
      bind_action (lift_result (head (codec env) j)) (\<lambda>mine.
      if h \<noteq> mine then refused
      else bind_action (on_world (anchor_read env)) (\<lambda>v.
      if v \<noteq> h then refused
      else bind_action (on_world (pending_exists env)) (\<lambda>p.
      if p then refused
      else bind_action (on_world (anchor_clock env)) (\<lambda>c. lift_result (Ok (hex h, c))))))))))"

text \<open>The heads of the prefixes, from the installation genesis on.\<close>

fun prefix_values :: "journal_codec \<Rightarrow> string \<Rightarrow> nat \<Rightarrow> bytes \<Rightarrow> entry list \<Rightarrow> string list result" where
  "prefix_values cd deployment i v [] = Ok [hex v]"
| "prefix_values cd deployment i v (e # es) =
     and_then (entry_digest cd deployment i e) (\<lambda>d.
     and_then (prefix_values cd deployment (i + 1) (extend_value cd v d) es) (\<lambda>hs. Ok (hex v # hs)))"

record snapshot =
  snap_deployment :: string
  snap_entries :: "entry list"
  snap_head :: string
  snap_clock :: clock
  prefix_heads :: "string list"

definition store_snapshot :: "'w journal_env \<Rightarrow> ('w store, snapshot) action" where
  "store_snapshot env =
     bind_action (store_status env) (\<lambda>(h, c). with_journal (\<lambda>j. lift_result (
     and_then (genesis (codec env) (aj_deployment j)) (\<lambda>g.
     and_then (prefix_values (codec env) (aj_deployment j) 0 (extend_value (codec env) (replicate 32 0) g) (aj_entries j)) (\<lambda>hs.
     Ok \<lparr>snap_deployment = aj_deployment j, snap_entries = aj_entries j, snap_head = h, snap_clock = c, prefix_heads = hs\<rparr>)))))"

definition push_entry :: "admin_journal \<Rightarrow> entry \<Rightarrow> admin_journal" where
  "push_entry j e = j\<lparr>aj_entries := aj_entries j @ [e]\<rparr>"

text \<open>The part of \<open>append\<close> from the first write on: \<open>next\<close> is on its way to disk and to the TPM.\<close>

definition commit_entry :: "'w journal_env \<Rightarrow> (entry \<Rightarrow> ('w, unit) action) \<Rightarrow> entry \<Rightarrow> bytes \<Rightarrow> bytes \<Rightarrow> bytes \<Rightarrow> admin_journal \<Rightarrow> ('w store, unit) action" where
  "commit_entry env authorize e before digest after nxt =
     (let b = print_admin_journal (codec env) nxt in
      bind_action (on_world (write_pending env b)) (\<lambda>_.
      bind_action (on_world (authorize e)) (\<lambda>_.
      bind_action (on_world (read_journal env JournalFile)) (\<lambda>(current, _).
      bind_action (on_world (read_journal env PendingFile)) (\<lambda>(_, prepared).
      bind_action (lift_result (head (codec env) current)) (\<lambda>h.
      bind_action (if h \<noteq> before \<or> prepared \<noteq> b then lift_result (Ok False)
        else bind_action (on_world (anchor_read env)) (\<lambda>v. lift_result (Ok (v = before)))) (\<lambda>same.
      if \<not> same then lift_result (Err ''Admin append inputs changed before TPM dispatch; preserve proposal'')
      else bind_action (on_world (anchor_clock env)) (\<lambda>c.
      bind_action (lift_result (elapsed_since c (entry_clock e))) (\<lambda>_.
      bind_action (on_world (authorize e)) (\<lambda>_.
      bind_action (on_world (anchor_advance env before digest)) (\<lambda>v.
      if v \<noteq> after then lift_result (Err ''Admin checkpoint outcome ambiguous; reconciliation required'')
      else bind_action (on_world (rename_pending env)) (\<lambda>_.
      bind_action (on_world (sync_directory env)) (\<lambda>_.
      bind_action (modify_state (\<lambda>s. (fst s, nxt))) (\<lambda>_.
      bind_action (store_status env) (\<lambda>_. lift_result (Ok ()))))))))))))))))"

definition append_entry :: "'w journal_env \<Rightarrow> (entry \<Rightarrow> ('w, unit) action) \<Rightarrow> entry \<Rightarrow> ('w store, unit) action" where
  "append_entry env authorize e =
     bind_action (store_status env) (\<lambda>_. with_journal (\<lambda>j.
     if list_ex (\<lambda>old. entry_request old = entry_request e) (aj_entries j)
     then lift_result (Err ''duplicate Admin event requires semantic replay by its owning service'')
     else bind_action (on_world (anchor_clock env)) (\<lambda>c.
     bind_action (lift_result (elapsed_since c (entry_clock e))) (\<lambda>_.
     bind_action (lift_result (head (codec env) j)) (\<lambda>before.
     bind_action (lift_result (entry_digest (codec env) (aj_deployment j) (length (aj_entries j)) e)) (\<lambda>digest.
     bind_action (lift_result (head (codec env) (push_entry j e))) (\<lambda>after.
     if MAX_JOURNAL_BYTES < length (print_admin_journal (codec env) (push_entry j e)) then lift_result (Err ''Admin journal capacity exhausted'')
     else bind_action (on_world (authorize e)) (\<lambda>_.
     bind_action (on_world (pending_exists env)) (\<lambda>p.
     if p then lift_result (Err ''pending Admin checkpoint; reconciliation required'')
     else commit_entry env authorize e before digest after (push_entry j e))))))))))"

section \<open>Recovery\<close>

definition published :: "'w journal_env \<Rightarrow> ('w, publication) action" where
  "published env =
     bind_action (read_journal env JournalFile) (\<lambda>(current, cb).
     bind_action (read_journal env PendingFile) (\<lambda>(proposed, pb).
     bind_action (lift_result (head (codec env) current)) (\<lambda>before.
     bind_action (lift_result (head (codec env) proposed)) (\<lambda>after.
     if aj_deployment proposed \<noteq> aj_deployment current \<or> length (aj_entries proposed) \<noteq> length (aj_entries current) + 1
        \<or> take (length (aj_entries current)) (aj_entries proposed) \<noteq> aj_entries current
     then lift_result (Err ''pending Admin journal is not an exact one-entry successor; preserve state'')
     else bind_action (anchor_read env) (\<lambda>v.
     if v \<noteq> after then lift_result (Err ''TPM does not prove the pending Admin commit; preserve state; no replay'')
     else lift_result (and_then (ok_or (if aj_entries proposed = [] then None else Some (last (aj_entries proposed))) ''missing pending event'') (\<lambda>e.
       Ok \<lparr>pub_schema = 1, pub_deployment = aj_deployment current, previous_events = length (aj_entries current), pub_request = entry_request e,
         pub_previous_head = hex before, committed_head = hex after, journal_sha256 = hex (sha256 (codec env) cb),
         pending_sha256 = hex (sha256 (codec env) pb)\<rparr>)))))))"

record recovery =
  recovery_publication :: publication
  observed_clock :: clock

definition recovery_inspect :: "'w journal_env \<Rightarrow> ('w, recovery) action" where
  "recovery_inspect env =
     bind_action (anchor_clock env) (\<lambda>c.
     bind_action (published env) (\<lambda>p.
     bind_action (anchor_clock env) (\<lambda>now.
     bind_action (lift_result (elapsed_since now c)) (\<lambda>_.
     lift_result (Ok \<lparr>recovery_publication = p, observed_clock = c\<rparr>)))))"

definition recovery_digest :: "journal_codec \<Rightarrow> recovery \<Rightarrow> string" where
  "recovery_digest cd r = hex (sha256 cd (byte_text ''luma-native-admin-publication-v1'' @ [0] @ print_publication cd (recovery_publication r)))"

definition recovery_publish :: "'w journal_env \<Rightarrow> recovery \<Rightarrow> string \<Rightarrow> ('w, admin_journal) action" where
  "recovery_publish env r reviewed =
     bind_action (lift_result (tpm_decode 32 reviewed)) (\<lambda>_.
     if recovery_digest (codec env) r \<noteq> reviewed then lift_result (Err ''Admin recovery review does not match current state'')
     else bind_action (published env) (\<lambda>p.
     if p \<noteq> recovery_publication r then lift_result (Err ''Admin recovery inputs changed after review; preserve state'')
     else bind_action (anchor_clock env) (\<lambda>c.
     bind_action (lift_result (elapsed_since c (observed_clock r))) (\<lambda>_.
     bind_action (sync_pending env) (\<lambda>_.
     bind_action (rename_pending env) (\<lambda>_.
     bind_action (sync_directory env) (\<lambda>_.
     bind_action (open_store env) (\<lambda>j w.
     (case store_status env (w, j) of (Inl e, s) \<Rightarrow> (Inl e, fst s) | (Inr _, s) \<Rightarrow> (Ok j, fst s))))))))))"

end
