(* ===== verification/Governance.thy ===== *)
theory Governance
  imports Catalog_Safety Admin_Journal
begin

text \<open>
  Product Admin governance on the anchored journal (\<open>admin_governance.rs\<close>): the bootstrap payload, the documents of
  catalog events and UTC history records, who may write them, and the replay of a verified snapshot into the governance
  catalog and the UTC history. The content of the state directory and the JSON encodings are parameters.
\<close>

section \<open>Documents\<close>

definition MAX_CATALOG_EVENT :: nat where "MAX_CATALOG_EVENT = 128 * 1024"
definition MAX_MODEL_EVENT :: nat where "MAX_MODEL_EVENT = 12 * 1024 * 1024"

definition REQUEST :: string where "REQUEST = ''admin-bootstrap-v1''"
definition BOOTSTRAP_ACTIVITY :: string where "BOOTSTRAP_ACTIVITY = ''admin.bootstrap''"
definition HISTORY_ACTIVITY :: string where "HISTORY_ACTIVITY = ''admin.utc-history-advance''"

definition identity_parse :: "identity \<Rightarrow> identity result" where
  "identity_parse i =
     and_then (tpm_decode 32 (identity_installation i)) (\<lambda>_. and_then (tpm_decode 32 (identity_principal i)) (\<lambda>_.
     if identity_uid i \<noteq> 1001 \<or> identity_generation i = 0 \<or> identity_installation i = identity_principal i
        \<or> identity_login i = [] \<or> 32 < length (identity_login i) \<or> \<not> is_ascii_lowercase (hd (identity_login i))
        \<or> \<not> list_all (\<lambda>b. is_ascii_lowercase b \<or> is_ascii_digit b \<or> b \<in> set ''_-'') (identity_login i)
     then Err ''Admin bootstrap requires the enrolled installer-selected human'' else Ok i))"

record bootstrap =
  boot_schema :: u32
  boot_kind :: string
  boot_role :: string
  boot_deployment :: string
  boot_enrollment :: string
  boot_principal :: identity
  boot_previous_head :: string

record catalog_event =
  ev_schema :: u32
  ev_kind :: string
  ev_deployment :: string
  ev_enrollment :: string
  ev_principal :: identity
  ev_request :: string
  ev_sequence :: nat
  state_version_before :: u64
  ev_previous_head :: string
  ev_command :: command

record governance_codec =
  hashing :: journal_codec
  encode_event :: "catalog_event \<Rightarrow> bytes"
  decode_event :: "bytes \<Rightarrow> catalog_event option"
  encode_record :: "history_record \<Rightarrow> bytes"
  decode_record :: "bytes \<Rightarrow> history_record option"
  encode_bootstrap :: "bootstrap \<Rightarrow> bytes"
  decode_bootstrap :: "bytes \<Rightarrow> bootstrap option"
  decision_receipt_of :: "catalog_event \<Rightarrow> string result"

definition digest_text :: "governance_codec \<Rightarrow> bytes \<Rightarrow> string" where
  "digest_text cd b = hex (sha256 (hashing cd) b)"

text \<open>
  The state directory as a process reads it: the content of a file, if there is one, the names in it (an entry may fail to
  be read, and a name may not be text), and the installed principal registry.
\<close>

record admin_directory =
  file_content :: "string \<Rightarrow> bytes option"
  listing :: "string option result list result"
  installed_registry :: "registry result"

definition dir_read :: "admin_directory \<Rightarrow> string \<Rightarrow> nat \<Rightarrow> bytes result" where
  "dir_read dir name limit =
     and_then (ok_or (file_content dir name) ''No such file or directory'') (\<lambda>b.
     if limit < length b then Err ''unsafe/oversized private Admin state'' else Ok b)"

definition event_name :: "governance_codec \<Rightarrow> string \<Rightarrow> string" where
  "event_name cd request = ''event-'' @ digest_text cd (byte_text request) @ ''.json''"

fun is_model_command :: "command \<Rightarrow> bool" where
  "is_model_command (PublishModelTrust _ _) = True"
| "is_model_command (AdmitModelCatalog _ _) = True"
| "is_model_command (RecordModelCatalogApproval _ _) = True"
| "is_model_command (RecordModelCatalogSigning _) = True"
| "is_model_command _ = False"

definition read_event :: "governance_codec \<Rightarrow> admin_directory \<Rightarrow> string \<Rightarrow> (catalog_event \<times> bytes) result" where
  "read_event cd dir request =
     and_then (dir_read dir (event_name cd request) MAX_MODEL_EVENT) (\<lambda>b.
     and_then (ok_or (decode_event cd b) ''malformed Admin catalog payload'') (\<lambda>e.
     if encode_event cd e \<noteq> b \<or> ev_request e \<noteq> request \<or> (MAX_CATALOG_EVENT < length b \<and> \<not> is_model_command (ev_command e))
     then Err ''noncanonical or substituted Admin catalog payload; preserve state'' else Ok (e, b)))"

definition read_record :: "catalog_services \<Rightarrow> governance_codec \<Rightarrow> admin_directory \<Rightarrow> string \<Rightarrow> (history_record \<times> bytes) result" where
  "read_record sv cd dir request =
     and_then (dir_read dir (event_name cd request) 16384) (\<lambda>b.
     and_then (ok_or (decode_record cd b) ''malformed UTC history payload'') (\<lambda>r.
     if encode_record cd r \<noteq> b \<or> record_request r \<noteq> request then Err ''noncanonical or substituted UTC history payload; preserve state''
     else and_then (tpm_decode 32 (previous_head r)) (\<lambda>_. and_then (tpm_decode 32 (deployment r)) (\<lambda>_.
       and_then (tpm_decode 32 (enrollment_sha256 r)) (\<lambda>_. and_then (Accounts.statement_validate (approved_utc sv) (record_statement r)) (\<lambda>_.
       Ok (r, b)))))))"

definition check_model_receipt :: "governance_codec \<Rightarrow> catalog_event \<Rightarrow> unit result" where
  "check_model_receipt cd e = (case ev_command e of
     RecordModelCatalogApproval _ a \<Rightarrow> and_then (decision_receipt_of cd e) (\<lambda>d.
       if decision_receipt a \<noteq> d then Err ''model approval receipt is not its exact authenticated event preimage'' else Ok ())
   | _ \<Rightarrow> Ok ())"

section \<open>Writers\<close>

record governance_context =
  ctx_enrollment :: bytes
  ctx_deployment :: string
  ctx_principal :: identity

definition writer :: "governance_context \<Rightarrow> catalog \<Rightarrow> identity result" where
  "writer ctx c = (if principal_registry c = None then Ok (ctx_principal ctx) else and_then (resolve_principal c (ctx_principal ctx)) identity_parse)"

fun model_actor :: "command \<Rightarrow> (string \<times> string \<times> string \<times> string \<times> string) option" where
  "model_actor (RecordModelCatalogApproval _ a) = Some (ap_principal a, ap_assignment a, ap_receipt a, ap_activity a, approved_at a)"
| "model_actor (RecordModelCatalogSigning st) =
     Some (rq_principal (st_request st), rq_assignment (st_request st), rq_receipt (st_request st), rq_activity (st_request st), signed_at st)"
| "model_actor _ = None"

definition command_writer :: "governance_context \<Rightarrow> catalog \<Rightarrow> command \<Rightarrow> identity result" where
  "command_writer ctx c cmd = (case model_actor cmd of None \<Rightarrow> writer ctx c
   | Some (name, assignment, receipt, activity, moment) \<Rightarrow>
       and_then (timestamp moment) (\<lambda>t. and_then (interval_new t t) (\<lambda>i.
       and_then (check_custodian c name assignment receipt activity i) (\<lambda>_.
       and_then (catalog_registry c) (\<lambda>r.
       and_then (ok_or (registry_principal r name) ''unknown model decision actor'') (\<lambda>p.
       resolve_principal c (registry_identity r p)))))))"

definition custody_writer :: "governance_context \<Rightarrow> catalog \<Rightarrow> identity result" where
  "custody_writer ctx c =
     and_then (catalog_registry c) (\<lambda>r.
     and_then (ok_or (bootstrap_admin r) ''missing original Admin custody identity'') (\<lambda>admin.
     if registry_identity r admin \<noteq> ctx_principal ctx then Err ''offline custody does not bind the enrolled original Admin''
     else Ok ((ctx_principal ctx)\<lparr>identity_generation := current_generation c admin (principal_id admin)\<rparr>)))"

fun admin_account_recovery :: "command \<Rightarrow> bool" where
  "admin_account_recovery (PrepareAdminAccountRecovery _ _ _ _) = True"
| "admin_account_recovery (PermitAdminAccountRecovery _) = True"
| "admin_account_recovery (CompleteAdminAccountRecovery _) = True"
| "admin_account_recovery _ = False"

definition event_writer :: "governance_context \<Rightarrow> catalog \<Rightarrow> command \<Rightarrow> identity result" where
  "event_writer ctx c cmd = (if admin_account_recovery cmd then custody_writer ctx c else command_writer ctx c cmd)"

section \<open>Bootstrap\<close>

definition bootstrap_payload :: "governance_codec \<Rightarrow> governance_context \<Rightarrow> string \<Rightarrow> bootstrap" where
  "bootstrap_payload cd ctx h = \<lparr>boot_schema = 1, boot_kind = ''local-tpm2-admin-bootstrap'', boot_role = ''Admin'', boot_deployment = ctx_deployment ctx,
     boot_enrollment = digest_text cd (ctx_enrollment ctx), boot_principal = ctx_principal ctx, boot_previous_head = h\<rparr>"

definition existing_bootstrap :: "governance_codec \<Rightarrow> governance_context \<Rightarrow> admin_directory \<Rightarrow> (bootstrap \<times> bytes) option result" where
  "existing_bootstrap cd ctx dir = (case file_content dir ''bootstrap.json'' of None \<Rightarrow> Ok None | Some _ \<Rightarrow>
     and_then (dir_read dir ''bootstrap.json'' 4096) (\<lambda>b.
     and_then (ok_or (decode_bootstrap cd b) ''malformed Admin bootstrap'') (\<lambda>p.
     and_then (tpm_decode 32 (boot_previous_head p)) (\<lambda>_.
     if encode_bootstrap cd p \<noteq> b \<or> p \<noteq> bootstrap_payload cd ctx (boot_previous_head p)
     then Err ''invalid or changed Admin bootstrap payload; preserve state'' else Ok (Some (p, b))))))"

definition bootstrap_state :: "governance_codec \<Rightarrow> governance_context \<Rightarrow> admin_directory \<Rightarrow> snapshot \<Rightarrow> (bootstrap \<times> bool) result" where
  "bootstrap_state cd ctx dir snap =
     (if snap_deployment snap \<noteq> ctx_deployment ctx then Err ''Admin checkpoint deployment changed''
      else and_then (existing_bootstrap cd ctx dir) (\<lambda>retained.
      (case snap_entries snap of [] \<Rightarrow>
         let payload = bootstrap_payload cd ctx (snap_head snap) in
         if (case retained of None \<Rightarrow> False | Some (old, _) \<Rightarrow> old \<noteq> payload)
         then Err ''retained Admin bootstrap does not bind the current head'' else Ok (payload, False)
       | e # _ \<Rightarrow>
         and_then (ok_or retained ''anchored Admin bootstrap payload missing'') (\<lambda>(payload, b).
         and_then (genesis (hashing cd) (ctx_deployment ctx)) (\<lambda>g.
         if entry_request e \<noteq> REQUEST \<or> entry_activity e \<noteq> BOOTSTRAP_ACTIVITY \<or> entry_uid e \<noteq> identity_uid (ctx_principal ctx)
            \<or> entry_payload e \<noteq> digest_text cd b \<or> boot_previous_head payload \<noteq> hex (extend_value (hashing cd) (replicate 32 0) g)
         then Err ''checkpoint is not the supported Admin bootstrap history'' else Ok (payload, True))))))"

section \<open>Replay\<close>

record replay =
  rp_catalog :: catalog
  rp_events :: "catalog_event list"
  rp_history :: history
  rp_records :: "history_record list"
  rp_names :: "string set"

definition replay_initial :: replay where
  "replay_initial = \<lparr>rp_catalog = catalog_initial, rp_events = [], rp_history = initial_history, rp_records = [], rp_names = {}\<rparr>"

definition head_at :: "snapshot \<Rightarrow> nat \<Rightarrow> string option" where
  "head_at snap i = (if i < length (prefix_heads snap) then Some (prefix_heads snap ! i) else None)"

definition replay_history_entry :: "catalog_services \<Rightarrow> governance_codec \<Rightarrow> governance_context \<Rightarrow> admin_directory \<Rightarrow> snapshot \<Rightarrow> nat \<Rightarrow> entry \<Rightarrow> replay \<Rightarrow> replay result" where
  "replay_history_entry sv cd ctx dir snap position e st =
     and_then (writer ctx (rp_catalog st)) (\<lambda>who.
     and_then (read_record sv cd dir (entry_request e)) (\<lambda>(r, b).
     if \<not> admin_identifier (entry_request e) \<or> entry_request e = REQUEST \<or> deployment r \<noteq> ctx_deployment ctx \<or> record_principal r \<noteq> who
        \<or> enrollment_sha256 r \<noteq> digest_text cd (ctx_enrollment ctx) \<or> record_sequence r \<noteq> position + 1
        \<or> head_at snap position \<noteq> Some (previous_head r) \<or> entry_uid e \<noteq> identity_uid (ctx_principal ctx)
        \<or> entry_payload e \<noteq> digest_text cd b
     then Err ''UTC history does not bind the authenticated Admin checkpoint''
     else and_then (apply_history (approved_utc sv) (rp_history st) r) (\<lambda>h.
     Ok (st\<lparr>rp_history := h, rp_records := rp_records st @ [r], rp_names := insert (event_name cd (entry_request e)) (rp_names st)\<rparr>))))"

definition adopts_original :: "governance_context \<Rightarrow> command \<Rightarrow> bool" where
  "adopts_original ctx cmd = (case cmd of AdoptPrincipals r \<Rightarrow> let p = ctx_principal ctx in
       binds r (identity_installation p) (identity_principal p) (identity_generation p) (identity_login p) (identity_uid p)
     | _ \<Rightarrow> True)"

definition replay_event_entry :: "catalog_services \<Rightarrow> governance_codec \<Rightarrow> governance_context \<Rightarrow> admin_directory \<Rightarrow> snapshot \<Rightarrow> nat \<Rightarrow> entry \<Rightarrow> replay \<Rightarrow> replay result" where
  "replay_event_entry sv cd ctx dir snap position e st =
     and_then (read_event cd dir (entry_request e)) (\<lambda>(ev, b).
     and_then (event_writer ctx (rp_catalog st) (ev_command ev)) (\<lambda>who.
     if \<not> admin_identifier (entry_request e) \<or> entry_request e = REQUEST \<or> ev_schema ev \<noteq> 1 \<or> ev_kind ev \<noteq> ''native-admin-catalog-event''
        \<or> ev_deployment ev \<noteq> ctx_deployment ctx \<or> ev_principal ev \<noteq> who \<or> ev_enrollment ev \<noteq> digest_text cd (ctx_enrollment ctx)
        \<or> ev_sequence ev \<noteq> position + 1 \<or> state_version_before ev \<noteq> state_version (rp_catalog st)
        \<or> head_at snap position \<noteq> Some (ev_previous_head ev) \<or> entry_uid e \<noteq> identity_uid who
        \<or> entry_activity e \<noteq> command_activity (ev_command ev) \<or> entry_payload e \<noteq> digest_text cd b
     then Err ''Admin catalog event does not bind the authenticated history''
     else and_then (check_model_receipt cd ev) (\<lambda>_.
     (case apply_command sv (ev_command ev) (rp_catalog st) of
       (Inl err, _) \<Rightarrow> Inl err
     | (Inr False, _) \<Rightarrow> Err ''anchored Admin catalog event is not a mutation''
     | (Inr True, c) \<Rightarrow>
         if \<not> adopts_original ctx (ev_command ev) then Err ''anchored principal registry does not bind the original Admin''
         else Ok (st\<lparr>rp_catalog := retain_assignment_receipt (ev_command ev) (digest_text cd b) c, rp_events := rp_events st @ [ev],
           rp_names := insert (event_name cd (entry_request e)) (rp_names st)\<rparr>)))))"

definition replay_entry :: "catalog_services \<Rightarrow> governance_codec \<Rightarrow> governance_context \<Rightarrow> admin_directory \<Rightarrow> snapshot \<Rightarrow> nat \<Rightarrow> entry \<Rightarrow> replay \<Rightarrow> replay result" where
  "replay_entry sv cd ctx dir snap position e st =
     (if entry_activity e = HISTORY_ACTIVITY then replay_history_entry sv cd ctx dir snap position e st
      else replay_event_entry sv cd ctx dir snap position e st)"

fun replay_from :: "catalog_services \<Rightarrow> governance_codec \<Rightarrow> governance_context \<Rightarrow> admin_directory \<Rightarrow> snapshot \<Rightarrow> nat \<Rightarrow> entry list \<Rightarrow> replay \<Rightarrow> replay result" where
  "replay_from sv cd ctx dir snap position [] st = Ok st"
| "replay_from sv cd ctx dir snap position (e # es) st =
     and_then (replay_entry sv cd ctx dir snap position e st) (replay_from sv cd ctx dir snap (position + 1) es)"

text \<open>Every prepared event in the directory is anchored or the proposal of this request.\<close>

fun check_inventory :: "string set \<Rightarrow> nat \<Rightarrow> string option result list \<Rightarrow> unit result" where
  "check_inventory names count [] = Ok ()"
| "check_inventory names count (item # items) =
     (if 4104 \<le> count then Err ''oversized Admin payload inventory''
      else and_then item (\<lambda>text. and_then (ok_or text ''non-UTF8 Admin state file'') (\<lambda>name.
      if take 6 name = ''event-'' \<and> name \<notin> names then Err ''unreferenced Admin catalog preparation; preserve and review its request''
      else check_inventory names (count + 1) items)))"

definition governance_replay :: "catalog_services \<Rightarrow> governance_codec \<Rightarrow> governance_context \<Rightarrow> admin_directory \<Rightarrow> snapshot \<Rightarrow> string option \<Rightarrow> replay result" where
  "governance_replay sv cd ctx dir snap proposal =
     and_then (replay_from sv cd ctx dir snap 1 (drop 1 (snap_entries snap)) replay_initial) (\<lambda>st.
     let names = (case proposal of None \<Rightarrow> rp_names st | Some request \<Rightarrow> insert (event_name cd request) (rp_names st)) in
     and_then (listing dir) (\<lambda>items. and_then (check_inventory names 0 items) (\<lambda>_.
     if principal_registry (rp_catalog st) \<noteq> None
     then and_then (installed_registry dir) (\<lambda>r. and_then (accepts_registry (rp_catalog st) r) (\<lambda>ok.
       if \<not> ok then Err ''installed principal registry differs from TPM-backed authority; preserve state'' else Ok st))
     else Ok st)))"

definition governance_state :: "catalog_services \<Rightarrow> governance_codec \<Rightarrow> governance_context \<Rightarrow> admin_directory \<Rightarrow> snapshot \<Rightarrow> string option \<Rightarrow> (bootstrap \<times> bool) result" where
  "governance_state sv cd ctx dir snap proposal =
     and_then (bootstrap_state cd ctx dir snap) (\<lambda>s. and_then (governance_replay sv cd ctx dir snap proposal) (\<lambda>_. Ok s))"

end
