(* ===== verification/Catalog_Sample.thy ===== *)
theory Catalog_Sample
  imports Catalog_Safety
begin

text \<open>
  A sample history of the governance catalog, computed by rewriting: two principals are adopted and checkpointed, a role is
  defined, assigned and granted, and then an account lock is prepared.
\<close>

definition sample_catalog_services :: catalog_services where
  "sample_catalog_services = \<lparr>release_sv = sample_services, skill_sv = sample_skill_services, model_sv = sample_model_services,
     approved_utc = Ok [], registry_length = (\<lambda>_. 100)\<rparr>"

definition sample_admin :: string where "sample_admin = replicate 64 CHR ''2''"
definition sample_user :: string where "sample_user = replicate 64 CHR ''3''"

definition sample_registry :: registry where
  "sample_registry = \<lparr>registry_schema = 1, installation = replicate 64 CHR ''1'', principals =
     [\<lparr>principal_id = sample_admin, generation = 1, login = ''admin'', uid = 1001, enabled = True\<rparr>,
      \<lparr>principal_id = sample_user, generation = 1, login = ''user'', uid = 1002, enabled = True\<rparr>], registry_recovery = None\<rparr>"

definition sample_commitments :: "(string, string) bmap" where
  "sample_commitments = bm_insert sample_admin (replicate 64 CHR ''4'') (bm_insert sample_user (replicate 64 CHR ''5'') bm_empty)"

definition sample_role :: role where
  "sample_role = \<lparr>role_name = ''reader'', role_activities = [''file.read''], role_version = 1\<rparr>"

definition sample_assignment :: assignment where
  "sample_assignment = \<lparr>asg_id = ''a1'', asg_subject = sample_user, asg_generation = 1, asg_role = ''reader'', asg_role_version = 1,
     asg_version = 1, asg_not_before = 1000, asg_expires = 90000, asg_revoked = False\<rparr>"

definition sample_selector :: selector where
  "sample_selector = \<lparr>sel_kind = FileTarget, sel_id = ''invoice'', sel_generation = 1, sel_digest = replicate 64 CHR ''6''\<rparr>"

definition sample_grant :: grant where
  "sample_grant = \<lparr>grant_id = ''g1'', grant_assignment = ''a1'', assignment_version = 1, grant_subject = sample_user, grant_generation = 1,
     grant_action = Read, grant_selector = sample_selector,
     grant_constraints = \<lparr>max_input_bytes = 4096, max_output_bytes = 0, max_units = 2\<rparr>, grant_version = 1,
     grant_not_before = 2000, grant_expires = 80000, grant_revoked = False\<rparr>"

definition sample_use :: usage where
  "sample_use = \<lparr>use_action = Read, use_selector = sample_selector, input_bytes = 4096, output_bytes = 0, units = 1\<rparr>"

definition sample_identity :: identity where
  "sample_identity = \<lparr>identity_installation = replicate 64 CHR ''1'', identity_principal = sample_user, identity_generation = 1,
     identity_login = ''user'', identity_uid = 1002\<rparr>"

definition sample_instant :: interval where
  "sample_instant = \<lparr>lower_ms = 5000, upper_ms = 5200\<rparr>"

definition sample_lock :: intent where
  "sample_lock = \<lparr>intent_kind = None, transaction = ''t1'', intent_installation = replicate 64 CHR ''1'', intent_principal = sample_user,
     expected_generation = 1, locked = True, passwd_sha256 = replicate 64 CHR ''7'', shadow_before_sha256 = replicate 64 CHR ''8'',
     shadow_after_sha256 = replicate 64 CHR ''9'', credential_before = replicate 64 CHR ''5'', credential_after = replicate 64 CHR ''6''\<rparr>"

definition sample_catalog_history :: "(command \<times> string) list" where
  "sample_catalog_history = [(AdoptPrincipals sample_registry, ''''), (CheckpointAccounts sample_commitments, ''''), (RegisterActivity ''file.read'', ''''),
     (DefineRole ''reader'' [''file.read''] 0, ''''), (AssignRole sample_assignment, replicate 64 CHR ''e''), (IssueGrant sample_grant, '''')]"

definition sample_catalog_pending :: "(command \<times> string) list" where
  "sample_catalog_pending = sample_catalog_history @ [(PrepareAccountLock sample_lock, '''')]"

text \<open>The sample texts are canonical digests and identifiers.\<close>

lemma sample_hex_digits:
  "is_lower_hex CHR ''1''" "is_lower_hex CHR ''2''" "is_lower_hex CHR ''3''" "is_lower_hex CHR ''4''" "is_lower_hex CHR ''5''" "is_lower_hex CHR ''6''"
  "is_lower_hex CHR ''7''" "is_lower_hex CHR ''8''" "is_lower_hex CHR ''9''"
  "0 < hex_value CHR ''4''" "0 < hex_value CHR ''1''" "0 < hex_value CHR ''2''" "0 < hex_value CHR ''3''" "0 < hex_value CHR ''5''"
  "0 < hex_value CHR ''6''" "0 < hex_value CHR ''7''" "0 < hex_value CHR ''8''" "0 < hex_value CHR ''9''"
  by code_simp+

lemma sample_names:
  "admin_identifier ''a1''" "admin_identifier ''g1''" "admin_identifier ''t1''" "admin_identifier ''reader''" "admin_identifier ''invoice''"
  "valid_activity ''file.read''" "valid_login ''admin''" "valid_login ''user''"
  by code_simp+

lemma sample_commitment: "is_lower_hex d \<Longrightarrow> 0 < hex_value d \<Longrightarrow> commitment refusal (replicate 64 d) = Ok ()"
  by (simp add: commitment_def tpm_decode_replicate zero_digest_def replicate_eq_replicate)

lemma sample_decodable: "is_lower_hex d \<Longrightarrow> decodable (replicate 64 d) = Ok ()"
  by (simp add: decodable_def tpm_decode_replicate)

lemmas sample_texts = sample_hex_digits sample_names sample_commitment sample_decodable tpm_decode_replicate zero_digest_def replicate_eq_replicate
  sample_admin_def sample_user_def

lemma sample_registry_valid: "registry_validate sample_registry = Ok ()"
  by (simp add: registry_validate_def sample_registry_def sample_texts validate_recovery_def)

lemma sample_commitments_entries: "(k, v) \<in> set (bm_entries sample_commitments) \<longleftrightarrow>
  (k = sample_admin \<and> v = replicate 64 CHR ''4'') \<or> (k = sample_user \<and> v = replicate 64 CHR ''5'')"
  unfolding bm_get_Some_iff [symmetric] sample_commitments_def by (auto simp: sample_admin_def sample_user_def replicate_eq_replicate)

lemma sample_commitments_valid: "command_validate sv (CheckpointAccounts sample_commitments) = Ok ()"
proof -
  have "\<forall>e \<in> set (bm_entries sample_commitments). checkpoint_entry e = Ok ()"
    using sample_commitments_entries by (auto simp: checkpoint_entry_def sample_texts)
  moreover have "bm_size sample_commitments = 2" by (simp add: sample_commitments_def bm_size_insert sample_texts bm_size_def)
  ultimately show ?thesis by (auto simp: for_all_Inr_iff bm_is_empty_def bm_size_def)
qed

lemma sample_others_valid:
  "command_validate sv (DefineRole ''reader'' [''file.read''] 0) = Ok ()" "assignment_validate sample_assignment = Ok ()"
  "grant_validate sample_grant = Ok ()" "intent_validate pd sample_lock = Ok ()" "use_validate sample_use = Ok ()"
  by (simp_all add: sample_assignment_def sample_grant_def sample_lock_def sample_use_def sample_selector_def assignment_validate_def grant_validate_def
      grant_validity_Ok selector_validate_def constraints_validate_def byte_bound_def permits_def intent_validate_def use_validate_def sample_texts
      ascending_def MAX_VALIDITY_MS_def grant_validity_def filter_option_def checked_i64_def i64_range_def bootstrap_transaction_def)

section \<open>The states of the history\<close>

definition sample_adopted :: catalog where
  "sample_adopted = catalog_initial\<lparr>principal_registry := Some sample_registry, account_commitments := sample_commitments, state_version := 3\<rparr>"

definition sample_catalog :: catalog where
  "sample_catalog = sample_adopted\<lparr>activities := insert ''file.read'' (set CONTROL), roles := bm_insert ''reader'' sample_role bm_empty,
     assignments := bm_insert ''a1'' sample_assignment bm_empty, assignment_receipts := bm_insert ''a1'' (replicate 64 CHR ''e'') bm_empty,
     grants := bm_insert ''g1'' sample_grant bm_empty, state_version := 7\<rparr>"

lemma catalog_step_applied:
  assumes "command_validate sv cmd = Ok ()" "run_command sv cmd c = (Ok True, c')" "checked_add (state_version c) 1 = Some v"
  shows "catalog_step sv c (cmd, digest) = retain_assignment_receipt cmd digest (c'\<lparr>state_version := v\<rparr>)"
  using assms by (simp add: catalog_step_def apply_command_def)

lemma catalog_step_pure:
  assumes "command_validate sv cmd = Ok ()" "run_command sv cmd c = pure_arm (changed c') c" "state_version c \<noteq> - 1"
    "retain_assignment_receipt cmd digest (c'\<lparr>state_version := state_version c + 1\<rparr>) = d"
  shows "catalog_step sv c (cmd, digest) = d"
  using assms catalog_step_applied [of sv cmd c c' "state_version c + 1" digest] checked_add_below [of "state_version c"] checked_add_succ [of "state_version c"]
  by (cases "checked_add (state_version c) 1") (auto simp: pure_arm_def)

lemma sample_commitments_keys: "set (bm_keys sample_commitments) = {sample_admin, sample_user}"
  using sample_commitments_entries by (auto simp: bm_keys_iff bm_get_Some_iff)

lemma sample_registry_principal:
  "registry_principal sample_registry sample_user = Some \<lparr>principal_id = sample_user, generation = 1, login = ''user'', uid = 1002, enabled = True\<rparr>"
  by (simp add: registry_principal_def sample_registry_def sample_texts)

lemma sample_registry_enabled: "map principal_id (filter enabled (principals sample_registry)) = [sample_admin, sample_user]"
  by (simp add: sample_registry_def)

lemma sample_assignment_id: "asg_id sample_assignment = ''a1''"
  by (simp add: sample_assignment_def)

lemma sample_adopted_run: "catalog_run sample_catalog_services (take 2 sample_catalog_history) = sample_adopted"
proof -
  let ?c = "catalog_initial\<lparr>principal_registry := Some sample_registry, state_version := 2\<rparr>"
  have "catalog_step sample_catalog_services catalog_initial (AdoptPrincipals sample_registry, []) = ?c"
    by (rule catalog_step_pure [where c' = "catalog_initial\<lparr>principal_registry := Some sample_registry\<rparr>"])
      (simp_all add: sample_registry_valid adopt_arm_def catalog_initial_def)
  moreover have "catalog_step sample_catalog_services ?c (CheckpointAccounts sample_commitments, []) = sample_adopted"
  proof (rule catalog_step_pure [OF sample_commitments_valid])
    show "run_command sample_catalog_services (CheckpointAccounts sample_commitments) ?c = pure_arm (changed (?c\<lparr>account_commitments := sample_commitments\<rparr>)) ?c"
      by (simp add: checkpoint_arm_def catalog_registry_def sample_commitments_keys sample_registry_enabled catalog_initial_def bm_is_empty_def
          del: set_map set_filter)
  qed (simp_all add: sample_adopted_def catalog_initial_def)
  ultimately show ?thesis by (simp add: sample_catalog_history_def)
qed

lemma sample_catalog_run: "catalog_run sample_catalog_services sample_catalog_history = sample_catalog"
proof -
  let ?sv = sample_catalog_services
  let ?a = "insert ''file.read'' (set CONTROL)"
  let ?r = "bm_insert ''reader'' sample_role bm_empty"
  let ?g = "bm_insert ''a1'' sample_assignment bm_empty"
  let ?c3 = "sample_adopted\<lparr>activities := ?a, state_version := 4\<rparr>"
  let ?c4 = "sample_adopted\<lparr>activities := ?a, roles := ?r, state_version := 5\<rparr>"
  let ?c5 = "sample_adopted\<lparr>activities := ?a, roles := ?r, assignments := ?g, assignment_receipts := bm_insert ''a1'' (replicate 64 CHR ''e'') bm_empty, state_version := 6\<rparr>"
  have "catalog_step ?sv sample_adopted (RegisterActivity ''file.read'', []) = ?c3"
    by (rule catalog_step_pure [where c' = "sample_adopted\<lparr>activities := ?a\<rparr>"])
      (simp_all add: sample_names register_arm_def sample_adopted_def catalog_initial_def CONTROL_def MAX_ACTIVITIES_def)
  moreover have "catalog_step ?sv ?c3 (DefineRole ''reader'' [''file.read''] 0, []) = ?c4"
    by (rule catalog_step_pure [OF sample_others_valid(1), where c' = "?c3\<lparr>roles := ?r\<rparr>"])
      (simp_all add: define_role_arm_def sample_adopted_def catalog_initial_def MAX_ROLES_def bm_size_def checked_add_def sample_role_def)
  moreover have "catalog_step ?sv ?c4 (AssignRole sample_assignment, replicate 64 CHR ''e'') = ?c5"
  proof (rule catalog_step_pure)
    show "run_command ?sv (AssignRole sample_assignment) ?c4 = pure_arm (changed (?c4\<lparr>assignments := ?g\<rparr>)) ?c4"
      by (simp add: assign_arm_def sample_assignment_def sample_role_def catalog_registry_def sample_adopted_def sample_registry_principal
        state_disabled_def current_generation_def catalog_initial_def bm_contains_iff sample_commitments_keys bm_size_def)
         (simp add: bm_keys_def)
  qed (simp_all add: sample_others_valid sample_adopted_def catalog_initial_def sample_assignment_id)
  moreover have "catalog_step ?sv ?c5 (IssueGrant sample_grant, []) = sample_catalog"
  proof (rule catalog_step_pure)
    show "run_command ?sv (IssueGrant sample_grant) ?c5 = pure_arm (changed (?c5\<lparr>grants := bm_insert ''g1'' sample_grant bm_empty\<rparr>)) ?c5"
      by (simp add: issue_grant_arm_def grant_issue_def sample_others_valid)
        (simp add: subject_current_def sample_grant_def sample_assignment_def sample_role_def catalog_registry_def sample_adopted_def sample_registry_principal
        state_disabled_def current_generation_def catalog_initial_def bm_contains_def bm_keys_iff sample_commitments_def bm_size_def)
  qed (simp_all add: sample_others_valid sample_adopted_def sample_catalog_def catalog_initial_def)
  ultimately show ?thesis
    using sample_adopted_run by (simp add: sample_catalog_history_def)
qed

definition sample_locking :: catalog where
  "sample_locking = sample_catalog\<lparr>principal_states := bm_insert sample_user \<lparr>state_generation = 2, state_enabled = False\<rparr> bm_empty,
     account_transitions := bm_insert ''t1'' \<lparr>transition_intent = sample_lock, transition_phase = Prepared\<rparr> bm_empty, state_version := 8\<rparr>"

lemmas sample_state_simps = sample_catalog_def sample_adopted_def catalog_initial_def

lemma sample_user_committed: "bm_get sample_commitments sample_user = Some (replicate 64 CHR ''5'')"
  by (simp add: sample_commitments_def sample_texts)

lemma sample_locking_applied: "apply_command sample_catalog_services (PrepareAccountLock sample_lock) sample_catalog = (Ok True, sample_locking)"
proof -
  let ?sv = sample_catalog_services
  let ?c = "sample_locking\<lparr>state_version := 7\<rparr>"
  have "transition_checks sample_catalog sample_lock None = Ok 1"
    by (simp add: transition_checks_def sample_state_simps catalog_registry_def sample_lock_def sample_registry_principal filter_option_def
        current_generation_def sample_user_committed transaction_blocked_def transaction_known_def bm_contains_def transaction_capacity_def bm_size_def
        creation_pending_def deletion_pending_def transition_pending_def bm_values_def)
      (simp add: sample_registry_def)
  then have "run_command ?sv (PrepareAccountLock sample_lock) sample_catalog = (Ok True, ?c)"
    by (simp add: prepare_transition_def custody_update_def checked_add_def sample_locking_def)
      (simp add: sample_lock_def sample_state_simps)
  moreover have "checked_add (state_version sample_catalog) 1 = Some 8" by (simp add: sample_state_simps checked_add_def)
  ultimately show ?thesis by (simp add: apply_command_def sample_others_valid) (simp add: sample_locking_def)
qed

lemma sample_locking_run: "catalog_run sample_catalog_services sample_catalog_pending = sample_locking"
  by (simp add: sample_catalog_pending_def sample_catalog_run catalog_step_def sample_locking_applied)

lemma sample_authorized: "authorize sample_grant sample_catalog sample_identity sample_instant sample_use = Ok ()"
proof -
  have s: "subject_current sample_catalog sample_user 1 = Ok ()"
    by (simp add: subject_current_def sample_state_simps catalog_registry_def sample_registry_principal state_disabled_def current_generation_def
        bm_contains_def sample_user_committed)
  have c: "bm_get (grants sample_catalog) ''g1'' = Some sample_grant" "bm_get (assignments sample_catalog) ''a1'' = Some sample_assignment"
    "bm_get (roles sample_catalog) ''reader'' = Some sample_role"
    by (simp_all add: sample_catalog_def)
  have g: "grant_id sample_grant = ''g1''" "grant_assignment sample_grant = ''a1''" "asg_id sample_assignment = ''a1''" "asg_role sample_assignment = ''reader''"
    "asg_subject sample_assignment = sample_user" "asg_generation sample_assignment = 1"
    by (simp_all add: sample_grant_def sample_assignment_def)
  show ?thesis
    by (simp add: authorize_def sample_others_valid c g)
      (simp add: assignment_current_def s c sample_grant_def sample_assignment_def sample_use_def sample_identity_def sample_instant_def sample_role_def interval_within_def)
qed

end
