(* ===== verification/Catalog_Guarantees.thy ===== *)
theory Catalog_Guarantees
  imports Catalog_Sample
begin

text \<open>
  What the governance catalog guarantees to its callers, for every history of commands: atomic application, finality of
  revocations, bounded authority, and account transactions that exclude each other and can always be completed.
\<close>

section \<open>Inversion of the checks\<close>

lemma subject_current_Ok:
  assumes "subject_current c name g = Ok u"
  shows "generation_of c name = Some g" "\<not> state_disabled c name" "name \<notin> deleted_principals c" "name \<notin> needs_password_aging c"
    "bm_get (account_commitments c) name \<noteq> None"
  using assms by (auto simp: subject_current_def result_simps current_generation_of bm_contains_iff bm_keys_iff)

lemma authorize_Ok:
  assumes "authorize g c who i u = Ok x"
  obtains a r where "bm_get (grants c) (grant_id g) = Some g" "\<not> grant_revoked g" "identity_principal who = grant_subject g"
    "identity_generation who = grant_generation g" "use_validate u = Ok ()" "grant_action g = use_action u" "grant_selector g = use_selector u"
    "input_bytes u \<le> max_input_bytes (grant_constraints g)" "output_bytes u \<le> max_output_bytes (grant_constraints g)"
    "units u \<le> max_units (grant_constraints g)" "grant_not_before g \<le> lower_ms i" "upper_ms i < grant_expires g"
    "bm_get (assignments c) (grant_assignment g) = Some a" "\<not> asg_revoked a" "asg_version a = assignment_version g" "asg_subject a = grant_subject g"
    "subject_current c (grant_subject g) (grant_generation g) = Ok ()" "bm_get (roles c) (asg_role a) = Some r" "role_version r = asg_role_version a"
    "action_activity (grant_action g) \<in> set (role_activities r)"
  using assms
  by (auto simp: authorize_def assignment_current_def result_simps Let_def interval_within_def not_less split: if_splits)

lemma pending_on_only:
  assumes "one_pending c" "pending_on c m"
  shows "bm_get (account_creations c) t = Some v \<Longrightarrow> creation_phase v \<noteq> Complete \<Longrightarrow> m = principal_id (creation_principal (creation_intent_of v))"
    "bm_get (account_deletions c) t = Some d \<Longrightarrow> deletion_phase d \<noteq> Complete \<Longrightarrow> m = deletion_principal (deletion_intent_of d)"
    "bm_get (account_transitions c) t = Some w \<Longrightarrow> transition_phase w \<noteq> Complete \<Longrightarrow> m = intent_principal (transition_intent w)"
  subgoal using assms(2) pending_excludes(1) [OF assms(1), of t v] unfolding pending_on_def by fastforce
  subgoal using assms(2) pending_excludes(2) [OF assms(1), of t d] unfolding pending_on_def by fastforce
  subgoal using assms(2) pending_excludes(3) [OF assms(1), of t w] unfolding pending_on_def by fastforce
  done

lemma pending_on_unique: "one_pending c \<Longrightarrow> pending_on c n \<Longrightarrow> pending_on c m \<Longrightarrow> n = m"
  by (subst (asm) (2) pending_on_def) (auto dest: pending_on_only)

section \<open>Guarantees\<close>

text \<open>
  C10: A command of the governance catalog is atomic. In every reachable catalog a command either is applied as a whole and
  raises the catalog version by exactly one, or it is refused, or has nothing to do, and then leaves the catalog exactly
  as it was, although two arms of the code write before their last check.
\<close>

theorem catalog_apply_atomic:
  assumes "apply_command sv cmd (catalog_run sv es) = (r, c')"
  shows "if r = Ok True then unat (state_version c') = Suc (unat (state_version (catalog_run sv es))) else c' = catalog_run sv es"
  using apply_command_cases [OF assms catalog_reachable] by (auto dest: checked_add_one)

theorem catalog_apply_atomic_witness:
  "apply_command sample_catalog_services (PrepareAccountLock sample_lock) (catalog_run sample_catalog_services sample_catalog_history)
     = (Ok True, sample_locking) \<and> unat (state_version sample_locking) = Suc (unat (state_version sample_catalog))"
proof -
  have "apply_command sample_catalog_services (PrepareAccountLock sample_lock) sample_catalog = (Ok True, sample_locking)"
    using sample_locking_applied .
  then show ?thesis
    using catalog_apply_atomic [of sample_catalog_services "PrepareAccountLock sample_lock" sample_catalog_history "Ok True" sample_locking]
    by (simp add: sample_catalog_run)
qed

text \<open>What an authorized use says about every earlier catalog.\<close>

definition authority_intact :: "grant \<Rightarrow> catalog \<Rightarrow> bool" where
  "authority_intact g c \<longleftrightarrow> (\<forall>g0. bm_get (grants c) (grant_id g) = Some g0 \<longrightarrow> g0 = g \<and> \<not> grant_revoked g0)
    \<and> (\<forall>a. bm_get (assignments c) (grant_assignment g) = Some a \<longrightarrow> \<not> asg_revoked a
         \<and> (\<forall>r. bm_get (roles c) (asg_role a) = Some r \<longrightarrow> role_version r \<le> asg_role_version a))
    \<and> grant_subject g \<notin> deleted_principals c
    \<and> (\<forall>n. generation_of c (grant_subject g) = Some n \<longrightarrow> n \<le> grant_generation g)"

lemma authorized_intact:
  assumes auth: "authorize g d who i u = Ok x" and le: "catalog_le c d"
  shows "authority_intact g c"
proof -
  obtain a' r' where d: "bm_get (grants d) (grant_id g) = Some g" "\<not> grant_revoked g" "bm_get (assignments d) (grant_assignment g) = Some a'"
    "\<not> asg_revoked a'" "subject_current d (grant_subject g) (grant_generation g) = Ok ()" "bm_get (roles d) (asg_role a') = Some r'"
    "role_version r' = asg_role_version a'"
    using auth by (rule authorize_Ok)
  have grant: "g0 = g \<and> \<not> grant_revoked g0" if "bm_get (grants c) (grant_id g) = Some g0" for g0
    using le that d(1,2) by (fastforce simp: catalog_le_def entries_le_def grant_le_def)
  have asg: "a = a'" if "bm_get (assignments c) (grant_assignment g) = Some a" for a
    using le that d(3,4) by (fastforce simp: catalog_le_def entries_le_def assignment_le_def)
  have role: "role_version r \<le> asg_role_version a'" if "bm_get (roles c) (asg_role a') = Some r" for r
    using le that d(6,7) by (fastforce simp: catalog_le_def entries_le_def role_le_def)
  have "grant_subject g \<notin> deleted_principals c" using le subject_current_Ok(3) [OF d(5)] by (auto simp: catalog_le_def)
  moreover have "n \<le> grant_generation g" if "generation_of c (grant_subject g) = Some n" for n
    using le that subject_current_Ok(1) [OF d(5)] by (fastforce simp: catalog_le_def generations_le_def)
  ultimately show ?thesis unfolding authority_intact_def using grant asg role d(4) by blast
qed

text \<open>
  C6: Authority that ended never returns. If a grant authorizes a use after some history of commands, then at no earlier
  point of that history was the grant or its assignment revoked, its subject deleted or of a later generation, or its
  role of a later version; and a grant identifier that was taken denotes this same grant.
\<close>

theorem ended_authority_final:
  assumes "authorize g (catalog_run sv (es @ es')) who i u = Ok x" and c: "c = catalog_run sv es"
  shows "(\<forall>g0. bm_get (grants c) (grant_id g) = Some g0 \<longrightarrow> g0 = g \<and> \<not> grant_revoked g0)
    \<and> (\<forall>a. bm_get (assignments c) (grant_assignment g) = Some a \<longrightarrow> \<not> asg_revoked a
         \<and> (\<forall>r. bm_get (roles c) (asg_role a) = Some r \<longrightarrow> role_version r \<le> asg_role_version a))
    \<and> grant_subject g \<notin> deleted_principals c
    \<and> (\<forall>n. generation_of c (grant_subject g) = Some n \<longrightarrow> n \<le> grant_generation g)"
proof -
  have "catalog_le c (catalog_run sv (es @ es'))" unfolding c by (rule catalog.le_run_append) (rule catalog_ok_initial)
  with assms(1) have "authority_intact g c" by (rule authorized_intact)
  then show ?thesis unfolding authority_intact_def .
qed

theorem ended_authority_final_witness:
  "authorize sample_grant (catalog_run sample_catalog_services (take 2 sample_catalog_history @ drop 2 sample_catalog_history)) sample_identity
     sample_instant sample_use = Ok () \<and> grant_subject sample_grant \<notin> deleted_principals sample_adopted"
  using ended_authority_final [of sample_grant sample_catalog_services "take 2 sample_catalog_history" "drop 2 sample_catalog_history" sample_identity
    sample_instant sample_use "()" sample_adopted] sample_authorized
  by (simp add: sample_adopted_run sample_catalog_run del: foldl_append)

text \<open>
  C7: A grant confers only finite, registered authority. A use that a reachable catalog authorizes is by the grant's own
  subject in its current generation, enabled, checkpointed and with no account transaction pending; every instant of the
  protected interval lies in the grant's validity, which lies in that of its assignment and lasts at most 366 days; the
  use is within the product's byte and unit bounds; and the role is not Admin and names the activity, a registered one.
\<close>

theorem authorized_use_bounded:
  assumes "authorize g c who i u = Ok x" and c: "c = catalog_run sv es"
  shows "identity_principal who = grant_subject g \<and> generation_of c (grant_subject g) = Some (identity_generation who)
    \<and> grant_subject g \<notin> deleted_principals c \<and> \<not> pending_on c (grant_subject g)
    \<and> (\<exists>a. bm_get (assignments c) (grant_assignment g) = Some a \<and> asg_role a \<noteq> ''Admin''
         \<and> asg_not_before a \<le> grant_not_before g \<and> grant_not_before g \<le> lower_ms i \<and> upper_ms i < grant_expires g
         \<and> grant_expires g \<le> asg_expires a \<and> asg_expires a - asg_not_before a \<le> MAX_VALIDITY_MS)
    \<and> action_activity (use_action u) \<in> activities c
    \<and> input_bytes u \<le> byte_bound (use_selector u) (use_action u) \<and> output_bytes u \<le> byte_bound (use_selector u) (use_action u)
    \<and> units u \<le> 1000000"
proof -
  have ok: "authority_ok c" "catalog_ok sv c" unfolding c by (rule authority_reachable, rule catalog_reachable)
  from assms(1) show ?thesis
  proof (rule authorize_Ok)
    fix a r
    assume g: "bm_get (grants c) (grant_id g) = Some g" and who: "identity_principal who = grant_subject g" "identity_generation who = grant_generation g"
      and u: "grant_action g = use_action u" "grant_selector g = use_selector u" "input_bytes u \<le> max_input_bytes (grant_constraints g)"
        "output_bytes u \<le> max_output_bytes (grant_constraints g)" "units u \<le> max_units (grant_constraints g)"
      and i: "grant_not_before g \<le> lower_ms i" "upper_ms i < grant_expires g" and a: "bm_get (assignments c) (grant_assignment g) = Some a"
      and s: "subject_current c (grant_subject g) (grant_generation g) = Ok ()"
      and r: "bm_get (roles c) (asg_role a) = Some r" "action_activity (grant_action g) \<in> set (role_activities r)"
    have "grant_ok c (grant_id g) g" "assignment_ok (grant_assignment g) a" "set (role_activities r) \<subseteq> activities c"
      using ok(1) g a r(1) unfolding authority_ok_def by blast+
    then have "asg_not_before a \<le> grant_not_before g" "grant_expires g \<le> asg_expires a" "asg_role a \<noteq> ''Admin''"
      "asg_expires a - asg_not_before a \<le> MAX_VALIDITY_MS" "action_activity (use_action u) \<in> activities c"
      "max_input_bytes (grant_constraints g) \<le> byte_bound (use_selector u) (use_action u)"
      "max_output_bytes (grant_constraints g) \<le> byte_bound (use_selector u) (use_action u)" "max_units (grant_constraints g) \<le> 1000000"
      using a r(2) u(1,2)
      by (auto simp: grant_ok_def assignment_ok_def assignment_validate_def grant_validate_def constraints_validate_def result_simps not_less)
    moreover have "\<not> pending_on c (grant_subject g)" using subject_current_Ok(2) [OF s] pending_disabled [OF ok(2)] by blast
    ultimately show ?thesis using who u(3-5) i a subject_current_Ok(1,3) [OF s] by auto
  qed
qed

theorem authorized_use_bounded_witness:
  "authorize sample_grant sample_catalog sample_identity sample_instant sample_use = Ok ()
     \<and> sample_catalog = catalog_run sample_catalog_services sample_catalog_history \<and> \<not> pending_on sample_catalog (grant_subject sample_grant)"
  using authorized_use_bounded [OF sample_authorized sample_catalog_run [symmetric]] sample_authorized sample_catalog_run by simp

text \<open>
  C8: Account transactions exclude each other. In every reachable catalog at most one principal has a pending creation,
  deletion or credential change, it counts as disabled, so no grant or assignment of any generation is current for it,
  and the catalog never holds more than 128 account transactions.
\<close>

theorem account_transactions_exclusive:
  assumes c: "c = catalog_run sv es"
  shows "(\<forall>n m. pending_on c n \<and> pending_on c m \<longrightarrow> n = m)
    \<and> (\<forall>n g. pending_on c n \<longrightarrow> \<not> is_ok (subject_current c n g)) \<and> transaction_capacity c \<le> 128"
proof -
  have ok: "catalog_ok sv c" unfolding c by (rule catalog_reachable)
  have "n = m" if "pending_on c n" "pending_on c m" for n m
    using pending_on_unique [OF catalog_okD(2) [OF ok] that] .
  moreover have "\<not> is_ok (subject_current c n g)" if "pending_on c n" for n g
    using subject_current_Ok(2) [of c n g] pending_disabled [OF ok that] by (auto simp: is_ok_iff)
  ultimately show ?thesis using catalog_okD(3) [OF ok] by blast
qed

theorem account_transactions_exclusive_witness:
  "sample_locking = catalog_run sample_catalog_services sample_catalog_pending \<and> pending_on sample_locking sample_user
     \<and> \<not> is_ok (subject_current sample_locking sample_user 2)"
proof -
  have "pending_on sample_locking sample_user" by (simp add: pending_on_def sample_locking_def sample_state_simps sample_lock_def)
  then show ?thesis using account_transactions_exclusive [OF sample_locking_run [symmetric]] sample_locking_run by simp
qed

text \<open>The command that advances a pending transaction.\<close>

fun next_transition_command :: "string \<Rightarrow> transition \<Rightarrow> command option" where
  "next_transition_command t v = (case transition_phase v of
     Prepared \<Rightarrow> Some (if is_recovery (intent_kind (transition_intent v)) then PermitAdminAccountRecovery t else PermitAccountPublication t)
   | PublicationPermitted \<Rightarrow> Some (if is_recovery (intent_kind (transition_intent v)) then CompleteAdminAccountRecovery t else CompleteAccountLock t)
   | Complete \<Rightarrow> None)"

fun next_deletion_command :: "string \<Rightarrow> deletion \<Rightarrow> command option" where
  "next_deletion_command t v = (case deletion_phase v of
     Prepared \<Rightarrow> Some (PermitAccountDeletion t) | PublicationPermitted \<Rightarrow> Some (CompleteAccountDeletion t) | Complete \<Rightarrow> None)"

fun next_creation_command :: "string \<Rightarrow> creation \<Rightarrow> command option" where
  "next_creation_command t v = (case creation_phase v of
     Prepared \<Rightarrow> Some (PermitAccountCreation t) | PublicationPermitted \<Rightarrow> Some (CompleteAccountCreation t) | Complete \<Rightarrow> None)"

lemma apply_command_runs:
  assumes "command_validate sv cmd = Ok ()" "fst (run_command sv cmd c) = Ok True" "state_version c \<noteq> - 1"
  shows "fst (apply_command sv cmd c) = Ok True"
  using assms checked_add_below [of "state_version c"] by (cases "run_command sv cmd c") (auto simp: apply_command_def)

lemma transaction_name_Ok:
  "intent_validate pd i = Ok u \<Longrightarrow> transaction_name m (transaction i) = Ok ()"
  "deletion_validate d = Ok u \<Longrightarrow> transaction_name m (deletion_transaction d) = Ok ()"
  "creation_validate len k = Ok u \<Longrightarrow> transaction_name m (creation_transaction k) = Ok ()"
  by (auto simp: intent_validate_def deletion_validate_def creation_validate_def transaction_name_def result_simps Let_def)

lemma checked_add_exact: "a \<noteq> - 1 \<Longrightarrow> checked_add a 1 = Some (a + 1)" for a :: u64
  using checked_add_below [of a] checked_add_succ [of a] by (cases "checked_add a 1") auto

lemma transition_advances:
  assumes ok: "catalog_ok sv c" and v: "bm_get (account_transitions c) t = Some v" and cmd: "next_transition_command t v = Some cmd"
  shows "command_validate sv cmd = Ok () \<and> fst (run_command sv cmd c) = Ok True"
proof -
  have t: "transition_ok sv c t v" using ok v by (rule catalog_okD)
  then have name: "transaction_name m t = Ok ()" for m using transaction_name_Ok(1) by (auto simp: transition_ok_def)
  have "expected_generation (transition_intent v) \<noteq> - 1" using t intent_validate_generation by (auto simp: transition_ok_def)
  then show ?thesis using v t name checked_add_exact cmd
    by (cases "transition_phase v")
      (auto simp: transition_ok_def permit_transition_arm_def pure_arm_def complete_transition_def complete_checks_def Let_def split: if_splits)
qed

lemma deletion_advances:
  assumes ok: "catalog_ok sv c" and v: "bm_get (account_deletions c) t = Some v" and cmd: "next_deletion_command t v = Some cmd"
  shows "command_validate sv cmd = Ok () \<and> fst (run_command sv cmd c) = Ok True"
proof -
  have t: "deletion_ok c t v" using ok v by (rule catalog_okD)
  then have name: "transaction_name m t = Ok ()" for m using transaction_name_Ok(2) by (auto simp: deletion_ok_def)
  have "deletion_generation (deletion_intent_of v) \<noteq> - 1" using t deletion_validate_generation by (auto simp: deletion_ok_def)
  then show ?thesis using v t name checked_add_exact cmd
    by (cases "deletion_phase v") (auto simp: deletion_ok_def permit_deletion_arm_def complete_deletion_arm_def pure_arm_def Let_def)
qed

lemma creation_advances:
  assumes ok: "catalog_ok sv c" and v: "bm_get (account_creations c) t = Some v" and cmd: "next_creation_command t v = Some cmd"
  shows "command_validate sv cmd = Ok () \<and> fst (run_command sv cmd c) = Ok True"
proof -
  have t: "creation_ok sv c t v" using ok v by (rule catalog_okD)
  then have name: "transaction_name m t = Ok ()" for m using transaction_name_Ok(3) by (auto simp: creation_ok_def)
  then show ?thesis using v t cmd
    by (cases "creation_phase v") (auto simp: creation_ok_def permit_creation_arm_def complete_creation_arm_def pure_arm_def Let_def)
qed

text \<open>
  C9: No account transaction gets stuck. In every reachable catalog whose version is not exhausted, the command that
  advances a pending creation, deletion or credential change (its permission when prepared, its completion when permitted)
  succeeds: no sequence of other commands can have invalidated the fence, the credential, the registry or the aging mark
  the completion insists on.
\<close>

theorem account_transaction_completes:
  assumes c: "c = catalog_run sv es" and version: "state_version c \<noteq> - 1"
  shows "(\<forall>t v cmd. bm_get (account_transitions c) t = Some v \<and> next_transition_command t v = Some cmd \<longrightarrow> fst (apply_command sv cmd c) = Ok True)
    \<and> (\<forall>t v cmd. bm_get (account_deletions c) t = Some v \<and> next_deletion_command t v = Some cmd \<longrightarrow> fst (apply_command sv cmd c) = Ok True)
    \<and> (\<forall>t v cmd. bm_get (account_creations c) t = Some v \<and> next_creation_command t v = Some cmd \<longrightarrow> fst (apply_command sv cmd c) = Ok True)"
proof -
  have ok: "catalog_ok sv c" unfolding c by (rule catalog_reachable)
  show ?thesis using transition_advances [OF ok] deletion_advances [OF ok] creation_advances [OF ok] apply_command_runs [OF _ _ version] by blast
qed

theorem account_transaction_completes_witness:
  "state_version sample_locking \<noteq> - 1 \<and> fst (apply_command sample_catalog_services (PermitAccountPublication ''t1'') sample_locking) = Ok True"
proof -
  have version: "state_version sample_locking \<noteq> - 1" by (simp add: sample_locking_def)
  have "bm_get (account_transitions sample_locking) ''t1'' = Some \<lparr>transition_intent = sample_lock, transition_phase = Prepared\<rparr>"
    "next_transition_command ''t1'' \<lparr>transition_intent = sample_lock, transition_phase = Prepared\<rparr> = Some (PermitAccountPublication ''t1'')"
    by (simp_all add: sample_locking_def sample_lock_def)
  then show ?thesis using account_transaction_completes [OF sample_locking_run [symmetric] version] version by blast
qed

end
