(* ===== verification/Triples.thy ===== *)
theory Triples
  imports Prelude
begin

text \<open>
  Hoare triples for the computations with effects of the prelude: from a state with \<open>P\<close>, an action that returns a value
  ends with \<open>Q\<close> of it and one that fails ends with \<open>E\<close>. Long protocols are verified step by step with these rules.
\<close>

definition triple :: "('s \<Rightarrow> bool) \<Rightarrow> ('s, 'a) action \<Rightarrow> ('a \<Rightarrow> 's \<Rightarrow> bool) \<Rightarrow> ('s \<Rightarrow> bool) \<Rightarrow> bool" where
  "triple P m Q E \<longleftrightarrow> (\<forall>s. P s \<longrightarrow> (case m s of (Inl _, s') \<Rightarrow> E s' | (Inr x, s') \<Rightarrow> Q x s'))"

lemma tripleI: "(\<And>s r s'. P s \<Longrightarrow> m s = (r, s') \<Longrightarrow> case r of Inl _ \<Rightarrow> E s' | Inr x \<Rightarrow> Q x s') \<Longrightarrow> triple P m Q E"
  by (fastforce simp: triple_def split: prod.splits sum.splits)

lemma tripleD: "triple P m Q E \<Longrightarrow> P s \<Longrightarrow> m s = (r, s') \<Longrightarrow> case r of Inl _ \<Rightarrow> E s' | Inr x \<Rightarrow> Q x s'"
  by (fastforce simp: triple_def split: prod.splits sum.splits)

lemma triple_Ok: "triple P m Q E \<Longrightarrow> P s \<Longrightarrow> m s = (Ok x, s') \<Longrightarrow> Q x s'"
  using tripleD [of P m Q E s "Ok x" s'] by simp

lemma triple_Err: "triple P m Q E \<Longrightarrow> P s \<Longrightarrow> m s = (Inl e, s') \<Longrightarrow> E s'"
  using tripleD [of P m Q E s "Inl e" s'] by simp

lemma triple_bind:
  assumes "triple P m R E" "\<And>x. triple (R x) (f x) Q E"
  shows "triple P (bind_action m f) Q E"
  using assms by (fastforce simp: triple_def bind_action_def split: prod.splits sum.splits)

lemma triple_lift:
  assumes "\<And>s x. P s \<Longrightarrow> r = Ok x \<Longrightarrow> Q x s" "\<And>s e. P s \<Longrightarrow> r = Inl e \<Longrightarrow> E s"
  shows "triple P (lift_result r) Q E"
  using assms by (auto simp: triple_def split: sum.splits)

lemma triple_return: "(\<And>s. P s \<Longrightarrow> Q x s) \<Longrightarrow> triple P (lift_result (Ok x)) Q E"
  by (simp add: triple_def)

lemma triple_if:
  assumes "b \<Longrightarrow> triple P m Q E" "\<not> b \<Longrightarrow> triple P n Q E"
  shows "triple P (if b then m else n) Q E"
  using assms by simp

lemma triple_modify: "(\<And>s. P s \<Longrightarrow> Q () (f s)) \<Longrightarrow> triple P (modify_state f) Q E"
  by (simp add: triple_def)

lemma triple_weaken:
  assumes "triple P' m Q' E'" "\<And>s. P s \<Longrightarrow> P' s" "\<And>x s. Q' x s \<Longrightarrow> Q x s" "\<And>s. E' s \<Longrightarrow> E s"
  shows "triple P m Q E"
  using assms by (fastforce simp: triple_def split: prod.splits sum.splits)

text \<open>A precondition with a pure part.\<close>

lemma triple_pure: "(b \<Longrightarrow> triple P m Q E) \<Longrightarrow> triple (\<lambda>s. b \<and> P s) m Q E"
  by (auto simp: triple_def)

section \<open>Observations\<close>

text \<open>An operation that leaves a projection of the state as it was.\<close>

definition observes :: "('s \<Rightarrow> 'v) \<Rightarrow> ('s, 'a) action \<Rightarrow> bool" where
  "observes proj m \<longleftrightarrow> (\<forall>w r w'. m w = (r, w') \<longrightarrow> proj w' = proj w)"

lemma observes_bind:
  assumes "observes proj m" "\<And>x. observes proj (f x)"
  shows "observes proj (bind_action m f)"
proof -
  have m: "proj w' = proj w" if "m w = (r, w')" for w r w' using assms(1) that unfolding observes_def by blast
  have f: "proj w' = proj w" if "f x w = (r, w')" for x w r w' using assms(2) that unfolding observes_def by blast
  show ?thesis unfolding observes_def
    by (auto simp: bind_action_def split: prod.splits sum.splits dest!: m f)
qed

lemma observes_lift: "observes proj (lift_result r)"
  by (simp add: observes_def)

lemma observes_if: "observes proj m \<Longrightarrow> observes proj n \<Longrightarrow> observes proj (if b then m else n)"
  by simp

lemma triple_observing:
  assumes "observes proj m" "\<And>s. proj s = v \<Longrightarrow> E s"
    "\<And>s x s'. m s = (Ok x, s') \<Longrightarrow> proj s = v \<Longrightarrow> triple (\<lambda>s. proj s = v) (f x) Q E"
  shows "triple (\<lambda>s. proj s = v) (bind_action m f) Q E"
proof (rule tripleI)
  fix s r s'
  assume s: "proj s = v" and run: "bind_action m f s = (r, s')"
  obtain q w where m: "m s = (q, w)" by fastforce
  then have w: "proj w = v" using assms(1) s unfolding observes_def by blast
  show "case r of Inl _ \<Rightarrow> E s' | Inr x \<Rightarrow> Q x s'"
  proof (cases q)
    case (Inl e)
    then show ?thesis using run m assms(2) [OF w] by (auto simp: bind_action_def)
  next
    case (Inr x)
    then have "f x w = (r, s')" using run m by (simp add: bind_action_def)
    then show ?thesis using tripleD [OF assms(3), of s x w w r s'] Inr m s w by simp
  qed
qed

lemma triple_result:
  assumes "\<And>s. P s \<Longrightarrow> E s" "\<And>x. r = Ok x \<Longrightarrow> triple P (f x) Q E"
  shows "triple P (bind_action (lift_result r) f) Q E"
  using assms by (cases r) (auto simp: triple_def bind_action_def)

lemma triple_refuse: "(\<And>s. P s \<Longrightarrow> E s) \<Longrightarrow> triple P (lift_result (Err m)) Q E"
  by (simp add: triple_def)

end
