(* ===== verification/Journal_Safety.thy ===== *)
theory Journal_Safety
  imports Admin_Journal Triples "HOL-Library.Sublist" "HOL-Library.Countable"
begin

text \<open>
  Safety of the Admin checkpoint journal: the head in the TPM determines the journal, the anchored history only grows
  whatever fails, and what success of opening, appending and recovering means.
\<close>

section \<open>The head determines the journal\<close>

text \<open>
  What the codec is relied on for: SHA-256 has 32 bytes and no collisions, entries have distinct encodings, and a journal
  is read back from what was written.
\<close>

definition codec_ok :: "journal_codec \<Rightarrow> bool" where
  "codec_ok cd \<longleftrightarrow> (\<forall>x y. sha256 cd x = sha256 cd y \<longrightarrow> x = y) \<and> (\<forall>x. length (sha256 cd x) = 32)
     \<and> (\<forall>x y. print_entry cd x = print_entry cd y \<longrightarrow> x = y) \<and> (\<forall>j. parse_admin_journal cd (print_admin_journal cd j) = Some j)"

lemma sha256_inj: "codec_ok cd \<Longrightarrow> sha256 cd x = sha256 cd y \<longleftrightarrow> x = y"
  by (auto simp: codec_ok_def)

lemma extend_value_inj:
  assumes "codec_ok cd" "extend_value cd u d = extend_value cd u' d'" "length u = length u'"
  shows "u = u'" "d = d'"
  using assms by (simp_all add: extend_value_def sha256_inj)

lemma extend_value_length [simp]: "codec_ok cd \<Longrightarrow> length (extend_value cd u d) = 32"
  by (simp add: codec_ok_def extend_value_def)

lemma to_be_bytes_length [simp]: "length (to_be_bytes v) = 8"
  by (simp add: to_be_bytes_def)

lemma tpm_decode_length: "tpm_decode n s = Ok b \<Longrightarrow> length b = n"
  by (simp add: tpm_decode_iff_hex)

lemma tpm_decode_inj: "tpm_decode n s = Ok b \<Longrightarrow> tpm_decode n s' = Ok b \<Longrightarrow> s = s'"
  by (simp add: tpm_decode_iff_hex)

lemma entry_digest_Ok:
  "entry_digest cd d i e = Ok x \<longleftrightarrow> (\<exists>b. tpm_decode 32 d = Ok b
     \<and> x = sha256 cd (byte_text ''luma-native-admin-audit-v1'' @ [0] @ b @ to_be_bytes (of_nat i) @ print_entry cd e))"
  by (auto simp: entry_digest_def result_simps)

lemma genesis_Ok:
  "genesis cd d = Ok x \<longleftrightarrow> (\<exists>b. tpm_decode 32 d = Ok b \<and> x = sha256 cd (byte_text ''luma-native-admin-genesis-v1'' @ [0] @ b))"
  by (auto simp: genesis_def result_simps)

lemma entry_digest_inj:
  assumes "codec_ok cd" "entry_digest cd d i e = Ok x" "entry_digest cd d' i' e' = Ok x"
  shows "e = e'"
proof -
  obtain b b' where b: "tpm_decode 32 d = Ok b" "tpm_decode 32 d' = Ok b'"
    and "b @ to_be_bytes (of_nat i) @ print_entry cd e = b' @ to_be_bytes (of_nat i') @ print_entry cd e'"
    using assms(2,3) unfolding entry_digest_Ok by (auto simp: sha256_inj [OF assms(1)])
  then have "print_entry cd e = print_entry cd e'" using tpm_decode_length [OF b(1)] tpm_decode_length [OF b(2)] by simp
  then show ?thesis using assms(1) by (simp add: codec_ok_def)
qed

lemma domains_differ: "byte_text ''luma-native-admin-audit-v1'' @ y \<noteq> byte_text ''luma-native-admin-genesis-v1'' @ x"
proof
  assume "byte_text ''luma-native-admin-audit-v1'' @ y = byte_text ''luma-native-admin-genesis-v1'' @ x"
  then have "(byte_text ''luma-native-admin-audit-v1'' @ y) ! 18 = (byte_text ''luma-native-admin-genesis-v1'' @ x) ! 18" by (rule arg_cong)
  then have "byte_text ''luma-native-admin-audit-v1'' ! 18 = byte_text ''luma-native-admin-genesis-v1'' ! 18"
    unfolding nth_append by (simp add: byte_text_def)
  moreover have "byte_text ''luma-native-admin-audit-v1'' ! 18 \<noteq> byte_text ''luma-native-admin-genesis-v1'' ! 18" by code_simp
  ultimately show False by contradiction
qed

lemma digest_not_genesis:
  assumes "codec_ok cd" "entry_digest cd d i e = Ok x"
  shows "genesis cd d' \<noteq> Ok x"
  using assms(2) domains_differ unfolding genesis_Ok entry_digest_Ok by (auto simp: sha256_inj [OF assms(1)])

lemma genesis_inj:
  assumes "codec_ok cd" "genesis cd d = Ok x" "genesis cd d' = Ok x"
  shows "d = d'"
  using assms(2,3) tpm_decode_inj unfolding genesis_Ok by (auto simp: sha256_inj [OF assms(1)])

lemma chain_snoc:
  "chain cd d i R v (es @ [e]) = Ok w \<longleftrightarrow> (\<exists>u x. chain cd d i R v es = Ok u \<and> entry_fields_ok (R \<union> entry_request ` set es) e
     \<and> is_ok (tpm_decode 32 (entry_payload e)) \<and> entry_digest cd d (i + length es) e = Ok x \<and> w = extend_value cd u x)"
  by (induction es arbitrary: i R v) (auto simp: result_simps is_ok_iff)

lemma chain_length: "codec_ok cd \<Longrightarrow> length v = 32 \<Longrightarrow> chain cd d i R v es = Ok w \<Longrightarrow> length w = 32"
  by (cases es rule: rev_cases) (auto simp: chain_snoc)

lemma chain_inj:
  assumes cd: "codec_ok cd" and g: "genesis cd d = Ok g" "genesis cd d' = Ok g'"
  shows "chain cd d 0 {} (extend_value cd (replicate 32 0) g) es = Ok v \<Longrightarrow> chain cd d' 0 {} (extend_value cd (replicate 32 0) g') es' = Ok v
    \<Longrightarrow> es = es' \<and> g = g'"
proof (induction es arbitrary: es' v rule: rev_induct)
  case Nil
  show ?case
  proof (cases es' rule: rev_cases)
    case (snoc ys y)
    with Nil obtain u x where u: "extend_value cd (replicate 32 0) g = extend_value cd u x" "entry_digest cd d' (length ys) y = Ok x"
      "chain cd d' 0 {} (extend_value cd (replicate 32 0) g') ys = Ok u"
      by (auto simp: chain_snoc)
    then have "length u = 32" using chain_length [OF cd _ u(3)] cd by simp
    then have "g = x" using extend_value_inj(2) [OF cd u(1)] by simp
    then show ?thesis using digest_not_genesis [OF cd u(2)] g(1) by blast
  qed (use Nil extend_value_inj(2) [OF cd] in fastforce)
next
  case (snoc e es)
  obtain u x where u: "chain cd d 0 {} (extend_value cd (replicate 32 0) g) es = Ok u" "entry_digest cd d (length es) e = Ok x" "v = extend_value cd u x"
    using snoc.prems(1) by (auto simp: chain_snoc)
  then have len: "length u = 32" using chain_length [OF cd _ u(1)] cd by simp
  show ?case
  proof (cases es' rule: rev_cases)
    case Nil
    then have "g' = x" using snoc.prems(2) u(3) len extend_value_inj(2) [OF cd] by fastforce
    then show ?thesis using digest_not_genesis [OF cd u(2)] g(2) by blast
  next
    case (snoc ys y)
    then obtain u' x' where u': "chain cd d' 0 {} (extend_value cd (replicate 32 0) g') ys = Ok u'" "entry_digest cd d' (length ys) y = Ok x'"
      "v = extend_value cd u' x'"
      using snoc.prems(2) by (auto simp: chain_snoc)
    then have "length u' = 32" using chain_length [OF cd _ u'(1)] cd by simp
    then have "u = u'" "x = x'" using extend_value_inj [OF cd] u(3) u'(3) len by metis+
    then show ?thesis using snoc snoc.IH u(1) u'(1) entry_digest_inj [OF cd u(2)] u'(2) by auto
  qed
qed

lemma head_inj:
  assumes "codec_ok cd" "head cd j = Ok v" "head cd k = Ok v"
  shows "j = k"
proof -
  obtain g g' where g: "genesis cd (aj_deployment j) = Ok g" "genesis cd (aj_deployment k) = Ok g'"
    and c: "chain cd (aj_deployment j) 0 {} (extend_value cd (replicate 32 0) g) (aj_entries j) = Ok v"
      "chain cd (aj_deployment k) 0 {} (extend_value cd (replicate 32 0) g') (aj_entries k) = Ok v"
    using assms(2,3) by (auto simp: head_def result_simps split: if_splits)
  have "aj_schema j = 1" "aj_schema k = 1" using assms(2,3) by (auto simp: head_def split: if_splits)
  then show ?thesis using chain_inj [OF assms(1) g c] genesis_inj [OF assms(1) g(1)] g(2) by (cases j, cases k) auto
qed

lemma chain_distinct: "chain cd d i R v es = Ok w \<Longrightarrow> distinct (map entry_request es) \<and> entry_request ` set es \<inter> R = {}"
  by (induction es arbitrary: i R v) (fastforce simp: result_simps entry_fields_ok_def split: if_splits)+

lemma head_distinct: "head cd j = Ok v \<Longrightarrow> distinct (map entry_request (aj_entries j))"
  by (auto simp: head_def result_simps dest: chain_distinct split: if_splits)

section \<open>The disk and the TPM\<close>

text \<open>
  Documented behaviour of the surroundings while the writer lock is held, over three projections of their state: the
  journal file, the pending proposal and the value of the TPM index. Reading yields the content or fails; an atomic write
  or a rename that fails has happened or not; the TPM extends the value it is expected to hold, and an error may be an
  extension with a lost reply; nothing else touches them.
\<close>

type_synonym 'w view = "'w \<Rightarrow> bytes \<times> bytes option \<times> bytes"

definition anchored_env :: "'w journal_env \<Rightarrow> 'w view \<Rightarrow> bool" where
  "anchored_env env view \<longleftrightarrow> codec_ok (codec env)
     \<and> (\<forall>w r w'. private_read env JournalFile w = (r, w') \<longrightarrow> view w' = view w \<and> (\<forall>b. r = Ok b \<longrightarrow> b = fst (view w)))
     \<and> (\<forall>w r w'. private_read env PendingFile w = (r, w') \<longrightarrow> view w' = view w \<and> (\<forall>b. r = Ok b \<longrightarrow> fst (snd (view w)) = Some b))
     \<and> (\<forall>w r w'. pending_exists env w = (r, w') \<longrightarrow> view w' = view w \<and> (\<forall>p. r = Ok p \<longrightarrow> p = (fst (snd (view w)) \<noteq> None)))
     \<and> (\<forall>w r w'. anchor_read env w = (r, w') \<longrightarrow> view w' = view w \<and> (\<forall>v. r = Ok v \<longrightarrow> v = snd (snd (view w))))
     \<and> (\<forall>w r w'. anchor_clock env w = (r, w') \<longrightarrow> view w' = view w)
     \<and> (\<forall>w r w'. sync_pending env w = (r, w') \<longrightarrow> view w' = view w)
     \<and> (\<forall>w r w'. sync_directory env w = (r, w') \<longrightarrow> view w' = view w)
     \<and> (\<forall>b w r w' d p t. write_pending env b w = (r, w') \<and> view w = (d, p, t) \<longrightarrow> view w' = (d, Some b, t) \<or> (r \<noteq> Ok () \<and> view w' = view w))
     \<and> (\<forall>w r w' d p t. rename_pending env w = (r, w') \<and> view w = (d, p, t) \<longrightarrow>
          (\<exists>b. p = Some b \<and> view w' = (b, None, t)) \<or> (r \<noteq> Ok () \<and> view w' = view w))
     \<and> (\<forall>x y w r w' d p t. anchor_advance env x y w = (r, w') \<and> view w = (d, p, t) \<longrightarrow>
          (t = x \<and> view w' = (d, p, extend_value (codec env) x y) \<and> (\<forall>v. r = Ok v \<longrightarrow> v = extend_value (codec env) x y))
          \<or> (\<not> is_ok r \<and> view w' = view w))"

text \<open>
  A journal is anchored when the TPM holds its head. It is settled when the disk holds it and no proposal is pending;
  otherwise a proposal is pending that the TPM does not prove, or the pending file is the anchored journal itself.
\<close>

definition settled :: "journal_codec \<Rightarrow> admin_journal \<Rightarrow> bytes \<times> bytes option \<times> bytes \<Rightarrow> bool" where
  "settled cd J s \<longleftrightarrow> (\<exists>t. head cd J = Ok t \<and> s = (print_admin_journal cd J, None, t))"

definition proposed :: "journal_codec \<Rightarrow> admin_journal \<Rightarrow> bytes \<times> bytes option \<times> bytes \<Rightarrow> bool" where
  "proposed cd J s \<longleftrightarrow> (\<exists>t t' e. head cd J = Ok t \<and> head cd (push_entry J e) = Ok t'
     \<and> s = (print_admin_journal cd J, Some (print_admin_journal cd (push_entry J e)), t))"

definition committed :: "journal_codec \<Rightarrow> admin_journal \<Rightarrow> bytes \<times> bytes option \<times> bytes \<Rightarrow> bool" where
  "committed cd J s \<longleftrightarrow> (\<exists>t t' I e. J = push_entry I e \<and> head cd J = Ok t \<and> head cd I = Ok t'
     \<and> s = (print_admin_journal cd I, Some (print_admin_journal cd J), t))"

definition anchored_journal :: "journal_codec \<Rightarrow> admin_journal \<Rightarrow> bytes \<times> bytes option \<times> bytes \<Rightarrow> bool" where
  "anchored_journal cd J s \<longleftrightarrow> settled cd J s \<or> proposed cd J s \<or> committed cd J s"

lemma anchored_journal_unique:
  assumes "codec_ok cd" "anchored_journal cd J s" "anchored_journal cd K s"
  shows "J = K"
proof -
  have "head cd J = Ok (snd (snd s))" "head cd K = Ok (snd (snd s))"
    using assms(2,3) by (auto simp: anchored_journal_def settled_def proposed_def committed_def)
  then show ?thesis by (rule head_inj [OF assms(1)])
qed

lemma push_entry_neq: "push_entry J e \<noteq> J"
  by (cases J) (simp add: push_entry_def)

lemma print_inj: "codec_ok cd \<Longrightarrow> print_admin_journal cd j = print_admin_journal cd k \<longleftrightarrow> j = k"
  unfolding codec_ok_def by (metis option.inject)

section \<open>Triples of the operations\<close>

lemma on_world_eq: "on_world m s = (r, s') \<longleftrightarrow> (\<exists>w. m (fst s) = (r, w) \<and> s' = (w, snd s))"
  by (auto simp: on_world_def split: prod.splits)

text \<open>The store is in memory \<open>j\<close> while the surroundings look like \<open>v\<close>.\<close>

definition seen :: "'w view \<Rightarrow> bytes \<times> bytes option \<times> bytes \<Rightarrow> admin_journal \<Rightarrow> 'w store \<Rightarrow> bool" where
  "seen view v j s \<longleftrightarrow> view (fst s) = v \<and> snd s = j"

lemma anchored_laws:
  assumes "anchored_env env view"
  shows "codec_ok (codec env)"
    "\<forall>w r w'. private_read env JournalFile w = (r, w') \<longrightarrow> view w' = view w \<and> (\<forall>b. r = Ok b \<longrightarrow> b = fst (view w))"
    "\<forall>w r w'. private_read env PendingFile w = (r, w') \<longrightarrow> view w' = view w \<and> (\<forall>b. r = Ok b \<longrightarrow> fst (snd (view w)) = Some b)"
    "\<forall>w r w'. pending_exists env w = (r, w') \<longrightarrow> view w' = view w \<and> (\<forall>p. r = Ok p \<longrightarrow> p = (fst (snd (view w)) \<noteq> None))"
    "\<forall>w r w'. anchor_read env w = (r, w') \<longrightarrow> view w' = view w \<and> (\<forall>v. r = Ok v \<longrightarrow> v = snd (snd (view w)))"
    "\<forall>w r w'. anchor_clock env w = (r, w') \<longrightarrow> view w' = view w"
    "\<forall>w r w'. sync_pending env w = (r, w') \<longrightarrow> view w' = view w"
    "\<forall>w r w'. sync_directory env w = (r, w') \<longrightarrow> view w' = view w"
    "\<forall>b w r w' d p t. write_pending env b w = (r, w') \<and> view w = (d, p, t) \<longrightarrow> view w' = (d, Some b, t) \<or> (r \<noteq> Ok () \<and> view w' = view w)"
    "\<forall>w r w' d p t. rename_pending env w = (r, w') \<and> view w = (d, p, t) \<longrightarrow>
       (\<exists>b. p = Some b \<and> view w' = (b, None, t)) \<or> (r \<noteq> Ok () \<and> view w' = view w)"
    "\<forall>x y w r w' d p t. anchor_advance env x y w = (r, w') \<and> view w = (d, p, t) \<longrightarrow>
       (t = x \<and> view w' = (d, p, extend_value (codec env) x y) \<and> (\<forall>v. r = Ok v \<longrightarrow> v = extend_value (codec env) x y))
       \<or> (\<not> is_ok r \<and> view w' = view w)"
  by (insert assms [unfolded anchored_env_def], elim conjE, assumption)+

lemma env_observes:
  assumes "anchored_env env view"
  shows "observes view (private_read env path)" "observes view (pending_exists env)" "observes view (anchor_read env)"
    "observes view (anchor_clock env)" "observes view (sync_pending env)" "observes view (sync_directory env)"
    "observes view (read_journal env path)"
proof -
  show "observes view (private_read env path)" using anchored_laws(2,3) [OF assms] by (cases path) (auto simp: observes_def)
  show "observes view (pending_exists env)" "observes view (anchor_read env)"
    "observes view (anchor_clock env)" "observes view (sync_pending env)" "observes view (sync_directory env)"
    using anchored_laws(4-8) [OF assms] by (auto simp: observes_def)
  then show "observes view (read_journal env path)"
    unfolding read_journal_def using \<open>observes view (private_read env path)\<close> by (intro observes_bind observes_lift)
qed

lemma read_journal_Ok:
  assumes "anchored_env env view" "read_journal env path w = (Ok (j, b), w')" "view w = (d, p, t)"
  shows "b = print_admin_journal (codec env) j \<and> (case path of JournalFile \<Rightarrow> d = b | PendingFile \<Rightarrow> p = Some b)"
proof -
  have "private_read env path w = (Ok b, w')" "b = print_admin_journal (codec env) j"
    using assms(2) by (auto simp: read_journal_def result_simps)
  then show ?thesis using anchored_laws(2,3) [OF assms(1)] assms(3) by (cases path) fastforce+
qed

lemma observes_world: "observes view m \<Longrightarrow> observes (\<lambda>s. (view (fst s), snd s)) (on_world m)"
  by (auto simp: observes_def on_world_eq)

lemma seen_eq: "seen view v j = (\<lambda>s. (view (fst s), snd s) = (v, j))"
  by (auto simp: seen_def)

lemma triple_observe:
  assumes "observes view m" "\<And>s. seen view v j s \<Longrightarrow> E s"
    "\<And>w x w'. m w = (Ok x, w') \<Longrightarrow> view w = v \<Longrightarrow> triple (seen view v j) (f x) Q E"
  shows "triple (seen view v j) (bind_action (on_world m) f) Q E"
  unfolding seen_eq
  by (rule triple_observing [OF observes_world [OF assms(1)]]) (use assms(2,3) in \<open>auto simp: seen_eq on_world_eq\<close>)

lemma triple_journal: "triple (seen view v j) (f j) Q E \<Longrightarrow> triple (seen view v j) (with_journal f) Q E"
  by (auto simp: triple_def with_journal_def seen_def)

lemma env_read:
  assumes "anchored_env env view"
  shows "anchor_read env w = (Ok x, w') \<Longrightarrow> snd (snd (view w)) = x"
    "pending_exists env w = (Ok q, w') \<Longrightarrow> (fst (snd (view w)) \<noteq> None) = q"
  using anchored_laws(4,5) [OF assms] by auto

lemma status_triple:
  assumes env: "anchored_env env view"
  shows "triple (seen view v j) (store_status env) (\<lambda>_ s. settled (codec env) j v \<and> seen view v j s) (seen view v j)"
proof -
  obtain d p t where v: "v = (d, p, t)" by (cases v)
  have settled: "settled (codec env) j v"
    if "read_journal env JournalFile w = (Ok (current, b), w')" "view w = v" "head (codec env) current = Ok h" "head (codec env) j = Ok h"
      "anchor_read env w1 = (Ok h, w1')" "view w1 = v" "pending_exists env w2 = (Ok False, w2')" "view w2 = v" for w current b w' h w1 w1' w2 w2'
  proof -
    have "d = print_admin_journal (codec env) current" using read_journal_Ok [OF env that(1)] that(2) v by simp
    moreover have "current = j" using head_inj [OF anchored_laws(1) [OF env] that(3,4)] .
    moreover have "t = h" "p = None" using env_read(1) [OF env that(5)] env_read(2) [OF env that(7)] that(6,8) v by auto
    ultimately show ?thesis using that(4) v by (simp add: settled_def)
  qed
  show ?thesis
    unfolding store_status_def Let_def
    apply (rule triple_observe [OF env_observes(7) [OF env]], assumption)
    subgoal for w x w'
      apply (cases x, simp, rule triple_journal)
      apply (rule triple_result, assumption, rule triple_result, assumption)
      apply (rule triple_if, rule triple_refuse, assumption)
      apply (rule triple_observe [OF env_observes(3) [OF env]], assumption)
      apply (rule triple_if, rule triple_refuse, assumption)
      apply (rule triple_observe [OF env_observes(2) [OF env]], assumption)
      apply (rule triple_if, rule triple_refuse, assumption)
      apply (rule triple_observe [OF env_observes(4) [OF env]], assumption)
      apply (rule triple_lift)
       apply (use settled in \<open>simp; blast\<close>)+
      done
    done
qed

lemma triple_status:
  assumes env: "anchored_env env view" and E: "\<And>s. seen view v j s \<Longrightarrow> E s"
    and Q: "\<And>x. settled (codec env) j v \<Longrightarrow> triple (seen view v j) (f x) Q E"
  shows "triple (seen view v j) (bind_action (store_status env) f) Q E"
proof (rule triple_bind)
  show "triple (seen view v j) (store_status env) (\<lambda>_ s. settled (codec env) j v \<and> seen view v j s) E"
    by (rule triple_weaken [OF status_triple [OF env]]) (assumption | erule E)+
qed (rule triple_pure, rule Q)

lemma push_head:
  assumes "head cd J = Ok t" "entry_digest cd (aj_deployment J) (length (aj_entries J)) e = Ok x" "head cd (push_entry J e) = Ok t'"
  shows "t' = extend_value cd t x"
  using assms by (auto simp: head_def result_simps push_entry_def chain_snoc split: if_splits)

text \<open>The writes: each happened or not when it fails.\<close>

lemma triple_write:
  assumes env: "anchored_env env view" and v: "v = (d, p, t)" "\<And>s. seen view v j s \<Longrightarrow> E s" "\<And>s. seen view (d, Some b, t) j s \<Longrightarrow> E s"
    and Q: "triple (seen view (d, Some b, t) j) (f ()) Q E"
  shows "triple (seen view v j) (bind_action (on_world (write_pending env b)) f) Q E"
proof (rule triple_bind)
  show "triple (seen view v j) (on_world (write_pending env b)) (\<lambda>_. seen view (d, Some b, t) j) E"
  proof (rule tripleI)
    fix s r s'
    assume s: "seen view v j s" and run: "on_world (write_pending env b) s = (r, s')"
    then obtain w where "write_pending env b (fst s) = (r, w)" "s' = (w, j)" "view (fst s) = (d, p, t)" using v(1) by (auto simp: on_world_eq seen_def)
    then show "case r of Inl _ \<Rightarrow> E s' | Inr _ \<Rightarrow> seen view (d, Some b, t) j s'"
      using anchored_laws(9) [OF env] v by (cases r) (fastforce simp: seen_def)+
  qed
qed (simp add: Q)

lemma triple_rename:
  assumes env: "anchored_env env view" and v: "v = (d, Some b, t)" "\<And>s. seen view v j s \<Longrightarrow> E s" "\<And>s. seen view (b, None, t) j s \<Longrightarrow> E s"
    and Q: "triple (seen view (b, None, t) j) (f ()) Q E"
  shows "triple (seen view v j) (bind_action (on_world (rename_pending env)) f) Q E"
proof (rule triple_bind)
  show "triple (seen view v j) (on_world (rename_pending env)) (\<lambda>_. seen view (b, None, t) j) E"
  proof (rule tripleI)
    fix s r s'
    assume s: "seen view v j s" and run: "on_world (rename_pending env) s = (r, s')"
    then obtain w where "rename_pending env (fst s) = (r, w)" "s' = (w, j)" "view (fst s) = (d, Some b, t)" using v(1) by (auto simp: on_world_eq seen_def)
    then show "case r of Inl _ \<Rightarrow> E s' | Inr _ \<Rightarrow> seen view (b, None, t) j s'"
      using anchored_laws(10) [OF env] v by (cases r) (fastforce simp: seen_def)+
  qed
qed (simp add: Q)

lemma triple_advance:
  assumes env: "anchored_env env view" and v: "v = (d, p, t)" "t' = extend_value (codec env) t x" "\<And>s. seen view v j s \<Longrightarrow> E s" "\<And>s. seen view (d, p, t') j s \<Longrightarrow> E s"
    and Q: "triple (seen view (d, p, t') j) (f t') Q E"
  shows "triple (seen view v j) (bind_action (on_world (anchor_advance env t x)) f) Q E"
proof (rule triple_bind)
  show "triple (seen view v j) (on_world (anchor_advance env t x)) (\<lambda>u s. u = t' \<and> seen view (d, p, t') j s) E"
  proof (rule tripleI)
    fix s r s'
    assume s: "seen view v j s" and run: "on_world (anchor_advance env t x) s = (r, s')"
    then obtain w where w: "anchor_advance env t x (fst s) = (r, w)" "s' = (w, j)" "view (fst s) = (d, p, t)" using v(1) by (auto simp: on_world_eq seen_def)
    then have "(view w = (d, p, t') \<and> (\<forall>u. r = Ok u \<longrightarrow> u = t')) \<or> (\<not> is_ok r \<and> view w = v)"
      using anchored_laws(11) [OF env] v(1,2) by metis
    then show "case r of Inl _ \<Rightarrow> E s' | Inr u \<Rightarrow> u = t' \<and> seen view (d, p, t') j s'"
      using v(3,4) w(2) by (cases r) (auto simp: seen_def)
  qed
qed (rule triple_pure, simp add: Q)

lemma commit_triple:
  assumes env: "anchored_env env view" and auth: "observes view (authorize e)"
    and J: "head (codec env) J = Ok t" "entry_digest (codec env) (aj_deployment J) (length (aj_entries J)) e = Ok x"
      "head (codec env) (push_entry J e) = Ok t'"
  shows "triple (seen view (print_admin_journal (codec env) J, None, t) J) (commit_entry env authorize e t x t' (push_entry J e))
    (\<lambda>_ s. snd s = push_entry J e \<and> settled (codec env) (push_entry J e) (view (fst s)))
    (\<lambda>s. anchored_journal (codec env) J (view (fst s)) \<or> anchored_journal (codec env) (push_entry J e) (view (fst s)))"
    (is "triple _ _ ?Q ?E")
proof -
  let ?cd = "codec env" and ?K = "push_entry J e"
  let ?d = "print_admin_journal ?cd J" and ?b = "print_admin_journal ?cd (push_entry J e)"
  have t': "t' = extend_value ?cd t x" by (rule push_head [OF J])
  have "anchored_journal ?cd J (?d, None, t)" using J by (simp add: anchored_journal_def settled_def)
  moreover have "anchored_journal ?cd J (?d, Some ?b, t)" using J unfolding anchored_journal_def proposed_def by blast
  moreover have "anchored_journal ?cd ?K (?d, Some ?b, t')" using J unfolding anchored_journal_def committed_def by blast
  moreover have last: "settled ?cd ?K (?b, None, t')" using J by (simp add: settled_def)
  ultimately have E: "seen view (?d, None, t) j s \<Longrightarrow> ?E s" "seen view (?d, Some ?b, t) j s \<Longrightarrow> ?E s"
    "seen view (?d, Some ?b, t') j s \<Longrightarrow> ?E s" "seen view (?b, None, t') j s \<Longrightarrow> ?E s" for j s
    by (auto simp: seen_def anchored_journal_def)
  have current: "current = J" if "read_journal env JournalFile w = (Ok (current, b'), w')" "view w = (?d, Some ?b, t)" for current b' w w'
    using read_journal_Ok [OF env that] print_inj [OF anchored_laws(1) [OF env], of current J] by simp
  have final: "?Q x s" if "seen view (?b, None, t') ?K s" for x s using that last by (simp add: seen_def)
  note obs = triple_observe [OF _ E(2)] and res = triple_result [OF E(2)] and no = triple_refuse [OF E(2)] triple_refuse [OF E(3)]
  show ?thesis
    unfolding commit_entry_def Let_def
    apply (rule triple_write [OF env refl E(1,2)], assumption, assumption)
    apply (rule obs [OF auth], assumption)
    apply (rule obs [OF env_observes(7) [OF env]], assumption)
    subgoal for _ _ _ w y w'
      apply (cases y, simp, drule current, assumption)
      apply (rule obs [OF env_observes(7) [OF env]], assumption)
      apply (simp add: split_beta)
      apply (rule res, assumption)
      apply (rule triple_bind [where R = "\<lambda>same. seen view (?d, Some ?b, t) J"])
       apply (rule triple_if)
        apply (rule triple_return, assumption)
       apply (rule obs [OF env_observes(3) [OF env]], assumption)
       apply (rule triple_return, assumption)
      apply (rule triple_if, rule no, assumption)
      apply (rule obs [OF env_observes(4) [OF env]], assumption)
      apply (rule res, assumption)
      apply (rule obs [OF auth], assumption)
      apply (rule triple_advance [OF env refl t' E(2,3)], assumption, assumption)
      apply (rule triple_if, rule no, assumption)
      apply (rule triple_rename [OF env refl E(3,4)], assumption, assumption)
      apply (rule triple_observe [OF env_observes(6) [OF env] E(4)], assumption)
      apply (rule triple_bind [where R = "\<lambda>_. seen view (?b, None, t') ?K"])
       apply (rule triple_modify, simp add: seen_def)
      apply (rule triple_status [OF env E(4)], assumption)
      apply (rule triple_return, erule final)
      done
    done
qed

lemma append_triple:
  assumes env: "anchored_env env view" and auth: "observes view (authorize e)" and J: "anchored_journal (codec env) J v"
  shows "triple (seen view v j) (append_entry env authorize e)
    (\<lambda>_ s. snd s = push_entry J e \<and> settled (codec env) (push_entry J e) (view (fst s)))
    (\<lambda>s. anchored_journal (codec env) J (view (fst s)) \<or> anchored_journal (codec env) (push_entry J e) (view (fst s)))"
    (is "triple _ _ ?Q ?E")
proof -
  have E: "seen view v j s \<Longrightarrow> ?E s" for s j using J by (simp add: seen_def)
  have j: "j = J" if "settled (codec env) j v"
    using anchored_journal_unique [OF anchored_laws(1) [OF env] _ J] that by (simp add: anchored_journal_def)
  have commit: "triple (seen view v j) (commit_entry env authorize e t x t' (push_entry j e)) ?Q ?E"
    if "settled (codec env) j v" "head (codec env) j = Ok t" "entry_digest (codec env) (aj_deployment j) (length (aj_entries j)) e = Ok x"
      "head (codec env) (push_entry j e) = Ok t'" for t x t'
    using commit_triple [where authorize = authorize and e = e, OF env auth that(2-4)] j [OF that(1)] that(1,2) by (simp add: settled_def)
  note obs = triple_observe [OF _ E] and res = triple_result [OF E] and no = triple_refuse [OF E]
  show ?thesis
    unfolding append_entry_def
    apply (rule triple_status [OF env E], assumption)
    apply (rule triple_journal)
    apply (rule triple_if, rule no, assumption)
    apply (rule obs [OF env_observes(4) [OF env]], assumption)
    apply (rule res, assumption)+
    apply (rule triple_if, rule no, assumption)
    apply (rule obs [OF auth], assumption)
    apply (rule obs [OF env_observes(2) [OF env]], assumption)
    apply (rule triple_if, rule no, assumption)
    apply (erule (3) commit)
    done
qed

section \<open>Opening and recovery\<close>

lemma open_store_observes: "anchored_env env view \<Longrightarrow> observes view (open_store env)"
  unfolding open_store_def split_beta by (intro observes_bind observes_lift observes_if env_observes)

lemma open_store_Ok:
  assumes env: "anchored_env env view" and run: "open_store env w = (Ok j, w')"
  shows "settled (codec env) j (view w)"
proof -
  obtain d p t where v: "view w = (d, p, t)" by (cases "view w")
  obtain b w1 w2 h where r: "read_journal env JournalFile w = (Ok (j, b), w1)" "head (codec env) j = Ok h" "anchor_read env w1 = (Ok h, w2)"
    "pending_exists env w2 = (Ok False, w')"
    using run by (auto simp: open_store_def result_simps split: if_splits)
  have "view w1 = view w" "view w2 = view w1" using r(1,3) env_observes(3,7) [OF env] unfolding observes_def by blast+
  then show ?thesis
    using read_journal_Ok [OF env r(1) v] env_read(1) [OF env r(3)] env_read(2) [OF env r(4)] r(2) v by (simp add: settled_def)
qed

lemma published_observes: "anchored_env env view \<Longrightarrow> observes view (published env)"
  unfolding published_def split_beta by (intro observes_bind observes_lift observes_if env_observes)

lemma published_Ok:
  assumes env: "anchored_env env view" and run: "published env w = (Ok u, w')" and J: "anchored_journal (codec env) J (view w)"
  shows "committed (codec env) J (view w)"
proof -
  obtain d p t where v: "view w = (d, p, t)" by (cases "view w")
  obtain current b w1 k b' w2 h w3 where r: "read_journal env JournalFile w = (Ok (current, b), w1)" "read_journal env PendingFile w1 = (Ok (k, b'), w2)"
    "head (codec env) k = Ok h" "anchor_read env w2 = (Ok h, w3)"
    using run by (auto simp: published_def result_simps split: if_splits)
  have w: "view w1 = view w" "view w2 = view w1" using r(1,2) env_observes(7) [OF env] unfolding observes_def by blast+
  have "p = Some (print_admin_journal (codec env) k)" "t = h"
    using read_journal_Ok [OF env r(2)] env_read(1) [OF env r(4)] w v by auto
  moreover have "head (codec env) J = Ok t" using J v by (auto simp: anchored_journal_def settled_def proposed_def committed_def)
  ultimately have p: "p = Some (print_admin_journal (codec env) J)" using head_inj [OF anchored_laws(1) [OF env] r(3)] by blast
  then have "\<not> settled (codec env) J (view w)" "\<not> proposed (codec env) J (view w)"
    using v print_inj [OF anchored_laws(1) [OF env]] push_entry_neq [symmetric] by (auto simp: settled_def proposed_def)
  then show ?thesis using J by (simp add: anchored_journal_def)
qed

lemma publish_triple:
  assumes env: "anchored_env env view" and J: "anchored_journal (codec env) J v"
  shows "triple (\<lambda>w. view w = v) (recovery_publish env r reviewed)
    (\<lambda>j w. j = J \<and> settled (codec env) J (view w)) (\<lambda>w. anchored_journal (codec env) J (view w))" (is "triple _ _ ?Q ?E")
proof -
  have E: "view w = v \<Longrightarrow> ?E w" for w using J by simp
  have rest: "triple (\<lambda>w. view w = v) (bind_action (rename_pending env) (\<lambda>_. bind_action (sync_directory env) (\<lambda>_.
      bind_action (open_store env) (\<lambda>j w. (case store_status env (w, j) of (Inl e, s) \<Rightarrow> (Inl e, fst s) | (Inr _, s) \<Rightarrow> (Ok j, fst s)))))) ?Q ?E"
    if "committed (codec env) J v"
  proof -
    let ?v = "(print_admin_journal (codec env) J, None, snd (snd v))"
    have final: "settled (codec env) J ?v" using that by (auto simp: committed_def settled_def)
    then have E': "view w = ?v \<Longrightarrow> ?E w" for w by (simp add: anchored_journal_def)
    have first: "triple (\<lambda>w. view w = v) (rename_pending env) (\<lambda>_ w. view w = ?v) ?E"
    proof (rule tripleI)
      fix w q w'
      assume "view w = v" "rename_pending env w = (q, w')"
      then have "view w' = ?v \<or> (q \<noteq> Ok () \<and> view w' = v)"
        using anchored_laws(10) [OF env] that unfolding committed_def by fastforce
      then show "case q of Inl _ \<Rightarrow> ?E w' | Inr _ \<Rightarrow> view w' = ?v" using E E' by (cases q) auto
    qed
    have status: "triple (\<lambda>w. view w = ?v) (\<lambda>w. case store_status env (w, J) of (Inl e, s) \<Rightarrow> (Inl e, fst s) | (Inr _, s) \<Rightarrow> (Ok J, fst s)) ?Q ?E"
      using status_triple [OF env, of ?v J] final
      by (fastforce simp: triple_def seen_def anchored_journal_def split: prod.splits sum.splits)
    have j: "j = J" if "open_store env w = (Ok j, w')" "view w = ?v" for j w w'
      using anchored_journal_unique [OF anchored_laws(1) [OF env], of j ?v J] open_store_Ok [OF env that(1)] that(2) final
      by (simp add: anchored_journal_def)
    show ?thesis
      apply (rule triple_bind [OF first])
      apply (rule triple_observing [OF env_observes(6) [OF env] E'], assumption)
      apply (rule triple_observing [OF open_store_observes [OF env] E'], assumption)
      apply (drule (1) j, simp only:, rule status)
      done
  qed
  note obs = triple_observing [OF _ E] and res = triple_result [OF E] and no = triple_refuse [OF E]
  show ?thesis
    unfolding recovery_publish_def
    apply (rule res, assumption)
    apply (rule triple_if, rule no, assumption)
    apply (rule obs [OF published_observes [OF env]], assumption)
    apply (rule triple_if, rule no, assumption)
    apply (rule obs [OF env_observes(4) [OF env]], assumption)
    apply (rule res, assumption)
    apply (rule obs [OF env_observes(5) [OF env]], assumption)
    apply (rule rest)
    apply (use published_Ok [OF env] J in blast)
    done
qed

section \<open>Histories\<close>

text \<open>
  What processes do with the journal, in any order and with any outcome: open it, append through an opened store, or
  inspect and publish a pending proposal. A process that stops anywhere is one whose next operation failed.
\<close>

datatype 'w journal_call =
    OpenStore
  | AppendEntry "entry \<Rightarrow> ('w, unit) action" entry
  | Reconcile string

text \<open>The surroundings and the store that is open, if any.\<close>

fun journal_step :: "'w journal_env \<Rightarrow> 'w \<times> admin_journal option \<Rightarrow> 'w journal_call \<Rightarrow> 'w \<times> admin_journal option" where
  "journal_step env (w, _) OpenStore = (case open_store env w of (Inl _, w') \<Rightarrow> (w', None) | (Inr j, w') \<Rightarrow> (w', Some j))"
| "journal_step env (w, None) (AppendEntry authorize e) = (w, None)"
| "journal_step env (w, Some j) (AppendEntry authorize e) = (case append_entry env authorize e (w, j) of (_, w', j') \<Rightarrow> (w', Some j'))"
| "journal_step env (w, _) (Reconcile reviewed) =
     (case bind_action (recovery_inspect env) (\<lambda>r. recovery_publish env r reviewed) w of (Inl _, w') \<Rightarrow> (w', None) | (Inr j, w') \<Rightarrow> (w', Some j))"

fun callback_ok :: "'w view \<Rightarrow> 'w journal_call \<Rightarrow> bool" where
  "callback_ok view (AppendEntry authorize e) = observes view (authorize e)"
| "callback_ok view _ = True"

lemma inspect_observes: "anchored_env env view \<Longrightarrow> observes view (recovery_inspect env)"
  unfolding recovery_inspect_def by (intro observes_bind observes_lift env_observes published_observes)

definition extends_by :: "admin_journal \<Rightarrow> admin_journal \<Rightarrow> bool" where
  "extends_by J K \<longleftrightarrow> aj_deployment K = aj_deployment J \<and> prefix (aj_entries J) (aj_entries K)"

lemma extends_by_trans: "extends_by J K \<Longrightarrow> extends_by K L \<Longrightarrow> extends_by J L"
  by (auto simp: extends_by_def)

lemma journal_step_anchored:
  assumes env: "anchored_env env view" and J: "anchored_journal (codec env) J (view (fst s))" and call: "callback_ok view c"
  shows "\<exists>K. anchored_journal (codec env) K (view (fst (journal_step env s c))) \<and> extends_by J K"
proof -
  have same: "extends_by J J" and grown: "extends_by J (push_entry J e)" for e by (auto simp: extends_by_def push_entry_def)
  obtain w m where s: "s = (w, m)" by (cases s)
  show ?thesis
  proof (cases c)
    case OpenStore
    obtain r w' where r: "open_store env w = (r, w')" by fastforce
    then have "view w' = view w" using open_store_observes [OF env] unfolding observes_def by blast
    then show ?thesis using J same r OpenStore s by (cases r) auto
  next
    case (AppendEntry authorize e)
    show ?thesis
    proof (cases m)
      case None
      then show ?thesis using J same AppendEntry s by auto
    next
      case (Some j)
      obtain r t where r: "append_entry env authorize e (w, j) = (r, t)" by (cases "append_entry env authorize e (w, j)")
      have "seen view (view w) j (w, j)" by (simp add: seen_def)
      then have "case r of Inl _ \<Rightarrow> anchored_journal (codec env) J (view (fst t)) \<or> anchored_journal (codec env) (push_entry J e) (view (fst t))
        | Inr _ \<Rightarrow> snd t = push_entry J e \<and> settled (codec env) (push_entry J e) (view (fst t))"
        using tripleD [OF append_triple [where authorize = authorize and e = e, OF env], of J "view w" j "(w, j)" r t] call J r s AppendEntry by simp
      then have "anchored_journal (codec env) J (view (fst t)) \<or> anchored_journal (codec env) (push_entry J e) (view (fst t))"
        by (cases r) (auto simp: anchored_journal_def)
      then show ?thesis using r same grown AppendEntry Some s by (cases t) auto
    qed
  next
    case (Reconcile reviewed)
    obtain q w1 where q: "recovery_inspect env w = (q, w1)" by fastforce
    then have w1: "view w1 = view w" using inspect_observes [OF env] unfolding observes_def by blast
    have "anchored_journal (codec env) J (view w2)" if "recovery_publish env r reviewed w1 = (p, w2)" for r p w2
      using tripleD [OF publish_triple [OF env, of J "view w"] w1 that] J s by (cases p) (auto simp: anchored_journal_def)
    then show ?thesis using q w1 J same s Reconcile
      by (auto simp: bind_action_def split: sum.splits prod.splits)
  qed
qed

text \<open>
  C4: The anchored history only grows. From any settled journal, whatever processes open the store, append or reconcile,
  and wherever reading, writing, renaming, authorizing or the TPM fails or loses its reply, there is exactly one journal
  whose head the TPM holds, it extends every earlier such journal of the same deployment, it is on disk as the journal
  or as the pending successor, and no request identifier occurs in it twice.
\<close>

theorem journal_append_only:
  assumes env: "anchored_env env view" and start: "anchored_journal (codec env) J (view w)"
    and calls: "list_all (callback_ok view) (cs @ cs')"
  shows "\<exists>K L. anchored_journal (codec env) K (view (fst (foldl (journal_step env) (w, None) cs)))
    \<and> anchored_journal (codec env) L (view (fst (foldl (journal_step env) (w, None) (cs @ cs'))))
    \<and> extends_by J K \<and> extends_by K L \<and> distinct (map entry_request (aj_entries L))
    \<and> (\<forall>M. anchored_journal (codec env) M (view (fst (foldl (journal_step env) (w, None) (cs @ cs')))) \<longrightarrow> M = L)"
proof -
  have run: "\<exists>K. anchored_journal (codec env) K (view (fst (foldl (journal_step env) s cs))) \<and> extends_by I K"
    if "anchored_journal (codec env) I (view (fst s))" "list_all (callback_ok view) cs" for I s cs
    using that
  proof (induction cs arbitrary: I s)
    case (Cons c cs)
    then obtain K where "anchored_journal (codec env) K (view (fst (journal_step env s c)))" "extends_by I K"
      using journal_step_anchored [OF env] by (metis list.pred_inject(2))
    then show ?case using Cons.IH [of K "journal_step env s c"] Cons.prems(2) extends_by_trans by fastforce
  qed (auto simp: extends_by_def)
  obtain K where K: "anchored_journal (codec env) K (view (fst (foldl (journal_step env) (w, None) cs)))" "extends_by J K"
    using run [of J "(w, None)" cs] start calls by auto
  obtain L where L: "anchored_journal (codec env) L (view (fst (foldl (journal_step env) (w, None) (cs @ cs'))))" "extends_by K L"
    using run [OF K(1), of cs'] calls by auto
  have "distinct (map entry_request (aj_entries L))" using L(1) head_distinct by (auto simp: anchored_journal_def settled_def proposed_def committed_def)
  then show ?thesis using K L anchored_journal_unique [OF anchored_laws(1) [OF env] _ L(1)] by blast
qed

text \<open>
  The head in the TPM determines the journal: two journals with the same head have the same deployment and the same
  entries in the same order, so no rewritten, truncated, reordered or foreign journal passes for the anchored one.
\<close>

theorem journal_head_binds:
  assumes "codec_ok cd" "head cd j = Ok v" "head cd k = Ok v"
  shows "j = k"
  using assms by (rule head_inj)

text \<open>
  C5: Success means durable and exact. An opened store holds exactly the anchored journal; a successful append leaves the
  anchored journal with exactly its entry appended, on disk, in the TPM and in memory, with nothing pending; a
  publication only ever completes a commit the TPM already holds. While anything is pending, opening and appending fail.
\<close>

theorem journal_success_exact:
  assumes env: "anchored_env env view" and J: "anchored_journal (codec env) J (view w)" and auth: "observes view (authorize e)"
  shows "(\<forall>j w'. open_store env w = (Ok j, w') \<longrightarrow> j = J \<and> settled (codec env) J (view w'))
    \<and> (\<forall>j s. append_entry env authorize e (w, j) = (Ok (), s) \<longrightarrow> snd s = push_entry J e \<and> settled (codec env) (push_entry J e) (view (fst s)))
    \<and> (\<forall>r d j w'. recovery_publish env r d w = (Ok j, w') \<longrightarrow> j = J \<and> settled (codec env) J (view w') \<and> \<not> settled (codec env) J (view w))
    \<and> (\<not> settled (codec env) J (view w) \<longrightarrow> (\<forall>j. \<not> is_ok (fst (open_store env w)) \<and> \<not> is_ok (fst (append_entry env authorize e (w, j)))))"
proof -
  have unique: "j = J" if "settled (codec env) j (view w)" for j
    using anchored_journal_unique [OF anchored_laws(1) [OF env] _ J] that by (simp add: anchored_journal_def)
  have opened: "settled (codec env) J (view w) \<and> j = J \<and> view w' = view w" if "open_store env w = (Ok j, w')" for j w'
    using open_store_Ok [OF env that] unique open_store_observes [OF env] that unfolding observes_def by blast
  have appended: "snd s = push_entry J e \<and> settled (codec env) (push_entry J e) (view (fst s))"
    if "append_entry env authorize e (w, j) = (Ok (), s)" for j s
    using triple_Ok [OF append_triple [where authorize = authorize and e = e, OF env auth J] _ that] by (simp add: seen_def)
  have reported: "settled (codec env) J (view w)" if run: "append_entry env authorize e (w, j) = (Ok (), s)" for j s
  proof -
    obtain x t where "store_status env (w, j) = (Ok x, t)" using run unfolding append_entry_def bind_action_Inr by blast
    then have "settled (codec env) j (view w)" using triple_Ok [OF status_triple [OF env, of "view w" j], of "(w, j)" x t] by (simp add: seen_def)
    then show ?thesis using unique by blast
  qed
  have publish: "j = J \<and> settled (codec env) J (view w') \<and> \<not> settled (codec env) J (view w)" if run: "recovery_publish env r d w = (Ok j, w')" for r d j w'
  proof -
    obtain p w1 where "published env w = (Ok p, w1)" using run by (auto simp: recovery_publish_def result_simps split: if_splits)
    then have "committed (codec env) J (view w)" using published_Ok [OF env] J by blast
    then show ?thesis using triple_Ok [OF publish_triple [OF env J] refl run] by (auto simp: committed_def settled_def)
  qed
  have "\<not> is_ok (fst (open_store env w))" if unsettled: "\<not> settled (codec env) J (view w)"
    using opened unsettled by (cases "open_store env w") (auto simp: is_ok_iff)
  moreover have "\<not> is_ok (fst (append_entry env authorize e (w, j)))" if unsettled: "\<not> settled (codec env) J (view w)" for j
    using reported unsettled by (cases "append_entry env authorize e (w, j)") (auto simp: is_ok_iff)
  ultimately show ?thesis using opened appended publish by (metis (no_types))
qed

section \<open>A journal in three cells\<close>

text \<open>Texts and numbers with their lengths in front, and back.\<close>

definition put_text :: "string \<Rightarrow> bytes" where
  "put_text s = length s # map of_char s"

fun get_text :: "bytes \<Rightarrow> string \<times> bytes" where
  "get_text (n # xs) = (map char_of (take n xs), drop n xs)"
| "get_text [] = ([], [])"

definition put_entry :: "entry \<Rightarrow> bytes" where
  "put_entry e = put_text (entry_request e) @ unat (entry_uid e) # unat (milliseconds (entry_clock e)) # unat (reset_count (entry_clock e))
     # unat (restart_count (entry_clock e)) # put_text (entry_activity e) @ put_text (entry_payload e)"

definition get_entry :: "bytes \<Rightarrow> (entry \<times> bytes) option" where
  "get_entry xs = (case get_text xs of (r, u # m # a # b # ys) \<Rightarrow> (case get_text ys of (act, zs) \<Rightarrow> (case get_text zs of (pay, rest) \<Rightarrow>
       Some (\<lparr>entry_request = r, entry_uid = of_nat u, entry_clock = \<lparr>milliseconds = of_nat m, reset_count = of_nat a, restart_count = of_nat b\<rparr>,
         entry_activity = act, entry_payload = pay\<rparr>, rest)))
     | _ \<Rightarrow> None)"

fun get_entries :: "nat \<Rightarrow> bytes \<Rightarrow> entry list option" where
  "get_entries 0 xs = Some []"
| "get_entries (Suc n) xs = (case get_entry xs of None \<Rightarrow> None | Some (e, ys) \<Rightarrow> map_option (\<lambda>es. e # es) (get_entries n ys))"

definition put_journal :: "admin_journal \<Rightarrow> bytes" where
  "put_journal j = unat (aj_schema j) # put_text (aj_deployment j) @ length (aj_entries j) # concat (map put_entry (aj_entries j))"

fun get_journal :: "bytes \<Rightarrow> admin_journal option" where
  "get_journal (v # xs) = (case get_text xs of (d, n # ys) \<Rightarrow>
     map_option (\<lambda>es. \<lparr>aj_schema = of_nat v, aj_deployment = d, aj_entries = es\<rparr>) (get_entries n ys) | _ \<Rightarrow> None)"
| "get_journal [] = None"

lemma get_put_text [simp]: "get_text (put_text s @ xs) = (s, xs)" "get_text (put_text s) = (s, [])"
  by (simp_all add: put_text_def comp_def)

lemma get_put_entry: "get_entry (put_entry e @ xs) = Some (e, xs)"
  by (simp add: put_entry_def get_entry_def)

lemma get_put_entries: "get_entries (length es) (concat (map put_entry es)) = Some es"
  by (induction es) (simp_all add: get_put_entry)

lemma get_put_journal: "get_journal (put_journal j) = Some j"
  by (simp add: put_journal_def get_put_entries)

definition cell_codec :: journal_codec where
  "cell_codec = \<lparr>sha256 = (\<lambda>x. list_encode x # replicate 31 0), print_entry = put_entry, print_admin_journal = put_journal,
     parse_admin_journal = get_journal, print_publication = (\<lambda>p. put_text (pub_request p))\<rparr>"

lemma cell_codec_ok: "codec_ok cell_codec"
proof -
  have "e = e'" if "put_entry e = put_entry e'" for e e'
    using get_put_entry [of e "[]"] get_put_entry [of e' "[]"] that by simp
  then show ?thesis by (simp add: codec_ok_def cell_codec_def get_put_journal list_encode_eq)
qed

definition cell_journal :: "(bytes \<times> bytes option \<times> bytes) journal_env" where
  "cell_journal = \<lparr>codec = cell_codec,
     private_read = (\<lambda>f w. (case f of JournalFile \<Rightarrow> Ok (fst w) | PendingFile \<Rightarrow> ok_or (fst (snd w)) ''no such file'', w)),
     pending_exists = (\<lambda>w. (Ok (fst (snd w) \<noteq> None), w)), write_pending = (\<lambda>b w. (Ok (), (fst w, Some b, snd (snd w)))),
     sync_pending = (\<lambda>w. (Ok (), w)),
     rename_pending = (\<lambda>w. (case fst (snd w) of None \<Rightarrow> (Err ''no such file'', w) | Some b \<Rightarrow> (Ok (), (b, None, snd (snd w))))),
     sync_directory = (\<lambda>w. (Ok (), w)), anchor_read = (\<lambda>w. (Ok (snd (snd w)), w)),
     anchor_clock = (\<lambda>w. (Ok \<lparr>milliseconds = 10, reset_count = 0, restart_count = 0\<rparr>, w)),
     anchor_advance = (\<lambda>x y w. if snd (snd w) \<noteq> x then (Err ''conflict'', w)
       else (Ok (extend_value cell_codec x y), (fst w, fst (snd w), extend_value cell_codec x y)))\<rparr>"

lemma cell_anchored: "anchored_env cell_journal (\<lambda>w. w)"
  by (auto simp: anchored_env_def cell_journal_def cell_codec_ok is_ok_iff result_simps split: option.splits if_splits)

definition empty_journal :: admin_journal where
  "empty_journal = \<lparr>aj_schema = 1, aj_deployment = replicate 64 CHR ''3'', aj_entries = []\<rparr>"

lemma empty_head: "\<exists>t. head cell_codec empty_journal = Ok t"
proof -
  have "is_lower_hex CHR ''3''" by code_simp
  then show ?thesis by (simp add: head_def genesis_def empty_journal_def tpm_decode_replicate MAX_EVENTS_def)
qed

definition cell_entry :: entry where
  "cell_entry = \<lparr>entry_request = ''request-1'', entry_uid = 1001, entry_clock = \<lparr>milliseconds = 5, reset_count = 0, restart_count = 0\<rparr>,
     entry_activity = ''policy.audit'', entry_payload = replicate 64 CHR ''1''\<rparr>"

definition cell_start :: "bytes \<times> bytes option \<times> bytes" where
  "cell_start = (put_journal empty_journal, None, (case head cell_codec empty_journal of Inl _ \<Rightarrow> [] | Inr t \<Rightarrow> t))"

lemma cell_settled: "settled (codec cell_journal) empty_journal cell_start"
  using empty_head by (auto simp: settled_def cell_start_def cell_journal_def cell_codec_def)

lemma cell_open: "open_store cell_journal cell_start = (Ok empty_journal, cell_start)"
proof -
  have "read_journal cell_journal JournalFile cell_start = (Ok (empty_journal, put_journal empty_journal), cell_start)"
    by (simp add: read_journal_def cell_journal_def cell_codec_def cell_start_def bind_action_def get_put_journal)
  moreover obtain t where "head cell_codec empty_journal = Ok t" using empty_head by blast
  ultimately show ?thesis
    by (simp add: open_store_def bind_action_def) (simp add: cell_journal_def cell_start_def bind_action_def)
qed

theorem journal_append_only_witness:
  "\<exists>K L. anchored_journal cell_codec K (fst (foldl (journal_step cell_journal) (cell_start, None) [OpenStore]))
    \<and> anchored_journal cell_codec L (fst (foldl (journal_step cell_journal) (cell_start, None)
         [OpenStore, AppendEntry (\<lambda>_ w. (Ok (), w)) cell_entry, Reconcile (replicate 64 CHR ''3''), OpenStore]))
    \<and> extends_by empty_journal K \<and> extends_by K L"
proof -
  have start: "anchored_journal (codec cell_journal) empty_journal cell_start" using cell_settled by (simp add: anchored_journal_def)
  have calls: "list_all (callback_ok (\<lambda>w. w)) ([OpenStore] @ [AppendEntry (\<lambda>_ w. (Ok (), w)) cell_entry, Reconcile (replicate 64 CHR ''3''), OpenStore])"
    by (simp add: observes_def)
  have "codec cell_journal = cell_codec" by (simp add: cell_journal_def)
  then show ?thesis using journal_append_only [OF cell_anchored start calls] by auto
qed

theorem journal_head_binds_witness:
  "codec_ok cell_codec \<and> (\<exists>v. head cell_codec empty_journal = Ok v \<and> \<lparr>aj_schema = 1, aj_deployment = replicate 64 CHR ''3'', aj_entries = []\<rparr> = empty_journal)"
proof -
  obtain v where v: "head cell_codec empty_journal = Ok v" using empty_head by blast
  moreover have "head cell_codec \<lparr>aj_schema = 1, aj_deployment = replicate 64 CHR ''3'', aj_entries = []\<rparr> = Ok v" using v by (simp add: empty_journal_def)
  ultimately show ?thesis using journal_head_binds [OF cell_codec_ok, of _ v empty_journal] cell_codec_ok by blast
qed

theorem journal_success_exact_witness:
  "open_store cell_journal cell_start = (Ok empty_journal, cell_start) \<and> settled (codec cell_journal) empty_journal cell_start"
proof -
  have start: "anchored_journal (codec cell_journal) empty_journal cell_start" using cell_settled by (simp add: anchored_journal_def)
  have "observes (\<lambda>w. w) ((\<lambda>_ w. (Ok (), w)) cell_entry)" by (simp add: observes_def)
  then show ?thesis using journal_success_exact [OF cell_anchored start, of "\<lambda>_ w. (Ok (), w)" cell_entry] cell_open by blast
qed

end
