(* ===== verification/Governance_Safety.thy ===== *)
theory Governance_Safety
  imports Governance Catalog_Guarantees Journal_Safety
begin

text \<open>
  What the replay of an anchored journal guarantees: it is a run of the governance catalog, the journal and not the state
  directory determines its outcome, and what a longer journal adds never restores authority that ended.
\<close>

section \<open>One entry\<close>

abbreviation event_step :: "governance_codec \<Rightarrow> catalog_event \<Rightarrow> command \<times> string" where
  "event_step cd ev \<equiv> (ev_command ev, digest_text cd (encode_event cd ev))"

lemma read_event_Ok: "read_event cd dir request = Ok (ev, b) \<Longrightarrow> decode_event cd b = Some ev \<and> b = encode_event cd ev
  \<and> ev_request ev = request \<and> file_content dir (event_name cd request) = Some b"
  by (auto simp: read_event_def dir_read_def result_simps)

lemma read_record_Ok: "read_record sv cd dir request = Ok (r, b) \<Longrightarrow> decode_record cd b = Some r \<and> record_request r = request
  \<and> file_content dir (event_name cd request) = Some b"
  by (auto simp: read_record_def dir_read_def result_simps split: if_splits)

lemma event_entry_Ok:
  assumes "replay_event_entry sv cd ctx dir snap i e st = Ok st'"
  obtains ev c where "read_event cd dir (entry_request e) = Ok (ev, encode_event cd ev)" "entry_payload e = digest_text cd (encode_event cd ev)"
    "state_version_before ev = state_version (rp_catalog st)" "ev_sequence ev = i + 1" "event_writer ctx (rp_catalog st) (ev_command ev) = Ok (ev_principal ev)"
    "apply_command sv (ev_command ev) (rp_catalog st) = (Ok True, c)"
    "st' = st\<lparr>rp_catalog := retain_assignment_receipt (ev_command ev) (digest_text cd (encode_event cd ev)) c, rp_events := rp_events st @ [ev],
      rp_names := insert (event_name cd (entry_request e)) (rp_names st)\<rparr>"
proof -
  obtain ev b where r: "read_event cd dir (entry_request e) = Ok (ev, b)"
    using assms by (auto simp: replay_event_entry_def result_simps)
  then have "b = encode_event cd ev" by (simp add: read_event_Ok)
  with r assms show thesis
    by (auto simp: replay_event_entry_def result_simps split: prod.splits sum.splits bool.splits if_splits intro!: that)
qed

lemma history_entry_Ok:
  assumes "replay_history_entry sv cd ctx dir snap i e st = Ok st'"
  obtains r b h where "read_record sv cd dir (entry_request e) = Ok (r, b)" "entry_payload e = digest_text cd b"
    "apply_history (approved_utc sv) (rp_history st) r = Ok h"
    "st' = st\<lparr>rp_history := h, rp_records := rp_records st @ [r], rp_names := insert (event_name cd (entry_request e)) (rp_names st)\<rparr>"
  using assms by (auto simp: replay_history_entry_def result_simps split: prod.splits)

section \<open>A run of the catalog\<close>

definition replayed :: "catalog_services \<Rightarrow> governance_codec \<Rightarrow> replay \<Rightarrow> bool" where
  "replayed sv cd st \<longleftrightarrow> rp_catalog st = catalog_run sv (map (event_step cd) (rp_events st))
     \<and> foldl (\<lambda>h r. and_then h (\<lambda>h. apply_history (approved_utc sv) h r)) (Ok initial_history) (rp_records st) = Ok (rp_history st)
     \<and> unat (state_version (rp_catalog st)) = Suc (length (rp_events st))
     \<and> (\<forall>k < length (rp_events st). unat (state_version_before (rp_events st ! k)) = Suc k)"

lemma apply_command_version: "apply_command sv cmd c = (Ok True, c') \<Longrightarrow> checked_add (state_version c) 1 = Some (state_version c')"
  by (auto simp: apply_command_def split: sum.splits option.splits prod.splits bool.splits)

lemma retain_version [simp]: "state_version (retain_assignment_receipt cmd d c) = state_version c"
  using retain_cases [of cmd d c] by auto

lemma replayed_entry:
  assumes "replay_entry sv cd ctx dir snap i e st = Ok st'" "replayed sv cd st"
  shows "replayed sv cd st'"
proof (cases "entry_activity e = HISTORY_ACTIVITY")
  case True
  with assms(1) show ?thesis unfolding replay_entry_def
    by (simp, elim history_entry_Ok) (use assms(2) in \<open>auto simp: replayed_def\<close>)
next
  case False
  with assms(1) obtain ev c where ev: "state_version_before ev = state_version (rp_catalog st)"
    "apply_command sv (ev_command ev) (rp_catalog st) = (Ok True, c)"
    and st': "st' = st\<lparr>rp_catalog := retain_assignment_receipt (ev_command ev) (digest_text cd (encode_event cd ev)) c,
      rp_events := rp_events st @ [ev], rp_names := insert (event_name cd (entry_request e)) (rp_names st)\<rparr>"
    unfolding replay_entry_def by (auto elim: event_entry_Ok)
  have "rp_catalog st' = catalog_step sv (rp_catalog st) (event_step cd ev)" by (simp add: st' catalog_step_def ev(2))
  moreover have "unat (state_version (rp_catalog st')) = Suc (unat (state_version (rp_catalog st)))"
    using checked_add_one [OF apply_command_version [OF ev(2)]] by (simp add: st')
  ultimately show ?thesis using assms(2) ev(1) by (auto simp: replayed_def st' nth_append less_Suc_eq)
qed

lemma replayed_from: "replay_from sv cd ctx dir snap i es st = Ok st' \<Longrightarrow> replayed sv cd st \<Longrightarrow> replayed sv cd st'"
  by (induction es arbitrary: i st) (auto simp: result_simps dest: replayed_entry)

lemma replayed_initial: "replayed sv cd replay_initial"
  by (simp add: replayed_def replay_initial_def catalog_initial_def)

lemma replay_from_grows:
  assumes "replay_from sv cd ctx dir snap i es st = Ok st'"
  shows "\<exists>evs rs. rp_events st' = rp_events st @ evs \<and> rp_records st' = rp_records st @ rs \<and> length evs + length rs = length es"
  using assms
proof (induction es arbitrary: i st)
  case (Cons e es)
  then obtain st1 where st1: "replay_entry sv cd ctx dir snap i e st = Ok st1" "replay_from sv cd ctx dir snap (i + 1) es st1 = Ok st'"
    by (auto simp: result_simps)
  then have "\<exists>evs rs. rp_events st1 = rp_events st @ evs \<and> rp_records st1 = rp_records st @ rs \<and> length evs + length rs = 1"
    by (auto simp: replay_entry_def elim!: event_entry_Ok history_entry_Ok split: if_splits)
  then show ?case using Cons.IH [OF st1(2)] by fastforce
qed simp

lemma governance_replay_Ok: "governance_replay sv cd ctx dir snap proposal = Ok st \<Longrightarrow>
  replay_from sv cd ctx dir snap 1 (drop 1 (snap_entries snap)) replay_initial = Ok st"
  by (auto simp: governance_replay_def result_simps Let_def split: if_splits)

text \<open>
  What binds an event file, or a UTC record, to its numbered entry of the journal: the request, the digest of the exact
  bytes, the activity or user the entry was authenticated for, its position and the head before it.
\<close>

definition event_anchored :: "governance_codec \<Rightarrow> governance_context \<Rightarrow> snapshot \<Rightarrow> nat \<times> entry \<Rightarrow> catalog_event \<Rightarrow> bool" where
  "event_anchored cd ctx snap = (\<lambda>(i, e) ev. ev_request ev = entry_request e \<and> entry_payload e = digest_text cd (encode_event cd ev)
     \<and> entry_activity e = command_activity (ev_command ev) \<and> entry_uid e = identity_uid (ev_principal ev) \<and> ev_sequence ev = i + 1
     \<and> head_at snap i = Some (ev_previous_head ev) \<and> ev_deployment ev = ctx_deployment ctx
     \<and> ev_enrollment ev = digest_text cd (ctx_enrollment ctx))"

definition record_anchored :: "governance_codec \<Rightarrow> governance_context \<Rightarrow> snapshot \<Rightarrow> nat \<times> entry \<Rightarrow> history_record \<Rightarrow> bool" where
  "record_anchored cd ctx snap = (\<lambda>(i, e) r. record_request r = entry_request e \<and> entry_payload e = digest_text cd (encode_record cd r)
     \<and> entry_uid e = identity_uid (ctx_principal ctx) \<and> record_sequence r = i + 1 \<and> head_at snap i = Some (previous_head r)
     \<and> deployment r = ctx_deployment ctx \<and> enrollment_sha256 r = digest_text cd (ctx_enrollment ctx))"

definition history_entry :: "nat \<times> entry \<Rightarrow> bool" where
  "history_entry = (\<lambda>(i, e). entry_activity e = HISTORY_ACTIVITY)"

lemma event_entry_anchored:
  assumes "replay_event_entry sv cd ctx dir snap i e st = Ok st'"
  shows "\<exists>ev. event_anchored cd ctx snap (i, e) ev \<and> rp_events st' = rp_events st @ [ev] \<and> rp_records st' = rp_records st"
proof -
  obtain ev b where r: "read_event cd dir (entry_request e) = Ok (ev, b)" using assms by (auto simp: replay_event_entry_def result_simps)
  then have "b = encode_event cd ev" "ev_request ev = entry_request e" by (simp_all add: read_event_Ok)
  with r assms show ?thesis
    by (auto simp: replay_event_entry_def event_anchored_def result_simps split: prod.splits sum.splits bool.splits if_splits)
qed

lemma history_entry_anchored:
  assumes "replay_history_entry sv cd ctx dir snap i e st = Ok st'"
  shows "\<exists>r. record_anchored cd ctx snap (i, e) r \<and> rp_records st' = rp_records st @ [r] \<and> rp_events st' = rp_events st"
proof -
  obtain r b where r: "read_record sv cd dir (entry_request e) = Ok (r, b)" using assms by (auto simp: replay_history_entry_def result_simps)
  then have "b = encode_record cd r" "record_request r = entry_request e" by (auto simp: read_record_def result_simps split: if_splits)
  with r assms show ?thesis
    by (auto simp: replay_history_entry_def record_anchored_def result_simps split: if_splits)
qed

lemma replay_from_anchored:
  assumes "replay_from sv cd ctx dir snap i es st = Ok st'"
  shows "\<exists>evs rs. rp_events st' = rp_events st @ evs \<and> rp_records st' = rp_records st @ rs
    \<and> list_all2 (event_anchored cd ctx snap) (filter (\<lambda>x. \<not> history_entry x) (enumerate i es)) evs
    \<and> list_all2 (record_anchored cd ctx snap) (filter history_entry (enumerate i es)) rs"
  using assms
proof (induction es arbitrary: i st)
  case (Cons e es)
  then obtain st1 where st1: "replay_entry sv cd ctx dir snap i e st = Ok st1" "replay_from sv cd ctx dir snap (Suc i) es st1 = Ok st'"
    by (auto simp: result_simps)
  obtain evs rs where rest: "rp_events st' = rp_events st1 @ evs" "rp_records st' = rp_records st1 @ rs"
    "list_all2 (event_anchored cd ctx snap) (filter (\<lambda>x. \<not> history_entry x) (enumerate (Suc i) es)) evs"
    "list_all2 (record_anchored cd ctx snap) (filter history_entry (enumerate (Suc i) es)) rs"
    using Cons.IH [OF st1(2)] by blast
  show ?case
  proof (cases "entry_activity e = HISTORY_ACTIVITY")
    case True
    then obtain r where "record_anchored cd ctx snap (i, e) r" "rp_records st1 = rp_records st @ [r]" "rp_events st1 = rp_events st"
      using st1(1) history_entry_anchored unfolding replay_entry_def by metis
    with rest True show ?thesis by (intro exI [of _ evs] exI [of _ "r # rs"]) (simp add: history_entry_def)
  next
    case False
    then obtain ev where "event_anchored cd ctx snap (i, e) ev" "rp_events st1 = rp_events st @ [ev]" "rp_records st1 = rp_records st"
      using st1(1) event_entry_anchored unfolding replay_entry_def by metis
    with rest False show ?thesis by (intro exI [of _ "ev # evs"] exI [of _ rs]) (simp add: history_entry_def)
  qed
qed simp

text \<open>
  C3: Replay refines the governance catalog by exactly the anchored commands. When a snapshot of the journal replays, every
  entry after the bootstrap is answered in order by one event file or one UTC record that is bound to it by its request,
  the digest of its bytes, its activity and user, its position and the head before it; the catalog is the run of exactly
  the commands of these events from the empty catalog, with the receipt of every assignment the digest of its own event;
  the UTC history is the run of these records; and the events carry the consecutive catalog versions from one.
\<close>

theorem replay_refines_catalog:
  assumes "governance_replay sv cd ctx dir snap proposal = Ok st"
  shows "list_all2 (event_anchored cd ctx snap) (filter (\<lambda>x. \<not> history_entry x) (enumerate 1 (drop 1 (snap_entries snap)))) (rp_events st)
    \<and> list_all2 (record_anchored cd ctx snap) (filter history_entry (enumerate 1 (drop 1 (snap_entries snap)))) (rp_records st)
    \<and> rp_catalog st = foldl (catalog_step sv) catalog_initial (map (\<lambda>ev. (ev_command ev, digest_text cd (encode_event cd ev))) (rp_events st))
    \<and> foldl (\<lambda>h r. and_then h (\<lambda>h. apply_history (approved_utc sv) h r)) (Ok initial_history) (rp_records st) = Ok (rp_history st)
    \<and> length (rp_events st) + length (rp_records st) = length (snap_entries snap) - 1
    \<and> (\<forall>k < length (rp_events st). unat (state_version_before (rp_events st ! k)) = Suc k)
    \<and> unat (state_version (rp_catalog st)) = Suc (length (rp_events st))"
proof -
  note run = governance_replay_Ok [OF assms]
  have "replayed sv cd st" by (rule replayed_from [OF run replayed_initial])
  moreover have "length (rp_events st) + length (rp_records st) = length (snap_entries snap) - 1"
    using replay_from_grows [OF run] by (auto simp: replay_initial_def)
  moreover have "list_all2 (event_anchored cd ctx snap) (filter (\<lambda>x. \<not> history_entry x) (enumerate 1 (drop 1 (snap_entries snap)))) (rp_events st)"
    "list_all2 (record_anchored cd ctx snap) (filter history_entry (enumerate 1 (drop 1 (snap_entries snap)))) (rp_records st)"
    using replay_from_anchored [OF run] by (auto simp: replay_initial_def)
  ultimately show ?thesis unfolding replayed_def by blast
qed

section \<open>The journal decides\<close>

text \<open>The contents of the state directories, among which SHA-256 is relied on to have no collision.\<close>

definition contents :: "admin_directory \<Rightarrow> bytes set" where
  "contents dir = {b. \<exists>name. file_content dir name = Some b}"

definition no_collision :: "governance_codec \<Rightarrow> bytes set \<Rightarrow> bool" where
  "no_collision cd B \<longleftrightarrow> inj_on (digest_text cd) B"

lemma same_content:
  assumes "no_collision cd (contents d1 \<union> contents d2)" "file_content d1 n1 = Some b1" "file_content d2 n2 = Some b2" "digest_text cd b1 = digest_text cd b2"
  shows "b1 = b2"
  using assms unfolding no_collision_def contents_def inj_on_def by blast

lemma replay_entry_same:
  assumes nc: "no_collision cd (contents d1 \<union> contents d2)"
    and "replay_entry sv cd ctx d1 snap i e st = Ok s1" "replay_entry sv cd ctx d2 snap i e st = Ok s2"
  shows "s1 = s2"
proof (cases "entry_activity e = HISTORY_ACTIVITY")
  case True
  have r1: "replay_history_entry sv cd ctx d1 snap i e st = Ok s1" and r2: "replay_history_entry sv cd ctx d2 snap i e st = Ok s2"
    using assms(2,3) True by (simp_all add: replay_entry_def)
  obtain r b where 1: "read_record sv cd d1 (entry_request e) = Ok (r, b)" "entry_payload e = digest_text cd b" using r1 by (rule history_entry_Ok)
  obtain r' b' where 2: "read_record sv cd d2 (entry_request e) = Ok (r', b')" "entry_payload e = digest_text cd b'" using r2 by (rule history_entry_Ok)
  have "b = b'" using read_record_Ok [OF 1(1)] read_record_Ok [OF 2(1)] 1(2) 2(2) by (intro same_content [OF nc]) auto
  then have "read_record sv cd d2 (entry_request e) = read_record sv cd d1 (entry_request e)"
    using 1(1) 2(1) read_record_Ok [OF 1(1)] read_record_Ok [OF 2(1)] by simp
  then show ?thesis using r1 r2 by (simp add: replay_history_entry_def)
next
  case False
  have r1: "replay_event_entry sv cd ctx d1 snap i e st = Ok s1" and r2: "replay_event_entry sv cd ctx d2 snap i e st = Ok s2"
    using assms(2,3) False by (simp_all add: replay_entry_def)
  obtain ev where 1: "read_event cd d1 (entry_request e) = Ok (ev, encode_event cd ev)" "entry_payload e = digest_text cd (encode_event cd ev)"
    using r1 by (rule event_entry_Ok)
  obtain ev' where 2: "read_event cd d2 (entry_request e) = Ok (ev', encode_event cd ev')" "entry_payload e = digest_text cd (encode_event cd ev')"
    using r2 by (rule event_entry_Ok)
  have c: "file_content d1 (event_name cd (entry_request e)) = Some (encode_event cd ev)" "file_content d2 (event_name cd (entry_request e)) = Some (encode_event cd ev')"
    "decode_event cd (encode_event cd ev) = Some ev" "decode_event cd (encode_event cd ev') = Some ev'"
    using read_event_Ok [OF 1(1)] read_event_Ok [OF 2(1)] by blast+
  have "encode_event cd ev = encode_event cd ev'" by (rule same_content [OF nc c(1,2)]) (simp flip: 1(2) 2(2))
  then have "decode_event cd (encode_event cd ev) = decode_event cd (encode_event cd ev')" by (rule arg_cong)
  then have "ev = ev'" unfolding c(3,4) by simp
  then have "read_event cd d2 (entry_request e) = read_event cd d1 (entry_request e)" unfolding 1(1) 2(1) by simp
  then show ?thesis using r1 r2 by (simp add: replay_event_entry_def)
qed

lemma replay_from_same:
  assumes "no_collision cd (contents d1 \<union> contents d2)"
  shows "replay_from sv cd ctx d1 snap i es st = Ok s1 \<Longrightarrow> replay_from sv cd ctx d2 snap i es st = Ok s2 \<Longrightarrow> s1 = s2"
proof (induction es arbitrary: i st)
  case (Cons e es)
  then obtain t1 t2 where t: "replay_entry sv cd ctx d1 snap i e st = Ok t1" "replay_entry sv cd ctx d2 snap i e st = Ok t2"
    "replay_from sv cd ctx d1 snap (i + 1) es t1 = Ok s1" "replay_from sv cd ctx d2 snap (i + 1) es t2 = Ok s2"
    by (auto simp: result_simps)
  then show ?case using Cons.IH replay_entry_same [OF assms t(1,2)] by blast
qed simp

text \<open>
  C2: The journal decides, not the disk. Two replays of one snapshot, from state directories with any content and for
  any proposal, that both succeed give the same catalog, events, UTC history and records: no file of the state directory
  can be replaced by another that replays, as long as no two of the files at hand have the same SHA-256 digest.
\<close>

theorem replay_determined:
  assumes "no_collision cd (contents d1 \<union> contents d2)"
    and "governance_replay sv cd ctx d1 snap p1 = Ok s1" "governance_replay sv cd ctx d2 snap p2 = Ok s2"
  shows "s1 = s2"
  using replay_from_same [OF assms(1)] governance_replay_Ok assms(2,3) by blast

section \<open>A longer journal\<close>

lemma replay_entry_heads: "head_at snap i = head_at snap' i \<Longrightarrow> replay_entry sv cd ctx dir snap i e st = replay_entry sv cd ctx dir snap' i e st"
  by (simp add: replay_entry_def replay_history_entry_def replay_event_entry_def)

lemma replay_from_heads:
  assumes "\<And>k. i \<le> k \<Longrightarrow> k < i + length es \<Longrightarrow> head_at snap k = head_at snap' k"
  shows "replay_from sv cd ctx dir snap i es st = replay_from sv cd ctx dir snap' i es st"
  using assms
proof (induction es arbitrary: i st)
  case (Cons e es)
  have "replay_from sv cd ctx dir snap (i + 1) es = replay_from sv cd ctx dir snap' (i + 1) es"
    using Cons.prems by (intro ext Cons.IH) auto
  then show ?case using replay_entry_heads [of snap i snap'] Cons.prems [of i] by simp
qed simp

lemma replay_from_append:
  "replay_from sv cd ctx dir snap i (es @ es') st = and_then (replay_from sv cd ctx dir snap i es st) (replay_from sv cd ctx dir snap (i + length es) es')"
proof (induction es arbitrary: i st)
  case (Cons e es)
  then show ?case by (cases "replay_entry sv cd ctx dir snap i e st") simp_all
qed simp

text \<open>A snapshot of an extension of the journal, as the journal only grows.\<close>

definition snapshot_extends :: "snapshot \<Rightarrow> snapshot \<Rightarrow> bool" where
  "snapshot_extends snap snap' \<longleftrightarrow> snap_entries snap \<noteq> [] \<and> (\<exists>es. snap_entries snap' = snap_entries snap @ es)
     \<and> length (prefix_heads snap) = length (snap_entries snap) + 1 \<and> (\<exists>hs. prefix_heads snap' = prefix_heads snap @ hs)"

lemma replay_extended:
  assumes nc: "no_collision cd (contents d1 \<union> contents d2)" and ext: "snapshot_extends snap snap'"
    and r: "governance_replay sv cd ctx d1 snap p1 = Ok s1" "governance_replay sv cd ctx d2 snap' p2 = Ok s2"
  shows "\<exists>es i. replay_from sv cd ctx d2 snap' i es s1 = Ok s2"
proof -
  obtain es hs where e: "snap_entries snap' = snap_entries snap @ es" "snap_entries snap \<noteq> []"
    and h: "prefix_heads snap' = prefix_heads snap @ hs" "length (prefix_heads snap) = length (snap_entries snap) + 1"
    using ext by (auto simp: snapshot_extends_def)
  let ?old = "drop 1 (snap_entries snap)"
  have d: "drop 1 (snap_entries snap') = ?old @ es" using e by (cases "snap_entries snap") auto
  have "replay_from sv cd ctx d2 snap 1 ?old replay_initial = replay_from sv cd ctx d2 snap' 1 ?old replay_initial"
    by (rule replay_from_heads) (use h in \<open>auto simp: head_at_def nth_append\<close>)
  then obtain m where m: "replay_from sv cd ctx d2 snap 1 ?old replay_initial = Ok m" "replay_from sv cd ctx d2 snap' (1 + length ?old) es m = Ok s2"
    using governance_replay_Ok [OF r(2)] unfolding d replay_from_append by (auto simp: result_simps)
  then have "m = s1" using replay_from_same [OF nc governance_replay_Ok [OF r(1)]] by blast
  then show ?thesis using m(2) by blast
qed

lemma replay_from_floor:
  "replay_from sv cd ctx dir snap i es st = Ok st' \<Longrightarrow> history_floor_ms (rp_history st) \<le> history_floor_ms (rp_history st')"
proof (induction es arbitrary: i st)
  case (Cons e es)
  then obtain st1 where st1: "replay_entry sv cd ctx dir snap i e st = Ok st1" "replay_from sv cd ctx dir snap (i + 1) es st1 = Ok st'"
    by (auto simp: result_simps)
  then have "history_floor_ms (rp_history st) \<le> history_floor_ms (rp_history st1)"
    by (auto simp: replay_entry_def elim!: event_entry_Ok history_entry_Ok dest: history_step split: if_splits)
  then show ?case using Cons.IH [OF st1(2)] by simp
qed simp

text \<open>
  C1: What the TPM has seen is final. Let one snapshot replay, and a later one, of an extension of the journal, from
  whatever the state directory then holds. If the later catalog authorizes a use under a grant, the earlier one had not
  revoked the grant or its assignment, had not deleted the subject, and held no later generation of it; and the protected
  UTC floor and the catalog version never go back.
\<close>

theorem anchored_revocation_final:
  assumes "no_collision cd (contents d1 \<union> contents d2)" "snapshot_extends snap snap'"
    and r1: "governance_replay sv cd ctx d1 snap p1 = Ok s1" and r2: "governance_replay sv cd ctx d2 snap' p2 = Ok s2"
  shows "(\<forall>g who i u x. authorize g (rp_catalog s2) who i u = Ok x \<longrightarrow> authority_intact g (rp_catalog s1))
    \<and> history_floor_ms (rp_history s1) \<le> history_floor_ms (rp_history s2) \<and> state_version (rp_catalog s1) \<le> state_version (rp_catalog s2)"
proof -
  obtain es i where run: "replay_from sv cd ctx d2 snap' i es s1 = Ok s2" using replay_extended [OF assms] by blast
  obtain evs where evs: "rp_events s2 = rp_events s1 @ evs" using replay_from_grows [OF run] by blast
  have "replayed sv cd s1" "replayed sv cd s2"
    using replayed_from [OF governance_replay_Ok [OF r1] replayed_initial] replayed_from [OF governance_replay_Ok [OF r2] replayed_initial] .
  then have "catalog_le (rp_catalog s1) (rp_catalog s2)"
    using catalog.le_run_append [of sv catalog_initial "map (event_step cd) (rp_events s1)" "map (event_step cd) evs"] evs
    by (simp add: replayed_def catalog_ok_initial)
  then show ?thesis using authorized_intact replay_from_floor [OF run] by (auto simp: catalog_le_def)
qed

section \<open>Snapshots of the growing journal\<close>

lemma prefix_values_append:
  assumes "prefix_values cd d i v (es @ es') = Ok hs"
  shows "\<exists>hs1 hs2. prefix_values cd d i v es = Ok hs1 \<and> hs = hs1 @ hs2 \<and> length hs1 = length es + 1"
  using assms
proof (induction es arbitrary: i v hs)
  case Nil
  then show ?case by (cases es') (auto simp: result_simps)
next
  case (Cons e es)
  then obtain d' hs' where d': "entry_digest cd d i e = Ok d'" "prefix_values cd d (i + 1) (extend_value cd v d') (es @ es') = Ok hs'" "hs = hex v # hs'"
    by (auto simp: result_simps)
  then obtain hs1 hs2 where "prefix_values cd d (i + 1) (extend_value cd v d') es = Ok hs1" "hs' = hs1 @ hs2" "length hs1 = length es + 1"
    using Cons.IH by blast
  then show ?case using d' by (auto simp: result_simps)
qed

lemma snapshot_Ok:
  assumes env: "anchored_env env view" and J: "anchored_journal (codec env) J (view w)" and run: "store_snapshot env (w, j) = (Ok snap, s)"
  shows "snap_entries snap = aj_entries J \<and> (\<exists>g. genesis (codec env) (aj_deployment J) = Ok g
    \<and> prefix_values (codec env) (aj_deployment J) 0 (extend_value (codec env) (replicate 32 0) g) (aj_entries J) = Ok (prefix_heads snap))"
proof -
  obtain x t where st: "store_status env (w, j) = (Ok x, t)" using run by (auto simp: store_snapshot_def result_simps)
  then have "settled (codec env) j (view w)" "snd t = j"
    using triple_Ok [OF status_triple [OF env, of "view w" j], of "(w, j)" x t] by (simp_all add: seen_def)
  then have "j = J" using anchored_journal_unique [OF anchored_laws(1) [OF env] _ J] by (simp add: anchored_journal_def)
  then show ?thesis using run st \<open>snd t = j\<close> by (cases x) (auto simp: store_snapshot_def bind_action_def with_journal_def result_simps)
qed

text \<open>
  Snapshots follow the growing journal. Two snapshots the store returns, the later one after the anchored journal was
  extended, are such that the later one has the entries of the earlier one and its prefix heads first; so what was
  anchored under a head stays under that head.
\<close>

lemma snapshots_extend:
  assumes env: "anchored_env env view" and J: "anchored_journal (codec env) J (view w)" "anchored_journal (codec env) K (view w')"
    and grown: "extends_by J K" "aj_entries J \<noteq> []"
    and run: "store_snapshot env (w, j) = (Ok snap, s)" "store_snapshot env (w', j') = (Ok snap', s')"
  shows "snapshot_extends snap snap'"
proof -
  note a = snapshot_Ok [OF env J(1) run(1)] and b = snapshot_Ok [OF env J(2) run(2)]
  obtain es where es: "aj_entries K = aj_entries J @ es" "aj_deployment K = aj_deployment J" using grown(1) by (auto simp: extends_by_def prefix_def)
  obtain g where g: "prefix_values (codec env) (aj_deployment J) 0 (extend_value (codec env) (replicate 32 0) g) (aj_entries J) = Ok (prefix_heads snap)"
    "prefix_values (codec env) (aj_deployment J) 0 (extend_value (codec env) (replicate 32 0) g) (aj_entries J @ es) = Ok (prefix_heads snap')"
    using a b es by auto
  show ?thesis using prefix_values_append [OF g(2)] g(1) a b es(1) grown(2) by (auto simp: snapshot_extends_def)
qed

section \<open>A sample journal\<close>

definition sample_codec :: governance_codec where
  "sample_codec = \<lparr>hashing = cell_codec\<lparr>sha256 := (\<lambda>b. take 32 (b @ replicate 32 0))\<rparr>, encode_event = (\<lambda>e. [ev_sequence e]),
     decode_event = (\<lambda>b. if b = [2] then Some \<lparr>ev_schema = 1, ev_kind = ''native-admin-catalog-event'', ev_deployment = replicate 64 CHR ''3'',
       ev_enrollment = hex (7 # replicate 31 0), ev_principal = \<lparr>identity_installation = replicate 64 CHR ''1'', identity_principal = sample_admin,
         identity_generation = 1, identity_login = ''admin'', identity_uid = 1001\<rparr>, ev_request = ''r1'', ev_sequence = 2, state_version_before = 1,
       ev_previous_head = ''h1'', ev_command = RegisterActivity ''file.read''\<rparr> else None),
     encode_record = (\<lambda>_. []), decode_record = (\<lambda>_. None), encode_bootstrap = (\<lambda>_. []), decode_bootstrap = (\<lambda>_. None),
     decision_receipt_of = (\<lambda>_. Err ''no receipt'')\<rparr>"

definition sample_context :: governance_context where
  "sample_context = \<lparr>ctx_enrollment = [7], ctx_deployment = replicate 64 CHR ''3'', ctx_principal = \<lparr>identity_installation = replicate 64 CHR ''1'',
     identity_principal = sample_admin, identity_generation = 1, identity_login = ''admin'', identity_uid = 1001\<rparr>\<rparr>"

definition sample_directory :: admin_directory where
  "sample_directory = \<lparr>file_content = (\<lambda>name. if name = event_name sample_codec ''r1'' then Some [2] else None),
     listing = Ok [Ok (Some (event_name sample_codec ''r1''))], installed_registry = Err ''missing''\<rparr>"

definition sample_second :: entry where
  "sample_second = cell_entry\<lparr>entry_request := ''r1'', entry_activity := ''admin.activity.register'', entry_payload := hex (2 # replicate 31 0)\<rparr>"

definition sample_entries :: "entry list" where
  "sample_entries = [cell_entry\<lparr>entry_request := REQUEST, entry_activity := BOOTSTRAP_ACTIVITY\<rparr>, sample_second]"

definition sample_snapshot :: "nat \<Rightarrow> snapshot" where
  "sample_snapshot n = \<lparr>snap_deployment = replicate 64 CHR ''3'', snap_entries = take n sample_entries, snap_head = ''h'',
     snap_clock = \<lparr>milliseconds = 1, reset_count = 0, restart_count = 0\<rparr>, prefix_heads = take (n + 1) [''h0'', ''h1'', ''h2'']\<rparr>"

definition sample_event :: catalog_event where
  "sample_event = the (decode_event sample_codec [2])"

definition sample_replayed :: replay where
  "sample_replayed = replay_initial\<lparr>rp_catalog := catalog_initial\<lparr>activities := insert ''file.read'' (set CONTROL), state_version := 2\<rparr>,
     rp_events := [sample_event], rp_names := {event_name sample_codec ''r1''}\<rparr>"

lemma sample_digest: "digest_text sample_codec [k] = hex (k # replicate 31 0)"
  by (simp add: digest_text_def sample_codec_def)

lemma sample_apply: "apply_command sv (RegisterActivity ''file.read'') catalog_initial =
  (Ok True, catalog_initial\<lparr>activities := insert ''file.read'' (set CONTROL), state_version := 2\<rparr>)"
  by (simp add: apply_command_def sample_names checked_add_def pure_arm_def register_arm_def MAX_ACTIVITIES_def)
    (simp add: catalog_initial_def CONTROL_def)

lemma sample_read: "read_event sample_codec sample_directory ''r1'' = Ok (sample_event, [2])"
  by (simp add: read_event_def dir_read_def sample_directory_def sample_event_def MAX_MODEL_EVENT_def MAX_CATALOG_EVENT_def) (simp add: sample_codec_def)

lemma sample_event_fields:
  "ev_schema sample_event = 1" "ev_kind sample_event = ''native-admin-catalog-event''" "ev_deployment sample_event = ctx_deployment sample_context"
  "ev_principal sample_event = ctx_principal sample_context" "ev_enrollment sample_event = hex (7 # replicate 31 0)" "ev_sequence sample_event = 2"
  "state_version_before sample_event = 1" "ev_previous_head sample_event = ''h1''" "ev_command sample_event = RegisterActivity ''file.read''"
  by (simp_all add: sample_event_def sample_codec_def sample_context_def)

lemma sample_entry_replay:
  "replay_entry sv sample_codec sample_context sample_directory (sample_snapshot 2) 1 sample_second replay_initial = Ok sample_replayed"
proof -
  have i: "admin_identifier ''r1''" by code_simp
  have e: "entry_request sample_second = ''r1''" "entry_activity sample_second = ''admin.activity.register''"
    "entry_payload sample_second = hex (2 # replicate 31 0)" "entry_uid sample_second = 1001"
    by (simp_all add: sample_second_def cell_entry_def)
  have w: "event_writer sample_context catalog_initial (RegisterActivity ''file.read'') = Ok (ctx_principal sample_context)"
    by (simp add: event_writer_def command_writer_def writer_def catalog_initial_def)
  have "digest_text sample_codec (ctx_enrollment sample_context) = hex (7 # replicate 31 0)" "identity_uid (ctx_principal sample_context) = 1001"
    "head_at (sample_snapshot 2) 1 = Some ''h1''" "state_version catalog_initial = 1"
    by (simp_all add: sample_context_def sample_digest head_at_def sample_snapshot_def catalog_initial_def)
  then show ?thesis
    by (simp add: replay_entry_def replay_event_entry_def e HISTORY_ACTIVITY_def sample_read sample_event_fields w i REQUEST_def sample_digest
        check_model_receipt_def sample_apply adopts_original_def replay_initial_def sample_replayed_def)
qed

lemma sample_replay: "governance_replay sv sample_codec sample_context sample_directory (sample_snapshot 2) None = Ok sample_replayed"
proof -
  have "drop 1 (snap_entries (sample_snapshot 2)) = [sample_second]" by (simp add: sample_snapshot_def sample_entries_def)
  moreover have "listing sample_directory = Ok [Ok (Some (event_name sample_codec ''r1''))]" by (simp add: sample_directory_def)
  ultimately show ?thesis using sample_entry_replay
    by (simp add: governance_replay_def) (simp add: sample_replayed_def replay_initial_def catalog_initial_def)
qed

lemma sample_replay_start: "governance_replay sv sample_codec sample_context (sample_directory\<lparr>listing := Ok []\<rparr>) (sample_snapshot 1) None = Ok replay_initial"
  by (simp add: governance_replay_def sample_snapshot_def sample_entries_def replay_initial_def catalog_initial_def)

lemma sample_no_collision: "no_collision sample_codec (contents sample_directory \<union> contents (sample_directory\<lparr>listing := x\<rparr>))"
  by (auto simp: no_collision_def contents_def sample_directory_def inj_on_def split: if_splits)

theorem replay_refines_catalog_witness:
  "governance_replay sample_catalog_services sample_codec sample_context sample_directory (sample_snapshot 2) None = Ok sample_replayed
     \<and> list_all2 (event_anchored sample_codec sample_context (sample_snapshot 2)) [(1, sample_second)] (rp_events sample_replayed)"
proof -
  have "filter (\<lambda>x. \<not> history_entry x) (enumerate 1 (drop 1 (snap_entries (sample_snapshot 2)))) = [(1, sample_second)]"
    by (simp add: sample_snapshot_def sample_entries_def sample_second_def cell_entry_def history_entry_def HISTORY_ACTIVITY_def)
  then show ?thesis using replay_refines_catalog [OF sample_replay [of sample_catalog_services]] sample_replay by simp
qed

lemma sample_replay_unlisted:
  "governance_replay sv sample_codec sample_context (sample_directory\<lparr>listing := Ok []\<rparr>) (sample_snapshot 2) None = Ok sample_replayed"
proof -
  have "replay_entry sv sample_codec sample_context (sample_directory\<lparr>listing := Ok []\<rparr>) (sample_snapshot 2) 1 sample_second replay_initial
    = replay_entry sv sample_codec sample_context sample_directory (sample_snapshot 2) 1 sample_second replay_initial"
    by (simp add: replay_entry_def replay_event_entry_def read_event_def dir_read_def sample_second_def cell_entry_def HISTORY_ACTIVITY_def)
  moreover have "drop 1 (snap_entries (sample_snapshot 2)) = [sample_second]" by (simp add: sample_snapshot_def sample_entries_def)
  ultimately show ?thesis using sample_entry_replay
    by (simp add: governance_replay_def) (simp add: sample_replayed_def replay_initial_def catalog_initial_def)
qed

theorem replay_determined_witness:
  "\<exists>d2 s1 s2. listing d2 \<noteq> listing sample_directory
     \<and> governance_replay sample_catalog_services sample_codec sample_context sample_directory (sample_snapshot 2) None = Ok s1
     \<and> governance_replay sample_catalog_services sample_codec sample_context d2 (sample_snapshot 2) None = Ok s2 \<and> s1 = s2"
proof (intro exI conjI)
  show "listing (sample_directory\<lparr>listing := Ok []\<rparr>) \<noteq> listing sample_directory" by (simp add: sample_directory_def)
  show "sample_replayed = sample_replayed"
    by (rule replay_determined [OF sample_no_collision sample_replay [of sample_catalog_services] sample_replay_unlisted])
qed (rule sample_replay sample_replay_unlisted)+

theorem anchored_revocation_final_witness:
  "snapshot_extends (sample_snapshot 1) (sample_snapshot 2)
     \<and> state_version (rp_catalog replay_initial) \<le> state_version (rp_catalog sample_replayed)"
proof -
  have ext: "snapshot_extends (sample_snapshot 1) (sample_snapshot 2)" by (simp add: snapshot_extends_def sample_snapshot_def sample_entries_def)
  have "no_collision sample_codec (contents (sample_directory\<lparr>listing := Ok []\<rparr>) \<union> contents sample_directory)"
    using sample_no_collision [of "Ok []"] by (simp add: Un_commute)
  then show ?thesis
    using anchored_revocation_final [OF _ ext sample_replay_start [of sample_catalog_services] sample_replay] ext by blast
qed

end
