(* ===== verification/Policy_Decisions.thy ===== *)
theory Policy_Decisions
  imports Catalog
begin

text \<open>
  Policy decisions and their evidence (\<open>policy_decisions.rs\<close>): how a decision is evaluated against the governance
  catalog, what makes a decision, a record and the graph of all records valid, the capacity rules of the store and the
  operations that append to it. The digests and the typed archive evidence \<open>'e\<close> are parameters.
\<close>

section \<open>Decisions\<close>

datatype reason = Allowed | AuthenticationUnavailable | PrincipalUnavailable | CatalogUnavailable | UtcUnavailable | CredentialsExpired
  | GrantMissing | GrantRevoked | SubjectMismatch | TargetMismatch | ConstraintExceeded | OutsideValidity | AssignmentUnavailable
  | AssignmentRevoked | RoleSuperseded | GrantDenied | AuthorityChanged

datatype decision_outcome = Allow | Deny

datatype operation_outcome = Completed | Denied | Uncertain

datatype effect_kind = Snapshot | Calculation | GeneratedExecution | Checkpoint | ArtifactPublication | ArtifactExport | Retention | Deletion
  | WorkerAdmission | ResourceAdmission | ModelQa | Inference | Recovery

record policy_timestamp =
  time_context :: statement
  time_lower :: int
  time_upper :: int

record subject =
  subject_principal :: string
  subject_generation :: u64

record grant_evidence =
  definition_of :: grant
  evidence_assignment :: "assignment option"
  current_role :: "role option"
  evidence_grant_id :: string
  evidence_grant_version :: u64
  evidence_revoked :: bool
  assignment_id :: string
  evidence_assignment_version :: u64
  evidence_role :: string
  evidence_role_version :: u64
  evidence_not_before :: int
  evidence_expires :: int
  evidence_constraints :: constraints

record decision =
  decision_id :: string
  policy_version :: u32
  decision_policy :: string
  decision_subject :: "subject option"
  decision_head :: "string option"
  catalog_sha256 :: "string option"
  decision_grant :: string
  decision_evidence :: "grant_evidence option"
  capability :: grant_action
  normalized_resource :: selector
  evaluated_constraints :: usage
  outcome_of :: decision_outcome
  reason_code :: reason
  decision_time :: "policy_timestamp option"

text \<open>A live observation: its context statement and its interval.\<close>

record observation =
  obs_context :: statement
  obs_interval :: interval

record policy_services =
  policy_digest :: string
  catalog_digest :: "catalog \<Rightarrow> string"
  approved_policy :: "nat list result"

definition timestamp_validate :: "policy_services \<Rightarrow> policy_timestamp \<Rightarrow> unit result" where
  "timestamp_validate ps t =
     and_then (Accounts.statement_validate (approved_policy ps) (time_context t)) (\<lambda>_.
     if time_lower t \<noteq> floor_ms (time_context t) \<or> time_upper t < time_lower t \<or> 500 < time_upper t - time_lower t \<or> 4102444800000 < time_upper t
     then Err ''invalid inert policy timestamp evidence'' else Ok ())"

definition timestamp_observed :: "policy_services \<Rightarrow> observation \<Rightarrow> policy_timestamp result" where
  "timestamp_observed ps live =
     (let (lo, hi) = endpoints (obs_interval live); t = \<lparr>time_context = obs_context live, time_lower = lo, time_upper = hi\<rparr> in
      and_then (timestamp_validate ps t) (\<lambda>_. Ok t))"

definition capture_evidence :: "catalog \<Rightarrow> grant \<Rightarrow> grant_evidence" where
  "capture_evidence c g =
     (let a = bm_get (assignments c) (grant_assignment g) in
      \<lparr>definition_of = g, evidence_assignment = a, current_role = Option.bind a (\<lambda>a. bm_get (roles c) (asg_role a)),
       evidence_grant_id = grant_id g, evidence_grant_version = grant_version g, evidence_revoked = grant_revoked g,
       assignment_id = grant_assignment g, evidence_assignment_version = assignment_version g,
       evidence_role = (case a of None \<Rightarrow> [] | Some a \<Rightarrow> asg_role a), evidence_role_version = (case a of None \<Rightarrow> 0 | Some a \<Rightarrow> asg_role_version a),
       evidence_not_before = grant_not_before g, evidence_expires = grant_expires g, evidence_constraints = grant_constraints g\<rparr>)"

definition policy_id :: "string \<Rightarrow> bool" where
  "policy_id v \<longleftrightarrow> length v = 32 \<and> list_all is_lower_hex v"

definition effect_name :: "string \<Rightarrow> bool" where
  "effect_name v \<longleftrightarrow> v \<noteq> [] \<and> length v \<le> 128 \<and> list_all (\<lambda>b. is_ascii_alphanumeric b \<or> b \<in> set ''-_.'') v"

section \<open>Validity of a decision\<close>

definition subject_evidence_ok :: "subject option \<Rightarrow> unit result" where
  "subject_evidence_ok s = (case s of None \<Rightarrow> Ok () | Some v \<Rightarrow>
     and_then (tpm_decode 32 (subject_principal v)) (\<lambda>d.
     if d = zero_digest \<or> subject_generation v = 0 then Err ''invalid policy subject evidence'' else Ok ()))"

definition digest_evidence_ok :: "string option list \<Rightarrow> unit result" where
  "digest_evidence_ok vs = for_all (\<lambda>v. if \<not> io_hash v then Err ''invalid policy authority digest evidence'' else Ok ()) (List.map_filter (\<lambda>v. v) vs)"

definition role_evidence_ok :: "grant_evidence \<Rightarrow> unit result" where
  "role_evidence_ok e = (case current_role e of None \<Rightarrow> Ok () | Some r \<Rightarrow>
     if role_name r \<noteq> evidence_role e \<or> role_version r = 0 \<or> role_activities r = [] \<or> 256 < length (role_activities r)
        \<or> list_ex (\<lambda>v. \<not> admin_identifier v) (role_activities r)
     then Err ''invalid evaluated current role evidence'' else Ok ())"

definition assignment_evidence_ok :: "grant_evidence \<Rightarrow> unit result" where
  "assignment_evidence_ok e =
     (if (case evidence_assignment e of
           Some a \<Rightarrow> asg_id a = assignment_id e \<and> asg_role a = evidence_role e \<and> asg_role_version a = evidence_role_version e
         | None \<Rightarrow> evidence_role e = [] \<and> evidence_role_version e = 0 \<and> current_role e = None)
      then Ok () else Err ''policy assignment evidence disagrees with current catalog'')"

definition grant_evidence_ok :: "string \<Rightarrow> grant_evidence \<Rightarrow> unit result" where
  "grant_evidence_ok gname e =
     (let g = definition_of e in
      and_then (selector_validate (grant_selector g)) (\<lambda>_.
      and_then (constraints_validate (evidence_constraints e) (grant_selector g) (grant_action g)) (\<lambda>_.
      if evidence_grant_id e \<noteq> gname \<or> \<not> admin_identifier (assignment_id e) \<or> evidence_grant_version e = 0 \<or> evidence_assignment_version e = 0
         \<or> evidence_not_before e \<le> 0 \<or> evidence_expires e \<le> evidence_not_before e
         \<or> (evidence_role e \<noteq> [] \<and> \<not> admin_identifier (evidence_role e))
      then Err ''invalid policy grant evidence''
      else if grant_id g \<noteq> evidence_grant_id e \<or> grant_version g \<noteq> evidence_grant_version e \<or> grant_constraints g \<noteq> evidence_constraints e
         \<or> grant_assignment g \<noteq> assignment_id e \<or> assignment_version g \<noteq> evidence_assignment_version e \<or> grant_revoked g \<noteq> evidence_revoked e
         \<or> grant_not_before g \<noteq> evidence_not_before e \<or> grant_expires g \<noteq> evidence_expires e
      then Err ''policy grant definition disagrees with evaluated evidence''
      else and_then (assignment_evidence_ok e) (\<lambda>_. role_evidence_ok e))))"

definition allowed_evidence_ok :: "decision \<Rightarrow> unit result" where
  "allowed_evidence_ok d =
     and_then (ok_or (decision_evidence d) ''missing allowed grant evidence'') (\<lambda>e.
     and_then (ok_or (evidence_assignment e) ''missing allowed assignment evidence'') (\<lambda>a.
     and_then (ok_or (current_role e) ''missing allowed role evidence'') (\<lambda>r.
     and_then (ok_or (decision_subject d) ''missing allowed subject evidence'') (\<lambda>s.
     and_then (ok_or (decision_time d) ''missing allowed UTC evidence'') (\<lambda>t.
     let g = definition_of e; u = evaluated_constraints d in
     if evidence_revoked e \<or> asg_revoked a \<or> asg_version a \<noteq> evidence_assignment_version e \<or> asg_role_version a \<noteq> role_version r
        \<or> grant_subject g \<noteq> subject_principal s \<or> grant_generation g \<noteq> subject_generation s
        \<or> asg_subject a \<noteq> subject_principal s \<or> asg_generation a \<noteq> subject_generation s
        \<or> grant_action g \<noteq> capability d \<or> grant_selector g \<noteq> normalized_resource d
        \<or> \<not> list_ex (\<lambda>v. v = action_activity (capability d)) (role_activities r)
        \<or> time_lower t < evidence_not_before e \<or> evidence_expires e \<le> time_upper t \<or> time_lower t < asg_not_before a \<or> asg_expires a \<le> time_upper t
        \<or> max_input_bytes (evidence_constraints e) < input_bytes u \<or> max_output_bytes (evidence_constraints e) < output_bytes u
        \<or> max_units (evidence_constraints e) < units u
     then Err ''allowed policy evidence contradicts evaluated authorization'' else Ok ())))))"

definition decision_validate :: "policy_services \<Rightarrow> decision \<Rightarrow> unit result" where
  "decision_validate ps d =
     and_then (use_validate (evaluated_constraints d)) (\<lambda>_.
     if \<not> policy_id (decision_id d) \<or> policy_version d \<noteq> 1 \<or> \<not> io_hash (decision_policy d) \<or> \<not> admin_identifier (decision_grant d)
        \<or> capability d \<noteq> use_action (evaluated_constraints d) \<or> normalized_resource d \<noteq> use_selector (evaluated_constraints d)
        \<or> (outcome_of d = Allow) \<noteq> (reason_code d = Allowed)
     then Err ''invalid closed policy decision evidence''
     else and_then (subject_evidence_ok (decision_subject d)) (\<lambda>_.
     and_then (digest_evidence_ok [decision_head d, catalog_sha256 d]) (\<lambda>_.
     and_then (case decision_time d of None \<Rightarrow> Ok () | Some t \<Rightarrow> timestamp_validate ps t) (\<lambda>_.
     and_then (case decision_evidence d of None \<Rightarrow> Ok () | Some e \<Rightarrow> grant_evidence_ok (decision_grant d) e) (\<lambda>_.
     if outcome_of d = Allow \<and> (decision_subject d = None \<or> decision_time d = None \<or> decision_head d = None \<or> catalog_sha256 d = None
        \<or> decision_evidence d = None)
     then Err ''allowed policy decision lacks actual evidence''
     else if outcome_of d = Allow then allowed_evidence_ok d else Ok ())))))"

section \<open>Evaluation\<close>

text \<open>The identifier \<open>drawn\<close> is what \<open>random_id\<close> returns for this decision.\<close>

definition unavailable :: "policy_services \<Rightarrow> string result \<Rightarrow> string \<Rightarrow> usage \<Rightarrow> reason \<Rightarrow> decision result" where
  "unavailable ps drawn gname u why =
     and_then drawn (\<lambda>n.
     let d = \<lparr>decision_id = n, policy_version = 1, decision_policy = policy_digest ps, decision_subject = None, decision_head = None, catalog_sha256 = None,
       decision_grant = gname, decision_evidence = None, capability = use_action u, normalized_resource = use_selector u, evaluated_constraints = u,
       outcome_of = Deny, reason_code = why, decision_time = None\<rparr> in
     and_then (decision_validate ps d) (\<lambda>_. Ok d))"

definition evaluate_reason :: "catalog \<Rightarrow> identity \<Rightarrow> interval \<Rightarrow> string \<Rightarrow> usage \<Rightarrow> reason" where
  "evaluate_reason c who i gname u = (case bm_get (grants c) gname of None \<Rightarrow> GrantMissing | Some g \<Rightarrow>
     if grant_revoked g then GrantRevoked
     else if grant_subject g \<noteq> identity_principal who \<or> grant_generation g \<noteq> identity_generation who then SubjectMismatch
     else if grant_action g \<noteq> use_action u \<or> grant_selector g \<noteq> use_selector u then TargetMismatch
     else if max_input_bytes (grant_constraints g) < input_bytes u \<or> max_output_bytes (grant_constraints g) < output_bytes u
        \<or> max_units (grant_constraints g) < units u
     then ConstraintExceeded
     else if interval_within i (grant_not_before g) (grant_expires g) \<noteq> Ok True then OutsideValidity
     else (case bm_get (assignments c) (grant_assignment g) of None \<Rightarrow> AssignmentUnavailable | Some a \<Rightarrow>
       if asg_revoked a then AssignmentRevoked
       else if map_option role_version (bm_get (roles c) (asg_role a)) \<noteq> Some (asg_role_version a) then RoleSuperseded
       else if \<not> is_ok (authorize g c who i u) then GrantDenied else Allowed))"

definition evaluate :: "policy_services \<Rightarrow> string result \<Rightarrow> catalog \<Rightarrow> identity \<Rightarrow> string \<Rightarrow> observation \<Rightarrow> string \<Rightarrow> usage \<Rightarrow> reason option \<Rightarrow> decision result" where
  "evaluate ps drawn c who head live gname u forced =
     and_then (timestamp_observed ps live) (\<lambda>t.
     if identity_generation who = 0 then Err ''missing actual policy generation''
     else let g = bm_get (grants c) gname;
       why = (case forced of Some r \<Rightarrow> r | None \<Rightarrow> evaluate_reason c who (obs_interval live) gname u) in
     and_then drawn (\<lambda>n.
     let d = \<lparr>decision_id = n, policy_version = 1, decision_policy = policy_digest ps,
       decision_subject = Some \<lparr>subject_principal = identity_principal who, subject_generation = identity_generation who\<rparr>,
       decision_head = Some head, catalog_sha256 = Some (catalog_digest ps c), decision_grant = gname, decision_evidence = map_option (capture_evidence c) g,
       capability = use_action u, normalized_resource = use_selector u, evaluated_constraints = u,
       outcome_of = (if why = Allowed then Allow else Deny), reason_code = why, decision_time = Some t\<rparr> in
     and_then (decision_validate ps d) (\<lambda>_. Ok d)))"

section \<open>Records\<close>

datatype 'e payload =
    OperationStarted "(string \<times> usage) list"
  | DecisionRecord decision
  | EffectStarted string effect_kind "string list"
  | EffectFinished string string "string option" operation_outcome "'e option"
  | OperationFinished operation_outcome

record 'e policy_record =
  policy_schema :: u32
  policy_installation :: string
  record_id :: string
  operation_of :: string
  payload_of :: "'e payload"

record 'e evidence_services =
  policy_sv :: policy_services
  evidence_validate :: "'e \<Rightarrow> unit result"
  evidence_authorization :: "'e \<Rightarrow> (effect_kind \<times> usage \<times> audit option) result"
  evidence_digest :: "'e \<Rightarrow> string"
  record_digest :: "'e policy_record \<Rightarrow> string"
  record_json :: "'e policy_record \<Rightarrow> nat list"

fun check_scopes :: "string set \<Rightarrow> (string \<times> usage) list \<Rightarrow> unit result" where
  "check_scopes seen [] = Ok ()"
| "check_scopes seen ((g, u) # scopes) =
     and_then (use_validate u) (\<lambda>_.
     if \<not> admin_identifier g \<or> g \<in> seen then Err ''invalid policy operation scopes'' else check_scopes (insert g seen) scopes)"

fun payload_validate :: "'e evidence_services \<Rightarrow> 'e payload \<Rightarrow> unit result" where
  "payload_validate es (OperationStarted scopes) =
     (if scopes = [] \<or> 64 < length scopes then Err ''invalid policy operation scope count'' else check_scopes {} scopes)"
| "payload_validate es (DecisionRecord d) = decision_validate (policy_sv es) d"
| "payload_validate es (EffectStarted eid kind ids) =
     (if \<not> effect_name eid \<or> ids = [] \<or> 64 < length ids \<or> list_ex (\<lambda>v. \<not> policy_id v) ids \<or> card (set ids) \<noteq> length ids
      then Err ''invalid pending policy effect'' else Ok ())"
| "payload_validate es (EffectFinished begin_id begin_sha receipt out ev) =
     (if \<not> policy_id begin_id \<or> \<not> io_hash begin_sha \<or> (case receipt of None \<Rightarrow> False | Some v \<Rightarrow> \<not> io_hash v \<or> v = replicate 64 CHR ''0'')
         \<or> (out = Completed) \<noteq> (receipt \<noteq> None) \<or> out = Denied
      then Err ''invalid policy effect terminal evidence''
      else (case ev of None \<Rightarrow> Ok () | Some e \<Rightarrow>
        and_then (evidence_validate es e) (\<lambda>_.
        if out \<noteq> Completed \<or> receipt \<noteq> Some (evidence_digest es e) then Err ''policy typed outcome evidence disagrees with receipt'' else Ok ())))"
| "payload_validate es (OperationFinished out) = Ok ()"

definition record_validate :: "'e evidence_services \<Rightarrow> 'e policy_record \<Rightarrow> unit result" where
  "record_validate es r =
     (if policy_schema r \<noteq> 1 \<or> \<not> io_hash (policy_installation r) \<or> \<not> policy_id (record_id r) \<or> \<not> policy_id (operation_of r)
      then Err ''invalid policy record identity'' else payload_validate es (payload_of r))"

section \<open>The graph of records\<close>

type_synonym 'e inventory = "(string, 'e policy_record) bmap"

fun collect_starts :: "(string, (string \<times> usage) list) bmap \<Rightarrow> 'e policy_record list \<Rightarrow> (string, (string \<times> usage) list) bmap result" where
  "collect_starts starts [] = Ok starts"
| "collect_starts starts (r # rs) = (case payload_of r of
     OperationStarted scopes \<Rightarrow>
       if bm_contains starts (operation_of r) then Err ''duplicate policy operation start''
       else collect_starts (bm_insert (operation_of r) scopes starts) rs
   | _ \<Rightarrow> collect_starts starts rs)"

text \<open>The decisions an effect refers to: of its operation, allowed, and of distinct grants.\<close>

fun check_references :: "'e inventory \<Rightarrow> string \<Rightarrow> string set \<Rightarrow> string list \<Rightarrow> unit result" where
  "check_references records op seen [] = Ok ()"
| "check_references records op seen (i # ids) =
     and_then (ok_or (filter_option (\<lambda>r. operation_of r = op) (bm_get records i)) ''effect policy decision reference missing'') (\<lambda>r.
     (case payload_of r of
       DecisionRecord d \<Rightarrow>
         if outcome_of d = Allow \<and> decision_grant d \<notin> seen then check_references records op (insert (decision_grant d) seen) ids
         else Err ''pending effect references denied or duplicate scope''
     | _ \<Rightarrow> Err ''pending effect references denied or duplicate scope''))"

definition is_effect_started :: "'e payload \<Rightarrow> bool" where
  "is_effect_started p = (case p of EffectStarted _ _ _ \<Rightarrow> True | _ \<Rightarrow> False)"

definition check_attribution :: "string \<Rightarrow> decision \<Rightarrow> audit option \<Rightarrow> unit result" where
  "check_attribution op d audit = (case audit of None \<Rightarrow> Ok () | Some a \<Rightarrow>
     let refusal = ''typed effect attribution differs from original admitted decision'' in
     if operation_id a \<noteq> Some op \<or> audit_grant a \<noteq> decision_grant d then Err refusal
     else and_then (ok_or (decision_head d) ''typed effect decision head missing'') (\<lambda>h.
     if checkpoint_head a \<noteq> h \<or> (case decision_subject d of None \<Rightarrow> True
          | Some s \<Rightarrow> subject_principal s \<noteq> audit_subject a \<or> subject_generation s \<noteq> audit_generation a)
     then Err refusal else Ok ()))"

definition check_typed_evidence :: "'e evidence_services \<Rightarrow> 'e inventory \<Rightarrow> string \<Rightarrow> 'e policy_record \<Rightarrow> 'e \<Rightarrow> unit result" where
  "check_typed_evidence es records op started e =
     and_then (evidence_authorization es e) (\<lambda>(kind, u, audit).
     (case payload_of started of
       EffectStarted _ k ids \<Rightarrow>
         if k \<noteq> kind then Err ''typed effect evidence changed original effect kind''
         else if length ids \<noteq> 1 then Err ''typed archive outcome requires its exact single finite scope''
         else and_then (ok_or (bm_get records (hd ids)) ''typed effect decision missing'') (\<lambda>r.
         (case payload_of r of
           DecisionRecord d \<Rightarrow> if evaluated_constraints d \<noteq> u then Err ''typed effect evidence changed original granted scope''
             else check_attribution op d audit
         | _ \<Rightarrow> Err ''typed effect decision substituted''))
     | _ \<Rightarrow> Err ''typed effect evidence changed original effect kind''))"

text \<open>One record of the second loop; the state is the set of finished operations and the set of finished effects.\<close>

fun check_record :: "'e evidence_services \<Rightarrow> 'e inventory \<Rightarrow> (string, (string \<times> usage) list) bmap \<Rightarrow> string set \<times> string set \<Rightarrow> 'e policy_record \<Rightarrow> (string set \<times> string set) result" where
  "check_record es records starts (terminals, effects) r =
     and_then (ok_or (bm_get starts (operation_of r)) ''policy evidence lacks its exact operation start'') (\<lambda>scopes.
     (case payload_of r of
       DecisionRecord d \<Rightarrow>
         if \<not> list_ex (\<lambda>(g, u). g = decision_grant d \<and> u = evaluated_constraints d) scopes \<or> decision_id d \<noteq> record_id r
         then Err ''policy decision substituted its operation scope'' else Ok (terminals, effects)
     | EffectStarted _ _ ids \<Rightarrow>
         if length ids \<noteq> length scopes then Err ''pending effect omits required grant decisions''
         else and_then (check_references records (operation_of r) {} ids) (\<lambda>_. Ok (terminals, effects))
     | EffectFinished begin_id begin_sha _ _ ev \<Rightarrow>
         and_then (ok_or (filter_option (\<lambda>b. operation_of b = operation_of r \<and> is_effect_started (payload_of b)) (bm_get records begin_id))
           ''effect outcome lacks its original pending evidence'') (\<lambda>b.
         if begin_id \<in> effects \<or> record_digest es b \<noteq> begin_sha then Err ''effect outcome changed or duplicated original pending evidence''
         else and_then (case ev of None \<Rightarrow> Ok () | Some e \<Rightarrow> check_typed_evidence es records (operation_of r) b e) (\<lambda>_.
         Ok (terminals, insert begin_id effects)))
     | OperationFinished _ \<Rightarrow>
         if operation_of r \<in> terminals then Err ''duplicate policy operation outcome'' else Ok (insert (operation_of r) terminals, effects)
     | OperationStarted _ \<Rightarrow> Ok (terminals, effects)))"

fun check_records :: "'e evidence_services \<Rightarrow> 'e inventory \<Rightarrow> (string, (string \<times> usage) list) bmap \<Rightarrow> string set \<times> string set \<Rightarrow> 'e policy_record list \<Rightarrow> (string set \<times> string set) result" where
  "check_records es records starts st [] = Ok st"
| "check_records es records starts st (r # rs) = and_then (check_record es records starts st r) (\<lambda>st. check_records es records starts st rs)"

definition unresolved :: "string set \<Rightarrow> string \<Rightarrow> 'e policy_record \<Rightarrow> bool" where
  "unresolved effects op r \<longleftrightarrow> operation_of r = op \<and> (case payload_of r of
     EffectStarted _ _ _ \<Rightarrow> record_id r \<notin> effects | EffectFinished _ _ _ out _ \<Rightarrow> out = Uncertain | _ \<Rightarrow> False)"

definition denial :: "string \<Rightarrow> 'e policy_record \<Rightarrow> bool" where
  "denial op r \<longleftrightarrow> operation_of r = op \<and> (case payload_of r of DecisionRecord d \<Rightarrow> outcome_of d = Deny | _ \<Rightarrow> False)"

definition check_completed :: "'e inventory \<Rightarrow> string set \<Rightarrow> 'e policy_record \<Rightarrow> unit result" where
  "check_completed records effects r =
     (if payload_of r = OperationFinished Completed \<and> list_ex (denial (operation_of r)) (bm_values records)
      then Err ''completed policy operation retains a permanent denied boundary''
      else if payload_of r = OperationFinished Completed \<and> list_ex (unresolved effects (operation_of r)) (bm_values records)
      then Err ''completed policy operation retains uncertain effect'' else Ok ())"

definition validate_links :: "'e evidence_services \<Rightarrow> 'e inventory \<Rightarrow> unit result" where
  "validate_links es records =
     and_then (collect_starts bm_empty (bm_values records)) (\<lambda>starts.
     and_then (check_records es records starts ({}, {}) (bm_values records)) (\<lambda>(terminals, effects).
     for_all (check_completed records effects) (bm_values records)))"

section \<open>Capacity\<close>

definition MAX_POLICY_RECORDS :: nat where "MAX_POLICY_RECORDS = 16384"
definition MAX_POLICY_RECORD :: u64 where "MAX_POLICY_RECORD = 131072"
definition MAX_POLICY_BYTES :: u64 where "MAX_POLICY_BYTES = 16777216"

text \<open>The uses that maintain the evidence itself and may spend its reserve.\<close>

definition maintenance_use :: "usage \<Rightarrow> bool" where
  "maintenance_use u \<longleftrightarrow>
     (use_action u = Read \<and> sel_kind (use_selector u) = FileTarget \<and> sel_id (use_selector u) = ''policy-archive-inspect'')
   \<or> (use_action u \<in> {Export, Delete} \<and> sel_kind (use_selector u) = ArtifactTarget \<and> sel_id (use_selector u) = ''policy-archive'')
   \<or> (use_action u = Retain \<and> sel_kind (use_selector u) = ResourceTarget
        \<and> sel_id (use_selector u) \<in> {''policy-evidence'', ''policy-pending'', ''policy-archive-mark'', ''policy-archive-history''})"

definition retention_operation :: "'e inventory \<Rightarrow> string \<Rightarrow> bool" where
  "retention_operation records op =
     (case find (\<lambda>r. operation_of r = op \<and> (case payload_of r of OperationStarted _ \<Rightarrow> True | _ \<Rightarrow> False)) (bm_values records) of
       Some r \<Rightarrow> (case payload_of r of OperationStarted scopes \<Rightarrow> list_all (\<lambda>(_, u). maintenance_use u) scopes | _ \<Rightarrow> False)
     | None \<Rightarrow> False)"

fun terminal_payload :: "'e payload \<Rightarrow> bool" where
  "terminal_payload (EffectFinished _ _ _ _ _) = True"
| "terminal_payload (OperationFinished _) = True"
| "terminal_payload (DecisionRecord d) = (outcome_of d = Deny)"
| "terminal_payload _ = False"

fun total_bytes :: "'e evidence_services \<Rightarrow> u64 \<Rightarrow> 'e policy_record list \<Rightarrow> u64 result" where
  "total_bytes es n [] = Ok n"
| "total_bytes es n (r # rs) =
     and_then (ok_or (checked_add n (of_nat (length (record_json es r)))) ''policy evidence size overflow'') (\<lambda>n. total_bytes es n rs)"

definition capacity_check :: "'e evidence_services \<Rightarrow> 'e policy_record \<Rightarrow> 'e inventory \<Rightarrow> unit result" where
  "capacity_check es r records =
     (let refusal = ''policy evidence capacity exhausted; retain/export exact closed operations'';
          reserve = retention_operation records (operation_of r) \<or> terminal_payload (payload_of r);
          record_limit = (if reserve then MAX_POLICY_RECORDS else MAX_POLICY_RECORDS - 1024);
          byte_limit = (if reserve then MAX_POLICY_BYTES else MAX_POLICY_BYTES - 4194304) in
      if record_limit < bm_size records \<or> MAX_POLICY_RECORD < of_nat (length (record_json es r)) then Err refusal
      else and_then (total_bytes es 0 (bm_values records)) (\<lambda>n. if byte_limit < n then Err refusal else Ok ()))"

section \<open>Archives\<close>

record 'e policy_archive =
  archive_schema :: u32
  archive_installation :: string
  archive_operation :: string
  archive_records :: "'e policy_record list"

fun archive_members :: "'e evidence_services \<Rightarrow> 'e policy_archive \<Rightarrow> 'e inventory \<Rightarrow> 'e policy_record list \<Rightarrow> 'e inventory result" where
  "archive_members es ar records [] = Ok records"
| "archive_members es ar records (r # rs) =
     and_then (record_validate es r) (\<lambda>_.
     if policy_installation r \<noteq> archive_installation ar \<or> operation_of r \<noteq> archive_operation ar \<or> bm_contains records (record_id r)
     then Err ''policy archive member identity substitution''
     else archive_members es ar (bm_insert (record_id r) r records) rs)"

definition is_operation_finished :: "'e policy_record \<Rightarrow> bool" where
  "is_operation_finished r = (case payload_of r of OperationFinished _ \<Rightarrow> True | _ \<Rightarrow> False)"

definition archive_validate :: "'e evidence_services \<Rightarrow> 'e policy_archive \<Rightarrow> unit result" where
  "archive_validate es ar =
     (if archive_schema ar \<noteq> 1 \<or> \<not> io_hash (archive_installation ar) \<or> \<not> policy_id (archive_operation ar)
         \<or> archive_records ar = [] \<or> MAX_POLICY_RECORDS < length (archive_records ar)
      then Err ''invalid policy archive identity or capacity''
      else and_then (archive_members es ar bm_empty (archive_records ar)) (\<lambda>records.
      and_then (validate_links es records) (\<lambda>_.
      if length (filter is_operation_finished (archive_records ar)) \<noteq> 1 then Err ''active policy operation cannot be retained''
      else if \<not> sorted_wrt (<) (map record_id (archive_records ar)) then Err ''noncanonical policy archive ordering''
      else Ok ())))"

text \<open>The checks of the surviving originals of an archived operation, which then leave the active graph.\<close>

definition archive_residual :: "'e policy_archive \<Rightarrow> 'e inventory \<Rightarrow> 'e inventory result" where
  "archive_residual ar active =
     (if list_ex (\<lambda>r. case bm_get active (record_id r) of None \<Rightarrow> False | Some old \<Rightarrow> old \<noteq> r) (archive_records ar)
      then Err ''active policy member differs from retained archive''
      else if list_ex (\<lambda>r. operation_of r = archive_operation ar \<and> bm_get (bm_of_list (map (\<lambda>q. (record_id q, q)) (archive_records ar))) (record_id r) \<noteq> Some r) (bm_values active)
      then Err ''active policy residual was not in the exact closed archive''
      else Ok (bm_retain (\<lambda>r. operation_of r \<noteq> archive_operation ar) active))"

section \<open>Names of members\<close>

definition record_member :: "string \<Rightarrow> string option" where
  "record_member name = filter_option policy_id (Option.bind (strip_prefix ''record-'' name) (strip_suffix ''.json''))"

definition archive_name :: "string \<Rightarrow> (string \<times> string) result" where
  "archive_name name =
     and_then (ok_or (Option.bind (strip_prefix ''archive-'' name) (strip_suffix ''.json'')) ''invalid policy archive name'') (\<lambda>base.
     and_then (ok_or (split_once CHR ''-'' base) ''invalid policy archive name'') (\<lambda>(op, d).
     if \<not> policy_id op \<or> \<not> io_hash d then Err ''invalid policy archive identity'' else Ok (op, d)))"

definition pending_name :: "string \<Rightarrow> unit result" where
  "pending_name name =
     (if strip_prefix ''archive-'' name \<noteq> None then and_then (archive_name name) (\<lambda>_. Ok ())
      else if record_member name = None then Err ''invalid exact policy pending member'' else Ok ())"

definition record_file :: "string \<Rightarrow> string" where
  "record_file i = ''record-'' @ i @ ''.json''"

definition archive_file :: "string \<Rightarrow> string \<Rightarrow> string" where
  "archive_file op d = ''archive-'' @ op @ ''-'' @ d @ ''.json''"

end
