(* ===== verification/Policy_Store.thy ===== *)
theory Policy_Store
  imports Policy_Decisions
begin

text \<open>
  The store of policy evidence (\<open>policy_decisions.rs\<close>): reading the inventory with its archives, appending records,
  operations and pending effects with their destructors, and the retention of closed operations. The system calls, the
  JSON codec, SHA-256 and the cache of validated archive inodes are fields of an environment on a state \<open>'w\<close>.
\<close>

section \<open>The environment\<close>

datatype store_dir = RootDir | PendingDir | ArchivesDir | RetainedDir | HistoryDir

record file_meta =
  meta_is_file :: bool
  meta_uid :: u32
  meta_gid :: u32
  meta_nlink :: u64
  meta_mode :: u32
  meta_len :: u64
  meta_inode :: "u64 \<times> u64"
  meta_times :: "(int \<times> int) \<times> (int \<times> int)"

record ('w, 'e) policy_env =
  evidence_sv :: "'e evidence_services"
  store_installation :: string
  effective_uid :: u32
  parse_record :: "nat list \<Rightarrow> 'e policy_record result"
  archive_json :: "'e policy_archive \<Rightarrow> nat list"
  parse_archive :: "nat list \<Rightarrow> 'e policy_archive result"
  bytes_digest :: "nat list \<Rightarrow> string"
  review_digest :: "'e policy_archive \<Rightarrow> string \<Rightarrow> nat \<Rightarrow> string"
  receipt_digest :: "string \<Rightarrow> string \<Rightarrow> nat \<Rightarrow> string"
  store_lock :: "('w, unit) action"
  fresh_id :: "('w, string) action"
  list_names :: "store_dir \<Rightarrow> nat \<Rightarrow> ('w, string list) action"
  private_directory :: "store_dir \<Rightarrow> ('w, unit) action"
  validate_history :: "('w, unit) action"
  read_member :: "store_dir \<Rightarrow> string \<Rightarrow> u64 \<Rightarrow> ('w, nat list) action"
  read_opened :: "store_dir \<Rightarrow> string \<Rightarrow> u64 \<Rightarrow> ('w, nat list) action"
  stat_member :: "store_dir \<Rightarrow> string \<Rightarrow> ('w, file_meta) action"
  create_new :: "store_dir \<Rightarrow> string \<Rightarrow> ('w, unit) action"
  write_all :: "store_dir \<Rightarrow> string \<Rightarrow> nat list \<Rightarrow> ('w, unit) action"
  sync_member :: "store_dir \<Rightarrow> string \<Rightarrow> ('w, unit) action"
  sync_dir :: "store_dir \<Rightarrow> ('w, unit) action"
  rename_noreplace :: "store_dir \<Rightarrow> store_dir \<Rightarrow> string \<Rightarrow> ('w, bool) action"
  unlink_member :: "store_dir \<Rightarrow> string \<Rightarrow> ('w, bool) action"
  free_space :: "('w, (u64 \<times> u64) option) action"
  cache_retain :: "string list \<Rightarrow> ('w, unit) action"
  cache_matches :: "string \<Rightarrow> file_meta \<Rightarrow> ('w, bool) action"
  cache_remove :: "string \<Rightarrow> ('w, unit) action"
  cache_insert :: "string \<Rightarrow> file_meta \<Rightarrow> ('w, unit) action"

definition MAX_ARCHIVE :: u64 where "MAX_ARCHIVE = 8388608"
definition MAX_ARCHIVES :: nat where "MAX_ARCHIVES = 1024"
definition MAX_ARCHIVE_BYTES :: u64 where "MAX_ARCHIVE_BYTES = 536870912"

text \<open>Guards, the length of a byte string as a \<open>u64\<close>, and the identity of a safe archive inode.\<close>

definition refuse_if :: "bool \<Rightarrow> string \<Rightarrow> ('w, unit) action" where
  "refuse_if b m = lift_result (if b then Err m else Ok ())"

definition byte_len :: "nat list \<Rightarrow> u64" where
  "byte_len b = of_nat (length b)"

definition add_len :: "u64 \<Rightarrow> u64 \<Rightarrow> string \<Rightarrow> ('w, u64) action" where
  "add_len n k m = lift_result (ok_or (checked_add n k) m)"

definition archive_identity :: "file_meta \<Rightarrow> file_meta result" where
  "archive_identity m =
     (if \<not> meta_is_file m \<or> meta_uid m \<noteq> 0 \<or> meta_gid m \<noteq> 0 \<or> meta_nlink m \<noteq> 1 \<or> and (meta_mode m) 4095 \<noteq> 256
         \<or> meta_len m = 0 \<or> MAX_ARCHIVE < meta_len m
      then Err ''unsafe immutable archive cache candidate'' else Ok m)"

section \<open>Archives\<close>

type_synonym 'e archive_scan = "u64 \<times> (string, string) bmap \<times> 'e inventory"

text \<open>The content of an archive that is not taken from the cache.\<close>

definition load_archive :: "('w, 'e) policy_env \<Rightarrow> string \<Rightarrow> string \<Rightarrow> string \<Rightarrow> file_meta \<Rightarrow> ('w, 'e policy_archive) action" where
  "load_archive env name op d m =
     bind_action (read_opened env ArchivesDir name (MAX_ARCHIVE + 1)) (\<lambda>bytes.
     bind_action (refuse_if (byte_len bytes \<noteq> meta_len m \<or> bytes_digest env bytes \<noteq> d) ''policy archive byte digest changed'') (\<lambda>_.
     bind_action (lift_result (parse_archive env bytes)) (\<lambda>ar.
     bind_action (lift_result (archive_validate (evidence_sv env) ar)) (\<lambda>_.
     bind_action (refuse_if (archive_installation ar \<noteq> store_installation env \<or> archive_operation ar \<noteq> op \<or> archive_json env ar \<noteq> bytes)
       ''policy archive substituted installation, operation or canonical content'') (\<lambda>_.
     bind_action (stat_member env ArchivesDir name) (\<lambda>m1. bind_action (lift_result (archive_identity m1)) (\<lambda>m1.
     bind_action (refuse_if (m1 \<noteq> m) ''policy archive inode changed during validation'') (\<lambda>_.
     bind_action (stat_member env ArchivesDir name) (\<lambda>m2. bind_action (lift_result (archive_identity m2)) (\<lambda>m2.
     bind_action (refuse_if (m2 \<noteq> m) ''policy archive inode changed during validation'') (\<lambda>_. lift_result (Ok ar))))))))))))"

fun archive_step :: "('w, 'e) policy_env \<Rightarrow> string \<Rightarrow> 'e archive_scan \<Rightarrow> ('w, 'e archive_scan) action" where
  "archive_step env name (charged, ops, active) =
     bind_action (lift_result (archive_name name)) (\<lambda>(op, d).
     bind_action (stat_member env ArchivesDir name) (\<lambda>m. bind_action (lift_result (archive_identity m)) (\<lambda>m.
     bind_action (add_len charged (meta_len m) ''policy archive size overflow'') (\<lambda>charged.
     bind_action (refuse_if (MAX_ARCHIVE_BYTES < charged) ''policy archive capacity or digest failure'') (\<lambda>_.
     bind_action (refuse_if (bm_contains ops op) ''duplicate retained policy operation'') (\<lambda>_.
     let ops' = bm_insert op name ops; residual = list_ex (\<lambda>r. operation_of r = op) (bm_values active) in
     bind_action (cache_matches env name m) (\<lambda>cached.
     if \<not> residual \<and> cached then lift_result (Ok (charged, ops', active))
     else bind_action (cache_remove env name) (\<lambda>_.
       bind_action (load_archive env name op d m) (\<lambda>ar.
       bind_action (lift_result (if residual then archive_residual ar active else Ok active)) (\<lambda>active'.
       bind_action (cache_insert env name m) (\<lambda>_. lift_result (Ok (charged, ops', active')))))))))))))"

definition archive_inventory :: "('w, 'e) policy_env \<Rightarrow> 'e inventory \<Rightarrow> ('w, (string, string) bmap \<times> 'e inventory) action" where
  "archive_inventory env active =
     bind_action (list_names env ArchivesDir MAX_ARCHIVES) (\<lambda>names.
     bind_action (cache_retain env names) (\<lambda>_.
     bind_action (fold_action (archive_step env) names (0, bm_empty, active)) (\<lambda>(_, ops, active'). lift_result (Ok (ops, active')))))"

section \<open>The inventory\<close>

fun load_member :: "('w, 'e) policy_env \<Rightarrow> string \<Rightarrow> 'e inventory \<times> u64 \<Rightarrow> ('w, 'e inventory \<times> u64) action" where
  "load_member env name (records, charged) =
     (if name = ''lock'' then lift_result (Ok (records, charged))
      else if name = ''pending'' then bind_action (private_directory env PendingDir) (\<lambda>_. lift_result (Ok (records, charged)))
      else if name = ''archives'' then bind_action (private_directory env ArchivesDir) (\<lambda>_. lift_result (Ok (records, charged)))
      else if name = ''retained'' then bind_action (private_directory env RetainedDir) (\<lambda>_. lift_result (Ok (records, charged)))
      else if name = ''history'' then bind_action (validate_history env) (\<lambda>_. lift_result (Ok (records, charged)))
      else bind_action (lift_result (ok_or (record_member name) ''unknown policy evidence member; preserve and inspect'')) (\<lambda>i.
        bind_action (read_member env RootDir name MAX_POLICY_RECORD) (\<lambda>bytes.
        bind_action (lift_result (parse_record env bytes)) (\<lambda>r.
        bind_action (lift_result (record_validate (evidence_sv env) r)) (\<lambda>_.
        bind_action (refuse_if (record_id r \<noteq> i \<or> policy_installation r \<noteq> store_installation env \<or> record_json (evidence_sv env) r \<noteq> bytes)
          ''noncanonical policy evidence member'') (\<lambda>_.
        bind_action (add_len charged (byte_len bytes) ''policy evidence size overflow'') (\<lambda>charged.
        bind_action (refuse_if (MAX_POLICY_BYTES < charged) ''policy evidence capacity exceeded'') (\<lambda>_.
        lift_result (Ok (bm_insert i r records, charged))))))))))"

fun charge_pending :: "('w, 'e) policy_env \<Rightarrow> string \<Rightarrow> u64 \<times> u64 \<Rightarrow> ('w, u64 \<times> u64) action" where
  "charge_pending env name (staged, archived) =
     (if strip_prefix ''archive-'' name \<noteq> None then
        bind_action (lift_result (archive_name name)) (\<lambda>_.
        bind_action (read_member env PendingDir name MAX_ARCHIVE) (\<lambda>bytes.
        bind_action (add_len archived (byte_len bytes) ''policy pending capacity overflow'') (\<lambda>archived.
        bind_action (refuse_if (33554432 < archived) ''policy pending evidence requires reviewed retention'') (\<lambda>_.
        lift_result (Ok (staged, archived))))))
      else bind_action (refuse_if (record_member name = None) ''unknown policy pending evidence member'') (\<lambda>_.
        bind_action (read_member env PendingDir name MAX_POLICY_RECORD) (\<lambda>bytes.
        bind_action (add_len staged (byte_len bytes) ''policy pending capacity overflow'') (\<lambda>staged.
        bind_action (refuse_if (16777216 < staged) ''policy pending evidence requires exact reviewed retention'') (\<lambda>_.
        lift_result (Ok (staged, archived)))))))"

definition charge_retained :: "('w, 'e) policy_env \<Rightarrow> string \<Rightarrow> u64 \<Rightarrow> ('w, u64) action" where
  "charge_retained env name charged =
     bind_action (lift_result (pending_name name)) (\<lambda>_.
     bind_action (read_member env RetainedDir name MAX_ARCHIVE) (\<lambda>bytes.
     bind_action (add_len charged (byte_len bytes) ''retained policy evidence capacity overflow'') (\<lambda>charged.
     bind_action (refuse_if (67108864 < charged) ''retained partial policy evidence quota exceeded'') (\<lambda>_. lift_result (Ok charged)))))"

definition inventory :: "('w, 'e) policy_env \<Rightarrow> ('w, 'e inventory) action" where
  "inventory env =
     bind_action (list_names env RootDir (MAX_POLICY_RECORDS + 5)) (\<lambda>names.
     bind_action (fold_action (load_member env) names (bm_empty, 0)) (\<lambda>(records, _).
     bind_action (list_names env PendingDir 1024) (\<lambda>names.
     bind_action (fold_action (charge_pending env) names (0, 0)) (\<lambda>_.
     bind_action (archive_inventory env records) (\<lambda>(_, records).
     bind_action (list_names env RetainedDir 2048) (\<lambda>names.
     bind_action (fold_action (charge_retained env) names 0) (\<lambda>_.
     bind_action (lift_result (validate_links (evidence_sv env) records)) (\<lambda>_. lift_result (Ok records)))))))))"

section \<open>Writing a record\<close>

fun physical_member :: "('w, 'e) policy_env \<Rightarrow> string \<Rightarrow> string \<Rightarrow> nat \<times> u64 \<Rightarrow> ('w, nat \<times> u64) action" where
  "physical_member env rid name (count, bytes) =
     (if name \<in> {''lock'', ''pending'', ''archives'', ''retained'', ''history''} then lift_result (Ok (count, bytes))
      else bind_action (lift_result (ok_or (record_member name) ''unknown physical policy member'')) (\<lambda>member.
        bind_action (refuse_if (member = rid) ''policy record already exists'') (\<lambda>_.
        bind_action (stat_member env RootDir name) (\<lambda>m.
        bind_action (refuse_if (\<not> meta_is_file m \<or> meta_uid m \<noteq> 0 \<or> meta_nlink m \<noteq> 1 \<or> and (meta_mode m) 4095 \<noteq> 256
          \<or> MAX_POLICY_RECORD < meta_len m) ''invalid immutable physical policy member'') (\<lambda>_.
        bind_action (add_len bytes (meta_len m) ''physical policy capacity overflow'') (\<lambda>bytes. lift_result (Ok (Suc count, bytes))))))))"

definition space_check :: "('w, 'e) policy_env \<Rightarrow> nat list \<Rightarrow> string \<Rightarrow> string \<Rightarrow> ('w, unit) action" where
  "space_check env bytes overflow refusal =
     bind_action (free_space env) (\<lambda>v. lift_result (case v of None \<Rightarrow> Err refusal | Some (bavail, frsize) \<Rightarrow>
       and_then (ok_or (checked_mul bavail frsize) overflow) (\<lambda>available.
       and_then (ok_or_panic (checked_add (byte_len bytes) 16777216)) (\<lambda>need. if available < need then Err refusal else Ok ()))))"

definition physical_check :: "('w, 'e) policy_env \<Rightarrow> 'e policy_record \<Rightarrow> 'e inventory \<Rightarrow> ('w, unit) action" where
  "physical_check env r records =
     (let bytes = record_json (evidence_sv env) r; reserve = retention_operation records (operation_of r) \<or> terminal_payload (payload_of r);
          record_limit = (if reserve then MAX_POLICY_RECORDS else MAX_POLICY_RECORDS - 1024);
          byte_limit = (if reserve then MAX_POLICY_BYTES else MAX_POLICY_BYTES - 4194304);
          refusal = ''physical policy evidence capacity exhausted; retain exact closed operations'' in
      bind_action (list_names env RootDir (MAX_POLICY_RECORDS + 5)) (\<lambda>names.
      bind_action (fold_action (physical_member env (record_id r)) names (0, 0)) (\<lambda>(count, n).
      bind_action (refuse_if (record_limit < count + 1) refusal) (\<lambda>_.
      bind_action (add_len n (byte_len bytes) ''physical policy byte overflow'') (\<lambda>n. refuse_if (byte_limit < n) refusal)))))"

definition publish_record :: "('w, 'e) policy_env \<Rightarrow> string \<Rightarrow> nat list \<Rightarrow> ('w, unit) action" where
  "publish_record env name bytes =
     bind_action (create_new env PendingDir name) (\<lambda>_.
     bind_action (write_all env PendingDir name bytes) (\<lambda>_.
     bind_action (sync_member env PendingDir name) (\<lambda>_.
     bind_action (sync_dir env PendingDir) (\<lambda>_.
     bind_action (read_member env PendingDir name MAX_POLICY_RECORD) (\<lambda>found.
     bind_action (refuse_if (found \<noteq> bytes) ''policy pending record changed'') (\<lambda>_.
     bind_action (rename_noreplace env PendingDir RootDir name) (\<lambda>moved.
     bind_action (refuse_if (\<not> moved) ''policy evidence publication uncertain; preserve pending record'') (\<lambda>_.
     bind_action (sync_dir env RootDir) (\<lambda>_.
     bind_action (sync_dir env PendingDir) (\<lambda>_.
     bind_action (read_member env RootDir name MAX_POLICY_RECORD) (\<lambda>found.
     refuse_if (found \<noteq> bytes) ''policy evidence durability changed'')))))))))))"

definition write_record :: "('w, 'e) policy_env \<Rightarrow> 'e policy_record \<Rightarrow> 'e inventory \<Rightarrow> ('w, unit) action" where
  "write_record env r records =
     (let bytes = record_json (evidence_sv env) r in
      bind_action (lift_result (capacity_check (evidence_sv env) r records)) (\<lambda>_.
      bind_action (physical_check env r records) (\<lambda>_.
      bind_action (space_check env bytes ''policy evidence free-space overflow'' ''policy evidence storage reserve unavailable'') (\<lambda>_.
      publish_record env (record_file (record_id r)) bytes))))"

text \<open>Validation, insertion into the graph, its links and the write, as \<open>append\<close> and \<open>decisions\<close> do them.\<close>

definition add_record :: "('w, 'e) policy_env \<Rightarrow> 'e policy_record \<Rightarrow> 'e inventory \<Rightarrow> ('w, 'e inventory) action" where
  "add_record env r records =
     (let records' = bm_insert (record_id r) r records in
      bind_action (lift_result (record_validate (evidence_sv env) r)) (\<lambda>_.
      bind_action (lift_result (validate_links (evidence_sv env) records')) (\<lambda>_.
      bind_action (write_record env r records') (\<lambda>_. lift_result (Ok records')))))"

definition new_record :: "('w, 'e) policy_env \<Rightarrow> string \<Rightarrow> string \<Rightarrow> 'e payload \<Rightarrow> 'e policy_record" where
  "new_record env n op p =
     \<lparr>policy_schema = 1, policy_installation = store_installation env, record_id = n, operation_of = op, payload_of = p\<rparr>"

definition append_record :: "('w, 'e) policy_env \<Rightarrow> string \<Rightarrow> 'e payload \<Rightarrow> ('w, 'e policy_record) action" where
  "append_record env op p =
     bind_action (store_lock env) (\<lambda>_.
     bind_action (inventory env) (\<lambda>records.
     bind_action (fresh_id env) (\<lambda>n.
     bind_action (add_record env (new_record env n op p) records) (\<lambda>_. lift_result (Ok (new_record env n op p))))))"

section \<open>Operations\<close>

record operation_handle =
  handle_id :: string
  handle_finished :: bool

definition operation_begin :: "('w, 'e) policy_env \<Rightarrow> (string \<times> usage) list \<Rightarrow> ('w, operation_handle) action" where
  "operation_begin env scopes =
     bind_action (fresh_id env) (\<lambda>op.
     bind_action (append_record env op (OperationStarted scopes)) (\<lambda>_. lift_result (Ok \<lparr>handle_id = op, handle_finished = False\<rparr>)))"

fun add_decisions :: "('w, 'e) policy_env \<Rightarrow> string \<Rightarrow> 'e inventory \<Rightarrow> decision list \<Rightarrow> ('w, string list) action" where
  "add_decisions env op records [] = lift_result (Ok [])"
| "add_decisions env op records (d # ds) =
     bind_action (add_record env (new_record env (decision_id d) op (DecisionRecord d)) records) (\<lambda>records'.
     bind_action (add_decisions env op records' ds) (\<lambda>ids. lift_result (Ok (decision_id d # ids))))"

definition operation_decisions :: "('w, 'e) policy_env \<Rightarrow> operation_handle \<Rightarrow> decision list \<Rightarrow> ('w, string list) action" where
  "operation_decisions env h ds =
     bind_action (store_lock env) (\<lambda>_. bind_action (inventory env) (\<lambda>records. add_decisions env (handle_id h) records ds))"

definition ongoing_decisions :: "('w, 'e) policy_env \<Rightarrow> operation_handle \<Rightarrow> decision list \<Rightarrow> ('w, bool) action" where
  "ongoing_decisions env h ds =
     (if list_ex (\<lambda>d. outcome_of d \<noteq> Allow) ds then bind_action (operation_decisions env h ds) (\<lambda>_. lift_result (Ok False))
      else if ds = [] then lift_result (Err ''ongoing export lacks exact scope evaluation'')
      else lift_result (and_then (for_all (decision_validate (policy_sv (evidence_sv env))) ds) (\<lambda>_. Ok True)))"

definition operation_finish :: "('w, 'e) policy_env \<Rightarrow> operation_handle \<Rightarrow> operation_outcome \<Rightarrow> ('w, operation_handle) action" where
  "operation_finish env h out =
     (if handle_finished h then lift_result (Err ''policy operation already closed'')
      else bind_action (append_record env (handle_id h) (OperationFinished out)) (\<lambda>_. lift_result (Ok (h\<lparr>handle_finished := True\<rparr>))))"

definition operation_drop :: "('w, 'e) policy_env \<Rightarrow> operation_handle \<Rightarrow> 'w \<Rightarrow> 'w" where
  "operation_drop env h w = (if handle_finished h then w else snd (operation_finish env h Uncertain w))"

section \<open>Pending effects\<close>

record 'e pending_effect =
  effect_record :: "'e policy_record"
  effect_finished :: bool
  export_binding :: "audit option"

definition effect_begin :: "('w, 'e) policy_env \<Rightarrow> operation_handle \<Rightarrow> string \<Rightarrow> effect_kind \<Rightarrow> string list \<Rightarrow> ('w, 'e pending_effect) action" where
  "effect_begin env h eid kind ids =
     bind_action (append_record env (handle_id h) (EffectStarted eid kind ids)) (\<lambda>r.
     lift_result (Ok \<lparr>effect_record = r, effect_finished = False, export_binding = None\<rparr>))"

definition is_export_effect :: "'e pending_effect \<Rightarrow> bool" where
  "is_export_effect p = (case payload_of (effect_record p) of EffectStarted _ kind _ \<Rightarrow> kind = ArtifactExport | _ \<Rightarrow> False)"

definition bind_export :: "audit \<Rightarrow> 'e pending_effect \<Rightarrow> 'e pending_effect result" where
  "bind_export a p =
     and_then (audit_validate a) (\<lambda>_.
     if effect_finished p \<or> export_binding p \<noteq> None \<or> operation_id a \<noteq> Some (operation_of (effect_record p))
        \<or> use_action (audit_usage a) \<noteq> Export \<or> \<not> is_export_effect p
     then Err ''pending export binding does not match actual owning admission''
     else Ok (p\<lparr>export_binding := Some a\<rparr>))"

definition export_admission :: "'e pending_effect \<Rightarrow> audit result" where
  "export_admission p =
     (if effect_finished p \<or> \<not> is_export_effect p then Err ''ongoing checks require an actual unfinished artifact export''
      else ok_or (export_binding p) ''pending export lacks its actual live boundary binding'')"

definition effect_finish :: "('w, 'e) policy_env \<Rightarrow> 'e pending_effect \<Rightarrow> operation_outcome \<Rightarrow> string option \<Rightarrow> ('w, 'e pending_effect) action" where
  "effect_finish env p out receipt =
     (if effect_finished p then lift_result (Err ''policy effect already closed'')
      else let r = effect_record p in
        bind_action (append_record env (operation_of r) (EffectFinished (record_id r) (record_digest (evidence_sv env) r) receipt out None)) (\<lambda>_.
        lift_result (Ok (p\<lparr>effect_finished := True\<rparr>))))"

definition effect_drop :: "('w, 'e) policy_env \<Rightarrow> 'e pending_effect \<Rightarrow> 'w \<Rightarrow> 'w" where
  "effect_drop env p w = (if effect_finished p then w else snd (effect_finish env p Uncertain None w))"

text \<open>
  \<open>complete\<close> and \<open>complete_evidence\<close> consume the effect: an early return drops it unfinished, a success drops it
  finished, and a panic aborts the process before any destructor.
\<close>

definition consuming :: "('w, 'e) policy_env \<Rightarrow> 'e pending_effect \<Rightarrow> ('w, 'e pending_effect) action \<Rightarrow> ('w, unit) action" where
  "consuming env p m w = (case m w of
     (Inr p', w') \<Rightarrow> (Ok (), effect_drop env p' w') | (Inl Panic, w') \<Rightarrow> (Inl Panic, w') | (Inl e, w') \<Rightarrow> (Inl e, effect_drop env p w'))"

definition effect_complete :: "('w, 'e) policy_env \<Rightarrow> 'e pending_effect \<Rightarrow> string \<Rightarrow> string \<Rightarrow> ('w, unit) action" where
  "effect_complete env p op receipt = consuming env p
     (if op \<noteq> operation_of (effect_record p) \<or> \<not> io_hash receipt \<or> receipt = replicate 64 CHR ''0''
      then lift_result (Err ''effect completion substituted its operation or receipt'')
      else effect_finish env p Completed (Some receipt))"

definition effect_complete_evidence :: "('w, 'e) policy_env \<Rightarrow> 'e pending_effect \<Rightarrow> string \<Rightarrow> 'e \<Rightarrow> ('w, unit) action" where
  "effect_complete_evidence env p op e = consuming env p
     (if op \<noteq> operation_of (effect_record p) then lift_result (Err ''typed effect completion substituted operation'')
      else let es = evidence_sv env; r = effect_record p in
        bind_action (lift_result (evidence_validate es e)) (\<lambda>_.
        bind_action (append_record env (operation_of r)
          (EffectFinished (record_id r) (record_digest es r) (Some (evidence_digest es e)) Completed (Some e))) (\<lambda>_.
        lift_result (Ok (p\<lparr>effect_finished := True\<rparr>)))))"

section \<open>Retention of closed operations\<close>

definition retention_input_unlocked :: "('w, 'e) policy_env \<Rightarrow> string \<Rightarrow> ('w, 'e policy_archive) action" where
  "retention_input_unlocked env op =
     bind_action (inventory env) (\<lambda>records.
     bind_action (archive_inventory env records) (\<lambda>(archives, records).
     (case bm_get archives op of
       Some name \<Rightarrow>
         bind_action (read_member env ArchivesDir name MAX_ARCHIVE) (\<lambda>bytes.
         bind_action (lift_result (parse_archive env bytes)) (\<lambda>ar.
         bind_action (lift_result (archive_validate (evidence_sv env) ar)) (\<lambda>_. lift_result (Ok ar))))
     | None \<Rightarrow>
         let ar = \<lparr>archive_schema = 1, archive_installation = store_installation env, archive_operation = op,
           archive_records = filter (\<lambda>r. operation_of r = op) (bm_values records)\<rparr> in
         bind_action (lift_result (archive_validate (evidence_sv env) ar)) (\<lambda>_. lift_result (Ok ar)))))"

definition retention_input :: "('w, 'e) policy_env \<Rightarrow> string \<Rightarrow> ('w, 'e policy_archive) action" where
  "retention_input env op =
     bind_action (refuse_if (\<not> policy_id op) ''invalid exact policy operation selector'') (\<lambda>_.
     bind_action (store_lock env) (\<lambda>_. retention_input_unlocked env op))"

definition archived_bytes :: "('w, 'e) policy_env \<Rightarrow> string \<Rightarrow> u64 \<Rightarrow> ('w, u64) action" where
  "archived_bytes env name n =
     bind_action (read_member env ArchivesDir name MAX_ARCHIVE) (\<lambda>bytes. add_len n (byte_len bytes) ''policy archive capacity overflow'')"

text \<open>A proposal that exists from an interrupted attempt is taken up when its bytes are the exact ones.\<close>

definition stage_archive :: "('w, 'e) policy_env \<Rightarrow> string \<Rightarrow> nat list \<Rightarrow> ('w, unit) action" where
  "stage_archive env name bytes w = (case create_new env PendingDir name w of
     (Inr _, w') \<Rightarrow> bind_action (write_all env PendingDir name bytes) (\<lambda>_. sync_member env PendingDir name) w'
   | (Inl e, w') \<Rightarrow>
       bind_action (list_names env PendingDir 1024) (\<lambda>names.
       bind_action (lift_result (if name \<notin> set names then Inl e else Ok ())) (\<lambda>_.
       bind_action (read_member env PendingDir name MAX_ARCHIVE) (\<lambda>found.
       bind_action (refuse_if (found \<noteq> bytes) ''partial policy archive needs exact reviewed pending retention'') (\<lambda>_.
       sync_member env PendingDir name)))) w')"

definition publish_archive :: "('w, 'e) policy_env \<Rightarrow> string \<Rightarrow> nat list \<Rightarrow> ('w, unit) action" where
  "publish_archive env name bytes =
     bind_action (stage_archive env name bytes) (\<lambda>_.
     bind_action (sync_dir env PendingDir) (\<lambda>_.
     bind_action (read_member env PendingDir name MAX_ARCHIVE) (\<lambda>found.
     bind_action (refuse_if (found \<noteq> bytes) ''policy archive proposal changed'') (\<lambda>_.
     bind_action (rename_noreplace env PendingDir ArchivesDir name) (\<lambda>moved.
     bind_action (refuse_if (\<not> moved) ''policy archive publication uncertain; preserve pending and original evidence'') (\<lambda>_.
     bind_action (sync_dir env ArchivesDir) (\<lambda>_.
     bind_action (sync_dir env PendingDir) (\<lambda>_.
     bind_action (read_member env ArchivesDir name MAX_ARCHIVE) (\<lambda>found.
     refuse_if (found \<noteq> bytes) ''policy archive durability uncertain'')))))))))"

definition archive_operation_records :: "('w, 'e) policy_env \<Rightarrow> 'e policy_archive \<Rightarrow> nat list \<Rightarrow> ('w, unit) action" where
  "archive_operation_records env ar bytes =
     bind_action (store_lock env) (\<lambda>_.
     bind_action (retention_input_unlocked env (archive_operation ar)) (\<lambda>found.
     bind_action (refuse_if (found \<noteq> ar) ''policy retention exact member set changed'') (\<lambda>_.
     let name = archive_file (archive_operation ar) (bytes_digest env bytes) in
     bind_action (list_names env ArchivesDir MAX_ARCHIVES) (\<lambda>names.
     if name \<in> set names
     then bind_action (read_member env ArchivesDir name MAX_ARCHIVE) (\<lambda>found. refuse_if (found \<noteq> bytes) ''retained policy archive changed'')
     else bind_action (inventory env) (\<lambda>active.
       bind_action (archive_inventory env active) (\<lambda>(existing, _).
       bind_action (fold_action (archived_bytes env) (bm_values existing) (byte_len bytes)) (\<lambda>charged.
       bind_action (refuse_if (MAX_ARCHIVES \<le> bm_size existing \<or> MAX_ARCHIVE_BYTES < charged)
         ''policy archive quota exhausted; preserve all original evidence'') (\<lambda>_.
       bind_action (space_check env bytes ''policy archive free-space overflow''
         ''policy archive storage reserve unavailable; preserve original evidence'') (\<lambda>_.
       publish_archive env name bytes)))))))))"

definition unlink_archived :: "('w, 'e) policy_env \<Rightarrow> 'e policy_archive \<Rightarrow> 'e policy_record \<Rightarrow> ('w, unit) action" where
  "unlink_archived env ar r =
     bind_action (store_lock env) (\<lambda>_.
     bind_action (retention_input_unlocked env (archive_operation ar)) (\<lambda>found.
     bind_action (refuse_if (found \<noteq> ar \<or> r \<notin> set (archive_records ar)) ''policy retention archive or exact member changed'') (\<lambda>_.
     bind_action (list_names env RootDir (MAX_POLICY_RECORDS + 4)) (\<lambda>names.
     if record_file (record_id r) \<notin> set names then lift_result (Ok ())
     else bind_action (read_member env RootDir (record_file (record_id r)) MAX_POLICY_RECORD) (\<lambda>bytes.
       bind_action (refuse_if (bytes \<noteq> record_json (evidence_sv env) r) ''policy retention original member changed'') (\<lambda>_.
       bind_action (unlink_member env RootDir (record_file (record_id r))) (\<lambda>gone.
       bind_action (refuse_if (\<not> gone) ''policy evidence unlink uncertain; preserve archive'') (\<lambda>_. sync_dir env RootDir))))))))"

text \<open>What a reviewer approves before a closed operation is retained.\<close>

definition archive_review :: "('w, 'e) policy_env \<Rightarrow> 'e policy_archive \<Rightarrow> (string \<times> nat list \<times> usage) result" where
  "archive_review env ar =
     and_then (archive_validate (evidence_sv env) ar) (\<lambda>_.
     let bytes = archive_json env ar; review = review_digest env ar (bytes_digest env bytes) (length bytes);
       u = \<lparr>use_action = Retain, use_selector = \<lparr>sel_kind = ResourceTarget, sel_id = ''policy-evidence'', sel_generation = 1, sel_digest = review\<rparr>,
         input_bytes = byte_len bytes, output_bytes = 0, units = of_nat (length (archive_records ar))\<rparr> in
     if MAX_ARCHIVE < byte_len bytes then Err ''closed operation exceeds bounded policy archive size''
     else and_then (use_validate u) (\<lambda>_. Ok (review, bytes, u)))"

section \<open>Retention of pending members\<close>

record pending_plan =
  plan_installation :: string
  plan_name :: string
  plan_inode :: "u64 \<times> u64"
  plan_bytes :: u64
  plan_sha256 :: string

definition plan_key :: "file_meta \<Rightarrow> (u64 \<times> u64) \<times> u64 \<times> ((int \<times> int) \<times> (int \<times> int))" where
  "plan_key m = (meta_inode m, meta_len m, meta_times m)"

definition pending_plan :: "('w, 'e) policy_env \<Rightarrow> string \<Rightarrow> ('w, pending_plan) action" where
  "pending_plan env name =
     bind_action (lift_result (pending_name name)) (\<lambda>_.
     bind_action (list_names env PendingDir 1024) (\<lambda>names.
     let source = (if name \<in> set names then PendingDir else RetainedDir) in
     bind_action (stat_member env source name) (\<lambda>before.
     bind_action (refuse_if (\<not> meta_is_file before \<or> meta_uid before \<noteq> effective_uid env \<or> meta_nlink before \<noteq> 1
       \<or> and (meta_mode before) 4095 \<noteq> 256) ''unsafe policy pending evidence'') (\<lambda>_.
     bind_action (read_member env source name MAX_ARCHIVE) (\<lambda>bytes.
     bind_action (stat_member env source name) (\<lambda>after.
     bind_action (stat_member env source name) (\<lambda>current.
     bind_action (refuse_if (plan_key before \<noteq> plan_key after \<or> plan_key before \<noteq> plan_key current \<or> meta_len before \<noteq> byte_len bytes)
       ''policy pending evidence changed during review'') (\<lambda>_.
     lift_result (Ok \<lparr>plan_installation = store_installation env, plan_name = name, plan_inode = meta_inode before,
       plan_bytes = byte_len bytes, plan_sha256 = bytes_digest env bytes\<rparr>)))))))))"

definition retained_bytes :: "('w, 'e) policy_env \<Rightarrow> string \<Rightarrow> u64 \<Rightarrow> ('w, u64) action" where
  "retained_bytes env name n =
     bind_action (read_member env RetainedDir name MAX_ARCHIVE) (\<lambda>bytes. add_len n (byte_len bytes) ''retained partial policy evidence overflow'')"

definition pending_retain :: "('w, 'e) policy_env \<Rightarrow> pending_plan \<Rightarrow> ('w, unit) action" where
  "pending_retain env plan =
     bind_action (store_lock env) (\<lambda>_.
     bind_action (inventory env) (\<lambda>_.
     bind_action (pending_plan env (plan_name plan)) (\<lambda>found.
     bind_action (refuse_if (found \<noteq> plan) ''policy pending retention exact inode or bytes changed'') (\<lambda>_.
     bind_action (list_names env RetainedDir 2048) (\<lambda>names.
     if plan_name plan \<in> set names
     then bind_action (list_names env PendingDir 1024) (\<lambda>staged.
       bind_action (refuse_if (plan_name plan \<in> set staged) ''pending and retained policy member collision'') (\<lambda>_. sync_dir env RetainedDir))
     else bind_action (list_names env RetainedDir 2048) (\<lambda>names.
       bind_action (fold_action (retained_bytes env) names (plan_bytes plan)) (\<lambda>charged.
       bind_action (refuse_if (67108864 < charged) ''retained policy pending quota exhausted; preserve original member'') (\<lambda>_.
       bind_action (rename_noreplace env PendingDir RetainedDir (plan_name plan)) (\<lambda>moved.
       bind_action (refuse_if (\<not> moved) ''policy pending retention uncertain; inspect exact original and retained member'') (\<lambda>_.
       bind_action (sync_dir env RetainedDir) (\<lambda>_.
       bind_action (sync_dir env PendingDir) (\<lambda>_.
       bind_action (pending_plan env (plan_name plan)) (\<lambda>found.
       refuse_if (found \<noteq> plan) ''retained partial policy evidence differs'')))))))))))))"

end
