(* ===== verification/Grant_Boundary.thy ===== *)
theory Grant_Boundary
  imports Policy_Store Session
begin

text \<open>
  The live boundary of a granted operation (\<open>GrantBoundary\<close> of \<open>admin_governance.rs\<close>): every check captures the
  current catalog, identity and time anew, records the decisions and captures once more after they are durable; a refused
  check fences the boundary for good. The capture itself and the authentication of the session are operations of the
  surroundings; the state is the one of the surroundings together with the boundary object.
\<close>

section \<open>Session purposes\<close>

definition require_session_purpose :: "session_purpose \<Rightarrow> session_purpose \<Rightarrow> unit result" where
  "require_session_purpose actual expected =
     (if actual \<noteq> expected then Err ''authenticated session purpose cannot be converted'' else Ok ())"

definition model_pack_id :: "string \<Rightarrow> bool" where
  "model_pack_id v \<longleftrightarrow> v \<in> {''ModelPack-qwen3-4b-q4-k-m'', ''ModelPack-qwen3-1-7b-q4-k-m''}"

text \<open>\<open>qa_profile\<close> is \<open>model::qa::parse_profile\<close>.\<close>

definition qa_session_scope :: "(string \<Rightarrow> bool) \<Rightarrow> (string \<times> usage) list \<Rightarrow> unit result" where
  "qa_session_scope qa_profile uses =
     (let refusal = ''QA-only session refuses serving, import, signing or unrelated effect scope'' in
      if length uses \<noteq> 1 then Err refusal
      else let u = snd (hd uses) in
        if use_action u \<noteq> QualifyModel \<or> sel_kind (use_selector u) \<noteq> ModelQaTarget \<or> sel_generation (use_selector u) \<noteq> 1 \<or> units u \<noteq> 1
           \<or> \<not> qa_profile (sel_id (use_selector u))
        then Err refusal else use_validate u)"

definition import_session_scope :: "(string \<times> usage) list \<Rightarrow> unit result" where
  "import_session_scope uses =
     (let refusal = ''model-import session admits only its exact reviewed model CAS acquisition'' in
      if length uses \<noteq> 1 then Err refusal
      else let u = snd (hd uses) in
        if use_action u \<noteq> AcquireResource \<or> sel_kind (use_selector u) \<noteq> ResourceTarget \<or> \<not> model_pack_id (sel_id (use_selector u))
           \<or> sel_generation (use_selector u) \<noteq> 1 \<or> units u \<noteq> 1
        then Err refusal else use_validate u)"

definition activation_session_scope :: "(string \<times> usage) list \<Rightarrow> unit result" where
  "activation_session_scope uses =
     (if length uses \<noteq> 3 then Err ''model-activation requires all three exact provision/start/stop scopes''
      else let provision = snd (uses ! 0); start = snd (uses ! 1); stop = snd (uses ! 2) in
      and_then (for_all (\<lambda>(_, u). use_validate u) uses) (\<lambda>_.
      if use_action provision \<noteq> ProvisionResource \<or> sel_kind (use_selector provision) \<noteq> ResourceTarget
         \<or> \<not> model_pack_id (sel_id (use_selector provision)) \<or> sel_generation (use_selector provision) \<noteq> 1
         \<or> use_action start \<noteq> StartWorker \<or> use_action stop \<noteq> StopWorker
         \<or> sel_kind (use_selector start) \<noteq> WorkerTarget \<or> sel_kind (use_selector stop) \<noteq> WorkerTarget
         \<or> sel_id (use_selector start) \<noteq> ''ModelRuntime'' \<or> sel_id (use_selector stop) \<noteq> ''ModelRuntime''
         \<or> sel_digest (use_selector start) \<noteq> sel_digest (use_selector stop)
         \<or> input_bytes start \<noteq> input_bytes provision \<or> input_bytes stop \<noteq> input_bytes provision
         \<or> output_bytes start \<noteq> 0 \<or> output_bytes stop \<noteq> 0 \<or> [units provision, units start, units stop] \<noteq> [1, 1, 1]
      then Err ''model-activation session refuses unrelated worker, model or effect scopes'' else Ok ()))"

definition export_use :: "usage \<Rightarrow> bool" where
  "export_use u \<longleftrightarrow> (use_action u = Read \<and> sel_kind (use_selector u) = FileTarget)
     \<or> (use_action u = grant_action.Export \<and> sel_kind (use_selector u) = ArtifactTarget)"

fun grant_session_scope :: "(string \<Rightarrow> bool) \<Rightarrow> session_purpose \<Rightarrow> (string \<times> usage) list \<Rightarrow> unit result" where
  "grant_session_scope qa session_purpose.ModelQa uses = qa_session_scope qa uses"
| "grant_session_scope qa ModelImport uses = import_session_scope uses"
| "grant_session_scope qa ModelActivation uses = activation_session_scope uses"
| "grant_session_scope qa session_purpose.Export uses =
     (if uses = [] \<or> list_ex (\<lambda>(_, u). \<not> export_use u) uses then Err ''export-only session refuses mutation or unrelated admission scopes'' else Ok ())"
| "grant_session_scope qa Standard uses = Ok ()"

definition export_effect_scope :: "(string \<Rightarrow> bool) \<Rightarrow> session_purpose \<Rightarrow> (string \<times> usage) list \<Rightarrow> effect_kind \<Rightarrow> unit result" where
  "export_effect_scope qa pp uses kind =
     and_then (grant_session_scope qa pp uses) (\<lambda>_.
     if pp = session_purpose.ModelQa \<and> kind \<noteq> effect_kind.ModelQa
     then Err ''QA-only session cannot exercise normal model/platform effects''
     else if pp \<in> {ModelImport, ModelActivation} \<and> kind \<noteq> ResourceAdmission
     then Err ''model-only session refuses inference, workflow, signing, export or recovery effects''
     else if pp = session_purpose.Export \<and> (kind \<noteq> ArtifactExport \<or> \<not> list_ex (\<lambda>(_, u). use_action u = grant_action.Export) uses)
     then Err ''export-only effect requires its actual finite Export scope'' else Ok ())"

section \<open>Ownership guards\<close>

definition current_admin :: "catalog \<Rightarrow> identity \<Rightarrow> unit result" where
  "current_admin c who =
     and_then (catalog_registry c) (\<lambda>r.
     and_then (ok_or (bootstrap_admin r) ''current Admin requires the adopted original principal'') (\<lambda>p.
     if identity_principal who \<noteq> principal_id p \<or> identity_generation who \<noteq> current_generation c p (principal_id p)
        \<or> state_disabled c (principal_id p) \<or> principal_id p \<in> deleted_principals c \<or> principal_id p \<in> needs_password_aging c
     then Err ''operation requires the current approved original Admin actor'' else Ok ()))"

fun any_result :: "('a \<Rightarrow> bool result) \<Rightarrow> 'a list \<Rightarrow> bool result" where
  "any_result f [] = Ok False"
| "any_result f (x # xs) = and_then (f x) (\<lambda>b. if b then Ok True else any_result f xs)"

text \<open>A completed deletion after which the principal is disabled in the following generation.\<close>

definition deletion_closed :: "catalog \<Rightarrow> string \<Rightarrow> u64 \<Rightarrow> deletion \<Rightarrow> bool result" where
  "deletion_closed c name g d =
     (let i = deletion_intent_of d in
      if deletion_principal i \<noteq> name \<or> deletion_generation i < g \<or> deletion_phase d \<noteq> Complete then Ok False
      else (case bm_get (principal_states c) name of None \<Rightarrow> Ok False
        | Some s \<Rightarrow> if state_enabled s then Ok False
            else and_then (ok_or_panic (checked_add (deletion_generation i) 1)) (\<lambda>n. Ok (state_generation s = n))))"

definition history_owner :: "catalog \<Rightarrow> identity \<Rightarrow> string \<Rightarrow> u64 \<Rightarrow> unit result" where
  "history_owner c who name g =
     (let refusal = ''only current owner or original Admin retiring completed deleted-account history is admitted'' in
      if \<not> io_hash name \<or> g = 0 then Err ''invalid history owner''
      else if identity_principal who = name \<and> identity_generation who = g then Ok ()
      else and_then (catalog_registry c) (\<lambda>r.
      and_then (ok_or (bootstrap_admin r) ''history retirement lacks original Admin'') (\<lambda>p.
      if identity_principal who \<noteq> principal_id p \<or> name \<notin> deleted_principals c then Err refusal
      else and_then (any_result (deletion_closed c name g) (bm_values (account_deletions c))) (\<lambda>b. if b then Ok () else Err refusal))))"

definition workflow_recovery_owner :: "catalog \<Rightarrow> identity \<Rightarrow> string \<Rightarrow> u64 \<Rightarrow> unit result" where
  "workflow_recovery_owner c who name g =
     (if \<not> io_hash name \<or> g = 0 then Err ''invalid exact workflow recovery owner''
      else and_then (catalog_registry c) (\<lambda>r.
      and_then (ok_or (filter_option enabled (registry_principal r (identity_principal who))) ''unknown actual workflow recovery actor'') (\<lambda>actor.
      and_then (resolve_principal c (registry_identity r actor)) (\<lambda>resolved.
      if resolved \<noteq> who \<or> principal_id actor \<in> deleted_principals c \<or> principal_id actor \<in> needs_password_aging c
      then Err ''workflow recovery requires actual current usable actor generation''
      else and_then (ok_or (registry_principal r name) ''workflow recovery target is not adopted'') (\<lambda>target.
      if current_generation c target name < g then Err ''workflow recovery cannot name a future target generation''
      else if principal_id actor = name then Ok ()
      else if map_option principal_id (bootstrap_admin r) \<noteq> Some (principal_id actor)
      then Err ''other-owner workflow recovery requires actual original Admin''
      else if list_ex (\<lambda>d. deletion_principal (deletion_intent_of d) = name \<and> deletion_phase d \<noteq> Complete) (bm_values (account_deletions c))
      then Err ''complete exact account deletion before orphan workflow recovery''
      else if name \<in> deleted_principals c
      then and_then (any_result (deletion_closed c name g) (bm_values (account_deletions c))) (\<lambda>b.
        if b then Ok () else Err ''orphan workflow recovery lacks exact completed deletion generation'')
      else if current_generation c target name \<le> g then Err ''current unrelated active owner is not a recoverable orphan''
      else Ok ())))))"

section \<open>The password window\<close>

type_synonym password_epoch = "string \<times> string \<times> u64 \<times> u64 \<times> u64"

definition password_epoch :: "observation \<Rightarrow> password_epoch" where
  "password_epoch live = (let s = obs_context live in
     (runtime_sha256 s, statement.boot_id s, process_generation s, source_clock_generation s, keeper_generation s))"

definition password_window :: "policy_services \<Rightarrow> u32 \<Rightarrow> password_epoch \<Rightarrow> observation \<Rightarrow> unit result" where
  "password_window ps day expected live =
     and_then (Accounts.statement_validate (approved_policy ps) (obs_context live)) (\<lambda>_.
     and_then (ok_or (checked_i64 (uint day * 86400000)) ''password age overflow'') (\<lambda>start.
     and_then (ok_or (checked_i64 ((uint day + 90) * 86400000)) ''password age overflow'') (\<lambda>stop.
     let refusal = ''acting principal password expired or its protected UTC generation changed'' in
     if day = 0 \<or> password_epoch live \<noteq> expected then Err refusal
     else and_then (interval_within (obs_interval live) start stop) (\<lambda>b. if \<not> b then Err refusal else Ok ()))))"

definition capture_credential_refusal :: "policy_services \<Rightarrow> catalog \<Rightarrow> identity \<Rightarrow> password_epoch option \<Rightarrow> observation \<Rightarrow> reason option result" where
  "capture_credential_refusal ps c who epoch live = (case password_day c (identity_principal who) of
     Some day \<Rightarrow> and_then (ok_or epoch ''finite grant actor lacks its original protected password epoch'') (\<lambda>e.
       Ok (if is_ok (password_window ps day e live) then None else Some CredentialsExpired))
   | None \<Rightarrow> Ok (if epoch \<noteq> None then Some CredentialsExpired else None))"

section \<open>The boundary\<close>

record grant_capture =
  cap_catalog :: catalog
  cap_identity :: identity
  cap_head :: string
  cap_observation :: observation
  credential_refusal :: "reason option"

record grant_boundary =
  boundary_purpose :: session_purpose
  boundary_identity :: identity
  boundary_head :: string
  boundary_uses :: "(string \<times> usage) list"
  boundary_operation :: operation_handle
  decision_ids :: "string list"
  boundary_observation :: "observation option"
  capture_reason :: reason
  fenced :: bool

text \<open>
  \<open>capture_authority\<close> is \<open>capture\<close>: it reads the journal, replays the catalog, asks PAM and the UTC keeper, and
  leaves the stage it reached as the reason of a refusal.
\<close>

record ('w, 'e) boundary_env =
  boundary_store :: "('w, 'e) policy_env"
  capture_authority :: "grant_boundary \<Rightarrow> 'w \<Rightarrow> (grant_capture result \<times> reason) \<times> 'w"
  qa_profile :: "string \<Rightarrow> bool"

type_synonym ('w, 'a) boundary_action = "('w \<times> grant_boundary, 'a) action"

definition in_store :: "('w, 'a) action \<Rightarrow> ('w, 'a) boundary_action" where
  "in_store m s = (case m (fst s) of (r, w) \<Rightarrow> (r, w, snd s))"

definition get_boundary :: "('w, grant_boundary) boundary_action" where
  "get_boundary s = (Ok (snd s), s)"

definition set_boundary :: "(grant_boundary \<Rightarrow> grant_boundary) \<Rightarrow> ('w, unit) boundary_action" where
  "set_boundary f = modify_state (\<lambda>(w, b). (w, f b))"

definition capture :: "('w, 'e) boundary_env \<Rightarrow> ('w, grant_capture) boundary_action" where
  "capture env s = (case capture_authority env (snd s) (fst s) of ((r, why), w) \<Rightarrow> (r, w, (snd s)\<lparr>capture_reason := why\<rparr>))"

text \<open>\<open>match m { Ok(v) => v, Err(error) => ... }\<close>: a panic aborts before the handler.\<close>

definition on_refusal :: "('s, 'a) action \<Rightarrow> (error \<Rightarrow> ('s, 'a) action) \<Rightarrow> ('s, 'a) action" where
  "on_refusal m h s = (case m s of (Inr x, s') \<Rightarrow> (Inr x, s') | (Inl Panic, s') \<Rightarrow> (Inl Panic, s') | (Inl (Error t), s') \<Rightarrow> h (Error t) s')"

text \<open>One decision for each use: \<open>unavailable\<close> and \<open>decisions\<close>.\<close>

fun draw_decisions :: "('w, 'e) policy_env \<Rightarrow> (string result \<Rightarrow> string \<Rightarrow> usage \<Rightarrow> decision result) \<Rightarrow> (string \<times> usage) list \<Rightarrow> ('w, decision list) action" where
  "draw_decisions env f [] = lift_result (Ok [])"
| "draw_decisions env f ((g, u) # uses) =
     bind_action (\<lambda>w. case fresh_id env w of (n, w') \<Rightarrow> (f n g u, w')) (\<lambda>d.
     bind_action (draw_decisions env f uses) (\<lambda>ds. lift_result (Ok (d # ds))))"

definition record_unavailable :: "('w, 'e) policy_env \<Rightarrow> operation_handle \<Rightarrow> (string \<times> usage) list \<Rightarrow> reason \<Rightarrow> ('w, unit) action" where
  "record_unavailable env h uses why =
     bind_action (draw_decisions env (\<lambda>n g u. unavailable (policy_sv (evidence_sv env)) n g u why) uses) (\<lambda>ds.
     bind_action (operation_decisions env h ds) (\<lambda>_. lift_result (Ok ())))"

definition evaluate_all :: "('w, 'e) boundary_env \<Rightarrow> grant_capture \<Rightarrow> (string \<times> usage) list \<Rightarrow> ('w, decision list) boundary_action" where
  "evaluate_all env cap uses = in_store (draw_decisions (boundary_store env) (\<lambda>n g u.
     evaluate (policy_sv (evidence_sv (boundary_store env))) n (cap_catalog cap) (cap_identity cap) (cap_head cap) (cap_observation cap) g u (credential_refusal cap)) uses)"

text \<open>A failed capture is recorded as a denial of every use with the stage it reached.\<close>

definition refuse_unavailable :: "('w, 'e) boundary_env \<Rightarrow> reason \<Rightarrow> error \<Rightarrow> ('w, 'a) boundary_action" where
  "refuse_unavailable env why e =
     bind_action get_boundary (\<lambda>b.
     bind_action (in_store (record_unavailable (boundary_store env) (boundary_operation b) (boundary_uses b) why)) (\<lambda>_. lift_result (Inl e)))"

definition capture_or_record :: "('w, 'e) boundary_env \<Rightarrow> ('w, grant_capture) boundary_action" where
  "capture_or_record env = on_refusal (capture env) (\<lambda>e. bind_action get_boundary (\<lambda>b. refuse_unavailable env (capture_reason b) e))"

definition allows :: "decision list \<Rightarrow> bool" where
  "allows ds \<longleftrightarrow> list_all (\<lambda>d. outcome_of d = Allow) ds"

definition fenced_check_body :: "('w, 'e) boundary_env \<Rightarrow> grant_boundary \<Rightarrow> ('w, unit) boundary_action" where
  "fenced_check_body env b =
     bind_action (capture_or_record env) (\<lambda>cap.
     bind_action (evaluate_all env cap (boundary_uses b)) (\<lambda>ds.
     bind_action (in_store (operation_decisions (boundary_store env) (boundary_operation b) ds)) (\<lambda>ids.
     bind_action (set_boundary (\<lambda>b. b\<lparr>decision_ids := ids\<rparr>)) (\<lambda>_.
     if \<not> allows ds then lift_result (Err ''current finite policy denied the owned effect scopes'')
     else bind_action (capture_or_record env) (\<lambda>cap'.
     bind_action (evaluate_all env cap' (boundary_uses b)) (\<lambda>ds'.
     if \<not> allows ds' then
       bind_action (in_store (operation_decisions (boundary_store env) (boundary_operation b) ds')) (\<lambda>_.
       lift_result (Err ''finite policy changed after its durable decision''))
     else set_boundary (\<lambda>b. b\<lparr>boundary_observation := Some (cap_observation cap'), fenced := False\<rparr>)))))))"

definition boundary_check :: "('w, 'e) boundary_env \<Rightarrow> ('w, unit) boundary_action" where
  "boundary_check env =
     bind_action get_boundary (\<lambda>b.
     if fenced b then lift_result (Err ''finite grant operation is permanently fenced'')
     else bind_action (set_boundary (\<lambda>b. b\<lparr>fenced := True, boundary_observation := None\<rparr>)) (\<lambda>_. fenced_check_body env b))"

definition stream_denial :: "('w, 'e) boundary_env \<Rightarrow> grant_capture \<Rightarrow> reason \<Rightarrow> ('w, unit) boundary_action" where
  "stream_denial env cap why =
     bind_action get_boundary (\<lambda>b.
     bind_action (evaluate_all env cap (boundary_uses b)) (\<lambda>ds.
     bind_action (in_store (operation_decisions (boundary_store env) (boundary_operation b) (map (\<lambda>d. d\<lparr>outcome_of := Deny, reason_code := why\<rparr>) ds)))
       (\<lambda>_. lift_result (Ok ()))))"

definition restriction :: "('w, 'e) boundary_env \<Rightarrow> (catalog \<Rightarrow> identity \<Rightarrow> unit result) \<Rightarrow> ('w, unit) boundary_action" where
  "restriction env guard =
     bind_action (boundary_check env) (\<lambda>_.
     bind_action (set_boundary (\<lambda>b. b\<lparr>fenced := True, boundary_observation := None\<rparr>)) (\<lambda>_.
     bind_action (capture_or_record env) (\<lambda>cap.
     bind_action (on_refusal (lift_result (guard (cap_catalog cap) (cap_identity cap))) (\<lambda>e.
       bind_action (stream_denial env cap SubjectMismatch) (\<lambda>_. lift_result (Inl e)))) (\<lambda>_.
     bind_action (set_boundary (\<lambda>b. b\<lparr>fenced := False\<rparr>)) (\<lambda>_. boundary_check env)))))"

definition require_admin :: "('w, 'e) boundary_env \<Rightarrow> ('w, unit) boundary_action" where
  "require_admin env = bind_action get_boundary (\<lambda>b. restriction env (\<lambda>c who.
     and_then (require_session_purpose (boundary_purpose b) Standard) (\<lambda>_. current_admin c who)))"

definition require_qa_admin :: "('w, 'e) boundary_env \<Rightarrow> ('w, unit) boundary_action" where
  "require_qa_admin env = bind_action get_boundary (\<lambda>b. restriction env (\<lambda>c who.
     and_then (require_session_purpose (boundary_purpose b) session_purpose.ModelQa) (\<lambda>_. current_admin c who)))"

definition authorize_history_owner :: "('w, 'e) boundary_env \<Rightarrow> string \<Rightarrow> u64 \<Rightarrow> ('w, unit) boundary_action" where
  "authorize_history_owner env name g = bind_action get_boundary (\<lambda>b. restriction env (\<lambda>c who.
     and_then (require_session_purpose (boundary_purpose b) Standard) (\<lambda>_. history_owner c who name g)))"

definition authorize_workflow_recovery :: "('w, 'e) boundary_env \<Rightarrow> string \<Rightarrow> u64 \<Rightarrow> ('w, unit) boundary_action" where
  "authorize_workflow_recovery env name g = bind_action get_boundary (\<lambda>b. restriction env (\<lambda>c who.
     and_then (require_session_purpose (boundary_purpose b) Standard) (\<lambda>_. workflow_recovery_owner c who name g)))"

definition boundary_audit :: "grant_boundary \<Rightarrow> audit result" where
  "boundary_audit b =
     (if fenced b \<or> length (boundary_uses b) \<noteq> 1 then Err ''inference attribution requires its current single owned scope''
      else if identity_generation (boundary_identity b) = 0 then Err ''missing governed subject generation''
      else let a = \<lparr>audit_subject = identity_principal (boundary_identity b), audit_generation = identity_generation (boundary_identity b),
        audit_grant = fst (hd (boundary_uses b)), audit_version = 1, checkpoint_head = boundary_head b,
        operation_id = Some (handle_id (boundary_operation b)), audit_usage = snd (hd (boundary_uses b))\<rparr> in
      and_then (audit_validate a) (\<lambda>_. Ok a))"

definition observe_boundary :: "('w, 'e) boundary_env \<Rightarrow> ('w, observation) boundary_action" where
  "observe_boundary env =
     bind_action (boundary_check env) (\<lambda>_.
     bind_action get_boundary (\<lambda>b.
     bind_action (set_boundary (\<lambda>b. b\<lparr>boundary_observation := None\<rparr>)) (\<lambda>_.
     lift_result (ok_or (boundary_observation b) ''missing actual protected policy observation''))))"

text \<open>A pending effect held by a scope that returns early is dropped.\<close>

definition holding_effect :: "('w, 'e) boundary_env \<Rightarrow> 'e pending_effect \<Rightarrow> ('w, 'a) boundary_action \<Rightarrow> ('w, 'a) boundary_action" where
  "holding_effect env p m = on_refusal m (\<lambda>e s. (Inl e, effect_drop (boundary_store env) p (fst s), snd s))"

definition boundary_effect_begin :: "('w, 'e) boundary_env \<Rightarrow> string \<Rightarrow> effect_kind \<Rightarrow> ('w, 'e pending_effect) boundary_action" where
  "boundary_effect_begin env eid kind =
     bind_action get_boundary (\<lambda>b.
     if boundary_purpose b \<in> {ModelImport, ModelActivation, session_purpose.ModelQa}
        \<and> (case boundary_uses b of [] \<Rightarrow> True | (_, u) # _ \<Rightarrow> sel_digest (use_selector u) \<noteq> eid)
     then bind_action (restriction env (\<lambda>_ _. Err ''model-only effect must name its exact reviewed transaction''))
       (\<lambda>_. lift_result (Err ''model-purpose effect restriction unexpectedly admitted''))
     else bind_action (on_refusal (lift_result (export_effect_scope (qa_profile env) (boundary_purpose b) (boundary_uses b) kind)) (\<lambda>e.
       bind_action (restriction env (\<lambda>_ _. Inl e)) (\<lambda>_. lift_result (Err ''export-purpose effect restriction unexpectedly admitted'')))) (\<lambda>_.
     bind_action (boundary_check env) (\<lambda>_.
     bind_action get_boundary (\<lambda>b.
     bind_action (in_store (effect_begin (boundary_store env) (boundary_operation b) eid kind (decision_ids b))) (\<lambda>p.
     holding_effect env p (
       bind_action (lift_result (if kind = ArtifactExport then and_then (boundary_audit b) (\<lambda>a. bind_export a p) else Ok p)) (\<lambda>p.
       bind_action (boundary_check env) (\<lambda>_. lift_result (Ok p)))))))))"

definition boundary_effect_complete :: "('w, 'e) boundary_env \<Rightarrow> 'e pending_effect \<Rightarrow> string \<Rightarrow> ('w, unit) boundary_action" where
  "boundary_effect_complete env p receipt =
     bind_action get_boundary (\<lambda>b.
     bind_action (in_store (effect_complete (boundary_store env) p (handle_id (boundary_operation b)) receipt)) (\<lambda>_. boundary_check env))"

section \<open>Granted operations\<close>

text \<open>
  What \<open>with_grants_for\<close> asks of the platform, the login and the UTC client. The boundary object is made when the
  operation begins; its session fields are set when the session is open.
\<close>

record 'w login_env =
  prerequisites :: "('w, unit) action"
  prepare_login :: "('w, unit) action"
  authenticate :: "('w, unit) action"
  open_session :: "('w, identity \<times> string) action"
  open_client :: "('w, unit) action"

fun check_uses :: "string set \<Rightarrow> (string \<times> usage) list \<Rightarrow> unit result" where
  "check_uses seen [] = Ok ()"
| "check_uses seen ((g, u) # uses) =
     and_then (use_validate u) (\<lambda>_.
     if \<not> admin_identifier g \<or> g \<in> seen then Err ''invalid or duplicate exact grant identifier'' else check_uses (insert g seen) uses)"

definition finish_boundary :: "('w, 'e) boundary_env \<Rightarrow> operation_outcome \<Rightarrow> ('w, unit) boundary_action" where
  "finish_boundary env out =
     bind_action get_boundary (\<lambda>b.
     bind_action (in_store (operation_finish (boundary_store env) (boundary_operation b) out)) (\<lambda>h.
     set_boundary (\<lambda>b. b\<lparr>boundary_operation := h\<rparr>)))"

definition close_refused :: "('w, 'e) boundary_env \<Rightarrow> operation_outcome \<Rightarrow> error \<Rightarrow> ('w, 'a) boundary_action" where
  "close_refused env out e = bind_action (finish_boundary env out) (\<lambda>_. lift_result (Inl e))"

definition refuse_and_close :: "('w, 'e) boundary_env \<Rightarrow> reason \<Rightarrow> error \<Rightarrow> ('w, 'a) boundary_action" where
  "refuse_and_close env why e =
     bind_action get_boundary (\<lambda>b.
     bind_action (in_store (record_unavailable (boundary_store env) (boundary_operation b) (boundary_uses b) why)) (\<lambda>_. close_refused env Denied e))"

definition prepare_session :: "('w, 'e) boundary_env \<Rightarrow> 'w login_env \<Rightarrow> ('w, identity \<times> string) boundary_action" where
  "prepare_session env le =
     bind_action (in_store (prepare_login le)) (\<lambda>_.
     bind_action (on_refusal (in_store (authenticate le)) (refuse_unavailable env AuthenticationUnavailable)) (\<lambda>_.
     in_store (open_session le)))"

definition granted_body :: "('w, 'e) boundary_env \<Rightarrow> 'w login_env \<Rightarrow> ('w, 'a) boundary_action \<Rightarrow> ('w, 'a) boundary_action" where
  "granted_body env le effect =
     bind_action (on_refusal (prepare_session env le) (refuse_and_close env PrincipalUnavailable)) (\<lambda>(who, head).
     bind_action (on_refusal (in_store (open_client le)) (refuse_and_close env UtcUnavailable)) (\<lambda>_.
     bind_action (set_boundary (\<lambda>b. b\<lparr>boundary_identity := who, boundary_head := head\<rparr>)) (\<lambda>_.
     bind_action (on_refusal (boundary_check env) (close_refused env Denied)) (\<lambda>_.
     bind_action (on_refusal effect (close_refused env Uncertain)) (\<lambda>v.
     bind_action (on_refusal (boundary_check env) (close_refused env Uncertain)) (\<lambda>_.
     bind_action (finish_boundary env Completed) (\<lambda>_. lift_result (Ok v))))))))"

definition new_boundary :: "session_purpose \<Rightarrow> (string \<times> usage) list \<Rightarrow> operation_handle \<Rightarrow> grant_boundary" where
  "new_boundary pp uses h =
     \<lparr>boundary_purpose = pp, boundary_identity = \<lparr>identity_installation = [], identity_principal = [], identity_generation = 0, identity_login = [], identity_uid = 0\<rparr>,
      boundary_head = [], boundary_uses = uses, boundary_operation = h, decision_ids = [], boundary_observation = None,
      capture_reason = PrincipalUnavailable, fenced = False\<rparr>"

definition with_grants :: "('w, 'e) boundary_env \<Rightarrow> 'w login_env \<Rightarrow> session_purpose \<Rightarrow> (string \<times> usage) list \<Rightarrow> ('w, 'a) boundary_action \<Rightarrow> ('w, 'a) action" where
  "with_grants env le pp uses effect =
     bind_action (prerequisites le) (\<lambda>_.
     bind_action (refuse_if (uses = [] \<or> 64 < length uses) ''finite operation needs one to 64 exact grant scopes'') (\<lambda>_.
     bind_action (lift_result (check_uses {} uses)) (\<lambda>_.
     bind_action (lift_result (grant_session_scope (qa_profile env) pp uses)) (\<lambda>_.
     bind_action (operation_begin (boundary_store env) uses) (\<lambda>h w.
     (case granted_body env le effect (w, new_boundary pp uses h) of
       (Inl Panic, w', b) \<Rightarrow> (Inl Panic, w')
     | (r, w', b) \<Rightarrow> (r, operation_drop (boundary_store env) (boundary_operation b) w')))))))"

end
