(* ===== verification/Policy_Safety.thy ===== *)
theory Policy_Safety
  imports Policy_Decisions Catalog_Guarantees
begin

text \<open>
  What the policy evidence guarantees: a decision agrees with the check the boundary enforces, every effect was admitted by
  one allowed decision for each scope of its operation, and an operation recorded as completed has no denial and no open
  or uncertain effect.
\<close>

section \<open>Decisions and enforcement\<close>

lemma evaluate_reason_Allowed:
  "evaluate_reason c who i gname u = Allowed \<longleftrightarrow> (\<exists>g. bm_get (grants c) gname = Some g \<and> is_ok (authorize g c who i u))"
proof
  assume "evaluate_reason c who i gname u = Allowed"
  then show "\<exists>g. bm_get (grants c) gname = Some g \<and> is_ok (authorize g c who i u)"
    by (auto simp: evaluate_reason_def split: option.splits if_splits)
next
  assume "\<exists>g. bm_get (grants c) gname = Some g \<and> is_ok (authorize g c who i u)"
  then obtain g x where g: "bm_get (grants c) gname = Some g" and x: "authorize g c who i u = Ok x" by (auto simp: is_ok_iff)
  then have during: "interval_within i (grant_not_before g) (grant_expires g) = Ok True"
    by (auto simp: authorize_def result_simps Let_def split: if_splits)
  from x show "evaluate_reason c who i gname u = Allowed"
    by (rule authorize_Ok) (auto simp: evaluate_reason_def g x during not_less)
qed

lemma evaluate_Ok:
  assumes "evaluate ps drawn c who head live gname u forced = Ok d"
  shows "reason_code d = (case forced of Some r \<Rightarrow> r | None \<Rightarrow> evaluate_reason c who (obs_interval live) gname u)"
    "outcome_of d = (if reason_code d = Allowed then Allow else Deny)" "decision_validate ps d = Ok ()"
    "decision_grant d = gname" "evaluated_constraints d = u" "decision_evidence d = map_option (capture_evidence c) (bm_get (grants c) gname)"
  using assms by (auto simp: evaluate_def result_simps Let_def split: if_splits option.splits)

text \<open>
  C19: A policy decision says \<open>Allow\<close> exactly when the check that the boundary enforces accepts the same use: in a decision
  evaluated without an imposed reason the outcome is \<open>Allow\<close> if and only if the named grant exists in the catalog and
  authorizes the use for the identity and the whole observed interval, and then the evidence holds that grant.
\<close>

theorem decision_matches_enforcement:
  assumes "evaluate ps drawn c who head live gname u None = Ok d"
  shows "outcome_of d = Allow \<longleftrightarrow> (\<exists>g. decision_evidence d = Some (capture_evidence c g) \<and> bm_get (grants c) gname = Some g
    \<and> is_ok (authorize g c who (obs_interval live) u))"
  using evaluate_Ok [OF assms] evaluate_reason_Allowed [of c who "obs_interval live" gname u] by auto

section \<open>The graph of records\<close>

text \<open>What the store accepts: every record valid and filed under its identifier, and the links between them valid.\<close>

definition evidence_graph :: "'e evidence_services \<Rightarrow> 'e inventory \<Rightarrow> bool" where
  "evidence_graph es records \<longleftrightarrow>
     list_all (\<lambda>(k, r). record_id r = k \<and> record_validate es r = Ok ()) (bm_entries records) \<and> validate_links es records = Ok ()"

lemma evidence_graph_record:
  assumes "evidence_graph es records" "bm_get records k = Some r"
  shows "record_id r = k" "record_validate es r = Ok ()" "r \<in> set (bm_values records)"
proof -
  have "(k, r) \<in> set (bm_entries records)" using assms(2) by (simp add: bm_get_Some_iff)
  then show "record_id r = k" "record_validate es r = Ok ()" using assms(1) by (auto simp: evidence_graph_def list_all_iff)
  show "r \<in> set (bm_values records)" using assms(2) by (auto simp: bm_values_iff)
qed

lemma evidence_graph_get:
  assumes "evidence_graph es records" "r \<in> set (bm_values records)"
  shows "bm_get records (record_id r) = Some r"
  using assms evidence_graph_record [OF assms(1)] by (auto simp: bm_values_iff)

lemma validate_links_Ok:
  assumes "validate_links es records = Ok u"
  obtains starts terminals effects where "collect_starts bm_empty (bm_values records) = Ok starts"
    "check_records es records starts ({}, {}) (bm_values records) = Ok (terminals, effects)"
    "\<And>r. r \<in> set (bm_values records) \<Longrightarrow> check_completed records effects r = Ok ()"
  using assms by (auto simp: validate_links_def result_simps)

lemma collect_starts_from:
  "collect_starts s rs = Ok starts \<Longrightarrow> bm_get starts op = Some scopes
    \<Longrightarrow> bm_get s op = Some scopes \<or> (\<exists>r \<in> set rs. operation_of r = op \<and> payload_of r = OperationStarted scopes)"
  by (induction s rs rule: collect_starts.induct) (fastforce split: payload.splits if_splits)+

lemma check_records_step:
  "check_records es records starts st rs = Ok st' \<Longrightarrow> r \<in> set rs \<Longrightarrow> \<exists>a b. check_record es records starts a r = Ok b"
  by (induction rs arbitrary: st) (auto simp: result_simps simp del: check_record.simps)

section \<open>Admission of effects\<close>

text \<open>The references of an effect: allowed decisions of its operation whose grants are pairwise different.\<close>

lemma filter_option_Some: "filter_option P v = Some x \<longleftrightarrow> v = Some x \<and> P x"
  by (cases v) (auto simp: filter_option_def)

lemma reference_cases:
  assumes "(case payload_of q of DecisionRecord d \<Rightarrow> if b d then f d else Inl e | _ \<Rightarrow> Inl e) = Inr u"
  obtains d where "payload_of q = DecisionRecord d" "b d" "f d = Inr u"
  using assms by (auto split: payload.splits if_splits)

lemma check_references_Ok:
  assumes "check_references records op seen ids = Ok u"
  shows "\<exists>ds. length ds = length ids \<and> distinct (map decision_grant ds) \<and> set (map decision_grant ds) \<inter> seen = {} \<and>
    (\<forall>d \<in> set ds. outcome_of d = Allow \<and> (\<exists>i \<in> set ids. \<exists>q. bm_get records i = Some q \<and> operation_of q = op \<and> payload_of q = DecisionRecord d))"
  using assms
proof (induction records op seen ids rule: check_references.induct)
  case (1 records op seen)
  then show ?case by simp
next
  case (2 records op seen i ids)
  obtain q d where q: "bm_get records i = Some q" "operation_of q = op" "payload_of q = DecisionRecord d" "outcome_of d = Allow" "decision_grant d \<notin> seen"
    and rest: "check_references records op (insert (decision_grant d) seen) ids = Ok u"
    using "2.prems" by (auto simp: result_simps filter_option_Some elim!: reference_cases)
  have "ok_or (filter_option (\<lambda>r. operation_of r = op) (bm_get records i)) ''effect policy decision reference missing'' = Inr q"
    using q by (simp add: filter_option_def)
  from "2.IH" [OF this q(3) _ rest] q obtain ds where ds: "length ds = length ids" "distinct (map decision_grant ds)"
    "set (map decision_grant ds) \<inter> insert (decision_grant d) seen = {}"
    "\<forall>d \<in> set ds. outcome_of d = Allow \<and> (\<exists>i \<in> set ids. \<exists>q. bm_get records i = Some q \<and> operation_of q = op \<and> payload_of q = DecisionRecord d)"
    by auto
  show ?case by (rule exI [of _ "d # ds"]) (use ds q in auto)
qed

lemma check_scopes_distinct: "check_scopes seen scopes = Ok u \<Longrightarrow> distinct (map fst scopes) \<and> fst ` set scopes \<inter> seen = {}"
  by (induction seen scopes rule: check_scopes.induct) (auto simp: result_simps split: if_splits)

lemma check_scopes_use: "check_scopes seen scopes = Ok u \<Longrightarrow> (g, v) \<in> set scopes \<Longrightarrow> use_validate v = Ok ()"
  by (induction seen scopes rule: check_scopes.induct) (auto simp: result_simps split: if_splits)

text \<open>
  C18: No effect starts without its admission. In every accepted evidence graph a pending effect belongs to an operation
  whose start declares its scopes, and for each declared scope the effect refers to a decision record of that operation
  that allows exactly that grant and that use, with evidence that passed the validation of allowed decisions.
\<close>

theorem effect_admitted_by_decisions:
  assumes graph: "evidence_graph es records" and r: "bm_get records n = Some r" "payload_of r = EffectStarted eid kind ids"
  shows "\<exists>s scopes. s \<in> set (bm_values records) \<and> operation_of s = operation_of r \<and> payload_of s = OperationStarted scopes \<and> scopes \<noteq> [] \<and>
    (\<forall>(g, v) \<in> set scopes. \<exists>i \<in> set ids. \<exists>q d. bm_get records i = Some q \<and> operation_of q = operation_of r \<and> payload_of q = DecisionRecord d
      \<and> outcome_of d = Allow \<and> decision_grant d = g \<and> evaluated_constraints d = v \<and> decision_validate (policy_sv es) d = Ok ())"
proof -
  have links: "validate_links es records = Ok ()" using graph by (simp add: evidence_graph_def)
  from links obtain starts terminals effects where starts: "collect_starts bm_empty (bm_values records) = Ok starts"
    and checked: "check_records es records starts ({}, {}) (bm_values records) = Ok (terminals, effects)"
    by (rule validate_links_Ok)
  have step: "\<exists>a b. check_record es records starts a q = Ok b" if "q \<in> set (bm_values records)" for q
    using check_records_step [OF checked that] .
  have r_in: "r \<in> set (bm_values records)" using evidence_graph_record [OF graph r(1)] by simp
  from step [OF r_in] obtain scopes where scopes: "bm_get starts (operation_of r) = Some scopes" "length ids = length scopes"
    and refs: "check_references records (operation_of r) {} ids = Ok ()"
    using r(2) by (auto simp: result_simps split: if_splits)
  obtain s where s: "s \<in> set (bm_values records)" "operation_of s = operation_of r" "payload_of s = OperationStarted scopes"
    using collect_starts_from [OF starts scopes(1)] by auto
  have "record_validate es s = Ok ()" using evidence_graph_record [OF graph evidence_graph_get [OF graph s(1)]] by simp
  then have sc: "scopes \<noteq> []" "distinct (map fst scopes)"
    using s(3) check_scopes_distinct [of "{}" scopes "()"] by (auto simp: record_validate_def split: if_splits)
  obtain ds where ds: "length ds = length ids" "distinct (map decision_grant ds)"
    and admitted: "\<forall>d \<in> set ds. outcome_of d = Allow \<and> (\<exists>i \<in> set ids. \<exists>q. bm_get records i = Some q \<and> operation_of q = operation_of r \<and> payload_of q = DecisionRecord d)"
    using check_references_Ok [OF refs] by auto
  have decided: "(decision_grant d, evaluated_constraints d) \<in> set scopes \<and> decision_validate (policy_sv es) d = Ok ()" if "d \<in> set ds" for d
  proof -
    from admitted that obtain i q where q: "bm_get records i = Some q" "operation_of q = operation_of r" "payload_of q = DecisionRecord d" by blast
    have "q \<in> set (bm_values records)" "record_validate es q = Ok ()" using evidence_graph_record [OF graph q(1)] by simp_all
    with step [of q] q scopes(1) show ?thesis by (auto simp: result_simps list_ex_iff record_validate_def split: if_splits)
  qed
  have "set (map decision_grant ds) \<subseteq> set (map fst scopes)" using decided by force
  moreover have "length (map decision_grant ds) = length (map fst scopes)" using ds(1) scopes(2) by simp
  ultimately have grants_eq: "set (map decision_grant ds) = set (map fst scopes)"
    using ds(2) sc(2) by (metis List.finite_set card_subset_eq distinct_card)
  have "\<exists>i \<in> set ids. \<exists>q d. bm_get records i = Some q \<and> operation_of q = operation_of r \<and> payload_of q = DecisionRecord d
      \<and> outcome_of d = Allow \<and> decision_grant d = g \<and> evaluated_constraints d = v \<and> decision_validate (policy_sv es) d = Ok ()"
    if gv: "(g, v) \<in> set scopes" for g v
  proof -
    have "g \<in> set (map decision_grant ds)" using grants_eq gv by force
    then obtain d where d: "d \<in> set ds" "decision_grant d = g" by auto
    then have "(g, evaluated_constraints d) \<in> set scopes" using decided by blast
    then have "evaluated_constraints d = v" using sc(2) gv by (meson eq_key_imp_eq_value)
    with d decided admitted show ?thesis by blast
  qed
  with s sc(1) show ?thesis by blast
qed

section \<open>Completed operations\<close>

definition finished_begin :: "'e policy_record \<Rightarrow> string option" where
  "finished_begin r = (case payload_of r of EffectFinished b _ _ _ _ \<Rightarrow> Some b | _ \<Rightarrow> None)"

lemma finished_begin_Some: "finished_begin r = Some b \<longleftrightarrow> (\<exists>h receipt out ev. payload_of r = EffectFinished b h receipt out ev)"
  by (auto simp: finished_begin_def split: payload.splits)

lemma map_filter_distinct_unique:
  assumes "distinct (List.map_filter f xs)" "x \<in> set xs" "y \<in> set xs" "f x = Some b" "f y = Some b"
  shows "x = y"
  using assms
proof (induction xs)
  case (Cons a xs)
  have in_set: "b \<in> set (List.map_filter f xs)" if "z \<in> set xs" "f z = Some b" for z
    using that by (force simp: map_filter_def)
  show ?case
  proof (cases "x = a \<or> y = a")
    case True
    then show ?thesis using Cons.prems in_set [of x] in_set [of y] by (auto simp: map_filter_def split: option.splits)
  next
    case False
    then show ?thesis using Cons by (auto simp: map_filter_def split: option.splits if_splits)
  qed
qed simp

lemma check_record_effects:
  assumes "check_record es records starts (t, e) r = Ok (t', e')"
  shows "case finished_begin r of None \<Rightarrow> e' = e | Some b \<Rightarrow> b \<notin> e \<and> e' = insert b e"
  using assms by (auto simp: finished_begin_def result_simps split: payload.splits if_splits)

lemma check_records_effects:
  "check_records es records starts (t, e) rs = Ok (t', e') \<Longrightarrow>
    e' = e \<union> set (List.map_filter finished_begin rs) \<and> distinct (List.map_filter finished_begin rs) \<and> e \<inter> set (List.map_filter finished_begin rs) = {}"
proof (induction rs arbitrary: t e)
  case Nil
  then show ?case by (simp add: map_filter_def)
next
  case (Cons r rs)
  obtain t1 e1 where one: "check_record es records starts (t, e) r = Ok (t1, e1)" and rest: "check_records es records starts (t1, e1) rs = Ok (t', e')"
    using Cons.prems by (auto simp: result_simps simp del: check_record.simps)
  show ?case using Cons.IH [OF rest] check_record_effects [OF one]
    by (cases "finished_begin r") (auto simp: map_filter_def)
qed

lemma check_record_finished:
  assumes "check_record es records starts st f = Ok st'" "payload_of f = EffectFinished b h receipt out ev"
  obtains q where "bm_get records b = Some q" "operation_of q = operation_of f" "record_digest es q = h"
  using assms by (cases st) (auto simp: result_simps filter_option_def split: if_splits option.splits)

lemma finished_outcome:
  assumes "record_validate es f = Ok ()" "payload_of f = EffectFinished b h receipt out ev" "out \<noteq> Uncertain"
  shows "out = Completed \<and> (\<exists>v. receipt = Some v)"
  using assms by (cases out) (auto simp: record_validate_def split: if_splits option.splits)

lemma completed_settled:
  assumes graph: "evidence_graph es records" and t: "bm_get records n = Some t" "payload_of t = OperationFinished Completed"
    and r: "bm_get records m = Some r" "operation_of r = operation_of t"
  shows "(\<forall>d. payload_of r = DecisionRecord d \<longrightarrow> outcome_of d = Allow) \<and>
    (\<forall>eid kind ids. payload_of r = EffectStarted eid kind ids \<longrightarrow> (\<exists>!f. f \<in> set (bm_values records) \<and> finished_begin f = Some m) \<and>
      (\<exists>f receipt ev. f \<in> set (bm_values records) \<and> operation_of f = operation_of r
        \<and> payload_of f = EffectFinished m (record_digest es r) (Some receipt) Completed ev))"
proof -
  have links: "validate_links es records = Ok ()" using graph by (simp add: evidence_graph_def)
  from links obtain starts terminals effects where
    checked: "check_records es records starts ({}, {}) (bm_values records) = Ok (terminals, effects)"
    and completed: "\<And>q. q \<in> set (bm_values records) \<Longrightarrow> check_completed records effects q = Ok ()"
    by (rule validate_links_Ok) blast
  note recs = evidence_graph_record [OF graph]
  have "check_completed records effects t = Ok ()" using completed recs(3) [OF t(1)] .
  then have settled: "\<not> denial (operation_of t) q" "\<not> unresolved effects (operation_of t) q" if "q \<in> set (bm_values records)" for q
    using t(2) that by (auto simp: check_completed_def list_ex_iff split: if_splits)
  have "outcome_of d = Allow" if "payload_of r = DecisionRecord d" for d
    using settled(1) [OF recs(3) [OF r(1)]] r(2) that by (cases "outcome_of d") (auto simp: denial_def)
  moreover
  {
    fix eid kind ids
    assume started: "payload_of r = EffectStarted eid kind ids"
    have once: "effects = set (List.map_filter finished_begin (bm_values records))" "distinct (List.map_filter finished_begin (bm_values records))"
      using check_records_effects [OF checked] by simp_all
    have "m \<in> effects" using settled(2) [OF recs(3) [OF r(1)]] r(2) started recs(1) [OF r(1)] by (auto simp: unresolved_def)
    then obtain f where f: "f \<in> set (bm_values records)" "finished_begin f = Some m" using once(1) by (auto simp: map_filter_def)
    then obtain h receipt out ev where pf: "payload_of f = EffectFinished m h receipt out ev" by (auto simp: finished_begin_Some)
    obtain a b where "check_record es records starts a f = Ok b" using check_records_step [OF checked f(1)] by blast
    then have fr: "operation_of f = operation_of r" "h = record_digest es r"
      using pf r(1) by (auto elim: check_record_finished)
    have "out \<noteq> Uncertain" using settled(2) [OF f(1)] fr(1) r(2) pf by (auto simp: unresolved_def)
    moreover have "record_validate es f = Ok ()" using recs(2) [OF evidence_graph_get [OF graph f(1)]] .
    ultimately have "out = Completed \<and> (\<exists>v. receipt = Some v)" using finished_outcome pf by blast
    then have "\<exists>f receipt ev. f \<in> set (bm_values records) \<and> operation_of f = operation_of r
        \<and> payload_of f = EffectFinished m (record_digest es r) (Some receipt) Completed ev"
      using f(1) fr pf by blast
    moreover have "\<exists>!f. f \<in> set (bm_values records) \<and> finished_begin f = Some m"
      using f map_filter_distinct_unique [OF once(2)] by blast
    ultimately have "(\<exists>!f. f \<in> set (bm_values records) \<and> finished_begin f = Some m) \<and>
      (\<exists>f receipt ev. f \<in> set (bm_values records) \<and> operation_of f = operation_of r
        \<and> payload_of f = EffectFinished m (record_digest es r) (Some receipt) Completed ev)" by blast
  }
  ultimately show ?thesis by blast
qed

text \<open>
  C17: An operation is recorded as completed only when it is settled. In every accepted evidence graph with a completed
  outcome of an operation, every decision of the operation allowed its use, and every effect it started has exactly one
  outcome record, which is of the same operation, names the digest of that very effect record, carries a receipt and says
  completed: no effect is left open, denied or uncertain.
\<close>

theorem completed_operation_settled:
  assumes graph: "evidence_graph es records" and t: "bm_get records n = Some t" "payload_of t = OperationFinished Completed"
    and r: "bm_get records m = Some r" "operation_of r = operation_of t"
  shows "(\<forall>d. payload_of r = DecisionRecord d \<longrightarrow> outcome_of d = Allow) \<and>
    (\<forall>eid kind ids. payload_of r = EffectStarted eid kind ids \<longrightarrow> (\<exists>!f. f \<in> set (bm_values records) \<and> finished_begin f = Some m) \<and>
      (\<exists>f receipt ev. f \<in> set (bm_values records) \<and> operation_of f = operation_of r
        \<and> payload_of f = EffectFinished m (record_digest es r) (Some receipt) Completed ev))"
  using completed_settled [OF assms] .

end
