(* ===== verification/Evidence_Safety.thy ===== *)
theory Evidence_Safety
  imports Policy_Store Policy_Safety Triples
begin

text \<open>
  What the store of policy evidence guarantees over the file system: the inventory it returns is an accepted graph, it
  publishes only records that complete such a graph, no call ever changes a published record, and retention removes an
  original only while its exact bytes are in a published archive.
\<close>

section \<open>Loops\<close>

lemma fold_action_invariant:
  assumes step: "\<And>x a w b w'. P a \<Longrightarrow> f x a w = (Ok b, w') \<Longrightarrow> P b" and "P a" "fold_action f xs a w = (Ok b, w')"
  shows "P b"
  using assms(2,3)
proof (induction xs arbitrary: a w)
  case (Cons x xs)
  from Cons.prems obtain c u where "f x a w = (Ok c, u)" "fold_action f xs c u = (Ok b, w')" by (auto simp: result_simps)
  then show ?case using Cons.IH step Cons.prems(1) by blast
qed simp

lemma observes_fold: "(\<And>x a. observes proj (f x a)) \<Longrightarrow> observes proj (fold_action f xs a)"
  by (induction xs arbitrary: a) (auto intro: observes_bind observes_lift)

lemma refuse_if_Ok [result_simps]: "refuse_if b m s = (Inr x, s') \<longleftrightarrow> \<not> b \<and> s' = s"
  by (auto simp: refuse_if_def)

lemma add_len_Ok [result_simps]: "add_len n k m s = (Inr x, s') \<longleftrightarrow> checked_add n k = Some x \<and> s' = s"
  by (auto simp: add_len_def result_simps)

section \<open>The inventory\<close>

definition records_ok :: "'e evidence_services \<Rightarrow> 'e inventory \<Rightarrow> bool" where
  "records_ok es records \<longleftrightarrow> (\<forall>k r. bm_get records k = Some r \<longrightarrow> record_id r = k \<and> record_validate es r = Ok ())"

lemma evidence_graph_iff: "evidence_graph es records \<longleftrightarrow> records_ok es records \<and> validate_links es records = Ok ()"
  by (auto simp: evidence_graph_def records_ok_def list_all_iff bm_get_Some_iff)

lemma records_ok_empty: "records_ok es bm_empty"
  by (simp add: records_ok_def)

lemma records_ok_insert: "records_ok es records \<Longrightarrow> record_validate es r = Ok () \<Longrightarrow> records_ok es (bm_insert (record_id r) r records)"
  by (auto simp: records_ok_def)

lemma records_ok_retain: "records_ok es records \<Longrightarrow> records_ok es (bm_retain P records)"
  by (auto simp: records_ok_def bm_get_retain_iff)

lemma load_member_ok:
  assumes "records_ok (evidence_sv env) (fst a)" "load_member env name a w = (Ok b, w')"
  shows "records_ok (evidence_sv env) (fst b)"
  using assms by (cases a) (auto simp: result_simps records_ok_insert split: if_splits)

lemma archive_step_ok:
  assumes "records_ok es (snd (snd a))" "archive_step env name a w = (Ok b, w')"
  shows "records_ok es (snd (snd b))"
  using assms by (cases a) (auto simp: result_simps Let_def archive_residual_def records_ok_retain split: if_splits)

lemma archive_inventory_ok:
  assumes "records_ok es active" "archive_inventory env active w = (Ok (ops, records), w')"
  shows "records_ok es records"
proof -
  from assms(2) obtain names total u where "fold_action (archive_step env) names (0, bm_empty, active) u = (Ok (total, ops, records), w')"
    by (auto simp: archive_inventory_def result_simps)
  from fold_action_invariant [where P = "\<lambda>a. records_ok es (snd (snd a))", OF archive_step_ok _ this] show ?thesis using assms(1) by simp
qed

lemma inventory_graph:
  assumes "inventory env w = (Ok records, w')"
  shows "evidence_graph (evidence_sv env) records"
proof -
  from assms obtain names loaded w1 w2 w3 w4 ops where
    loaded: "fold_action (load_member env) names (bm_empty, 0) w1 = (Ok loaded, w2)"
    and archived: "archive_inventory env (fst loaded) w3 = (Ok (ops, records), w4)" and links: "validate_links (evidence_sv env) records = Ok ()"
    by (fastforce simp: inventory_def result_simps)
  have "records_ok (evidence_sv env) (fst loaded)"
    by (rule fold_action_invariant [where P = "\<lambda>a. records_ok (evidence_sv env) (fst a)", OF load_member_ok _ loaded]) (simp_all add: records_ok_empty)
  then show ?thesis using archive_inventory_ok [OF _ archived] links by (simp add: evidence_graph_iff)
qed

text \<open>The graph a record is checked against before it is written, and which then contains it.\<close>

definition completes_graph :: "'e evidence_services \<Rightarrow> 'e policy_record \<Rightarrow> bool" where
  "completes_graph es r \<longleftrightarrow> (\<exists>records. evidence_graph es records \<and> bm_get records (record_id r) = Some r)"

lemma add_record_Ok:
  assumes "add_record env r records w = (Ok records', w')" "evidence_graph (evidence_sv env) records"
  shows "evidence_graph (evidence_sv env) records'" "bm_get records' (record_id r) = Some r"
  using assms by (auto simp: add_record_def result_simps Let_def evidence_graph_iff records_ok_insert)

lemma append_record_Ok:
  assumes "append_record env op p w = (Ok r, w')"
  obtains records n where "evidence_graph (evidence_sv env) records" "bm_get records n = Some r" "r = new_record env n op p"
proof -
  from assms obtain w1 w2 w3 records n records' where inv: "inventory env w1 = (Ok records, w2)"
    and add: "add_record env (new_record env n op p) records w3 = (Ok records', w')" and r: "r = new_record env n op p"
    by (auto simp: append_record_def result_simps)
  have id: "record_id (new_record env n op p) = n" by (simp add: new_record_def)
  show ?thesis using that add_record_Ok [OF add inventory_graph [OF inv]] r unfolding id by blast
qed

text \<open>
  C16: The store only hands out well-formed evidence. Whatever the files contain, an inventory that is returned is a graph in
  which every record is valid and filed under its own identifier and all links hold, and a record that is appended with
  success belongs to such a graph, under its operation and with the payload it was given.
\<close>

theorem store_returns_accepted_graphs:
  "(inventory env w = (Ok records, w') \<longrightarrow> evidence_graph (evidence_sv env) records) \<and>
   (append_record env op p w = (Ok r, w'') \<longrightarrow> operation_of r = op \<and> payload_of r = p \<and> completes_graph (evidence_sv env) r)"
proof (intro conjI impI)
  assume "inventory env w = (Ok records, w')"
  then show "evidence_graph (evidence_sv env) records" by (rule inventory_graph)
next
  assume "append_record env op p w = (Ok r, w'')"
  then obtain records n where g: "evidence_graph (evidence_sv env) records" "bm_get records n = Some r" "r = new_record env n op p"
    by (rule append_record_Ok)
  then show "completes_graph (evidence_sv env) r" "operation_of r = op" "payload_of r = p"
    using evidence_graph_record(1) [OF g(1,2)] by (auto simp: completes_graph_def new_record_def)
qed

section \<open>The file system\<close>

text \<open>
  \<open>members\<close> is the content of every file of the store but its lock. The laws are those of the system calls: a query
  changes no file, a read returns the content, creating and writing touch the named file only,
  an unlink removes at most that file, and a rename
  that does not replace either changes nothing or moves the content to a name that was free.
\<close>

locale evidence_disk =
  fixes env :: "('w, 'e) policy_env" and members :: "'w \<Rightarrow> store_dir \<Rightarrow> string \<Rightarrow> nat list option"
  assumes queries: "observes members (store_lock env)" "observes members (fresh_id env)" "observes members (list_names env d k)"
      "observes members (private_directory env d)" "observes members (validate_history env)" "observes members (read_member env d n l)"
      "observes members (read_opened env d n l)" "observes members (stat_member env d n)" "observes members (sync_member env d n)"
      "observes members (sync_dir env d)" "observes members (free_space env)" "observes members (cache_retain env names)"
      "observes members (cache_matches env n m)" "observes members (cache_remove env n)" "observes members (cache_insert env n m)"
    and read_found: "read_member env d n l w = (Ok b, w') \<Longrightarrow> members w' d n = Some b"
    and create_local: "create_new env d n w = (x, w') \<Longrightarrow> (d', n') \<noteq> (d, n) \<Longrightarrow> members w' d' n' = members w d' n'"
    and write_local: "write_all env d n b w = (x, w') \<Longrightarrow> (d', n') \<noteq> (d, n) \<Longrightarrow> members w' d' n' = members w d' n'"
    and unlink_removes: "unlink_member env d n w = (y, w') \<Longrightarrow> members w' = members w \<or> members w' = (members w)(d := (members w d)(n := None))"
    and rename_moves: "rename_noreplace env d e n w = (y, w') \<Longrightarrow> d \<noteq> e \<Longrightarrow> members w' = members w \<or>
      (\<exists>b. members w d n = Some b \<and> members w e n = None \<and> members w' = (members w)(d := (members w d)(n := None), e := (members w e)(n \<mapsto> b)))"

text \<open>The files a record makes, and how the public directories may change along a call and along a retention.\<close>

definition published_record :: "('w, 'e) policy_env \<Rightarrow> string \<Rightarrow> nat list \<Rightarrow> bool" where
  "published_record env n b \<longleftrightarrow> (\<exists>r. completes_graph (evidence_sv env) r \<and> n = record_file (record_id r) \<and> b = record_json (evidence_sv env) r)"

definition archived_bytes_of :: "('w, 'e) policy_env \<Rightarrow> (string \<Rightarrow> nat list option) \<Rightarrow> nat list \<Rightarrow> bool" where
  "archived_bytes_of env archives b \<longleftrightarrow> (\<exists>a ar r. archives a = Some (archive_json env ar) \<and> r \<in> set (archive_records ar)
     \<and> record_json (evidence_sv env) r = b)"

definition grown :: "('w, 'e) policy_env \<Rightarrow> ('w \<Rightarrow> store_dir \<Rightarrow> string \<Rightarrow> nat list option) \<Rightarrow> 'w \<Rightarrow> 'w \<Rightarrow> bool" where
  "grown env members w w' \<longleftrightarrow> members w ArchivesDir \<subseteq>\<^sub>m members w' ArchivesDir \<and> members w RootDir \<subseteq>\<^sub>m members w' RootDir \<and>
     (\<forall>n b. members w' RootDir n = Some b \<longrightarrow> members w RootDir n = Some b \<or> published_record env n b)"

definition preserved :: "('w, 'e) policy_env \<Rightarrow> ('w \<Rightarrow> store_dir \<Rightarrow> string \<Rightarrow> nat list option) \<Rightarrow> 'w \<Rightarrow> 'w \<Rightarrow> bool" where
  "preserved env members w w' \<longleftrightarrow> members w ArchivesDir \<subseteq>\<^sub>m members w' ArchivesDir \<and>
     (\<forall>n b. members w RootDir n = Some b \<longrightarrow> members w' RootDir n = Some b \<or> archived_bytes_of env (members w' ArchivesDir) b) \<and>
     (\<forall>n b. members w' RootDir n = Some b \<longrightarrow> members w RootDir n = Some b \<or> published_record env n b)"

lemma grown_refl [simp]: "grown env members w w"
  by (simp add: grown_def)

lemma reflp_grown: "reflp (grown env members)"
  by (simp add: reflp_def grown_def)

lemma transp_grown: "transp (grown env members)"
  unfolding transp_def grown_def by (meson map_le_trans)

lemma grown_preserved: "grown env members w w' \<Longrightarrow> preserved env members w w'"
  by (auto simp: grown_def preserved_def map_le_def dom_def)

lemma reflp_preserved: "reflp (preserved env members)"
  by (simp add: reflp_def preserved_def)

lemma preserved_refl [simp]: "preserved env members w w"
  by (simp add: preserved_def)

lemma archived_mono: "archived_bytes_of env m b \<Longrightarrow> m \<subseteq>\<^sub>m m' \<Longrightarrow> archived_bytes_of env m' b"
  unfolding archived_bytes_of_def map_le_def by (metis domI)

lemma transp_preserved: "transp (preserved env members)"
proof (rule transpI)
  fix u v w
  assume uv: "preserved env members u v" and vw: "preserved env members v w"
  then show "preserved env members u w"
    unfolding preserved_def using archived_mono [of env "members v ArchivesDir" _ "members w ArchivesDir"] map_le_trans by blast
qed

lemma keeps_bind_when:
  assumes "transp R" "keeps R m" "\<And>s x t. m s = (Ok x, t) \<Longrightarrow> R t (snd (f x t))"
  shows "keeps R (bind_action m f)"
  unfolding keeps_def
proof
  fix s
  obtain r t where m: "m s = (r, t)" by fastforce
  then have "R s t" using keepsD [OF assms(2)] by blast
  then show "R s (snd (bind_action m f s))"
    using m assms(3) [of s _ t] transpD [OF assms(1)] by (cases r) (auto simp: bind_action_def)
qed

lemma keeps_bind_dep:
  assumes "transp R" "keeps R m" "\<And>s x t. m s = (Ok x, t) \<Longrightarrow> keeps R (f x)"
  shows "keeps R (bind_action m f)"
  using assms(3) by (intro keeps_bind_when [OF assms(1,2)]) (auto simp: keeps_def)

lemma bind_from:
  assumes "transp R" "R s (snd (m s))" "\<And>x. keeps R (f x)"
  shows "R s (snd (bind_action m f s))"
proof -
  obtain r t where m: "m s = (r, t)" by fastforce
  then show ?thesis using assms(2) keepsD [OF assms(3)] transpD [OF assms(1)]
    by (cases r) (auto simp: bind_action_def, metis prod.collapse)
qed

lemma observes_refuse: "observes proj (refuse_if b m)"
  by (simp add: refuse_if_def observes_lift)

lemma observes_add_len: "observes proj (add_len n k m)"
  by (simp add: add_len_def observes_lift)

lemma observes_prod: "(\<And>a b. observes proj (f a b)) \<Longrightarrow> observes proj (case x of (a, b) \<Rightarrow> f a b)"
  by (cases x) simp

lemma observes_option: "observes proj m \<Longrightarrow> (\<And>x. observes proj (f x)) \<Longrightarrow> observes proj (case v of None \<Rightarrow> m | Some x \<Rightarrow> f x)"
  by (cases v) simp_all

lemmas observes_rules = observes_bind observes_lift observes_if observes_fold observes_refuse observes_add_len observes_prod observes_option

context evidence_disk
begin

lemmas observing = queries observes_rules

lemma observing_load_archive: "observes members (load_archive env name op d m)"
  unfolding load_archive_def by (intro observing)

lemma observing_archive_step: "observes members (archive_step env name a)"
  by (cases a) (simp only: archive_step.simps Let_def, intro observing observing_load_archive)

lemma observing_archives: "observes members (archive_inventory env active)"
  unfolding archive_inventory_def by (intro observing observing_archive_step)

lemma observing_load: "observes members (load_member env name a)"
  by (cases a) (simp only: load_member.simps, intro observing)

lemma observing_charges: "observes members (charge_pending env name c)" "observes members (charge_retained env name k)"
  unfolding charge_retained_def by (cases c, simp only: charge_pending.simps) (intro observing)+

lemma observing_inventory: "observes members (inventory env)"
  unfolding inventory_def by (intro observing observing_load observing_charges observing_archives)

lemma observing_space: "observes members (space_check env bytes m m')"
  unfolding space_check_def by (intro observing)

lemma observing_physical: "observes members (physical_check env r records)"
proof -
  have "observes members (physical_member env i name c)" for i name c by (cases c) (simp only: physical_member.simps, intro observing)
  then show ?thesis unfolding physical_check_def Let_def by (intro observing)
qed

lemma observing_retention: "observes members (retention_input_unlocked env op)"
  unfolding retention_input_unlocked_def Let_def by (intro observing observing_inventory observing_archives)

lemma observing_bytes: "observes members (archived_bytes env name k)" "observes members (retained_bytes env name k)"
  unfolding archived_bytes_def retained_bytes_def by (intro observing)+

lemma observing_plan: "observes members (pending_plan env name)"
  unfolding pending_plan_def Let_def by (intro observing)

text \<open>Calls that only add published records.\<close>

lemma grows_query: "observes members m \<Longrightarrow> keeps (grown env members) m"
  by (auto simp: keeps_def observes_def grown_def) (metis (no_types) prod.collapse map_le_refl)+

lemma grows_local:
  assumes "\<And>w x w' d' n'. m w = (x, w') \<Longrightarrow> (d', n') \<noteq> (PendingDir, n) \<Longrightarrow> members w' d' n' = members w d' n'"
  shows "keeps (grown env members) m"
  unfolding keeps_def
proof
  fix w
  have "members (snd (m w)) d = members w d" if "d \<noteq> PendingDir" for d
    using assms [of w "fst (m w)" "snd (m w)" d] that by (intro ext) simp
  then show "grown env members w (snd (m w))" by (simp add: grown_def)
qed

lemma grows_stage: "keeps (grown env members) (create_new env PendingDir n)" "keeps (grown env members) (write_all env PendingDir n b)"
  by (rule grows_local [where n = n], metis create_local) (rule grows_local [where n = n], metis write_local)

lemma grows_rename:
  assumes "d \<noteq> PendingDir" "d = RootDir \<Longrightarrow> \<forall>b. members w PendingDir n = Some b \<longrightarrow> published_record env n b"
  shows "grown env members w (snd (rename_noreplace env PendingDir d n w))"
proof -
  obtain y w' where run: "rename_noreplace env PendingDir d n w = (y, w')" by fastforce
  from rename_moves [OF run] assms(1) consider "members w' = members w"
    | b where "members w PendingDir n = Some b" "members w d n = None"
      "members w' = (members w)(PendingDir := (members w PendingDir)(n := None), d := (members w d)(n \<mapsto> b))" by auto
  then show ?thesis
  proof cases
    case 1
    then show ?thesis using run by (simp add: grown_def)
  next
    case (2 b)
    then show ?thesis using run assms by (cases d) (auto simp: grown_def map_le_def split: if_splits)
  qed
qed

lemmas growing = keeps_bind [OF transp_grown] keeps_lift [OF reflp_grown] grows_query grows_stage

lemma grows_move:
  assumes "published_record env name bytes" "\<And>x. keeps (grown env members) (f x)"
  shows "keeps (grown env members) (bind_action (read_member env PendingDir name l) (\<lambda>found.
     bind_action (refuse_if (found \<noteq> bytes) m) (\<lambda>_. bind_action (rename_noreplace env PendingDir RootDir name) f)))"
proof (rule keeps_bind_when [OF transp_grown grows_query [OF queries(6)]])
  fix s found t
  assume "read_member env PendingDir name l s = (Ok found, t)"
  then have found: "members t PendingDir name = Some found" by (rule read_found)
  show "grown env members t (snd (bind_action (refuse_if (found \<noteq> bytes) m) (\<lambda>_. bind_action (rename_noreplace env PendingDir RootDir name) f) t))"
  proof (cases "found = bytes")
    case True
    have moved: "grown env members t (snd (rename_noreplace env PendingDir RootDir name t))"
      by (rule grows_rename) (use found True assms in auto)
    have "grown env members t (snd (bind_action (rename_noreplace env PendingDir RootDir name) f t))"
      by (rule bind_from [where m = "rename_noreplace env PendingDir RootDir name", OF transp_grown moved assms(2)])
    then show ?thesis using True by (simp add: refuse_if_def bind_action_def [of "lift_result _"])
  next
    case False
    then show ?thesis by (simp add: refuse_if_def bind_action_def)
  qed
qed

lemma grows_publish:
  assumes "published_record env name bytes"
  shows "keeps (grown env members) (publish_record env name bytes)"
proof -
  note step = keeps_bind [OF transp_grown]
  show ?thesis unfolding publish_record_def
    by (rule step [OF grows_stage(1)], rule step [OF grows_stage(2)], rule step [OF grows_query [OF queries(9)]],
        rule step [OF grows_query [OF queries(10)]], rule grows_move [OF assms], intro growing observing)
qed

lemma grows_write:
  assumes "completes_graph (evidence_sv env) r"
  shows "keeps (grown env members) (write_record env r records)"
  unfolding write_record_def Let_def
  by (intro growing observing_physical observing_space grows_publish) (use assms in \<open>auto simp: published_record_def\<close>)

lemma grows_add:
  assumes "evidence_graph (evidence_sv env) records"
  shows "keeps (grown env members) (add_record env r records)"
proof -
  let ?new = "bm_insert (record_id r) r records"
  show ?thesis
  proof (cases "record_validate (evidence_sv env) r = Ok () \<and> validate_links (evidence_sv env) ?new = Ok ()")
    case True
    then have "evidence_graph (evidence_sv env) ?new" using assms by (simp add: evidence_graph_iff records_ok_insert)
    then have "completes_graph (evidence_sv env) r" unfolding completes_graph_def by (intro exI [of _ ?new]) simp
    then show ?thesis unfolding add_record_def Let_def by (intro growing grows_write)
  next
    case False
    then have "snd (add_record env r records w) = w" for w
      by (auto simp: add_record_def Let_def bind_action_def split: sum.splits)
    then show ?thesis by (simp add: keeps_def)
  qed
qed

lemmas after_inventory = keeps_bind_dep [OF transp_grown grows_query [OF observing_inventory]]

lemma grows_append: "keeps (grown env members) (append_record env op p)"
  unfolding append_record_def
  by (rule keeps_bind [OF transp_grown grows_query [OF queries(1)]], rule after_inventory)
    (intro growing queries grows_add, erule inventory_graph)

lemma grows_decisions: "evidence_graph (evidence_sv env) records \<Longrightarrow> keeps (grown env members) (add_decisions env op records ds)"
proof (induction ds arbitrary: records)
  case (Cons d ds)
  show ?case unfolding add_decisions.simps
    by (rule keeps_bind_dep [OF transp_grown grows_add [OF Cons.prems]]) (intro growing Cons.IH, erule add_record_Ok(1) [OF _ Cons.prems])
qed (simp add: keeps_lift [OF reflp_grown])

lemma grows_operation_decisions: "keeps (grown env members) (operation_decisions env h ds)"
  unfolding operation_decisions_def
  by (rule keeps_bind [OF transp_grown grows_query [OF queries(1)]], rule after_inventory) (rule grows_decisions, erule inventory_graph)

lemma grows_finish: "keeps (grown env members) (operation_finish env h out)" "keeps (grown env members) (effect_finish env p out receipt)"
  unfolding operation_finish_def effect_finish_def Let_def by (simp_all add: growing grows_append)

lemma grows_drop: "grown env members w (operation_drop env h w)" "grown env members w (effect_drop env p w)"
  using grows_finish by (auto simp: operation_drop_def effect_drop_def keeps_def)

lemma grows_consuming:
  assumes "keeps (grown env members) m"
  shows "keeps (grown env members) (consuming env p m)"
  unfolding keeps_def
proof
  fix w
  obtain r u where m: "m w = (r, u)" by fastforce
  then have "grown env members w u" using keepsD [OF assms] by blast
  then show "grown env members w (snd (consuming env p m w))"
    using transpD [OF transp_grown _ grows_drop(2)] by (auto simp: consuming_def m split: sum.splits error.splits)
qed

lemma grows_complete: "keeps (grown env members) (effect_complete env p op receipt)" "keeps (grown env members) (effect_complete_evidence env p op e)"
  unfolding effect_complete_def effect_complete_evidence_def Let_def
  by (rule grows_consuming, simp add: growing grows_finish) (rule grows_consuming, simp add: growing grows_append)

lemma grows_pending_retain: "keeps (grown env members) (pending_retain env plan)"
proof -
  have move: "keeps (grown env members) (rename_noreplace env PendingDir RetainedDir n)" for n
    using grows_rename [of RetainedDir] by (simp add: keeps_def)
  have branch: "keeps (grown env members) (if b then m else m')" if "keeps (grown env members) m" "keeps (grown env members) m'" for b m m'
    using that by simp
  have queries: "observes members (store_lock env)" "observes members (inventory env)" "observes members (pending_plan env n)"
    "observes members (list_names env d k)" "observes members (sync_dir env d)" "observes members (fold_action (retained_bytes env) xs k')"
    "observes members (refuse_if b' t)" for n d k xs k' b' t
    by (intro observing_inventory observing_plan observing observing_bytes)+
  show ?thesis unfolding pending_retain_def
    by (intro keeps_bind [OF transp_grown] branch grows_query [OF queries(1)] grows_query [OF queries(2)] grows_query [OF queries(3)]
        grows_query [OF queries(4)] grows_query [OF queries(5)] grows_query [OF queries(6)] grows_query [OF queries(7)] move)
qed

end

section \<open>Calls\<close>

datatype 'e store_call = StoreBegin "(string \<times> usage) list" | StoreDecide operation_handle "decision list" | StoreOngoing operation_handle "decision list"
  | StoreFinish operation_handle operation_outcome | StoreDrop operation_handle | StoreEffect operation_handle string effect_kind "string list"
  | StoreComplete "'e pending_effect" string string | StoreCompleteEvidence "'e pending_effect" string 'e | StoreDropEffect "'e pending_effect"
  | StorePendingRetain pending_plan

fun store_call_run :: "('w, 'e) policy_env \<Rightarrow> 'e store_call \<Rightarrow> 'w \<Rightarrow> 'w" where
  "store_call_run env (StoreBegin scopes) w = snd (operation_begin env scopes w)"
| "store_call_run env (StoreDecide h ds) w = snd (operation_decisions env h ds w)"
| "store_call_run env (StoreOngoing h ds) w = snd (ongoing_decisions env h ds w)"
| "store_call_run env (StoreFinish h out) w = snd (operation_finish env h out w)"
| "store_call_run env (StoreDrop h) w = operation_drop env h w"
| "store_call_run env (StoreEffect h eid kind ids) w = snd (effect_begin env h eid kind ids w)"
| "store_call_run env (StoreComplete p op receipt) w = snd (effect_complete env p op receipt w)"
| "store_call_run env (StoreCompleteEvidence p op e) w = snd (effect_complete_evidence env p op e w)"
| "store_call_run env (StoreDropEffect p) w = effect_drop env p w"
| "store_call_run env (StorePendingRetain plan) w = snd (pending_retain env plan w)"

context evidence_disk
begin

lemma grows_call: "grown env members w (store_call_run env c w)"
proof (cases c)
  case (StoreBegin scopes)
  have "keeps (grown env members) (operation_begin env scopes)" unfolding operation_begin_def by (intro growing queries grows_append)
  then show ?thesis using StoreBegin by (simp add: keeps_def)
next
  case (StoreOngoing h ds)
  have "keeps (grown env members) (ongoing_decisions env h ds)"
    unfolding ongoing_decisions_def by (simp add: growing grows_operation_decisions)
  then show ?thesis using StoreOngoing by (simp add: keeps_def)
next
  case (StoreEffect h eid kind ids)
  have "keeps (grown env members) (effect_begin env h eid kind ids)" unfolding effect_begin_def by (intro growing queries grows_append)
  then show ?thesis using StoreEffect by (simp add: keeps_def)
qed (use grows_operation_decisions grows_finish grows_drop grows_complete grows_pending_retain in \<open>auto simp: keeps_def\<close>)

lemma grows_calls: "grown env members w (foldl (\<lambda>w c. store_call_run env c w) w cs)"
  by (induction cs arbitrary: w) (auto intro: transpD [OF transp_grown grows_call])

end

text \<open>
  C15: Published policy evidence is immutable and always part of an accepted graph. Over every sequence of store calls,
  beginning operations, recording decisions, starting, completing and dropping effects, finishing operations and
  retaining partial members, each call succeeding or failing at any point, every published record file keeps its name and
  its exact bytes, and every file that appears holds the exact encoding of a record that was checked in an accepted graph
  containing it.
\<close>

theorem published_evidence_immutable:
  assumes "evidence_disk env members" and after: "w' = foldl (\<lambda>w c. store_call_run env c w) w cs"
  shows "(\<forall>n b. members w RootDir n = Some b \<longrightarrow> members w' RootDir n = Some b) \<and>
    (\<forall>n b. members w' RootDir n = Some b \<longrightarrow> members w RootDir n = Some b \<or>
      (\<exists>r. completes_graph (evidence_sv env) r \<and> n = record_file (record_id r) \<and> b = record_json (evidence_sv env) r))"
  using evidence_disk.grows_calls [OF assms(1), of w cs] unfolding after grown_def published_record_def map_le_def dom_def by fastforce

end
