(* ===== verification/Boundary_Safety.thy ===== *)
theory Boundary_Safety
  imports Grant_Boundary Evidence_Safety
begin

text \<open>
  What a granted operation guarantees: a successful check means that the authority captured after the decisions were
  durable allows every use, a refused check ends the boundary for good, and an operation that returns a value has been
  recorded as completed in an accepted evidence graph.
\<close>

section \<open>Steps of the boundary\<close>

lemma on_refusal_Inr [result_simps]:
  "on_refusal m h s = (Inr x, s') \<longleftrightarrow> m s = (Inr x, s') \<or> (\<exists>t u. m s = (Inl (Error t), u) \<and> h (Error t) u = (Inr x, s'))"
  by (auto simp: on_refusal_def split: prod.splits sum.splits error.splits)

lemma in_store_Inr [result_simps]: "in_store m s = (Inr x, s') \<longleftrightarrow> (\<exists>w. m (fst s) = (Inr x, w) \<and> s' = (w, snd s))"
  by (auto simp: in_store_def split: prod.splits)

lemma get_boundary_Inr [result_simps]: "get_boundary s = (Inr b, s') \<longleftrightarrow> b = snd s \<and> s' = s"
  by (auto simp: get_boundary_def)

lemma set_boundary_eq [simp]: "set_boundary f s = (Ok (), fst s, f (snd s))"
  by (cases s) (simp add: set_boundary_def)

lemma bind_get: "bind_action get_boundary f s = f (snd s) s"
  by (simp add: bind_action_def get_boundary_def)

lemma bind_set: "bind_action (set_boundary g) f s = f () (fst s, g (snd s))"
  by (simp add: bind_action_def)

lemma capture_Inr: "capture env s = (Inr cap, s') \<longleftrightarrow>
    (\<exists>why w. capture_authority env (snd s) (fst s) = ((Inr cap, why), w) \<and> s' = (w, (snd s)\<lparr>capture_reason := why\<rparr>))"
  by (auto simp: capture_def split: prod.splits)

lemma refuse_unavailable_Inr [simp]: "refuse_unavailable env why e s = (Inr x, s') \<longleftrightarrow> False"
  by (auto simp: refuse_unavailable_def result_simps)

lemma capture_or_record_Inr: "capture_or_record env s = (Inr cap, s') \<longleftrightarrow> capture env s = (Inr cap, s')"
  by (auto simp: capture_or_record_def result_simps)

text \<open>The decisions of a capture, one for each use in order.\<close>

lemma draw_decisions_Inr:
  "draw_decisions env f uses w = (Inr ds, w') \<Longrightarrow> list_all2 (\<lambda>(g, u) d. \<exists>n. f n g u = Ok d) uses ds"
proof (induction uses arbitrary: w ds)
  case (Cons gu uses)
  obtain g u where gu: "gu = (g, u)" by fastforce
  from Cons.prems obtain n d ds' w1 where "f n g u = Ok d" "draw_decisions env f uses w1 = (Inr ds', w')" "ds = d # ds'"
    by (auto simp: gu result_simps split: prod.splits)
  then show ?case using Cons.IH gu by auto
qed simp

lemma evaluate_all_Inr:
  assumes "evaluate_all env cap uses s = (Inr ds, s')"
  shows "snd s' = snd s" "list_all2 (\<lambda>(g, u) d. \<exists>n. evaluate (policy_sv (evidence_sv (boundary_store env))) n (cap_catalog cap) (cap_identity cap)
    (cap_head cap) (cap_observation cap) g u (credential_refusal cap) = Ok d) uses ds"
  using assms by (auto simp: evaluate_all_def result_simps dest: draw_decisions_Inr)

lemma allowed_uses_authorized:
  assumes "list_all2 (\<lambda>(g, u) d. \<exists>n. evaluate ps n c who head live g u forced = Ok d) uses ds" "allows ds" "forced \<noteq> Some Allowed" "(g, u) \<in> set uses"
  shows "\<exists>gr. bm_get (grants c) g = Some gr \<and> is_ok (authorize gr c who (obs_interval live) u)"
proof -
  obtain i where i: "i < length uses" "uses ! i = (g, u)" using assms(4) by (auto simp: in_set_conv_nth)
  with assms(1) obtain n where d: "evaluate ps n c who head live g u forced = Ok (ds ! i)" "i < length ds"
    by (force simp: list_all2_conv_all_nth)
  then have "outcome_of (ds ! i) = Allow" using assms(2) by (auto simp: allows_def list_all_length)
  then have "reason_code (ds ! i) = Allowed" using evaluate_Ok(2) [OF d(1)] by (auto split: if_splits)
  then have "evaluate_reason c who (obs_interval live) g u = Allowed"
    using evaluate_Ok(1) [OF d(1)] assms(3) by (auto split: option.splits)
  then show ?thesis using evaluate_reason_Allowed by blast
qed

lemma boundary_check_Inr:
  assumes "boundary_check env s = (Inr x, s')"
  obtains ds ids cap w1 w2 b2 s3 ds' why where "\<not> fenced (snd s)" "operation_decisions (boundary_store env) (boundary_operation (snd s)) ds w1 = (Ok ids, w2)"
    "allows ds" "list_all2 (\<lambda>(g, u) d. decision_grant d = g \<and> evaluated_constraints d = u) (boundary_uses (snd s)) ds"
    "capture env (w2, b2) = (Ok cap, s3)"
    "list_all2 (\<lambda>(g, u) d. \<exists>n. evaluate (policy_sv (evidence_sv (boundary_store env))) n (cap_catalog cap) (cap_identity cap) (cap_head cap)
      (cap_observation cap) g u (credential_refusal cap) = Ok d) (boundary_uses (snd s)) ds'" "allows ds'"
    "snd s' = (snd s)\<lparr>fenced := False, boundary_observation := Some (cap_observation cap), decision_ids := ids, capture_reason := why\<rparr>"
proof -
  from assms obtain cap0 s1 ds s2 ids w2 cap s3 ds' s4 where run: "\<not> fenced (snd s)"
    "capture env (fst s, (snd s)\<lparr>fenced := True, boundary_observation := None\<rparr>) = (Ok cap0, s1)"
    "evaluate_all env cap0 (boundary_uses (snd s)) s1 = (Ok ds, s2)"
    "operation_decisions (boundary_store env) (boundary_operation (snd s)) ds (fst s2) = (Ok ids, w2)" "allows ds"
    "capture env (w2, (snd s2)\<lparr>decision_ids := ids\<rparr>) = (Ok cap, s3)"
    "evaluate_all env cap (boundary_uses (snd s)) s3 = (Ok ds', s4)" "allows ds'"
    "s' = (fst s4, (snd s4)\<lparr>boundary_observation := Some (cap_observation cap), fenced := False\<rparr>)"
    by (auto simp: boundary_check_def fenced_check_body_def result_simps capture_or_record_Inr split: if_splits)
  have named: "list_all2 (\<lambda>(g, u) d. decision_grant d = g \<and> evaluated_constraints d = u) (boundary_uses (snd s)) ds"
    using evaluate_all_Inr(2) [OF run(3)] by (rule list_all2_mono) (auto dest: evaluate_Ok(4,5))
  have "snd s' = (snd s)\<lparr>fenced := False, boundary_observation := Some (cap_observation cap), decision_ids := ids, capture_reason := capture_reason (snd s')\<rparr>"
    using run(9) evaluate_all_Inr(1) [OF run(7)] evaluate_all_Inr(1) [OF run(3)] run(2,6) by (auto simp: capture_Inr)
  then have "\<exists>why. snd s' = (snd s)\<lparr>fenced := False, boundary_observation := Some (cap_observation cap), decision_ids := ids, capture_reason := why\<rparr>"
    by (rule exI)
  then show ?thesis using that run(1,4,5,6,8) named evaluate_all_Inr(2) [OF run(7)] by blast
qed

text \<open>
  C11: An effect boundary admits a use only under authority that is current after its evidence is durable. When a check of
  the boundary succeeds, it was not fenced, one allowed decision for every use had been stored first, and the capture
  taken after that contains, for every use, the grant that authorizes it for the captured identity over the whole
  captured time interval; the observation the boundary then holds is the one of that capture.
\<close>

theorem checked_uses_authorized:
  assumes "boundary_check env s = (Ok x, s')"
    and "\<forall>b w cap why w'. capture_authority env b w = ((Ok cap, why), w') \<longrightarrow> credential_refusal cap \<noteq> Some Allowed"
  shows "\<not> fenced (snd s) \<and> (\<exists>ds w1 w2 b2 cap s3.
    operation_decisions (boundary_store env) (boundary_operation (snd s)) ds w1 = (Ok (decision_ids (snd s')), w2) \<and> allows ds \<and>
    map (\<lambda>d. (decision_grant d, evaluated_constraints d)) ds = boundary_uses (snd s) \<and>
    capture env (w2, b2) = (Ok cap, s3) \<and> boundary_observation (snd s') = Some (cap_observation cap) \<and>
    (\<forall>(g, u) \<in> set (boundary_uses (snd s)). \<exists>gr. bm_get (grants (cap_catalog cap)) g = Some gr
      \<and> is_ok (authorize gr (cap_catalog cap) (cap_identity cap) (obs_interval (cap_observation cap)) u)))"
proof (rule boundary_check_Inr [OF assms(1)])
  fix ds ids cap w1 w2 b2 s3 ds' why
  assume live: "\<not> fenced (snd s)" and stored: "operation_decisions (boundary_store env) (boundary_operation (snd s)) ds w1 = (Ok ids, w2)" "allows ds"
    and named: "list_all2 (\<lambda>(g, u) d. decision_grant d = g \<and> evaluated_constraints d = u) (boundary_uses (snd s)) ds"
    and cap: "capture env (w2, b2) = (Ok cap, s3)"
    and fresh: "list_all2 (\<lambda>(g, u) d. \<exists>n. evaluate (policy_sv (evidence_sv (boundary_store env))) n (cap_catalog cap) (cap_identity cap) (cap_head cap)
      (cap_observation cap) g u (credential_refusal cap) = Ok d) (boundary_uses (snd s)) ds'" "allows ds'"
    and after: "snd s' = (snd s)\<lparr>fenced := False, boundary_observation := Some (cap_observation cap), decision_ids := ids, capture_reason := why\<rparr>"
  have scopes: "map (\<lambda>d. (decision_grant d, evaluated_constraints d)) ds = boundary_uses (snd s)"
    using named by (induction rule: list_all2_induct) auto
  have refusal: "credential_refusal cap \<noteq> Some Allowed" using cap assms(2) unfolding capture_Inr by blast
  have "boundary_observation (snd s') = Some (cap_observation cap)" "decision_ids (snd s') = ids" by (simp_all add: after)
  moreover have "\<forall>(g, u) \<in> set (boundary_uses (snd s)). \<exists>gr. bm_get (grants (cap_catalog cap)) g = Some gr
      \<and> is_ok (authorize gr (cap_catalog cap) (cap_identity cap) (obs_interval (cap_observation cap)) u)"
    using allowed_uses_authorized [OF fresh refusal] by blast
  ultimately show ?thesis using live stored scopes cap by blast
qed

section \<open>Fencing\<close>

abbreviation is_fenced :: "'w \<times> grant_boundary \<Rightarrow> bool" where
  "is_fenced s \<equiv> fenced (snd s)"

lemma observes_in_store: "(\<And>w w' b. proj (w, b) = proj (w', b)) \<Longrightarrow> observes proj (in_store m)"
  by (auto simp: observes_def in_store_def split: prod.splits)

lemma observes_get: "observes proj get_boundary"
  by (simp add: observes_def get_boundary_def)

lemma observes_set: "(\<And>w b. proj (w, f b) = proj (w, b)) \<Longrightarrow> observes proj (set_boundary f)"
  by (auto simp: observes_def)

lemma observes_on_refusal: "observes proj m \<Longrightarrow> (\<And>e. observes proj (h e)) \<Longrightarrow> observes proj (on_refusal m h)"
  unfolding observes_def on_refusal_def by (fastforce split: prod.splits sum.splits error.splits)

lemma observes_capture: "(\<And>w w' b why. proj (w', b\<lparr>capture_reason := why\<rparr>) = proj (w, b)) \<Longrightarrow> observes proj (capture env)"
  by (auto simp: observes_def capture_def split: prod.splits)

lemma fenced_refuse_unavailable: "observes is_fenced (refuse_unavailable env why e)"
  unfolding refuse_unavailable_def by (intro observes_bind observes_get observes_lift observes_in_store) simp

lemma fenced_capture: "observes is_fenced (capture_or_record env)"
  unfolding capture_or_record_def
  by (intro observes_on_refusal observes_bind observes_get observes_capture fenced_refuse_unavailable) simp

lemma fenced_evaluate: "observes is_fenced (evaluate_all env cap uses)"
  unfolding evaluate_all_def by (rule observes_in_store) simp

lemma triple_bind_fenced:
  assumes "observes is_fenced m" "\<And>x. triple is_fenced (f x) Q is_fenced"
  shows "triple is_fenced (bind_action m f) Q is_fenced"
proof (rule triple_bind)
  show "triple is_fenced m (\<lambda>_. is_fenced) is_fenced"
    using assms(1) by (auto simp: triple_def observes_def split: prod.splits sum.splits)
qed (rule assms(2))

lemma fenced_check: "is_fenced s \<Longrightarrow> boundary_check env s = (Err ''finite grant operation is permanently fenced'', s)"
  by (simp add: boundary_check_def bind_action_def get_boundary_def)

text \<open>Between its first and its last statement a check keeps the boundary fenced.\<close>

lemma refused_check_fences:
  assumes "boundary_check env s = (Inl e, s')"
  shows "is_fenced s'"
proof (cases "is_fenced s")
  case True
  then show ?thesis using assms by (simp add: fenced_check)
next
  case False
  have t: "triple is_fenced (fenced_check_body env b) (\<lambda>_ _. True) is_fenced" for b
    unfolding fenced_check_body_def
    by (intro triple_bind_fenced triple_if triple_refuse fenced_capture fenced_evaluate observes_in_store observes_set) (simp_all add: triple_def)
  have run: "fenced_check_body env (snd s) (fst s, (snd s)\<lparr>fenced := True, boundary_observation := None\<rparr>) = (Inl e, s')"
    using assms False unfolding boundary_check_def bind_get by (simp only: if_False bind_set)
  show ?thesis by (rule triple_Err [OF t _ run]) simp
qed

datatype 'e boundary_call = CheckCall | RestrictCall "catalog \<Rightarrow> identity \<Rightarrow> unit result" | ObserveCall | BeginCall string effect_kind
  | CompleteCall "'e pending_effect" string

fun run_boundary :: "('w, 'e) boundary_env \<Rightarrow> 'e boundary_call \<Rightarrow> ('w, 'e pending_effect option) boundary_action" where
  "run_boundary env CheckCall = bind_action (boundary_check env) (\<lambda>_. lift_result (Ok None))"
| "run_boundary env (RestrictCall guard) = bind_action (restriction env guard) (\<lambda>_. lift_result (Ok None))"
| "run_boundary env ObserveCall = bind_action (observe_boundary env) (\<lambda>_. lift_result (Ok None))"
| "run_boundary env (BeginCall eid kind) = bind_action (boundary_effect_begin env eid kind) (\<lambda>p. lift_result (Ok (Some p)))"
| "run_boundary env (CompleteCall p receipt) = bind_action (boundary_effect_complete env p receipt) (\<lambda>_. lift_result (Ok None))"

fun run_boundaries :: "('w, 'e) boundary_env \<Rightarrow> 'e boundary_call list \<Rightarrow> 'w \<times> grant_boundary \<Rightarrow> 'e pending_effect option result list \<times> 'w \<times> grant_boundary" where
  "run_boundaries env [] s = ([], s)"
| "run_boundaries env (c # cs) s = (case run_boundary env c s of (r, s1) \<Rightarrow> (case run_boundaries env cs s1 of (rs, s2) \<Rightarrow> (r # rs, s2)))"

lemma fenced_restriction: "is_fenced s \<Longrightarrow> restriction env guard s = (Err ''finite grant operation is permanently fenced'', s)"
  by (simp add: restriction_def bind_action_def [of "boundary_check env"] fenced_check)

lemma fenced_begin: "is_fenced s \<Longrightarrow> boundary_effect_begin env eid kind s = (Err ''finite grant operation is permanently fenced'', s)
    \<or> boundary_effect_begin env eid kind s = (Inl Panic, s)"
  by (auto simp: boundary_effect_begin_def bind_action_def get_boundary_def on_refusal_def fenced_restriction fenced_check
      split: sum.splits error.splits)

lemma fenced_call:
  assumes "is_fenced s" "run_boundary env c s = (r, s')"
  shows "(\<exists>e. r = Inl e) \<and> is_fenced s'"
proof (cases c)
  case (CompleteCall p receipt)
  obtain q w where run: "effect_complete (boundary_store env) p (handle_id (boundary_operation (snd s))) receipt (fst s) = (q, w)" by fastforce
  then show ?thesis using assms CompleteCall fenced_check [of "(w, snd s)" env]
    by (cases q) (auto simp: boundary_effect_complete_def bind_action_def get_boundary_def in_store_def)
next
  case (BeginCall eid kind)
  then show ?thesis using assms fenced_begin [OF assms(1), of env eid kind] by (auto simp: bind_action_def)
qed (use assms in \<open>auto simp: bind_action_def observe_boundary_def fenced_check fenced_restriction\<close>)

lemma fenced_calls:
  "is_fenced s \<Longrightarrow> run_boundaries env cs s = (rs, s') \<Longrightarrow> (\<forall>r \<in> set rs. \<exists>e. r = Inl e) \<and> is_fenced s'"
proof (induction cs arbitrary: s rs)
  case (Cons c cs)
  then show ?case using fenced_call [of s env c] by (fastforce split: prod.splits)
qed simp

text \<open>
  C12: A refused check ends the boundary. After a check that failed for whatever reason, in the capture, the evaluation, the
  storing of the decisions, a denial, or a change between the two captures, the boundary stays fenced through every
  sequence of later calls, and none of them succeeds: no further effect begins and no observation is given out.
\<close>

theorem refused_boundary_stays_fenced:
  assumes "boundary_check env s = (Inl e, s')" "run_boundaries env cs s' = (rs, s'')"
  shows "(\<forall>r \<in> set rs. \<exists>e. r = Inl e) \<and> is_fenced s''"
  using fenced_calls [OF refused_check_fences [OF assms(1)] assms(2)] .

section \<open>Granted operations\<close>

lemma close_refused_Inr [simp]: "close_refused env out e s = (Inr x, s') \<longleftrightarrow> False"
  by (auto simp: close_refused_def result_simps)

lemma refuse_and_close_Inr [simp]: "refuse_and_close env why e s = (Inr x, s') \<longleftrightarrow> False"
  by (auto simp: refuse_and_close_def result_simps)

lemma check_keeps_operation: "boundary_check env s = (Inr x, s') \<Longrightarrow> boundary_operation (snd s') = boundary_operation (snd s)"
  by (erule boundary_check_Inr) simp

lemma prepare_session_Inr: "prepare_session env le s = (Inr x, s') \<Longrightarrow> snd s' = snd s"
  by (auto simp: prepare_session_def result_simps)

text \<open>Dropping the boundary of a finished operation changes nothing.\<close>

lemma dropped_Inr:
  assumes "(case x of (Inl Panic, w', b) \<Rightarrow> (Inl Panic, w') | (r, w', b) \<Rightarrow> (r, operation_drop env (boundary_operation b) w')) = (Inr v, u)"
  obtains w b where "x = (Inr v, w, b)" "handle_finished (boundary_operation b) \<longrightarrow> u = w"
  using assms by (auto simp: operation_drop_def split: prod.splits sum.splits error.splits if_splits)

text \<open>
  The lock, the inventory read under it and the identifier drawn for the record, up to the write of a record that closes
  the operation, in a graph that already contains it.
\<close>

lemma finish_boundary_Inr:
  assumes "finish_boundary env out s = (Ok x, s')"
  obtains u1 inv u2 n u3 where "store_lock (boundary_store env) (fst s) = (Ok (), u1)" "inventory (boundary_store env) u1 = (Ok inv, u2)"
    "fresh_id (boundary_store env) u2 = (Ok n, u3)"
    "fst (add_record (boundary_store env) (new_record (boundary_store env) n (handle_id (boundary_operation (snd s))) (OperationFinished out)) inv u3)
      = Ok (bm_insert n (new_record (boundary_store env) n (handle_id (boundary_operation (snd s))) (OperationFinished out)) inv)"
    "snd (add_record (boundary_store env) (new_record (boundary_store env) n (handle_id (boundary_operation (snd s))) (OperationFinished out)) inv u3) = fst s'"
    "handle_finished (boundary_operation (snd s'))"
proof -
  from assms obtain t w' where t: "append_record (boundary_store env) (handle_id (boundary_operation (snd s))) (OperationFinished out) (fst s) = (Ok t, w')"
    and s': "fst s' = w'" "handle_finished (boundary_operation (snd s'))"
    by (auto simp: finish_boundary_def operation_finish_def result_simps in_store_Inr split: if_splits)
  from t obtain u1 inv u2 n u3 records' where u: "store_lock (boundary_store env) (fst s) = (Ok (), u1)"
    "inventory (boundary_store env) u1 = (Ok inv, u2)" "fresh_id (boundary_store env) u2 = (Ok n, u3)"
    and add: "add_record (boundary_store env) (new_record (boundary_store env) n (handle_id (boundary_operation (snd s))) (OperationFinished out)) inv u3 = (Ok records', w')"
    by (auto simp: append_record_def result_simps)
  have "records' = bm_insert n (new_record (boundary_store env) n (handle_id (boundary_operation (snd s))) (OperationFinished out)) inv"
    using add by (auto simp: add_record_def result_simps Let_def new_record_def)
  with that [OF u] add s' show ?thesis by simp
qed

lemma granted_body_Inr:
  assumes "granted_body env le effect s = (Ok v, s')"
  obtains who head s1 s2 s3 s4 s5 where "prepare_session env le s = (Ok (who, head), s1)" "in_store (open_client le) s1 = (Ok (), s2)"
    "boundary_check env (fst s2, (snd s2)\<lparr>boundary_identity := who, boundary_head := head\<rparr>) = (Ok (), s3)"
    "effect s3 = (Ok v, s4)" "boundary_check env s4 = (Ok (), s5)" "finish_boundary env Completed s5 = (Ok (), s')"
    "boundary_operation (snd s3) = boundary_operation (snd s)" "boundary_operation (snd s5) = boundary_operation (snd s4)"
proof -
  from assms obtain who head s1 s2 s3 s4 s5 where run: "prepare_session env le s = (Ok (who, head), s1)" "in_store (open_client le) s1 = (Ok (), s2)"
    "boundary_check env (fst s2, (snd s2)\<lparr>boundary_identity := who, boundary_head := head\<rparr>) = (Ok (), s3)"
    "effect s3 = (Ok v, s4)" "boundary_check env s4 = (Ok (), s5)" "finish_boundary env Completed s5 = (Ok (), s')"
    by (auto simp: granted_body_def result_simps)
  moreover have "boundary_operation (snd s3) = boundary_operation (snd s)"
    using check_keeps_operation [OF run(3)] prepare_session_Inr [OF run(1)] run(2) by (auto simp: in_store_Inr)
  ultimately show ?thesis using that check_keeps_operation by blast
qed

text \<open>
  What an accepted evidence graph says of a settled operation: each of its decisions allowed its use, and every effect it
  started has exactly one outcome, which is completed with a receipt for that very effect.
\<close>

definition operation_settled :: "'e evidence_services \<Rightarrow> 'e inventory \<Rightarrow> string \<Rightarrow> bool" where
  "operation_settled es records op \<longleftrightarrow> evidence_graph es records \<and>
    (\<forall>m q. bm_get records m = Some q \<and> operation_of q = op \<longrightarrow> (\<forall>d. payload_of q = DecisionRecord d \<longrightarrow> outcome_of d = Allow) \<and>
      (\<forall>eid kind ids. payload_of q = EffectStarted eid kind ids \<longrightarrow> (\<exists>!f. f \<in> set (bm_values records) \<and> finished_begin f = Some m) \<and>
        (\<exists>f receipt ev. f \<in> set (bm_values records) \<and> operation_of f = op
          \<and> payload_of f = EffectFinished m (record_digest es q) (Some receipt) Completed ev)))"

lemma completed_is_settled:
  assumes "evidence_graph es records" "bm_get records n = Some t" "payload_of t = OperationFinished Completed"
  shows "operation_settled es records (operation_of t)"
  unfolding operation_settled_def
proof (intro conjI allI impI)
  fix m q
  assume q: "bm_get records m = Some q \<and> operation_of q = operation_of t"
  note settled = completed_settled [OF assms conjunct1 [OF q] conjunct2 [OF q]]
  show "outcome_of d = Allow" if "payload_of q = DecisionRecord d" for d using settled that by blast
  show "\<exists>!f. f \<in> set (bm_values records) \<and> finished_begin f = Some m" if "payload_of q = EffectStarted eid kind ids" for eid kind ids
    using settled that by blast
  show "\<exists>f receipt ev. f \<in> set (bm_values records) \<and> operation_of f = operation_of t
      \<and> payload_of f = EffectFinished m (record_digest es q) (Some receipt) Completed ev"
    if "payload_of q = EffectStarted eid kind ids" for eid kind ids using settled that conjunct2 [OF q] by metis
qed (rule assms(1))

text \<open>
  C13: A granted operation that returns a value ran between two passed checks and is settled in the evidence that was on
  the disk. When \<open>with_grants\<close> succeeds there were one to 64 scopes; the operation was begun after the prerequisites and
  before the login; the value is the effect's, run from the state a check of the boundary passed for this operation,
  and a second check passed right after it; and the last thing done, which leaves the final world, was to add the completed
  outcome of this operation to the inventory read then under the lock. In that inventory with its outcome every decision of
  the operation allowed its use and every effect it started has exactly one outcome, completed with a receipt for
  that very effect. The effect is assumed to keep the boundary's operation.
\<close>

theorem granted_operation_settled:
  assumes run: "with_grants env le pp uses effect w = (Ok v, w')"
    and kept: "\<And>s x t. effect s = (Ok x, t) \<Longrightarrow> boundary_operation (snd t) = boundary_operation (snd s)"
  shows "uses \<noteq> [] \<and> length uses \<le> 64 \<and> (\<exists>w1 h w2 who head s1 s2 s3 s4 s5 u1 inv u2 n u3 records t.
    prerequisites le w = (Ok (), w1) \<and> operation_begin (boundary_store env) uses w1 = (Ok h, w2) \<and>
    prepare_session env le (w2, new_boundary pp uses h) = (Ok (who, head), s1) \<and> in_store (open_client le) s1 = (Ok (), s2) \<and>
    boundary_check env (fst s2, (snd s2)\<lparr>boundary_identity := who, boundary_head := head\<rparr>) = (Ok (), s3) \<and>
    effect s3 = (Ok v, s4) \<and> boundary_check env s4 = (Ok (), s5) \<and> boundary_operation (snd s3) = h \<and> boundary_operation (snd s4) = h \<and>
    store_lock (boundary_store env) (fst s5) = (Ok (), u1) \<and> inventory (boundary_store env) u1 = (Ok inv, u2) \<and>
    fresh_id (boundary_store env) u2 = (Ok n, u3) \<and> add_record (boundary_store env) t inv u3 = (Ok records, w') \<and>
    records = bm_insert n t inv \<and> record_id t = n \<and> operation_of t = handle_id h \<and> payload_of t = OperationFinished Completed \<and>
    operation_settled (evidence_sv (boundary_store env)) records (handle_id h))"
proof -
  from run obtain w1 h w2 where begun: "prerequisites le w = (Ok (), w1)" "operation_begin (boundary_store env) uses w1 = (Ok h, w2)"
    and scopes: "uses \<noteq> []" "length uses \<le> 64"
    and drop: "(case granted_body env le effect (w2, new_boundary pp uses h) of (Inl Panic, w', b) \<Rightarrow> (Inl Panic, w') | (r, w', b) \<Rightarrow> (r, operation_drop (boundary_store env) (boundary_operation b) w')) = (Ok v, w')"
    by (auto simp: with_grants_def result_simps)
  obtain wx bx where body: "granted_body env le effect (w2, new_boundary pp uses h) = (Ok v, wx, bx)"
    and same: "handle_finished (boundary_operation bx) \<longrightarrow> w' = wx" by (rule dropped_Inr [OF drop])
  have op: "boundary_operation (snd (w2, new_boundary pp uses h)) = h" by (simp add: new_boundary_def)
  show ?thesis
  proof (rule granted_body_Inr [OF body], unfold op, erule finish_boundary_Inr)
    fix who head s1 s2 s3 s4 s5 u1 inv u2 n u3
    assume chain: "prepare_session env le (w2, new_boundary pp uses h) = (Ok (who, head), s1)" "in_store (open_client le) s1 = (Ok (), s2)"
      "boundary_check env (fst s2, (snd s2)\<lparr>boundary_identity := who, boundary_head := head\<rparr>) = (Ok (), s3)"
      "effect s3 = (Ok v, s4)" "boundary_check env s4 = (Ok (), s5)"
      and last: "store_lock (boundary_store env) (fst s5) = (Ok (), u1)" "inventory (boundary_store env) u1 = (Ok inv, u2)"
      "fresh_id (boundary_store env) u2 = (Ok n, u3)"
    let ?t = "new_record (boundary_store env) n (handle_id (boundary_operation (snd s5))) (OperationFinished Completed)"
    let ?records = "bm_insert n ?t inv"
    assume add: "fst (add_record (boundary_store env) ?t inv u3) = Ok ?records" "snd (add_record (boundary_store env) ?t inv u3) = fst (wx, bx)"
      and closed: "handle_finished (boundary_operation (snd (wx, bx)))"
      and h: "boundary_operation (snd s3) = h" "boundary_operation (snd s5) = boundary_operation (snd s4)"
    have h4: "boundary_operation (snd s4) = h" using kept [OF chain(4)] h(1) by simp
    have added: "add_record (boundary_store env) ?t inv u3 = (Ok ?records, w')"
      using add same closed by (simp add: prod_eq_iff)
    have t: "record_id ?t = n" "operation_of ?t = handle_id h" "payload_of ?t = OperationFinished Completed"
      using h(2) h4 by (simp_all add: new_record_def)
    note graph = add_record_Ok [OF added inventory_graph [OF last(2)]]
    have "operation_settled (evidence_sv (boundary_store env)) ?records (handle_id h)"
      using completed_is_settled [OF graph t(3)] t(2) by simp
    with begun scopes chain last added t h(1) h4 show ?thesis by blast
  qed
qed

end
