(* ===== verification/Retention.thy ===== *)
theory Retention
  imports Boundary_Safety
begin

text \<open>
  The retention of closed operations (\<open>retain\<close> of \<open>policy_decisions.rs\<close>) as a granted operation: the archive is published
  first and the originals are unlinked one by one, each under a fresh check of the boundary. Whatever fails, no record is lost.
\<close>

section \<open>The operation\<close>

fun unlink_all :: "('w, 'e) boundary_env \<Rightarrow> 'e policy_archive \<Rightarrow> 'e policy_record list \<Rightarrow> ('w, unit) boundary_action" where
  "unlink_all env ar [] = lift_result (Ok ())"
| "unlink_all env ar (r # rs) =
     bind_action (boundary_check env) (\<lambda>_. bind_action (in_store (unlink_archived (boundary_store env) ar r)) (\<lambda>_. unlink_all env ar rs))"

definition retain_body :: "('w, 'e) boundary_env \<Rightarrow> string \<Rightarrow> 'e policy_archive \<Rightarrow> nat list \<Rightarrow> ('w, unit) boundary_action" where
  "retain_body env review ar bytes =
     bind_action (boundary_effect_begin env review Retention) (\<lambda>p.
     bind_action (holding_effect env p (
       bind_action (boundary_check env) (\<lambda>_.
       bind_action (in_store (archive_operation_records (boundary_store env) ar bytes)) (\<lambda>_. unlink_all env ar (archive_records ar))))) (\<lambda>_.
     boundary_effect_complete env p (receipt_digest (boundary_store env) review (bytes_digest (boundary_store env) bytes) (length (archive_records ar)))))"

definition retain_operation :: "('w, 'e) boundary_env \<Rightarrow> 'w login_env \<Rightarrow> string \<Rightarrow> string \<Rightarrow> string \<Rightarrow> ('w, unit) action" where
  "retain_operation env le g op review =
     bind_action (retention_input (boundary_store env) op) (\<lambda>ar.
     bind_action (lift_result (archive_review (boundary_store env) ar)) (\<lambda>(rv, bytes, u).
     bind_action (refuse_if (review \<noteq> rv) ''policy evidence retention review changed'') (\<lambda>_.
     with_grants env le Standard [(g, u)] (retain_body env rv ar bytes))))"

section \<open>Relations of the file system along the boundary\<close>

definition on_world :: "('w \<Rightarrow> 'w \<Rightarrow> bool) \<Rightarrow> 'w \<times> grant_boundary \<Rightarrow> 'w \<times> grant_boundary \<Rightarrow> bool" where
  "on_world R s s' \<longleftrightarrow> R (fst s) (fst s')"

lemma on_world_order: "reflp R \<Longrightarrow> reflp (on_world R)" "transp R \<Longrightarrow> transp (on_world R)"
  by (auto simp: on_world_def reflp_def transp_def)

lemma keeps_in_store: "keeps R m \<Longrightarrow> keeps (on_world R) (in_store m)"
  by (auto simp: keeps_def on_world_def in_store_def split: prod.splits) (metis snd_conv)

lemma keeps_on_refusal: "transp R \<Longrightarrow> keeps R m \<Longrightarrow> (\<And>e. keeps R (h e)) \<Longrightarrow> keeps R (on_refusal m h)"
  unfolding keeps_def on_refusal_def transp_def by (auto split: prod.splits sum.splits error.splits) (metis snd_conv)+

lemma keeps_get: "reflp R \<Longrightarrow> keeps R get_boundary"
  by (simp add: keeps_def get_boundary_def reflp_def)

lemma keeps_set: "reflp R \<Longrightarrow> keeps (on_world R) (set_boundary f)"
  by (simp add: keeps_def on_world_def reflp_def)

lemma keeps_mono: "keeps R m \<Longrightarrow> (\<And>s t. R s t \<Longrightarrow> S s t) \<Longrightarrow> keeps S m"
  by (simp add: keeps_def)

text \<open>The surroundings of a boundary: a capture and the steps of a login change no file of the evidence.\<close>

locale boundary_disk = evidence_disk "boundary_store env" members
  for env :: "('w, 'e) boundary_env" and members :: "'w \<Rightarrow> store_dir \<Rightarrow> string \<Rightarrow> nat list option" +
  fixes le :: "'w login_env"
  assumes capture_observes: "capture_authority env b w = (x, w') \<Longrightarrow> members w' = members w"
    and login_observes: "observes members (prerequisites le)" "observes members (prepare_login le)" "observes members (authenticate le)"
      "observes members (open_session le)" "observes members (open_client le)"
begin

abbreviation grow :: "'w \<times> grant_boundary \<Rightarrow> 'w \<times> grant_boundary \<Rightarrow> bool" where
  "grow \<equiv> on_world (grown (boundary_store env) members)"

lemmas grow_order = on_world_order(1) [OF reflp_grown] on_world_order(2) [OF transp_grown]

lemmas grow_steps = keeps_bind [OF grow_order(2)] keeps_lift [OF grow_order(1)] keeps_get [OF grow_order(1)] keeps_set [OF reflp_grown]
  keeps_on_refusal [OF grow_order(2)] keeps_in_store

lemma grow_if: "keeps grow m \<Longrightarrow> keeps grow m' \<Longrightarrow> keeps grow (if b then m else m')"
  by simp

lemma grow_capture: "keeps grow (capture env)"
  unfolding keeps_def
proof
  fix s
  obtain r why w where "capture_authority env (snd s) (fst s) = ((r, why), w)" by (metis prod.exhaust)
  then show "grow s (snd (capture env s))" using capture_observes by (simp add: capture_def on_world_def grown_def)
qed

lemma grow_draw: "keeps (grown (boundary_store env) members) (draw_decisions (boundary_store env) f uses)"
proof (induction uses)
  case (Cons gu uses)
  have draw: "keeps (grown (boundary_store env) members) (\<lambda>w. case fresh_id (boundary_store env) w of (n, w') \<Rightarrow> (f n g u, w'))" for g u
    using grows_query [OF queries(2)] by (auto simp: keeps_def split: prod.splits) (metis snd_conv)
  show ?case by (cases gu) (auto intro!: keeps_bind [OF transp_grown] draw Cons keeps_lift [OF reflp_grown])
qed (simp only: draw_decisions.simps, rule keeps_lift [OF reflp_grown])

lemma grow_evaluate: "keeps grow (evaluate_all env cap uses)"
  unfolding evaluate_all_def by (intro grow_steps grow_draw)

lemma grow_unavailable: "keeps grow (refuse_unavailable env why e)"
  unfolding refuse_unavailable_def record_unavailable_def
  by (intro grow_steps keeps_bind [OF transp_grown] grow_draw grows_operation_decisions keeps_lift [OF reflp_grown])

lemma grow_capture_or_record: "keeps grow (capture_or_record env)"
  unfolding capture_or_record_def by (intro grow_steps grow_capture grow_unavailable)

lemma grow_check: "keeps grow (boundary_check env)"
  unfolding boundary_check_def fenced_check_body_def
  by (intro grow_steps grow_if grow_capture_or_record grow_evaluate grows_operation_decisions)

lemma grow_restriction: "keeps grow (restriction env guard)"
  unfolding restriction_def stream_denial_def
  by (intro grow_steps grow_check grow_capture_or_record grow_evaluate grows_operation_decisions)

lemma grow_finish: "keeps grow (finish_boundary env out)"
  unfolding finish_boundary_def by (intro grow_steps grows_finish)

lemma grow_effect_drop: "keeps grow (\<lambda>s. (Inl e, effect_drop (boundary_store env) p (fst s), snd s))"
  using grows_drop(2) by (simp add: keeps_def on_world_def)

lemma grow_begin: "keeps grow (boundary_effect_begin env eid kind)"
  unfolding boundary_effect_begin_def holding_effect_def effect_begin_def
  by (intro grow_steps grow_if grow_check grow_restriction grow_effect_drop keeps_bind [OF transp_grown] grows_append keeps_lift [OF reflp_grown])

lemma grow_complete: "keeps grow (boundary_effect_complete env p receipt)"
  unfolding boundary_effect_complete_def by (intro grow_steps grow_check grows_complete)

section \<open>Archives\<close>

lemma grows_stage_archive: "keeps (grown (boundary_store env) members) (stage_archive (boundary_store env) name bytes)"
proof -
  have created: "keeps (grown (boundary_store env) members) (bind_action (write_all (boundary_store env) PendingDir name bytes) (\<lambda>_. sync_member (boundary_store env) PendingDir name))"
    by (intro growing queries)
  have found: "keeps (grown (boundary_store env) members) (bind_action (list_names (boundary_store env) PendingDir 1024) (\<lambda>names.
       bind_action (lift_result (if name \<notin> set names then Inl e else Ok ())) (\<lambda>_.
       bind_action (read_member (boundary_store env) PendingDir name MAX_ARCHIVE) (\<lambda>found.
       bind_action (refuse_if (found \<noteq> bytes) ''partial policy archive needs exact reviewed pending retention'') (\<lambda>_.
       sync_member (boundary_store env) PendingDir name)))))" for e
    by (intro grows_query observing)
  show ?thesis unfolding keeps_def
  proof
    fix w
    obtain r u where run: "create_new (boundary_store env) PendingDir name w = (r, u)" by fastforce
    have "grown (boundary_store env) members w u" by (rule keepsD [OF grows_stage(1) run])
    from transpD [OF transp_grown this] have step: "keeps (grown (boundary_store env) members) m \<Longrightarrow> grown (boundary_store env) members w (snd (m u))"
      for m :: "('w, unit) action" by (simp add: keeps_def)
    show "grown (boundary_store env) members w (snd (stage_archive (boundary_store env) name bytes w))"
      using step [OF created] step [OF found] by (cases r) (simp_all add: stage_archive_def run)
  qed
qed

lemma grows_archive: "keeps (grown (boundary_store env) members) (archive_operation_records (boundary_store env) ar bytes)"
proof -
  have move: "keeps (grown (boundary_store env) members) (rename_noreplace (boundary_store env) PendingDir ArchivesDir n)" for n
    using grows_rename [of ArchivesDir] by (simp add: keeps_def)
  have publish: "keeps (grown (boundary_store env) members) (publish_archive (boundary_store env) name bytes)" for name
    unfolding publish_archive_def by (intro keeps_bind [OF transp_grown] grows_stage_archive move) (intro grows_query observing)+
  have branch: "keeps (grown (boundary_store env) members) (if b then m else m')"
    if "keeps (grown (boundary_store env) members) m" "keeps (grown (boundary_store env) members) m'" for b m m'
    using that by simp
  have pair: "keeps (grown (boundary_store env) members) (case x of (a, b) \<Rightarrow> f a b)" if "\<And>a b. keeps (grown (boundary_store env) members) (f a b)" for x f
    using that by (cases x) simp
  show ?thesis unfolding archive_operation_records_def Let_def
    by (intro keeps_bind [OF transp_grown] branch pair publish)
      (intro grows_query observing_retention observing_inventory observing_archives observing_bytes observing_space observing)+
qed

lemma archive_present:
  assumes "archive_operation_records (boundary_store env) ar bytes w = (Ok x, w')"
  shows "members w' ArchivesDir (archive_file (archive_operation ar) (bytes_digest (boundary_store env) bytes)) = Some bytes"
  using assms by (auto simp: archive_operation_records_def publish_archive_def result_simps Let_def split: if_splits dest!: read_found)

end

section \<open>Unlinking\<close>

text \<open>Along the unlinking the archive \<open>ar\<close> is published under the name \<open>a\<close>.\<close>

definition under_archive :: "('w, 'e) policy_env \<Rightarrow> ('w \<Rightarrow> store_dir \<Rightarrow> string \<Rightarrow> nat list option) \<Rightarrow> string \<Rightarrow> 'e policy_archive \<Rightarrow> 'w \<Rightarrow> 'w \<Rightarrow> bool" where
  "under_archive env members a ar w w' \<longleftrightarrow> (members w ArchivesDir a = Some (archive_json env ar) \<longrightarrow> preserved env members w w')"

lemma under_archive_order: "reflp (under_archive env members a ar)" "transp (under_archive env members a ar)"
proof -
  show "reflp (under_archive env members a ar)" by (simp add: reflp_def under_archive_def)
  have kept: "members w' ArchivesDir a = Some b" if "preserved env members w w'" "members w ArchivesDir a = Some b" for w w' b
    using that by (auto simp: preserved_def map_le_def dom_def)
  show "transp (under_archive env members a ar)"
  proof (rule transpI, unfold under_archive_def, rule impI)
    fix u v w
    assume uv: "members u ArchivesDir a = Some (archive_json env ar) \<longrightarrow> preserved env members u v"
      and vw: "members v ArchivesDir a = Some (archive_json env ar) \<longrightarrow> preserved env members v w" and u: "members u ArchivesDir a = Some (archive_json env ar)"
    then have "preserved env members u v" "preserved env members v w" using kept [of u v] by simp_all
    then show "preserved env members u w" by (rule transpD [OF transp_preserved])
  qed
qed

context boundary_disk
begin

lemma under_grown: "keeps (grown (boundary_store env) members) m \<Longrightarrow> keeps (under_archive (boundary_store env) members a ar) m"
  by (simp add: keeps_def under_archive_def grown_preserved)

lemma under_unlink:
  assumes "r \<in> set (archive_records ar)" "members w RootDir n = Some (record_json (evidence_sv (boundary_store env)) r)"
  shows "under_archive (boundary_store env) members a ar w (snd (unlink_member (boundary_store env) RootDir n w))"
proof -
  obtain y w' where run: "unlink_member (boundary_store env) RootDir n w = (y, w')" by fastforce
  have "archived_bytes_of (boundary_store env) (members w ArchivesDir) (record_json (evidence_sv (boundary_store env)) r)"
    if "members w ArchivesDir a = Some (archive_json (boundary_store env) ar)"
    using that assms(1) unfolding archived_bytes_of_def by blast
  then show ?thesis using unlink_removes [OF run] assms(2) run by (auto simp: under_archive_def preserved_def split: if_splits)
qed

text \<open>An original is unlinked only when it is a member of the archive and its bytes are the ones of that member.\<close>

lemma under_unlink_archived: "keeps (under_archive (boundary_store env) members a ar) (unlink_archived (boundary_store env) ar r)"
proof -
  let ?st = "boundary_store env" and ?R = "under_archive (boundary_store env) members a ar"
  let ?drop = "bind_action (read_member ?st RootDir (record_file (record_id r)) MAX_POLICY_RECORD) (\<lambda>bytes.
       bind_action (refuse_if (bytes \<noteq> record_json (evidence_sv ?st) r) ''policy retention original member changed'') (\<lambda>_.
       bind_action (unlink_member ?st RootDir (record_file (record_id r))) (\<lambda>gone.
       bind_action (refuse_if (\<not> gone) ''policy evidence unlink uncertain; preserve archive'') (\<lambda>_. sync_dir ?st RootDir))))"
  have drop: "keeps ?R ?drop" if r: "r \<in> set (archive_records ar)"
  proof (rule keeps_bind_when [OF under_archive_order(2) under_grown [OF grows_query [OF queries(6)]]])
    fix s bytes t
    assume "read_member ?st RootDir (record_file (record_id r)) MAX_POLICY_RECORD s = (Ok bytes, t)"
    then have found: "members t RootDir (record_file (record_id r)) = Some bytes" by (rule read_found)
    have rest: "keeps ?R (bind_action (refuse_if (\<not> gone) m) (\<lambda>_. sync_dir ?st RootDir))" for gone m
      by (intro under_grown grows_query observing)
    have "?R t (snd (bind_action (unlink_member ?st RootDir (record_file (record_id r))) (\<lambda>gone.
        bind_action (refuse_if (\<not> gone) m) (\<lambda>_. sync_dir ?st RootDir)) t))" if "bytes = record_json (evidence_sv ?st) r" for m
      by (rule bind_from [where m = "unlink_member ?st RootDir (record_file (record_id r))", OF under_archive_order(2) under_unlink [OF r] rest])
        (use found that in simp)
    then show "?R t (snd (bind_action (refuse_if (bytes \<noteq> record_json (evidence_sv ?st) r) ''policy retention original member changed'') (\<lambda>_.
       bind_action (unlink_member ?st RootDir (record_file (record_id r))) (\<lambda>gone.
       bind_action (refuse_if (\<not> gone) ''policy evidence unlink uncertain; preserve archive'') (\<lambda>_. sync_dir ?st RootDir))) t))"
      using reflpD [OF under_archive_order(1)] by (auto simp: refuse_if_def bind_action_def [of "lift_result _"])
  qed
  note step = keeps_bind [OF under_archive_order(2)] and dep = keeps_bind_dep [OF under_archive_order(2)]
  show ?thesis unfolding unlink_archived_def
    by (rule step [OF under_grown [OF grows_query [OF queries(1)]]], rule step [OF under_grown [OF grows_query [OF observing_retention]]],
        rule dep [OF under_grown [OF grows_query [OF observes_refuse]]], rule step [OF under_grown [OF grows_query [OF queries(3)]]])
      (use drop keeps_lift [OF under_archive_order(1)] in \<open>auto simp: result_simps\<close>)
qed

lemma under_boundary: "keeps grow m \<Longrightarrow> keeps (on_world (under_archive (boundary_store env) members a ar)) m"
  by (simp add: keeps_def on_world_def under_archive_def grown_preserved)

lemma under_unlink_all: "keeps (on_world (under_archive (boundary_store env) members a ar)) (unlink_all env ar rs)"
proof (induction rs)
  case (Cons r rs)
  show ?case unfolding unlink_all.simps
    by (intro keeps_bind [OF on_world_order(2) [OF under_archive_order(2)]] under_boundary [OF grow_check] keeps_in_store under_unlink_archived Cons)
qed (simp only: unlink_all.simps, rule keeps_lift [OF on_world_order(1) [OF under_archive_order(1)]])

section \<open>Preservation\<close>

abbreviation preserve :: "'w \<times> grant_boundary \<Rightarrow> 'w \<times> grant_boundary \<Rightarrow> bool" where
  "preserve \<equiv> on_world (preserved (boundary_store env) members)"

lemmas preserve_order = on_world_order(1) [OF reflp_preserved] on_world_order(2) [OF transp_preserved]

lemmas preserve_steps = keeps_bind [OF preserve_order(2)] keeps_lift [OF preserve_order(1)] keeps_get [OF preserve_order(1)] keeps_set [OF reflp_preserved]
  keeps_on_refusal [OF preserve_order(2)]

lemma preserve_grown: "keeps grow m \<Longrightarrow> keeps preserve m"
  by (simp add: keeps_def on_world_def grown_preserved)

lemma world_grown: "keeps (grown (boundary_store env) members) m \<Longrightarrow> keeps (preserved (boundary_store env) members) m"
  by (simp add: keeps_def grown_preserved)

lemma preserve_archive_unlink:
  assumes "bytes = archive_json (boundary_store env) ar"
  shows "keeps preserve (bind_action (in_store (archive_operation_records (boundary_store env) ar bytes)) (\<lambda>_. unlink_all env ar rs))"
proof (rule keeps_bind_when [OF preserve_order(2) preserve_grown [OF keeps_in_store [OF grows_archive]]])
  fix s x t
  assume "in_store (archive_operation_records (boundary_store env) ar bytes) s = (Ok x, t)"
  then obtain w where "archive_operation_records (boundary_store env) ar bytes (fst s) = (Ok x, w)" and t: "t = (w, snd s)"
    by (auto simp: in_store_Inr)
  from archive_present [OF this(1)] t have "members (fst t) ArchivesDir (archive_file (archive_operation ar) (bytes_digest (boundary_store env) bytes))
      = Some (archive_json (boundary_store env) ar)" using assms by simp
  moreover obtain q u where run: "unlink_all env ar rs t = (q, u)" by (metis prod.exhaust)
  ultimately show "preserve t (snd (unlink_all env ar rs t))"
    using keepsD [OF under_unlink_all run] by (simp add: on_world_def under_archive_def)
qed

lemma preserve_retain_body:
  assumes "bytes = archive_json (boundary_store env) ar"
  shows "keeps preserve (retain_body env review ar bytes)"
  unfolding retain_body_def holding_effect_def
  by (rule preserve_steps(1) [OF preserve_grown [OF grow_begin]], rule preserve_steps(1) [OF preserve_steps(5)],
      rule preserve_steps(1) [OF preserve_grown [OF grow_check]], rule preserve_archive_unlink [OF assms],
      rule preserve_grown [OF grow_effect_drop], rule preserve_grown [OF grow_complete])

lemma grow_login: "keeps grow (prepare_session env le)" "keeps grow (in_store (open_client le))"
  unfolding prepare_session_def by (intro grow_steps grows_query login_observes grow_unavailable)+

lemma grow_close: "keeps grow (close_refused env out e)" "keeps grow (refuse_and_close env why e)"
  unfolding close_refused_def refuse_and_close_def record_unavailable_def
  by (intro grow_steps grow_finish keeps_bind [OF transp_grown] grow_draw grows_operation_decisions keeps_lift [OF reflp_grown])+

lemma preserve_granted:
  assumes "keeps preserve effect"
  shows "keeps preserve (granted_body env le effect)"
proof -
  have pair: "keeps preserve (case x of (a, b) \<Rightarrow> f a b)" if "\<And>a b. keeps preserve (f a b)" for x f
    using that by (cases x) simp
  show ?thesis unfolding granted_body_def
    by (intro preserve_steps pair assms) (intro preserve_grown grow_login grow_close grow_check grow_finish grow_steps)+
qed

lemma preserve_with_grants:
  assumes "keeps preserve effect"
  shows "keeps (preserved (boundary_store env) members) (with_grants env le purpose_of uses effect)"
proof -
  let ?st = "boundary_store env"
  have run: "keeps (preserved ?st members) (\<lambda>w. case granted_body env le effect (w, new_boundary purpose_of uses h) of
      (Inl Panic, w', b) \<Rightarrow> (Inl Panic, w') | (r, w', b) \<Rightarrow> (r, operation_drop ?st (boundary_operation b) w'))" for h
    unfolding keeps_def
  proof
    fix w
    obtain r w' b where g: "granted_body env le effect (w, new_boundary purpose_of uses h) = (r, w', b)" by (metis prod.exhaust)
    have "preserved ?st members w w'" using keepsD [OF preserve_granted [OF assms] g] by (simp add: on_world_def)
    moreover have "preserved ?st members w' (operation_drop ?st h' w')" for h' by (rule grown_preserved [OF grows_drop(1)])
    ultimately show "preserved ?st members w (snd (case granted_body env le effect (w, new_boundary purpose_of uses h) of
      (Inl Panic, w', b) \<Rightarrow> (Inl Panic, w') | (r, w', b) \<Rightarrow> (r, operation_drop ?st (boundary_operation b) w')))"
      using transpD [OF transp_preserved, of ?st members w w'] by (auto simp: g split: sum.splits error.splits)
  qed
  have starting: "keeps (grown ?st members) (operation_begin ?st uses)" unfolding operation_begin_def by (intro growing queries grows_append)
  note step = keeps_bind [OF transp_preserved]
  show ?thesis unfolding with_grants_def
    by (rule step [OF world_grown [OF grows_query [OF login_observes(1)]]], rule step [OF world_grown [OF grows_query [OF observes_refuse]]],
        rule step [OF keeps_lift [OF reflp_preserved]], rule step [OF keeps_lift [OF reflp_preserved]], rule step [OF world_grown [OF starting]], rule run)
qed

lemma preserve_retain: "keeps (preserved (boundary_store env) members) (retain_operation env le g op review)"
proof -
  note step = keeps_bind [OF transp_preserved] and dep = keeps_bind_dep [OF transp_preserved]
  have input: "observes members (retention_input (boundary_store env) op)"
    unfolding retention_input_def by (intro observing observing_retention)
  show ?thesis unfolding retain_operation_def
  proof (rule step [OF world_grown [OF grows_query [OF input]]], rule dep [OF keeps_lift [OF reflp_preserved]])
    fix ar s x t
    assume "lift_result (archive_review (boundary_store env) ar) s = (Ok x, t)"
    then obtain rv u where x: "x = (rv, archive_json (boundary_store env) ar, u)"
      by (auto simp: archive_review_def result_simps Let_def split: if_splits)
    show "keeps (preserved (boundary_store env) members) (case x of (rv, bytes, u) \<Rightarrow>
        bind_action (refuse_if (review \<noteq> rv) ''policy evidence retention review changed'') (\<lambda>_. with_grants env le Standard [(g, u)] (retain_body env rv ar bytes)))"
      unfolding x prod.case by (rule step [OF world_grown [OF grows_query [OF observes_refuse]]]) (rule preserve_with_grants [OF preserve_retain_body [OF refl]])
  qed
qed

end

text \<open>
  C14: Retaining a closed operation never loses evidence. Wherever the granted retention stops, refused, failed at a system
  call, fenced by a check in the middle of the unlinking, or done, every record file that was published before is still
  there with its exact bytes or is contained, byte for byte, in a record of an archive file that is published as the
  canonical encoding of that archive; and no archive file was changed or removed.
\<close>

theorem retention_never_loses_evidence:
  assumes "boundary_disk env members le" "retain_operation env le g op review w = (result, w')"
  shows "(\<forall>n b. members w RootDir n = Some b \<longrightarrow> members w' RootDir n = Some b \<or>
      (\<exists>a ar r. members w' ArchivesDir a = Some (archive_json (boundary_store env) ar) \<and> r \<in> set (archive_records ar)
        \<and> record_json (evidence_sv (boundary_store env)) r = b)) \<and>
    (\<forall>a bytes. members w ArchivesDir a = Some bytes \<longrightarrow> members w' ArchivesDir a = Some bytes)"
  using keepsD [OF boundary_disk.preserve_retain [OF assms(1)] assms(2)]
  unfolding preserved_def archived_bytes_of_def map_le_def dom_def by fastforce

end
