(* ===== verification/Policy_Sample.thy ===== *)
theory Policy_Sample
  imports Retention Catalog_Sample
begin

text \<open>
  A concrete store on a list of named files, which satisfies the laws of the file system, and a sample operation in it: one
  grant of the sample catalog, its decisions, an effect with its outcome and the outcome of the operation.
\<close>

section \<open>A file system\<close>

type_synonym disk = "((store_dir \<times> string) \<times> nat list) list"

definition disk_members :: "disk \<Rightarrow> store_dir \<Rightarrow> string \<Rightarrow> nat list option" where
  "disk_members w d n = map_of w (d, n)"

definition disk_put :: "store_dir \<Rightarrow> string \<Rightarrow> nat list \<Rightarrow> disk \<Rightarrow> disk" where
  "disk_put d n b w = filter (\<lambda>e. fst e \<noteq> (d, n)) w @ [((d, n), b)]"

definition disk_remove :: "store_dir \<Rightarrow> string \<Rightarrow> disk \<Rightarrow> disk" where
  "disk_remove d n w = filter (\<lambda>e. fst e \<noteq> (d, n)) w"

definition disk_names :: "store_dir \<Rightarrow> disk \<Rightarrow> string list" where
  "disk_names d w = map (\<lambda>e. snd (fst e)) (filter (\<lambda>e. fst (fst e) = d) w)"

definition disk_read :: "store_dir \<Rightarrow> string \<Rightarrow> (disk, nat list) action" where
  "disk_read d n w = (ok_or (disk_members w d n) ''no such file'', w)"

definition disk_create :: "store_dir \<Rightarrow> string \<Rightarrow> (disk, unit) action" where
  "disk_create d n w = (if disk_members w d n \<noteq> None then (Err ''file exists'', w) else (Ok (), disk_put d n [] w))"

definition disk_rename :: "store_dir \<Rightarrow> store_dir \<Rightarrow> string \<Rightarrow> (disk, bool) action" where
  "disk_rename d e n w = (case disk_members w d n of None \<Rightarrow> (Ok False, w)
     | Some b \<Rightarrow> if disk_members w e n \<noteq> None then (Ok False, w) else (Ok True, disk_put e n b (disk_remove d n w)))"

lemma map_of_without: "map_of (filter (\<lambda>e. fst e \<noteq> k) w) k' = (if k' = k then None else map_of w k')"
  by (induction w) auto

lemma disk_members_put: "disk_members (disk_put d n b w) = (disk_members w)(d := (disk_members w d)(n \<mapsto> b))"
  by (intro ext) (auto simp: disk_members_def disk_put_def map_add_def map_of_without split: option.splits)

lemma disk_members_remove: "disk_members (disk_remove d n w) = (disk_members w)(d := (disk_members w d)(n := None))"
  by (intro ext) (auto simp: disk_members_def disk_remove_def map_of_without)

section \<open>The records\<close>

definition id_of :: "char \<Rightarrow> string" where
  "id_of c = replicate 32 c"

definition digest_of :: "char \<Rightarrow> string" where
  "digest_of c = replicate 64 c"

definition sample_statement :: statement where
  "sample_statement = \<lparr>floor_ms = 5000, policy_sha256 = digest_of CHR ''1'', boot_id = replicate 32 CHR ''2'', process_generation = 1,
     source_clock_generation = 1, keeper_generation = 1, runtime_sha256 = digest_of CHR ''3''\<rparr>"

definition sample_observation :: observation where
  "sample_observation = \<lparr>obs_context = sample_statement, obs_interval = sample_instant\<rparr>"

definition decision_rules :: policy_services where
  "decision_rules = \<lparr>policy_digest = digest_of CHR ''5'', catalog_digest = (\<lambda>_. digest_of CHR ''6''),
     approved_policy = Ok (replicate 32 (17 * hex_value CHR ''1''))\<rparr>"

definition sample_decision :: "char \<Rightarrow> decision" where
  "sample_decision c =
     \<lparr>decision_id = id_of c, policy_version = 1, decision_policy = digest_of CHR ''5'',
      decision_subject = Some \<lparr>subject_principal = sample_user, subject_generation = 1\<rparr>, decision_head = Some (digest_of CHR ''7''),
      catalog_sha256 = Some (digest_of CHR ''6''), decision_grant = ''g1'', decision_evidence = Some (capture_evidence sample_catalog sample_grant),
      capability = Read, normalized_resource = sample_selector, evaluated_constraints = sample_use, outcome_of = Allow, reason_code = Allowed,
      decision_time = Some \<lparr>time_context = sample_statement, time_lower = 5000, time_upper = 5200\<rparr>\<rparr>"

definition sample_policy_record :: "char \<Rightarrow> unit payload \<Rightarrow> unit policy_record" where
  "sample_policy_record c p = \<lparr>policy_schema = 1, policy_installation = digest_of CHR ''1'', record_id = id_of c, operation_of = id_of CHR ''f'', payload_of = p\<rparr>"

text \<open>The start, a first decision, a second one, the effect, its outcome and the outcome of the operation.\<close>

definition sample_start :: "unit policy_record" where
  "sample_start = sample_policy_record CHR ''f'' (OperationStarted [(''g1'', sample_use)])"

definition sample_decided :: "char \<Rightarrow> unit policy_record" where
  "sample_decided c = sample_policy_record c (DecisionRecord (sample_decision c))"

definition sample_effect :: "unit policy_record" where
  "sample_effect = sample_policy_record CHR ''c'' (EffectStarted ''read-invoice'' Snapshot [id_of CHR ''a''])"

definition sample_outcome :: "unit policy_record" where
  "sample_outcome = sample_policy_record CHR ''d'' (EffectFinished (id_of CHR ''c'') (digest_of CHR ''8'') (Some (digest_of CHR ''9'')) Completed None)"

definition sample_finish :: "unit policy_record" where
  "sample_finish = sample_policy_record CHR ''e'' (OperationFinished Completed)"

definition sample_evidence :: "unit evidence_services" where
  "sample_evidence = \<lparr>policy_sv = decision_rules, evidence_validate = (\<lambda>_. Ok ()), evidence_authorization = (\<lambda>_. Err ''none''),
     evidence_digest = (\<lambda>_. digest_of CHR ''9''), record_digest = (\<lambda>_. digest_of CHR ''8''), record_json = (\<lambda>r. [of_char (hd (record_id r))])\<rparr>"

definition sample_graph :: "unit inventory" where
  "sample_graph = bm_insert (id_of CHR ''f'') sample_start (bm_insert (id_of CHR ''e'') sample_finish (bm_insert (id_of CHR ''d'') sample_outcome
     (bm_insert (id_of CHR ''c'') sample_effect (bm_insert (id_of CHR ''a'') (sample_decided CHR ''a'') bm_empty))))"

lemma id_of_simps: "policy_id (id_of c) \<longleftrightarrow> is_lower_hex c" "id_of c = id_of d \<longleftrightarrow> c = d" "hd (id_of c) = c" "length (id_of c) = 32"
  by (auto simp: policy_id_def id_of_def list_all_iff replicate_eq_replicate hd_replicate)

lemma digest_of_simps: "io_hash (digest_of c) \<longleftrightarrow> is_lower_hex c" "digest_of c = digest_of d \<longleftrightarrow> c = d"
  "is_lower_hex c \<Longrightarrow> tpm_decode 32 (digest_of c) = Ok (replicate 32 (17 * hex_value c))"
  by (auto simp: io_hash_def digest_of_def list_all_iff replicate_eq_replicate tpm_decode_replicate)

lemma sample_letters: "is_lower_hex CHR ''a''" "is_lower_hex CHR ''b''" "is_lower_hex CHR ''c''" "is_lower_hex CHR ''d''" "is_lower_hex CHR ''e''" "is_lower_hex CHR ''f''"
  "is_lower_hex CHR ''0''"
  by code_simp+

lemmas policy_texts = id_of_simps digest_of_simps sample_letters sample_texts

lemma sample_statement_valid: "Accounts.statement_validate (approved_policy decision_rules) sample_statement = Ok ()"
  by (simp add: Accounts.statement_validate_def decision_rules_def sample_statement_def policy_texts Let_def)

lemma sample_timestamp_valid: "timestamp_validate decision_rules \<lparr>time_context = sample_statement, time_lower = 5000, time_upper = 5200\<rparr> = Ok ()"
  by (simp add: timestamp_validate_def sample_statement_valid) (simp add: sample_statement_def)

lemma sample_captured: "capture_evidence sample_catalog sample_grant = \<lparr>definition_of = sample_grant, evidence_assignment = Some sample_assignment,
    current_role = Some sample_role, evidence_grant_id = ''g1'', evidence_grant_version = 1, evidence_revoked = False, assignment_id = ''a1'',
    evidence_assignment_version = 1, evidence_role = ''reader'', evidence_role_version = 1, evidence_not_before = 2000, evidence_expires = 80000,
    evidence_constraints = grant_constraints sample_grant\<rparr>"
  by (simp add: capture_evidence_def sample_state_simps sample_grant_def sample_assignment_def Let_def)

lemma sample_activity: "admin_identifier ''file.read''"
  by code_simp

lemma sample_evidence_valid: "grant_evidence_ok ''g1'' (capture_evidence sample_catalog sample_grant) = Ok ()"
proof -
  have "selector_validate (grant_selector sample_grant) = Ok ()" "constraints_validate (grant_constraints sample_grant) (grant_selector sample_grant) (grant_action sample_grant) = Ok ()"
    using sample_others_valid(3) by (auto simp: grant_validate_def result_simps)
  then show ?thesis unfolding sample_captured grant_evidence_ok_def
    by (simp add: assignment_evidence_ok_def role_evidence_ok_def sample_names sample_activity) (simp add: sample_grant_def sample_assignment_def sample_role_def sample_activity)
qed

lemma sample_decision_valid: "is_lower_hex c \<Longrightarrow> decision_validate decision_rules (sample_decision c) = Ok ()"
proof -
  assume c: "is_lower_hex c"
  have subject: "subject_evidence_ok (Some \<lparr>subject_principal = sample_user, subject_generation = 1\<rparr>) = Ok ()"
    by (simp add: subject_evidence_ok_def sample_texts)
  have digests: "digest_evidence_ok [Some (digest_of CHR ''7''), Some (digest_of CHR ''6'')] = Ok ()"
    by (simp add: digest_evidence_ok_def map_filter_def policy_texts)
  have allowed: "allowed_evidence_ok (sample_decision c) = Ok ()"
    unfolding sample_decision_def allowed_evidence_ok_def sample_captured
    by (simp add: sample_grant_def sample_assignment_def sample_role_def sample_use_def)
  have fields: "evaluated_constraints (sample_decision c) = sample_use" "decision_subject (sample_decision c) = Some \<lparr>subject_principal = sample_user, subject_generation = 1\<rparr>"
    "decision_head (sample_decision c) = Some (digest_of CHR ''7'')" "catalog_sha256 (sample_decision c) = Some (digest_of CHR ''6'')"
    "decision_time (sample_decision c) = Some \<lparr>time_context = sample_statement, time_lower = 5000, time_upper = 5200\<rparr>" "decision_grant (sample_decision c) = ''g1''"
    "decision_evidence (sample_decision c) = Some (capture_evidence sample_catalog sample_grant)" "outcome_of (sample_decision c) = Allow" "reason_code (sample_decision c) = Allowed"
    "decision_id (sample_decision c) = id_of c" "policy_version (sample_decision c) = 1" "decision_policy (sample_decision c) = digest_of CHR ''5''"
    "capability (sample_decision c) = use_action sample_use" "normalized_resource (sample_decision c) = use_selector sample_use"
    by (simp_all add: sample_decision_def sample_use_def)
  show ?thesis unfolding decision_validate_def fields
    by (simp add: subject digests allowed sample_timestamp_valid sample_evidence_valid sample_others_valid c id_of_simps digest_of_simps sample_hex_digits sample_names)
qed

section \<open>The graph\<close>

lemma id_of_less: "id_of c < id_of d \<longleftrightarrow> c < d"
proof -
  have "id_of e = e # replicate 31 e" for e by (simp add: id_of_def eval_nat_numeral)
  then show ?thesis by (cases "c = d") auto
qed

lemma letters_ordered:
  "CHR ''a'' < CHR ''b''" "CHR ''a'' < CHR ''c''" "CHR ''a'' < CHR ''d''" "CHR ''a'' < CHR ''e''" "CHR ''a'' < CHR ''f''" "CHR ''b'' < CHR ''e''"
  "CHR ''b'' < CHR ''f''" "CHR ''c'' < CHR ''d''" "CHR ''c'' < CHR ''e''" "CHR ''c'' < CHR ''f''" "CHR ''d'' < CHR ''e''" "CHR ''d'' < CHR ''f''" "CHR ''e'' < CHR ''f''"
  "\<not> CHR ''f'' < CHR ''a''" "\<not> CHR ''f'' < CHR ''b''" "\<not> CHR ''f'' < CHR ''c''" "\<not> CHR ''f'' < CHR ''d''" "\<not> CHR ''f'' < CHR ''e''"
  "\<not> CHR ''e'' < CHR ''a''" "\<not> CHR ''e'' < CHR ''b''" "\<not> CHR ''e'' < CHR ''c''" "\<not> CHR ''e'' < CHR ''d''" "\<not> CHR ''d'' < CHR ''a''" "\<not> CHR ''d'' < CHR ''c''"
  "\<not> CHR ''c'' < CHR ''a''" "\<not> CHR ''b'' < CHR ''a''"
  by code_simp+

lemmas id_order = id_of_less id_of_simps(2) letters_ordered

lemma sample_graph_entries: "bm_entries sample_graph = [(id_of CHR ''a'', sample_decided CHR ''a''), (id_of CHR ''c'', sample_effect), (id_of CHR ''d'', sample_outcome),
    (id_of CHR ''e'', sample_finish), (id_of CHR ''f'', sample_start)]"
  by (simp add: sample_graph_def id_order)

lemma sample_graph_get: "bm_get sample_graph (id_of c) = (if c = CHR ''f'' then Some sample_start else if c = CHR ''e'' then Some sample_finish
    else if c = CHR ''d'' then Some sample_outcome else if c = CHR ''c'' then Some sample_effect else if c = CHR ''a'' then Some (sample_decided CHR ''a'') else None)"
  by (simp add: sample_graph_def id_of_simps)

lemma sample_record_valid: "is_lower_hex c \<Longrightarrow> payload_validate sample_evidence p = Ok () \<Longrightarrow> record_validate sample_evidence (sample_policy_record c p) = Ok ()"
  by (simp add: record_validate_def sample_policy_record_def id_of_simps digest_of_simps sample_letters sample_hex_digits)

lemma sample_payloads: "payload_validate sample_evidence (OperationStarted [(''g1'', sample_use)]) = Ok ()"
  "is_lower_hex c \<Longrightarrow> payload_validate sample_evidence (DecisionRecord (sample_decision c)) = Ok ()"
  "payload_validate sample_evidence (EffectStarted ''read-invoice'' Snapshot [id_of CHR ''a'']) = Ok ()"
  "payload_validate sample_evidence (EffectFinished (id_of CHR ''c'') (digest_of CHR ''8'') (Some (digest_of CHR ''9'')) Completed None) = Ok ()"
proof -
  have name: "effect_name ''read-invoice''" by code_simp
  show "payload_validate sample_evidence (EffectStarted ''read-invoice'' Snapshot [id_of CHR ''a'']) = Ok ()"
    by (simp add: name id_of_simps sample_letters)
  show "payload_validate sample_evidence (EffectFinished (id_of CHR ''c'') (digest_of CHR ''8'') (Some (digest_of CHR ''9'')) Completed None) = Ok ()"
    using digest_of_simps(2) [of "CHR ''9''" "CHR ''0''"] by (simp add: id_of_simps digest_of_simps(1) sample_letters sample_hex_digits) (simp add: digest_of_def)
qed (simp_all add: sample_evidence_def sample_others_valid sample_names sample_decision_valid)

lemmas sample_records = sample_start_def sample_decided_def sample_effect_def sample_outcome_def sample_finish_def

lemma sample_valid: "record_validate sample_evidence sample_start = Ok ()" "is_lower_hex c \<Longrightarrow> record_validate sample_evidence (sample_decided c) = Ok ()"
  "record_validate sample_evidence sample_effect = Ok ()" "record_validate sample_evidence sample_outcome = Ok ()" "record_validate sample_evidence sample_finish = Ok ()"
  unfolding sample_records
  using sample_record_valid [OF sample_letters(6) sample_payloads(1)] sample_record_valid [OF _ sample_payloads(2), of c c]
    sample_record_valid [OF sample_letters(3) sample_payloads(3)] sample_record_valid [OF sample_letters(4) sample_payloads(4)]
    sample_record_valid [OF sample_letters(5), of "OperationFinished Completed"] by simp_all

lemma sample_record_ids: "record_id sample_start = id_of CHR ''f''" "record_id (sample_decided c) = id_of c" "record_id sample_effect = id_of CHR ''c''"
  "record_id sample_outcome = id_of CHR ''d''" "record_id sample_finish = id_of CHR ''e''"
  by (simp_all add: sample_records sample_policy_record_def)

lemma sample_graph_accepted: "evidence_graph sample_evidence sample_graph"
proof -
  have "list_all (\<lambda>(k, r). record_id r = k \<and> record_validate sample_evidence r = Ok ()) (bm_entries sample_graph)"
    by (simp add: sample_graph_entries sample_valid sample_record_ids sample_letters)
  moreover have "validate_links sample_evidence sample_graph = Ok ()"
    by (simp add: validate_links_def bm_values_def sample_graph_entries)
      (simp add: sample_records sample_policy_record_def sample_graph_get check_completed_def bm_values_def sample_graph_entries denial_def unresolved_def
        filter_option_def sample_decision_def bm_contains_def is_effect_started_def sample_evidence_def id_of_simps)
  ultimately show ?thesis by (simp add: evidence_graph_def)
qed

section \<open>The store\<close>

definition letter_record :: "char \<Rightarrow> unit policy_record" where
  "letter_record c = (if c = CHR ''f'' then sample_start else if c = CHR ''e'' then sample_finish else sample_decided c)"

definition next_letter :: "disk \<Rightarrow> char" where
  "next_letter w = (let k = length (disk_names RootDir w) in if k = 0 then CHR ''f'' else if k = 1 then CHR ''a'' else if k = 2 then CHR ''b'' else CHR ''e'')"

definition sample_meta :: file_meta where
  "sample_meta = \<lparr>meta_is_file = True, meta_uid = 0, meta_gid = 0, meta_nlink = 1, meta_mode = 256, meta_len = 1, meta_inode = (1, 1), meta_times = ((0, 0), (0, 0))\<rparr>"

definition sample_env :: "(disk, unit) policy_env" where
  "sample_env = \<lparr>evidence_sv = sample_evidence, store_installation = digest_of CHR ''1'', effective_uid = 0,
     parse_record = (\<lambda>b. ok_or (find (\<lambda>r. record_json sample_evidence r = b) (map letter_record ''fabe'')) ''invalid record''),
     archive_json = (\<lambda>_. [0]), parse_archive = (\<lambda>_. Err ''invalid archive''), bytes_digest = (\<lambda>_. digest_of CHR ''6''),
     review_digest = (\<lambda>_ _ _. digest_of CHR ''6''), receipt_digest = (\<lambda>_ _ _. digest_of CHR ''6''), store_lock = lift_result (Ok ()),
     fresh_id = (\<lambda>w. (Ok (id_of (next_letter w)), w)), list_names = (\<lambda>d _ w. (Ok (disk_names d w), w)),
     private_directory = (\<lambda>_. lift_result (Ok ())), validate_history = lift_result (Ok ()), read_member = (\<lambda>d n _. disk_read d n),
     read_opened = (\<lambda>d n _. disk_read d n), stat_member = (\<lambda>_ _. lift_result (Ok sample_meta)), create_new = disk_create,
     write_all = (\<lambda>d n b w. (Ok (), disk_put d n b w)), sync_member = (\<lambda>_ _. lift_result (Ok ())), sync_dir = (\<lambda>_. lift_result (Ok ())),
     rename_noreplace = disk_rename, unlink_member = (\<lambda>d n w. (Ok True, disk_remove d n w)), free_space = lift_result (Ok (Some (1048576, 4096))),
     cache_retain = (\<lambda>_. lift_result (Ok ())), cache_matches = (\<lambda>_ _. lift_result (Ok False)), cache_remove = (\<lambda>_. lift_result (Ok ())),
     cache_insert = (\<lambda>_ _. lift_result (Ok ()))\<rparr>"

interpretation sample_disk: evidence_disk sample_env disk_members
proof unfold_locales
  fix d e n w y w'
  assume run: "rename_noreplace sample_env d e n w = (y, w')" and "d \<noteq> e"
  then show "disk_members w' = disk_members w \<or> (\<exists>b. disk_members w d n = Some b \<and> disk_members w e n = None \<and>
      disk_members w' = (disk_members w)(d := (disk_members w d)(n := None), e := (disk_members w e)(n \<mapsto> b)))"
    by (auto simp: sample_env_def disk_rename_def disk_members_put disk_members_remove split: option.splits if_splits)
qed (auto simp: sample_env_def observes_def disk_read_def disk_create_def disk_members_put disk_members_remove result_simps split: if_splits)

definition sample_capture :: grant_capture where
  "sample_capture = \<lparr>cap_catalog = sample_catalog, cap_identity = sample_identity, cap_head = digest_of CHR ''7'', cap_observation = sample_observation,
     credential_refusal = None\<rparr>"

definition sample_boundary_env :: "(disk, unit) boundary_env" where
  "sample_boundary_env = \<lparr>boundary_store = sample_env, capture_authority = (\<lambda>_ w. ((Ok sample_capture, PrincipalUnavailable), w)), qa_profile = (\<lambda>_. False)\<rparr>"

definition sample_login :: "disk login_env" where
  "sample_login = \<lparr>prerequisites = lift_result (Ok ()), prepare_login = lift_result (Ok ()), authenticate = lift_result (Ok ()),
     open_session = lift_result (Ok (sample_identity, digest_of CHR ''7'')), open_client = lift_result (Ok ())\<rparr>"

interpretation sample_boundary: boundary_disk sample_boundary_env disk_members sample_login
proof (intro boundary_disk.intro boundary_disk_axioms.intro)
  show "evidence_disk (boundary_store sample_boundary_env) disk_members"
    using sample_disk.evidence_disk_axioms by (simp add: sample_boundary_env_def)
qed (auto simp: sample_boundary_env_def sample_login_def observes_def)

lemma sample_evaluate:
  assumes "is_lower_hex c"
  shows "evaluate decision_rules (Ok (id_of c)) sample_catalog sample_identity (digest_of CHR ''7'') sample_observation ''g1'' sample_use None = Ok (sample_decision c)"
proof -
  have g: "bm_get (grants sample_catalog) ''g1'' = Some sample_grant" by (simp add: sample_state_simps)
  have time: "timestamp_observed decision_rules sample_observation = Ok \<lparr>time_context = sample_statement, time_lower = 5000, time_upper = 5200\<rparr>"
    by (simp add: timestamp_observed_def sample_observation_def sample_instant_def endpoints_def sample_timestamp_valid)
  have why: "evaluate_reason sample_catalog sample_identity (obs_interval sample_observation) ''g1'' sample_use = Allowed"
    using g sample_authorized by (auto simp: evaluate_reason_Allowed sample_observation_def)
  have made: "\<lparr>decision_id = id_of c, policy_version = 1, decision_policy = policy_digest decision_rules,
       decision_subject = Some \<lparr>subject_principal = identity_principal sample_identity, subject_generation = identity_generation sample_identity\<rparr>,
       decision_head = Some (digest_of CHR ''7''), catalog_sha256 = Some (catalog_digest decision_rules sample_catalog), decision_grant = ''g1'',
       decision_evidence = Some (capture_evidence sample_catalog sample_grant),
       capability = use_action sample_use, normalized_resource = use_selector sample_use, evaluated_constraints = sample_use,
       outcome_of = Allow, reason_code = Allowed, decision_time = Some \<lparr>time_context = sample_statement, time_lower = 5000, time_upper = 5200\<rparr>\<rparr> = sample_decision c"
    by (simp add: sample_decision_def decision_rules_def sample_identity_def sample_use_def)
  have "identity_generation sample_identity \<noteq> 0" by (simp add: sample_identity_def)
  then show ?thesis unfolding evaluate_def time using assms
    by (simp only: and_then.simps Let_def g why option.case option.map if_True if_False made sample_decision_valid simp_thms)
qed

section \<open>The run\<close>

definition disk_of :: "string \<Rightarrow> disk" where
  "disk_of cs = map (\<lambda>c. ((RootDir, record_file (id_of c)), [of_char c])) cs"

definition graph_of :: "string \<Rightarrow> unit inventory" where
  "graph_of cs = foldl (\<lambda>m c. bm_insert (id_of c) (letter_record c) m) bm_empty cs"

lemma record_file_simps: "record_file i = record_file j \<longleftrightarrow> i = j" "record_file i \<noteq> ''lock''" "record_file i \<noteq> ''pending''" "record_file i \<noteq> ''archives''"
  "record_file i \<noteq> ''retained''" "record_file i \<noteq> ''history''"
  by (auto simp: record_file_def)

lemma strip_record_file: "Option.bind (strip_prefix ''record-'' (record_file i)) (strip_suffix ''.json'') = Some i"
  by (simp add: record_file_def strip_prefix_def strip_suffix_def)

lemma record_member_file: "policy_id i \<Longrightarrow> record_member (record_file i) = Some i"
  by (simp add: record_member_def strip_record_file filter_option_def)

lemma letter_record_fields: "record_id (letter_record c) = id_of c" "policy_installation (letter_record c) = digest_of CHR ''1''"
  "operation_of (letter_record c) = id_of CHR ''f''"
  by (auto simp: letter_record_def sample_record_ids) (simp_all add: sample_records sample_policy_record_def)

lemma letter_record_valid: "is_lower_hex c \<Longrightarrow> record_validate sample_evidence (letter_record c) = Ok ()"
  by (simp add: letter_record_def sample_valid)

lemma letter_record_json: "record_json sample_evidence r = [of_char (hd (record_id r))]"
  by (simp add: sample_evidence_def)

lemmas letter_record_simps = letter_record_fields letter_record_valid letter_record_json

text \<open>A step that is known to succeed is replaced by what follows it.\<close>

lemma bind_run: "m s = (Inr x, t) \<Longrightarrow> bind_action m f s = f x t"
  by (simp add: bind_action_def)

lemma refuse_if_False: "\<not> b \<Longrightarrow> refuse_if b m s = (Ok (), s)"
  by (simp add: refuse_if_def)

lemma add_len_Some: "checked_add n k = Some v \<Longrightarrow> add_len n k m s = (Ok v, s)"
  by (simp add: add_len_def)

lemma sample_env_simps: "evidence_sv sample_env = sample_evidence" "store_installation sample_env = digest_of CHR ''1''" "store_lock sample_env w = (Ok (), w)"
  "fresh_id sample_env w = (Ok (id_of (next_letter w)), w)" "list_names sample_env d k w = (Ok (disk_names d w), w)"
  "read_member sample_env d n l = disk_read d n" "stat_member sample_env d n w = (Ok sample_meta, w)" "create_new sample_env = disk_create"
  "write_all sample_env d n b w = (Ok (), disk_put d n b w)" "sync_member sample_env d n w = (Ok (), w)" "sync_dir sample_env d w = (Ok (), w)"
  "rename_noreplace sample_env = disk_rename" "free_space sample_env w = (Ok (Some (1048576, 4096)), w)" "cache_retain sample_env names w = (Ok (), w)"
  by (simp_all add: sample_env_def)

lemmas run_simps = bind_run refuse_if_False add_len_Some sample_env_simps

lemma disk_of_members: "c \<in> set cs \<Longrightarrow> disk_members (disk_of cs) RootDir (record_file (id_of c)) = Some [of_char c]"
  "disk_members (disk_of cs) RootDir (record_file (id_of c)) = None \<longleftrightarrow> c \<notin> set cs" "d \<noteq> RootDir \<Longrightarrow> disk_members (disk_of cs) d n = None"
  by (induction cs) (auto simp: disk_members_def disk_of_def record_file_simps id_of_simps)

lemma disk_of_names: "disk_names RootDir (disk_of cs) = map (\<lambda>c. record_file (id_of c)) cs" "d \<noteq> RootDir \<Longrightarrow> disk_names d (disk_of cs) = []"
  by (simp_all add: disk_names_def disk_of_def comp_def)

lemma sample_parse: "c \<in> set ''fabe'' \<Longrightarrow> parse_record sample_env [of_char c] = Ok (letter_record c)"
  by (auto simp: sample_env_def letter_record_simps id_of_simps)

lemma sample_hex: "c \<in> set ''fabe'' \<Longrightarrow> is_lower_hex c"
  using sample_letters by auto

lemma small_len: "n < 100 \<Longrightarrow> checked_add n (1 :: u64) = Some (n + 1)" "(n :: u64) < 100 \<Longrightarrow> \<not> MAX_POLICY_BYTES < n + 1"
  by (simp_all add: checked_add_def MAX_POLICY_BYTES_def word_less_nat_alt unat_word_ariths)

lemma sample_load_archive:
  assumes "c \<in> set ''fabe''" "c \<in> set cs" "n < 100"
  shows "load_member sample_env (record_file (id_of c)) (records, n) (disk_of cs) = (Ok (bm_insert (id_of c) (letter_record c) records, n + 1), disk_of cs)"
  using sample_parse [OF assms(1)] disk_of_members(1) [OF assms(2)] sample_hex [OF assms(1)] small_len [OF assms(3)]
  by (simp add: record_file_simps record_member_file id_of_simps run_simps byte_len_def letter_record_simps disk_read_def)

lemma sample_loads:
  assumes "set cs \<subseteq> set ''fabe''" "set cs \<subseteq> set all" "unat n + length cs < 100"
  shows "fold_action (load_member sample_env) (map (\<lambda>c. record_file (id_of c)) cs) (records, n) (disk_of all)
    = (Ok (foldl (\<lambda>m c. bm_insert (id_of c) (letter_record c) m) records cs, n + of_nat (length cs)), disk_of all)"
  using assms
proof (induction cs arbitrary: records n)
  case (Cons c cs)
  have "n < 100" "unat (n + 1) + length cs < 100" using Cons.prems(3) by (simp_all add: word_less_nat_alt unat_word_ariths)
  then show ?case using Cons sample_load_archive [of c all n records]
    by (simp add: run_simps algebra_simps)
qed simp

lemma sample_archives: "archive_inventory sample_env active (disk_of cs) = (Ok (bm_empty, active), disk_of cs)"
  by (simp add: archive_inventory_def run_simps disk_of_names)

lemma sample_inventory:
  assumes "set cs \<subseteq> set ''fabe''" "length cs \<le> 4" "validate_links sample_evidence (graph_of cs) = Ok ()"
  shows "inventory sample_env (disk_of cs) = (Ok (graph_of cs), disk_of cs)"
  using sample_loads [OF assms(1) subset_refl, of 0 bm_empty] assms(2,3)
  by (simp add: inventory_def run_simps disk_of_names sample_archives graph_of_def)

lemma sample_publish_record:
  assumes "c \<notin> set cs"
  shows "publish_record sample_env (record_file (id_of c)) [of_char c] (disk_of cs) = (Ok (), disk_of (cs @ [c]))"
proof -
  let ?n = "record_file (id_of c)"
  have staged: "disk_put PendingDir ?n [of_char c] (disk_put PendingDir ?n [] (disk_of cs)) = disk_of cs @ [((PendingDir, ?n), [of_char c])]"
    by (auto simp: disk_put_def disk_of_def filter_id_conv)
  have moved: "disk_rename PendingDir RootDir ?n (disk_of cs @ [((PendingDir, ?n), [of_char c])]) = (Ok True, disk_of (cs @ [c]))"
  proof -
    have "disk_members (disk_of cs @ [((PendingDir, ?n), [of_char c])]) PendingDir ?n = Some [of_char c]"
      "disk_members (disk_of cs @ [((PendingDir, ?n), [of_char c])]) RootDir ?n = None"
      using disk_of_members(2) [of cs c] disk_of_members(3) [of PendingDir cs ?n] assms by (simp_all add: disk_members_def map_add_def)
    moreover have "filter (\<lambda>e. fst e \<noteq> (RootDir, ?n)) (filter (\<lambda>e. fst e \<noteq> (PendingDir, ?n)) (disk_of cs)) = disk_of cs"
      using assms by (auto simp: disk_of_def filter_id_conv record_file_simps id_of_simps)
    ultimately show ?thesis by (simp add: disk_rename_def disk_put_def disk_remove_def disk_of_def)
  qed
  have "disk_read PendingDir ?n (disk_of cs @ [((PendingDir, ?n), [of_char c])]) = (Ok [of_char c], disk_of cs @ [((PendingDir, ?n), [of_char c])])"
    using disk_of_members(3) [of PendingDir cs ?n] by (simp add: disk_read_def disk_members_def map_add_def)
  moreover have "disk_read RootDir ?n (disk_of (cs @ [c])) = (Ok [of_char c], disk_of (cs @ [c]))"
    using disk_of_members(1) [of c "cs @ [c]"] by (simp add: disk_read_def)
  moreover have "disk_create PendingDir ?n (disk_of cs) = (Ok (), disk_put PendingDir ?n [] (disk_of cs))"
    using disk_of_members(3) [of PendingDir cs ?n] by (simp add: disk_create_def)
  ultimately show ?thesis by (simp add: publish_record_def run_simps staged moved)
qed

lemma sample_physical_members:
  assumes "set cs \<subseteq> set ''fabe''" "c \<notin> set cs" "unat n + length cs < 100"
  shows "fold_action (physical_member sample_env (id_of c)) (map (\<lambda>c. record_file (id_of c)) cs) (k, n) w = (Ok (k + length cs, n + of_nat (length cs)), w)"
  using assms
proof (induction cs arbitrary: k n)
  case (Cons d cs)
  have small: "n < 100" "unat (n + 1) + length cs < 100" using Cons.prems(3) by (simp_all add: word_less_nat_alt unat_word_ariths)
  have "physical_member sample_env (id_of c) (record_file (id_of d)) (k, n) w = (Ok (Suc k, n + 1), w)"
    using Cons.prems(1,2) sample_hex [of d] small_len(1) [OF small(1)]
    by (auto simp: record_file_simps record_member_file id_of_simps run_simps sample_meta_def MAX_POLICY_RECORD_def)
  then show ?case using Cons small by (simp add: run_simps algebra_simps)
qed simp

lemma sample_space: "space_check sample_env [b] m m' w = (Ok (), w)"
proof -
  have "checked_mul (1048576 :: u64) 4096 = Some 4294967296" "checked_add (1 :: u64) 16777216 = Some 16777217"
    by (simp_all add: checked_mul_def checked_add_def)
  then show ?thesis by (simp add: space_check_def run_simps byte_len_def)
qed

lemma sample_physical:
  assumes "set cs \<subseteq> set ''fabe''" "length cs \<le> 4" "c \<notin> set cs"
  shows "physical_check sample_env (letter_record c) records (disk_of cs) = (Ok (), disk_of cs)"
proof -
  have few: "of_nat (length cs) < (100 :: u64)" using assms(2) by (simp add: word_less_nat_alt unat_of_nat)
  have "\<not> MAX_POLICY_BYTES - 4194304 < of_nat (length cs) + 1" "\<not> MAX_POLICY_BYTES < of_nat (length cs) + 1"
    using few by (simp_all add: MAX_POLICY_BYTES_def word_less_nat_alt unat_word_ariths)
  then show ?thesis using sample_physical_members [OF assms(1,3), of 0 0] assms(2) small_len(1) [OF few]
    by (simp add: physical_check_def run_simps disk_of_names letter_record_simps id_of_simps byte_len_def Let_def MAX_POLICY_RECORDS_def)
qed

lemma letter_bytes: "list_all (\<lambda>r. \<exists>c. r = letter_record c) rs \<Longrightarrow> unat n + length rs < 100 \<Longrightarrow> total_bytes sample_evidence n rs = Ok (n + of_nat (length rs))"
proof (induction rs arbitrary: n)
  case (Cons r rs)
  have "n < 100" "unat (n + 1) + length rs < 100" using Cons.prems(2) by (simp_all add: word_less_nat_alt unat_word_ariths)
  then show ?case using Cons small_len(1) by (auto simp: letter_record_json algebra_simps)
qed simp

lemma graph_of_snoc: "graph_of (cs @ [c]) = bm_insert (id_of c) (letter_record c) (graph_of cs)"
  by (simp add: graph_of_def)

lemma graph_of_letters: "bm_get (graph_of cs) k = Some r \<Longrightarrow> \<exists>c. r = letter_record c"
proof (induction cs rule: rev_induct)
  case (snoc c cs)
  then show ?case by (auto simp: graph_of_snoc split: if_splits)
qed (simp add: graph_of_def)

lemma graph_of_size: "bm_size (graph_of cs) \<le> length cs"
proof (induction cs rule: rev_induct)
  case (snoc c cs)
  then show ?case using bm_size_insert [of "id_of c" "letter_record c" "graph_of cs"] by (simp add: graph_of_snoc split: if_splits)
qed (simp add: graph_of_def bm_size_def)

lemma sample_capacity:
  assumes "length cs \<le> 4"
  shows "capacity_check sample_evidence (letter_record c) (graph_of cs) = Ok ()"
proof -
  let ?vs = "bm_values (graph_of cs)"
  have "list_all (\<lambda>r. \<exists>c. r = letter_record c) ?vs" using graph_of_letters by (auto simp: list_all_iff bm_values_iff)
  moreover have size: "length ?vs \<le> 4" "bm_size (graph_of cs) \<le> 4" using graph_of_size [of cs] assms by (simp_all add: bm_values_def bm_size_def)
  ultimately have "total_bytes sample_evidence 0 ?vs = Ok (of_nat (length ?vs))" using letter_bytes [of ?vs 0] by simp
  moreover have "\<not> MAX_POLICY_BYTES - 4194304 < of_nat (length ?vs)" "\<not> MAX_POLICY_BYTES < of_nat (length ?vs)"
    using size by (simp_all add: MAX_POLICY_BYTES_def word_less_nat_alt unat_of_nat)
  ultimately show ?thesis using size(2)
    by (simp add: capacity_check_def Let_def MAX_POLICY_RECORDS_def MAX_POLICY_RECORD_def letter_record_json)
qed

lemma sample_links:
  "validate_links sample_evidence (graph_of []) = Ok ()" "validate_links sample_evidence (graph_of ''f'') = Ok ()"
  "validate_links sample_evidence (graph_of ''fa'') = Ok ()" "validate_links sample_evidence (graph_of ''fab'') = Ok ()"
  "validate_links sample_evidence (graph_of ''fabe'') = Ok ()"
  by (simp_all add: graph_of_def validate_links_def bm_values_def id_order letter_record_def sample_records sample_policy_record_def sample_decision_def
      bm_contains_def check_completed_def denial_def unresolved_def)

lemma sample_add:
  assumes "set (cs @ [c]) \<subseteq> set ''fabe''" "length cs \<le> 3" "c \<notin> set cs" "validate_links sample_evidence (graph_of (cs @ [c])) = Ok ()"
  shows "add_record sample_env (letter_record c) (graph_of cs) (disk_of cs) = (Ok (graph_of (cs @ [c])), disk_of (cs @ [c]))"
proof -
  have valid: "record_validate sample_evidence (letter_record c) = Ok ()" using assms(1) sample_hex [of c] letter_record_valid by simp
  have "write_record sample_env (letter_record c) (graph_of (cs @ [c])) (disk_of cs) = (Ok (), disk_of (cs @ [c]))"
    using assms sample_capacity [of "cs @ [c]" c] sample_physical [of cs c] sample_publish_record [of c cs]
    by (simp add: write_record_def Let_def run_simps letter_record_simps id_of_simps sample_space)
  then show ?thesis using valid assms(4) by (simp add: add_record_def Let_def run_simps letter_record_simps graph_of_snoc)
qed

section \<open>A granted operation\<close>

definition sample_handle :: operation_handle where
  "sample_handle = \<lparr>handle_id = id_of CHR ''f'', handle_finished = False\<rparr>"

definition sample_uses :: "(string \<times> usage) list" where
  "sample_uses = [(''g1'', sample_use)]"

lemma next_letters: "next_letter (disk_of []) = CHR ''f''" "next_letter (disk_of ''f'') = CHR ''a''" "next_letter (disk_of ''fa'') = CHR ''b''" "next_letter (disk_of ''fab'') = CHR ''e''"
  by (simp_all add: next_letter_def disk_of_names)

lemma sample_append:
  assumes "set (cs @ [c]) \<subseteq> set ''fabe''" "length cs \<le> 3" "c \<notin> set cs" "next_letter (disk_of cs) = c" "new_record sample_env (id_of c) (id_of CHR ''f'') p = letter_record c"
    "validate_links sample_evidence (graph_of cs) = Ok ()" "validate_links sample_evidence (graph_of (cs @ [c])) = Ok ()"
  shows "append_record sample_env (id_of CHR ''f'') p (disk_of cs) = (Ok (letter_record c), disk_of (cs @ [c]))"
  using sample_inventory [of cs] sample_add [OF assms(1-3,7)] assms by (simp add: append_record_def run_simps)

lemma sample_begin: "operation_begin sample_env sample_uses [] = (Ok sample_handle, disk_of ''f'')"
  using sample_append [of "[]" "CHR ''f''" "OperationStarted sample_uses"] sample_links next_letters
  by (simp add: operation_begin_def run_simps disk_of_def sample_handle_def new_record_def letter_record_def sample_records sample_policy_record_def sample_uses_def)

lemma sample_finish_run: "operation_finish sample_env sample_handle Completed (disk_of ''fab'') = (Ok (sample_handle\<lparr>handle_finished := True\<rparr>), disk_of ''fabe'')"
  using sample_append [of "''fab''" "CHR ''e''" "OperationFinished Completed"] sample_links next_letters
  by (simp add: operation_finish_def run_simps sample_handle_def new_record_def letter_record_def sample_records sample_policy_record_def)

lemma sample_decide:
  assumes "(cs, c) \<in> {(''f'', CHR ''a''), (''fa'', CHR ''b'')}"
  shows "operation_decisions sample_env sample_handle [sample_decision c] (disk_of cs) = (Ok [id_of c], disk_of (cs @ [c]))"
proof -
  have "new_record sample_env (decision_id (sample_decision c)) (handle_id sample_handle) (DecisionRecord (sample_decision c)) = letter_record c" "decision_id (sample_decision c) = id_of c"
    using assms by (auto simp: new_record_def sample_env_simps letter_record_def sample_records sample_policy_record_def sample_handle_def sample_decision_def)
  moreover have "add_record sample_env (letter_record c) (graph_of cs) (disk_of cs) = (Ok (graph_of (cs @ [c])), disk_of (cs @ [c]))"
    "inventory sample_env (disk_of cs) = (Ok (graph_of cs), disk_of cs)"
    using assms sample_links by (auto intro!: sample_add sample_inventory)
  ultimately show ?thesis by (simp add: operation_decisions_def run_simps)
qed

lemma sample_capture_run: "capture_or_record sample_boundary_env (w, b) = (Ok sample_capture, w, b\<lparr>capture_reason := PrincipalUnavailable\<rparr>)"
  by (simp add: capture_or_record_def on_refusal_def capture_def sample_boundary_env_def)

lemma sample_evaluate_run:
  assumes "is_lower_hex (next_letter w)"
  shows "evaluate_all sample_boundary_env sample_capture sample_uses (w, b) = (Ok [sample_decision (next_letter w)], w, b)"
proof -
  have fields: "boundary_store sample_boundary_env = sample_env" "policy_sv sample_evidence = decision_rules" by (simp_all add: sample_boundary_env_def sample_evidence_def)
  show ?thesis using sample_evaluate [OF assms]
    by (simp add: evaluate_all_def in_store_def sample_uses_def sample_capture_def fields run_simps)
qed

lemma sample_check:
  assumes "(cs, c) \<in> {(''f'', CHR ''a''), (''fa'', CHR ''b'')}" "boundary_uses b = sample_uses" "boundary_operation b = sample_handle" "\<not> fenced b"
  shows "boundary_check sample_boundary_env (disk_of cs, b)
    = (Ok (), disk_of (cs @ [c]), b\<lparr>capture_reason := PrincipalUnavailable, decision_ids := [id_of c], boundary_observation := Some sample_observation, fenced := False\<rparr>)"
proof -
  have store: "boundary_store sample_boundary_env = sample_env" by (simp add: sample_boundary_env_def)
  have letters: "next_letter (disk_of cs) = c" "is_lower_hex c" "is_lower_hex (next_letter (disk_of (cs @ [c])))"
    using assms(1) next_letters sample_letters by auto
  have allowed: "allows [sample_decision d]" for d by (simp add: allows_def sample_decision_def)
  have time: "cap_observation sample_capture = sample_observation" by (simp add: sample_capture_def)
  show ?thesis
    using assms(2-4) letters sample_decide [OF assms(1)]
    by (simp add: boundary_check_def fenced_check_body_def bind_get bind_set run_simps sample_capture_run sample_evaluate_run in_store_def store allowed time)
qed

lemma on_refusal_run: "m s = (Inr x, t) \<Longrightarrow> on_refusal m h s = (Inr x, t)"
  by (simp add: on_refusal_def)

lemma sample_granted: "with_grants sample_boundary_env sample_login Standard sample_uses (lift_result (Ok ())) [] = (Ok (), disk_of ''fabe'')"
proof -
  define b where "b = (new_boundary Standard sample_uses sample_handle)\<lparr>boundary_identity := sample_identity, boundary_head := digest_of CHR ''7''\<rparr>"
  define b1 where "b1 = b\<lparr>capture_reason := PrincipalUnavailable, decision_ids := [id_of CHR ''a''], boundary_observation := Some sample_observation, fenced := False\<rparr>"
  define b2 where "b2 = b1\<lparr>capture_reason := PrincipalUnavailable, decision_ids := [id_of CHR ''b''], boundary_observation := Some sample_observation, fenced := False\<rparr>"
  define b3 where "b3 = b2\<lparr>boundary_operation := sample_handle\<lparr>handle_finished := True\<rparr>\<rparr>"
  have store: "boundary_store sample_boundary_env = sample_env" by (simp add: sample_boundary_env_def)
  have prepared: "prepare_session sample_boundary_env sample_login (w, b) = (Ok (sample_identity, digest_of CHR ''7''), w, b)" for w b
    by (simp add: prepare_session_def sample_login_def in_store_def on_refusal_def run_simps)
  have client: "in_store (open_client sample_login) (w, b) = (Ok (), w, b)" for w b by (simp add: sample_login_def in_store_def)
  have first: "boundary_check sample_boundary_env (disk_of ''f'', b) = (Ok (), disk_of ''fa'', b1)"
    using sample_check [of "''f''" "CHR ''a''" b] by (simp add: b1_def) (simp add: b_def new_boundary_def)
  have again: "boundary_check sample_boundary_env (disk_of ''fa'', b1) = (Ok (), disk_of ''fab'', b2)"
    using sample_check [of "''fa''" "CHR ''b''" b1] by (simp add: b2_def) (simp add: b1_def b_def new_boundary_def)
  have "boundary_operation b2 = sample_handle" by (simp add: b2_def b1_def b_def new_boundary_def)
  then have finish: "finish_boundary sample_boundary_env Completed (disk_of ''fab'', b2) = (Ok (), disk_of ''fabe'', b3)"
    using sample_finish_run by (simp add: finish_boundary_def bind_get run_simps store in_store_def b3_def)
  have body: "granted_body sample_boundary_env sample_login (lift_result (Ok ())) (disk_of ''f'', new_boundary Standard sample_uses sample_handle) = (Ok (), disk_of ''fabe'', b3)"
    by (simp add: granted_body_def bind_run on_refusal_run prepared client bind_set flip: b_def) (simp add: bind_run on_refusal_run first again finish)
  have "operation_drop sample_env (boundary_operation b3) w = w" for w by (simp add: operation_drop_def b3_def)
  moreover have "prerequisites sample_login [] = (Ok (), [])" by (simp add: sample_login_def)
  moreover have "check_uses {} sample_uses = Ok ()" "sample_uses \<noteq> []" "length sample_uses = 1" by (simp_all add: sample_uses_def sample_others_valid sample_names)
  ultimately show ?thesis using sample_begin body by (simp add: with_grants_def run_simps store)
qed

section \<open>Witnesses\<close>

theorem decision_matches_enforcement_witness:
  "evaluate decision_rules (Ok (id_of CHR ''a'')) sample_catalog sample_identity (digest_of CHR ''7'') sample_observation ''g1'' sample_use None = Ok (sample_decision CHR ''a'')
    \<and> (\<exists>g. decision_evidence (sample_decision CHR ''a'') = Some (capture_evidence sample_catalog g) \<and> bm_get (grants sample_catalog) ''g1'' = Some g)"
  using decision_matches_enforcement [OF sample_evaluate [OF sample_letters(1)]] sample_evaluate [OF sample_letters(1)] by (auto simp: sample_decision_def)

theorem effect_admitted_by_decisions_witness:
  "\<exists>s scopes. s \<in> set (bm_values sample_graph) \<and> operation_of s = operation_of sample_effect \<and> payload_of s = OperationStarted scopes \<and> scopes \<noteq> []"
  using effect_admitted_by_decisions [OF sample_graph_accepted, of "id_of CHR ''c''" sample_effect "''read-invoice''" Snapshot "[id_of CHR ''a'']"]
  by (simp add: sample_graph_get) (auto simp: sample_effect_def sample_policy_record_def)

theorem completed_operation_settled_witness:
  "\<exists>f receipt ev. f \<in> set (bm_values sample_graph) \<and> payload_of f = EffectFinished (id_of CHR ''c'') (record_digest sample_evidence sample_effect) (Some receipt) Completed ev"
proof -
  have "payload_of sample_finish = OperationFinished Completed" "operation_of sample_effect = operation_of sample_finish"
    "payload_of sample_effect = EffectStarted ''read-invoice'' Snapshot [id_of CHR ''a'']" by (simp_all add: sample_records sample_policy_record_def)
  then show ?thesis
    using completed_operation_settled [OF sample_graph_accepted, of "id_of CHR ''e''" sample_finish "id_of CHR ''c''" sample_effect]
    by (simp add: sample_graph_get) blast
qed

theorem store_returns_accepted_graphs_witness:
  "inventory sample_env (disk_of ''fab'') = (Ok (graph_of ''fab''), disk_of ''fab'') \<and> evidence_graph sample_evidence (graph_of ''fab'')"
  using store_returns_accepted_graphs [of sample_env "disk_of ''fab''" "graph_of ''fab''" "disk_of ''fab''"] sample_inventory [of "''fab''"] sample_links
  by (simp add: sample_env_simps)

theorem published_evidence_immutable_witness:
  "foldl (\<lambda>w c. store_call_run sample_env c w) (disk_of ''f'') [StoreDecide sample_handle [sample_decision CHR ''a'']] = disk_of ''fa'' \<and>
    (\<exists>r. completes_graph sample_evidence r \<and> record_file (id_of CHR ''a'') = record_file (record_id r) \<and> [97] = record_json sample_evidence r)"
proof -
  let ?calls = "[StoreDecide sample_handle [sample_decision CHR ''a'']]"
  have run: "disk_of ''fa'' = foldl (\<lambda>w c. store_call_run sample_env c w) (disk_of ''f'') ?calls"
    using sample_decide [of "''f''" "CHR ''a''"] by simp
  note kept = published_evidence_immutable [OF sample_disk.evidence_disk_axioms run, THEN conjunct2, rule_format, of "record_file (id_of CHR ''a'')" "[97]"]
  show ?thesis using kept run disk_of_members(1) [of "CHR ''a''" "''fa''"] disk_of_members(2) [of "''f''" "CHR ''a''"] by (simp add: sample_env_simps)
qed

theorem checked_uses_authorized_witness:
  "\<exists>cap :: grant_capture. \<forall>(g, u) \<in> set sample_uses. \<exists>gr. bm_get (grants (cap_catalog cap)) g = Some gr
    \<and> is_ok (authorize gr (cap_catalog cap) (cap_identity cap) (obs_interval (cap_observation cap)) u)"
proof -
  let ?b = "new_boundary Standard sample_uses sample_handle"
  have b: "boundary_uses ?b = sample_uses" "boundary_operation ?b = sample_handle" "\<not> fenced ?b" by (simp_all add: new_boundary_def)
  have refusal: "\<forall>b w cap why w'. capture_authority sample_boundary_env b w = ((Ok cap, why), w') \<longrightarrow> credential_refusal cap \<noteq> Some Allowed"
    by (auto simp: sample_boundary_env_def sample_capture_def)
  have pair: "(''f'', CHR ''a'') \<in> {(''f'', CHR ''a''), (''fa'', CHR ''b'')}" by simp
  obtain cap :: grant_capture where "\<forall>(g, u) \<in> set (boundary_uses (snd (disk_of ''f'', ?b))). \<exists>gr. bm_get (grants (cap_catalog cap)) g = Some gr
      \<and> is_ok (authorize gr (cap_catalog cap) (cap_identity cap) (obs_interval (cap_observation cap)) u)"
    using checked_uses_authorized [OF sample_check [OF pair b] refusal] by blast
  then show ?thesis unfolding snd_conv b(1) by (rule exI)
qed

theorem granted_operation_settled_witness:
  "with_grants sample_boundary_env sample_login Standard sample_uses (lift_result (Ok ())) [] = (Ok (), disk_of ''fabe'')
    \<and> (\<exists>h w2 inv t u3 records. operation_begin sample_env sample_uses [] = (Ok h, w2) \<and> add_record sample_env t inv u3 = (Ok records, disk_of ''fabe'')
      \<and> operation_of t = handle_id h \<and> operation_settled sample_evidence records (handle_id h))"
proof -
  have env: "boundary_store sample_boundary_env = sample_env" "evidence_sv sample_env = sample_evidence"
    by (simp_all add: sample_boundary_env_def sample_env_simps)
  have "prerequisites sample_login [] = (Ok (), [])" by (simp add: sample_login_def)
  then show ?thesis using granted_operation_settled [OF sample_granted] sample_granted unfolding env by simp metis
qed

theorem retention_never_loses_evidence_witness:
  "disk_members (disk_of ''f'') RootDir (record_file (id_of CHR ''f'')) = Some [102] \<and>
   (\<exists>w'. w' = snd (retain_operation sample_boundary_env sample_login ''g1'' (id_of CHR ''f'') (digest_of CHR ''6'') (disk_of ''f'')) \<and>
     (disk_members w' RootDir (record_file (id_of CHR ''f'')) = Some [102] \<or> (\<exists>a. disk_members w' ArchivesDir a \<noteq> None)))"
proof -
  let ?run = "retain_operation sample_boundary_env sample_login ''g1'' (id_of CHR ''f'') (digest_of CHR ''6'') (disk_of ''f'')"
  have "?run = (fst ?run, snd ?run)" by simp
  from retention_never_loses_evidence [OF sample_boundary.boundary_disk_axioms this] show ?thesis
    using disk_of_members(1) [of "CHR ''f''" "''f''"] by fastforce
qed

text \<open>A check whose decisions cannot be stored, since the operation was never started.\<close>

lemma sample_refused:
  assumes "boundary_uses b = sample_uses" "boundary_operation b = sample_handle" "\<not> fenced b"
  shows "\<exists>s'. boundary_check sample_boundary_env ([], b) = (Err ''policy evidence lacks its exact operation start'', s')"
proof -
  let ?r = "new_record sample_env (decision_id (sample_decision CHR ''f'')) (handle_id sample_handle) (DecisionRecord (sample_decision CHR ''f''))"
  have store: "boundary_store sample_boundary_env = sample_env" by (simp add: sample_boundary_env_def)
  have r: "?r = sample_decided CHR ''f''"
    by (simp add: new_record_def sample_env_simps sample_decided_def sample_policy_record_def sample_handle_def sample_decision_def)
  have "validate_links sample_evidence (bm_insert (id_of CHR ''f'') (sample_decided CHR ''f'') (graph_of [])) = Err ''policy evidence lacks its exact operation start''"
    by (simp add: graph_of_def validate_links_def bm_values_def sample_decided_def sample_policy_record_def)
  then have "add_record sample_env ?r (graph_of []) [] = (Err ''policy evidence lacks its exact operation start'', [])"
    using sample_valid(2) [OF sample_letters(6)] unfolding r by (simp add: add_record_def Let_def run_simps sample_record_ids bind_action_def [of "lift_result (Inl _)"])
  moreover have "inventory sample_env [] = (Ok (graph_of []), [])" using sample_inventory [of "[]"] sample_links by (simp add: disk_of_def)
  ultimately have "operation_decisions sample_env sample_handle [sample_decision CHR ''f''] [] = (Err ''policy evidence lacks its exact operation start'', [])"
    by (simp add: operation_decisions_def run_simps bind_action_def [of "add_record _ _ _"])
  moreover have "next_letter [] = CHR ''f''" using next_letters(1) by (simp add: disk_of_def)
  ultimately show ?thesis using assms sample_letters(6)
    by (simp add: boundary_check_def fenced_check_body_def bind_get bind_set run_simps sample_capture_run sample_evaluate_run in_store_def store bind_action_def [of "in_store _"])
qed

theorem refused_boundary_stays_fenced_witness:
  "\<exists>b s' rs s''. boundary_check sample_boundary_env ([], b) = (Err ''policy evidence lacks its exact operation start'', s')
    \<and> run_boundaries sample_boundary_env [CheckCall, BeginCall ''read-invoice'' Snapshot] s' = (rs, s'') \<and> (\<forall>r \<in> set rs. \<exists>e. r = Inl e)"
proof -
  let ?b = "new_boundary Standard sample_uses sample_handle"
  obtain s' where check: "boundary_check sample_boundary_env ([], ?b) = (Err ''policy evidence lacks its exact operation start'', s')"
    using sample_refused [of ?b] by (auto simp: new_boundary_def)
  obtain rs s'' where run: "run_boundaries sample_boundary_env [CheckCall, BeginCall ''read-invoice'' Snapshot] s' = (rs, s'')" by (metis prod.exhaust)
  show ?thesis using check run refused_boundary_stays_fenced [OF check run] by blast
qed

end
