(* ===== verification/Utc_Client.thy ===== *)
theory Utc_Client
  imports Utc_Keeper Policy_Store
begin

text \<open>
  The client of the UTC keeper (\<open>utc_provider.rs\<close>): one query of the keeper's socket under the checks that bind the reply
  to its process, generation, sequence and clocks, and the later projection of the same sample to the nanosecond at which
  an effect is dispatched. Files, sockets and kernel clocks are operations of the surroundings, each of which may fail. An
  \<open>Instant\<close> is a number of nanoseconds.
\<close>

section \<open>Data\<close>

record history_binding =
  hb_deployment :: string
  hb_enrollment :: string
  hb_principal :: identity
  hb_head :: string
  hb_floor :: int
  hb_version :: u64
  hb_reset :: u32
  hb_restart :: u32

record reply =
  reply_schema :: u32
  reply_nonce :: string
  reply_instance :: string
  reply_sequence :: u64
  reply_boottime :: u64
  reply_monotonic :: u64
  reply_context :: statement
  earliest_ms :: int
  latest_ms :: int

record projection_clock =
  dispatch_ns :: u64
  dispatch_monotonic :: u64
  dispatch_process :: u32
  dispatch_euid :: u32
  sampled_instant :: nat

record delivery_sample =
  sample_history :: string
  sample_instance :: string
  sample_sequence :: u64
  sample_context :: statement
  sample_raw :: interval
  sample_boottime :: u64
  sample_monotonic :: u64
  sample_clock :: Utc_Keeper.clock
  projection_ns :: "u64 option"
  delivered_context :: statement
  delivered_utc :: interval
  sample_deadline :: nat

record client =
  client_endpoint :: string
  client_peer :: "int option"
  client_history :: "string option"
  client_generation :: "(string \<times> statement) option"
  client_sequence :: u64
  client_sample :: "delivery_sample option"
  client_process :: u32
  client_initial :: Utc_Keeper.clock
  client_fenced :: bool

datatype clock_source = Boottime | Monotonic | Realtime

record 'w client_env =
  clock_gettime :: "clock_source \<Rightarrow> ('w, int \<times> int) action"
  instant_now :: "'w \<Rightarrow> nat \<times> 'w"
  process_id :: "'w \<Rightarrow> u32"
  effective_uid :: "'w \<Rightarrow> u32"
  arm_watch :: "('w, unit) action"
  watch_check :: "('w, unit) action"
  release_recheck :: "('w, unit) action"
  query_endpoint :: "('w, string) action"
  query_connect :: "('w, int) action"
  pin_peer :: "('w, unit) action"
  peer_alive :: "('w, bool) action"
  draw_nonce :: "('w, string) action"
  query_exchange :: "string \<Rightarrow> ('w, reply) action"
  kernel_boot :: "('w, string) action"
  binding_digest :: "history_binding \<Rightarrow> string"
  fixed_policy :: "nat list result"

section \<open>Kernel clocks\<close>

definition conversion_error :: string where
  "conversion_error = ''out of range integral type conversion attempted''"

definition clock_ms :: "'w client_env \<Rightarrow> clock_source \<Rightarrow> ('w, u64) action" where
  "clock_ms env source =
     bind_action (clock_gettime env source) (\<lambda>(sec, nsec). lift_result (
       if nsec < 0 \<or> 1000000000 \<le> nsec then Err ''invalid UTC capture nanoseconds''
       else if sec < 0 then Err conversion_error
       else if 2 ^ 64 \<le> sec * 1000 + nsec div 1000000 then Err ''UTC capture clock overflow''
       else Ok (of_int (sec * 1000 + nsec div 1000000))))"

definition receiver_clock :: "'w client_env \<Rightarrow> u64 \<Rightarrow> ('w, Utc_Keeper.clock) action" where
  "receiver_clock env g =
     bind_action (clock_ms env Boottime) (\<lambda>before.
     bind_action (clock_ms env Monotonic) (\<lambda>mono.
     bind_action (clock_ms env Realtime) (\<lambda>real.
     bind_action (refuse_if (2 ^ 63 \<le> unat real) conversion_error) (\<lambda>_.
     bind_action (clock_ms env Boottime) (\<lambda>boot. lift_result (
       if boot < before \<or> 2 < boot - before \<or> boot < mono then Err ''UTC receiver clock capture is inconsistent or delayed''
       else Ok \<lparr>boottime_ms = boot, monotonic_ms = mono, realtime_ms = uint real, suspend_generation = g\<rparr>))))))"

definition kernel_ns :: "'w client_env \<Rightarrow> clock_source \<Rightarrow> ('w, u64) action" where
  "kernel_ns env source =
     bind_action (clock_gettime env source) (\<lambda>(sec, nsec). lift_result (
       if sec < 0 then Err conversion_error
       else if nsec < 0 \<or> 1000000000 \<le> nsec \<or> 2 ^ 64 \<le> sec * 1000000000 + nsec then Err ''UTC dispatch kernel clock is invalid or overflowed''
       else Ok (of_int (sec * 1000000000 + nsec))))"

definition read_instant :: "'w client_env \<Rightarrow> ('w, nat) action" where
  "read_instant env w = (case instant_now env w of (t, w') \<Rightarrow> (Ok t, w'))"

definition capture_coordinate :: "'w client_env \<Rightarrow> ('w, projection_clock) action" where
  "capture_coordinate env =
     bind_action (kernel_ns env Boottime) (\<lambda>before.
     bind_action (kernel_ns env Monotonic) (\<lambda>mono.
     bind_action (\<lambda>w. (Ok (process_id env w, effective_uid env w), w)) (\<lambda>(pid, euid).
     bind_action (read_instant env) (\<lambda>sampled.
     bind_action (kernel_ns env Boottime) (\<lambda>now. lift_result (
       if now < before \<or> 2000000 < now - before \<or> now < mono then Err ''UTC dispatch kernel clock bracket was delayed or inconsistent''
       else Ok \<lparr>dispatch_ns = now, dispatch_monotonic = mono div 1000000, dispatch_process = pid, dispatch_euid = euid, sampled_instant = sampled\<rparr>))))))"

definition coordinate :: "projection_clock \<Rightarrow> Utc_Keeper.clock" where
  "coordinate pc = \<lparr>boottime_ms = dispatch_ns pc div 1000000, monotonic_ms = dispatch_monotonic pc, realtime_ms = 0, suspend_generation = 0\<rparr>"

section \<open>Samples\<close>

definition DELIVERY_POLICY :: policy where
  "DELIVERY_POLICY = \<lparr>max_age_ms = 250, max_width_ms = 500, drift_ppm = 100\<rparr>"

definition context_epoch :: "statement \<Rightarrow> epoch result" where
  "context_epoch c =
     and_then (tpm_decode 16 (statement.boot_id c)) (\<lambda>b.
     and_then (tpm_decode 32 (policy_sha256 c)) (\<lambda>d.
     Ok \<lparr>epoch.boot_id = map of_nat b, provider_generation = process_generation c, clock_generation = source_clock_generation c,
        policy_digest = map of_nat d\<rparr>))"

text \<open>The projection of a delivered interval: the measurement of operator 1 under the delivery policy.\<close>

definition project_delivery :: "statement \<Rightarrow> interval \<Rightarrow> u64 \<Rightarrow> u64 \<Rightarrow> interval result" where
  "project_delivery c raw captured now =
     and_then (context_epoch c) (\<lambda>e.
     project \<lparr>operator = 1, utc = raw, observed_boottime_ms = captured, sample_epoch = e\<rparr> now e DELIVERY_POLICY)"

definition require_deadline :: "delivery_sample \<Rightarrow> nat \<Rightarrow> unit result" where
  "require_deadline s now =
     (if sample_deadline s \<le> now then Err ''UTC local projection exhausted its original query deadline'' else Ok ())"

definition require_binding :: "delivery_sample \<Rightarrow> string \<Rightarrow> (string \<times> statement) option \<Rightarrow> u64 \<Rightarrow> observation \<Rightarrow> unit result" where
  "require_binding s h g sq previous =
     (if sample_history s \<noteq> h \<or> sample_sequence s = 0 \<or> sample_sequence s \<noteq> sq
         \<or> g \<noteq> Some (sample_instance s, (sample_context s)\<lparr>statement.floor_ms := 0\<rparr>)
         \<or> obs_context previous \<noteq> delivered_context s \<or> obs_interval previous \<noteq> delivered_utc s
      then Err ''UTC local projection does not match its last admitted delivery'' else Ok ())"

definition elapsed_agree :: "Utc_Keeper.clock \<Rightarrow> u64 \<times> u64 \<Rightarrow> unit result" where
  "elapsed_agree now = (\<lambda>(boot, mono).
     and_then (ok_or (checked_sub (boottime_ms now) boot) ''UTC local projection boot clock regressed'') (\<lambda>b.
     and_then (ok_or (checked_sub (monotonic_ms now) mono) ''UTC local projection monotonic clock regressed'') (\<lambda>m.
     if 2 < abs_diff b m then Err ''UTC local projection crossed suspend or a clock discontinuity'' else Ok ())))"

definition sample_project :: "nat list result \<Rightarrow> delivery_sample \<Rightarrow> Utc_Keeper.clock \<Rightarrow> Utc_Keeper.clock \<Rightarrow> int \<Rightarrow> observation result" where
  "sample_project fixed s initial now fl =
     and_then (Accounts.statement_validate fixed (sample_context s)) (\<lambda>_.
     if statement.floor_ms (sample_context s) \<noteq> fst (endpoints (sample_raw s))
        \<or> boottime_ms now < boottime_ms (sample_clock s) \<or> monotonic_ms now < monotonic_ms (sample_clock s)
        \<or> suspend_generation now \<noteq> suspend_generation initial \<or> suspend_generation (sample_clock s) \<noteq> suspend_generation initial
     then Err ''UTC local projection crossed its admitted clock state''
     else and_then (for_all (elapsed_agree now) [(boottime_ms initial, monotonic_ms initial), (sample_boottime s, sample_monotonic s),
       (boottime_ms (sample_clock s), monotonic_ms (sample_clock s))]) (\<lambda>_.
     and_then (project_delivery (sample_context s) (sample_raw s) (sample_boottime s) (boottime_ms now)) (\<lambda>i.
     if lower_ms i < fl \<or> 500 < upper_ms i - lower_ms i then Err ''UTC local projection exceeded its protected floor or width''
     else Ok \<lparr>obs_context = (sample_context s)\<lparr>statement.floor_ms := lower_ms i\<rparr>, obs_interval = i\<rparr>)))"

text \<open>The upper bound of the real age of a sample in nanoseconds, and the interval widened to it.\<close>

definition real_upper_ns :: "nat \<Rightarrow> nat" where
  "real_upper_ns age = age + div_ceil (age * 100) 999900"

definition dispatch_interval :: "delivery_sample \<Rightarrow> projection_clock \<Rightarrow> interval \<Rightarrow> interval result" where
  "dispatch_interval s pc i =
     and_then (ok_or (checked_sub (boottime_ms (coordinate pc)) (sample_boottime s)) ''UTC dispatch predates its original capture'') (\<lambda>age.
     let upper_ns = real_upper_ns (unat age * 1000000 + unat (dispatch_ns pc mod 1000000)) in
     if 250000000 < upper_ns then Err ''UTC dispatch exhausted its original full-nanosecond sample age''
     else and_then (try_i64 (div_ceil upper_ns 1000000)) (\<lambda>margin.
     and_then (ok_or (checked_i64 (upper_ms (sample_raw s) + margin)) ''UTC dispatch outward projection overflowed'') (\<lambda>upper.
     let upper = max upper (upper_ms i) in
     and_then (ok_or_panic (checked_i64 (upper - lower_ms i))) (\<lambda>width.
     if 500 < width then Err ''UTC dispatch fractional projection exceeded its approved width''
     else interval_new (lower_ms i) upper))))"

definition finish_projection :: "nat list result \<Rightarrow> delivery_sample \<Rightarrow> Utc_Keeper.clock \<Rightarrow> int \<Rightarrow> projection_clock
    \<Rightarrow> (projection_clock \<Rightarrow> ('w, unit) action) \<Rightarrow> ('w, observation \<times> delivery_sample) action" where
  "finish_projection fixed s initial fl pc finish =
     bind_action (lift_result (
       and_then (require_deadline s (sampled_instant pc + 2000000)) (\<lambda>_.
       if (case projection_ns s of None \<Rightarrow> False | Some previous \<Rightarrow> dispatch_ns pc < previous)
       then Err ''UTC dispatch nanosecond coordinate regressed''
       else and_then (sample_project fixed s initial (coordinate pc) fl) (\<lambda>obs.
       and_then (dispatch_interval s pc (obs_interval obs)) (\<lambda>i. Ok (obs\<lparr>obs_interval := i\<rparr>)))))) (\<lambda>obs.
     bind_action (finish pc) (\<lambda>_.
     lift_result (Ok (obs, s\<lparr>sample_clock := coordinate pc, projection_ns := Some (dispatch_ns pc), delivered_context := obs_context obs,
       delivered_utc := obs_interval obs\<rparr>))))"

section \<open>The client\<close>

type_synonym ('w, 'a) client_action = "('w \<times> client, 'a) action"

definition ask :: "('w, 'a) action \<Rightarrow> ('w \<times> 's, 'a) action" where
  "ask m s = (case m (fst s) of (r, w) \<Rightarrow> (r, w, snd s))"

definition self :: "('w \<times> 's, 's) action" where
  "self s = (Ok (snd s), s)"

definition update_self :: "('s \<Rightarrow> 's) \<Rightarrow> ('w \<times> 's, unit) action" where
  "update_self f = modify_state (\<lambda>(w, s). (w, f s))"

definition fence_client :: "'w \<times> client \<Rightarrow> 'w \<times> client" where
  "fence_client = (\<lambda>(w, c). (w, c\<lparr>client_fenced := True\<rparr>))"

definition drop_sample :: "'w \<times> client \<Rightarrow> 'w \<times> client" where
  "drop_sample = (\<lambda>(w, c). (w, c\<lparr>client_fenced := True, client_sample := None\<rparr>))"

definition client_new :: "'w client_env \<Rightarrow> ('w, client) action" where
  "client_new env =
     bind_action (arm_watch env) (\<lambda>_.
     bind_action (receiver_clock env 0) (\<lambda>initial.
     bind_action (query_endpoint env) (\<lambda>ep.
     bind_action (\<lambda>w. (Ok (process_id env w), w)) (\<lambda>pid. lift_result (Ok
       \<lparr>client_endpoint = ep, client_peer = None, client_history = None, client_generation = None, client_sequence = 0, client_sample = None,
        client_process = pid, client_initial = initial, client_fenced = False\<rparr>)))))"

definition nonce_check :: "string \<Rightarrow> unit result" where
  "nonce_check v = and_then (tpm_decode 32 v) (\<lambda>b. if b = replicate 32 0 then Err ''UTC operation nonce is zero'' else Ok ())"

definition sat_sub :: "u64 \<Rightarrow> u64 \<Rightarrow> u64" where
  "sat_sub a b = (if b \<le> a then a - b else 0)"

text \<open>The same process serves the socket as before.\<close>

definition admit_peer :: "'w client_env \<Rightarrow> ('w, unit) client_action" where
  "admit_peer env =
     bind_action (ask (query_connect env)) (\<lambda>pid.
     bind_action self (\<lambda>c.
     (case client_peer c of
       Some known \<Rightarrow>
         if pid \<noteq> known then lift_result (Err ''UTC keeper process generation changed'')
         else bind_action (ask (peer_alive env)) (\<lambda>alive. refuse_if (\<not> alive) ''UTC keeper process generation changed'')
     | None \<Rightarrow> bind_action (ask (pin_peer env)) (\<lambda>_. update_self (\<lambda>c. c\<lparr>client_peer := Some pid\<rparr>)))))"

definition since_initial :: "Utc_Keeper.clock \<Rightarrow> Utc_Keeper.clock \<Rightarrow> u64 result" where
  "since_initial initial now =
     and_then (ok_or (checked_sub (boottime_ms now) (boottime_ms initial)) ''UTC boot clock regressed'') (\<lambda>b.
     and_then (ok_or (checked_sub (monotonic_ms now) (monotonic_ms initial)) ''UTC monotonic clock regressed'') (\<lambda>m. Ok (abs_diff b m)))"

text \<open>The guard on a reply, with the order of its short-circuit evaluation.\<close>

definition admit_reply :: "'w client_env \<Rightarrow> nat \<Rightarrow> string \<Rightarrow> Utc_Keeper.clock \<Rightarrow> Utc_Keeper.clock \<Rightarrow> reply \<Rightarrow> ('w, unit) client_action" where
  "admit_reply env limit nonce before now r =
     (let stale = ''UTC response is stale, replayed or crossed a clock boundary'' in
      bind_action self (\<lambda>c.
      bind_action (refuse_if (reply_schema r \<noteq> 1 \<or> reply_nonce r \<noteq> nonce \<or> reply_sequence r \<le> client_sequence c) stale) (\<lambda>_.
      bind_action (ask (read_instant env)) (\<lambda>t.
      bind_action (refuse_if (limit \<le> t \<or> reply_boottime r < boottime_ms before \<or> boottime_ms now < reply_boottime r
        \<or> reply_monotonic r < monotonic_ms before \<or> monotonic_ms now < reply_monotonic r
        \<or> 2 < abs_diff (sat_sub (boottime_ms now) (boottime_ms before)) (sat_sub (monotonic_ms now) (monotonic_ms before))) stale) (\<lambda>_.
      bind_action (lift_result (since_initial (client_initial c) now)) (\<lambda>d.
      bind_action (refuse_if (2 < d) stale) (\<lambda>_.
      bind_action (ask (kernel_boot env)) (\<lambda>boot.
      refuse_if (statement.boot_id (reply_context r) \<noteq> boot) stale))))))))"

definition reply_interval :: "'w client_env \<Rightarrow> reply \<Rightarrow> interval result" where
  "reply_interval env r =
     and_then (nonce_check (reply_instance r)) (\<lambda>_.
     and_then (Accounts.statement_validate (fixed_policy env) (reply_context r)) (\<lambda>_.
     and_then (interval_new (earliest_ms r) (latest_ms r)) (\<lambda>i.
     if statement.floor_ms (reply_context r) \<noteq> lower_ms i \<or> 500 < upper_ms i - lower_ms i
     then Err ''UTC delivered interval differs from its actual observation'' else Ok i)))"

definition reply_generation :: "reply \<Rightarrow> string \<times> statement" where
  "reply_generation r = (reply_instance r, (reply_context r)\<lparr>statement.floor_ms := 0\<rparr>)"

definition deliver :: "string \<Rightarrow> reply \<Rightarrow> interval \<Rightarrow> interval \<Rightarrow> Utc_Keeper.clock \<Rightarrow> nat \<Rightarrow> client \<Rightarrow> client" where
  "deliver h r raw i now limit c = c\<lparr>client_history := Some h, client_generation := Some (reply_generation r),
     client_sequence := reply_sequence r, client_sample := Some \<lparr>sample_history = h, sample_instance = reply_instance r,
       sample_sequence = reply_sequence r, sample_context = reply_context r, sample_raw = raw, sample_boottime = reply_boottime r,
       sample_monotonic = reply_monotonic r, sample_clock = now, projection_ns = None,
       delivered_context = (reply_context r)\<lparr>statement.floor_ms := lower_ms i\<rparr>, delivered_utc = i, sample_deadline = limit\<rparr>\<rparr>"

definition check_endpoint :: "'w client_env \<Rightarrow> string \<Rightarrow> ('w, unit) client_action" where
  "check_endpoint env message =
     bind_action (ask (query_endpoint env)) (\<lambda>ep. bind_action self (\<lambda>c. refuse_if (ep \<noteq> client_endpoint c) message))"

definition finish_delivery :: "'w client_env \<Rightarrow> history_binding \<Rightarrow> string \<Rightarrow> reply \<Rightarrow> interval \<Rightarrow> nat \<Rightarrow> ('w, observation) client_action" where
  "finish_delivery env binding history r raw limit =
     bind_action (ask (release_recheck env)) (\<lambda>_.
     bind_action (check_endpoint env ''UTC peer changed during delivery'') (\<lambda>_.
     bind_action (ask (peer_alive env)) (\<lambda>alive.
     bind_action (refuse_if (\<not> alive) ''UTC peer changed during delivery'') (\<lambda>_.
     bind_action (ask (watch_check env)) (\<lambda>_.
     bind_action (ask (receiver_clock env 0)) (\<lambda>now.
     bind_action (lift_result (project_delivery (reply_context r) raw (reply_boottime r) (boottime_ms now))) (\<lambda>i.
     let refusal = ''UTC delivery exceeded protected floor, width or deadline'' in
     bind_action (refuse_if (lower_ms i < hb_floor binding \<or> 500 < upper_ms i - lower_ms i) refusal) (\<lambda>_.
     bind_action (ask (read_instant env)) (\<lambda>t.
     bind_action (refuse_if (limit \<le> t) refusal) (\<lambda>_.
     bind_action (update_self (deliver history r raw i now limit)) (\<lambda>_. lift_result (Ok
       \<lparr>obs_context = (reply_context r)\<lparr>statement.floor_ms := lower_ms i\<rparr>, obs_interval = i\<rparr>))))))))))))"

definition current_inner :: "'w client_env \<Rightarrow> history_binding \<Rightarrow> ('w, observation) client_action" where
  "current_inner env binding =
     bind_action (ask (watch_check env)) (\<lambda>_.
     bind_action (ask (read_instant env)) (\<lambda>started.
     bind_action (ask (release_recheck env)) (\<lambda>_.
     bind_action (check_endpoint env ''UTC query socket changed'') (\<lambda>_.
     let limit = started + 250000000; history = binding_digest env binding in
     bind_action self (\<lambda>c.
     bind_action (refuse_if (client_history c \<noteq> None \<and> client_history c \<noteq> Some history) ''UTC client's shared history changed'') (\<lambda>_.
     bind_action (ask (receiver_clock env 0)) (\<lambda>before.
     bind_action (admit_peer env) (\<lambda>_.
     bind_action (ask (draw_nonce env)) (\<lambda>nonce.
     bind_action (ask (query_exchange env nonce)) (\<lambda>r.
     bind_action (ask (receiver_clock env 0)) (\<lambda>now.
     bind_action (admit_reply env limit nonce before now r) (\<lambda>_.
     bind_action (lift_result (reply_interval env r)) (\<lambda>raw.
     bind_action self (\<lambda>c.
     bind_action (refuse_if (client_generation c \<noteq> None \<and> client_generation c \<noteq> Some (reply_generation r)) ''UTC keeper or source generation changed'') (\<lambda>_.
     finish_delivery env binding history r raw limit)))))))))))))))"

definition client_current :: "'w client_env \<Rightarrow> history_binding \<Rightarrow> ('w, observation) client_action" where
  "client_current env binding =
     bind_action self (\<lambda>c.
     if client_fenced c then lift_result (Err ''UTC client is fenced; explicit reconstruction required'')
     else on_error fence_client (current_inner env binding))"

definition client_recheck :: "'w client_env \<Rightarrow> history_binding \<Rightarrow> observation \<Rightarrow> ('w, observation) client_action" where
  "client_recheck env binding previous =
     bind_action (client_current env binding) (\<lambda>obs.
     if (obs_context obs)\<lparr>statement.floor_ms := statement.floor_ms (obs_context previous)\<rparr> \<noteq> obs_context previous
     then bind_action (modify_state fence_client) (\<lambda>_. lift_result (Err ''UTC observation crossed a protected generation boundary''))
     else lift_result (Ok obs))"

definition take_sample :: "client \<Rightarrow> string \<Rightarrow> observation \<Rightarrow> delivery_sample result" where
  "take_sample c history previous =
     and_then (ok_or (client_sample c) ''UTC client has no admitted query sample'') (\<lambda>s.
     if client_history c \<noteq> Some history then Err ''UTC local projection changed its shared history''
     else and_then (require_binding s history (client_generation c) (client_sequence c) previous) (\<lambda>_. Ok s))"

definition project_after_checks_inner :: "'w client_env \<Rightarrow> history_binding \<Rightarrow> observation \<Rightarrow> (projection_clock \<Rightarrow> ('w, unit) action)
    \<Rightarrow> ('w, observation) client_action" where
  "project_after_checks_inner env binding previous finish =
     bind_action self (\<lambda>c.
     bind_action (ask (\<lambda>w. (Ok (process_id env w, effective_uid env w), w))) (\<lambda>(pid, euid).
     bind_action (refuse_if (pid \<noteq> client_process c \<or> euid \<noteq> 0) ''UTC local projection left its original protected process'') (\<lambda>_.
     bind_action (lift_result (take_sample c (binding_digest env binding) previous)) (\<lambda>s.
     bind_action (ask (read_instant env)) (\<lambda>t.
     bind_action (lift_result (require_deadline s t)) (\<lambda>_.
     bind_action (ask (watch_check env)) (\<lambda>_.
     bind_action (refuse_if (client_peer c = None) ''UTC local projection lacks its admitted peer'') (\<lambda>_.
     bind_action (ask (peer_alive env)) (\<lambda>alive.
     bind_action (refuse_if (\<not> alive) ''UTC local projection keeper exited'') (\<lambda>_.
     bind_action (ask (receiver_clock env 0)) (\<lambda>first.
     bind_action (lift_result (sample_project (fixed_policy env) s (client_initial c) first (hb_floor binding))) (\<lambda>_.
     bind_action (ask (watch_check env)) (\<lambda>_.
     bind_action (ask (peer_alive env)) (\<lambda>alive.
     bind_action (refuse_if (\<not> alive) ''UTC local projection keeper exited during observation'') (\<lambda>_.
     bind_action (ask (capture_coordinate env)) (\<lambda>pc.
     bind_action (refuse_if (boottime_ms (coordinate pc) < boottime_ms first \<or> monotonic_ms (coordinate pc) < monotonic_ms first
       \<or> dispatch_process pc \<noteq> client_process c \<or> dispatch_euid pc \<noteq> 0)
       ''UTC local projection expired or changed context during dispatch'') (\<lambda>_.
     bind_action (ask (finish_projection (fixed_policy env) s (client_initial c) (hb_floor binding) pc finish)) (\<lambda>(obs, s').
     bind_action (update_self (\<lambda>c. c\<lparr>client_sample := Some s'\<rparr>)) (\<lambda>_. lift_result (Ok obs))))))))))))))))))))"

definition project_after_checks :: "'w client_env \<Rightarrow> history_binding \<Rightarrow> observation \<Rightarrow> (projection_clock \<Rightarrow> ('w, unit) action)
    \<Rightarrow> ('w, observation) client_action" where
  "project_after_checks env binding previous finish =
     bind_action self (\<lambda>c.
     if client_fenced c then lift_result (Err ''UTC client is fenced; explicit reconstruction required'')
     else on_error drop_sample (project_after_checks_inner env binding previous finish))"

end
