(* ===== verification/Utc_Client_Safety.thy ===== *)
theory Utc_Client_Safety
  imports Utc_Client
begin

text \<open>
  What the holder of a UTC client may rely on: an interval projected for a dispatch covers true time at the nanosecond at
  which the callers' deadlines were checked, and one client never mixes two keeper generations or two histories and
  delivers nothing more once a call was refused.
\<close>

lemma ask_Inr [result_simps]: "ask m s = (Inr x, t) \<longleftrightarrow> (\<exists>w. m (fst s) = (Inr x, w) \<and> t = (w, snd s))"
  by (auto simp: ask_def split: prod.splits)

lemma self_Inr [result_simps]: "self s = (Inr x, t) \<longleftrightarrow> x = snd s \<and> t = s"
  by (auto simp: self_def)

lemma update_self_Inr [result_simps]: "update_self f s = (Inr u, t) \<longleftrightarrow> t = (fst s, f (snd s))"
  by (cases s) (auto simp: update_self_def)

lemma refuse_Inr [result_simps]: "refuse_if b m s = (Inr u, t) \<longleftrightarrow> \<not> b \<and> t = s"
  by (auto simp: refuse_if_def)

section \<open>Projection\<close>

lemma project_delivery_Ok:
  assumes "project_delivery c i captured now = Ok j"
  defines "age \<equiv> unat (now - captured)"
  shows "captured \<le> now" "lower_ms j = lower_ms i + int age - int (div_ceil (age * 100) 999900)"
proof -
  from assms(1) obtain e where p: "project \<lparr>operator = 1, utc = i, observed_boottime_ms = captured, sample_epoch = e\<rparr> now e DELIVERY_POLICY = Ok j"
    by (auto simp: project_delivery_def result_simps)
  from project_Ok(6,8) [OF p] show "captured \<le> now" "lower_ms j = lower_ms i + int age - int (div_ceil (age * 100) 999900)"
    by (simp_all add: age_def drift_of_def DELIVERY_POLICY_def)
qed

lemma sample_project_Ok:
  assumes "sample_project fixed s initial now fl = Ok obs"
  shows "project_delivery (sample_context s) (sample_raw s) (sample_boottime s) (boottime_ms now) = Ok (obs_interval obs)"
    "fl \<le> lower_ms (obs_interval obs)" "obs_context obs = (sample_context s)\<lparr>statement.floor_ms := lower_ms (obs_interval obs)\<rparr>"
  using assms by (auto simp: sample_project_def result_simps split: if_splits)

lemma dispatch_interval_Ok:
  assumes "dispatch_interval s pc i = Ok j"
  defines "age \<equiv> unat (boottime_ms (coordinate pc) - sample_boottime s) * 1000000 + unat (dispatch_ns pc mod 1000000)"
  shows "lower_ms j = lower_ms i" "upper_ms j - lower_ms j \<le> 500" "upper_ms (sample_raw s) + int (div_ceil (real_upper_ns age) 1000000) \<le> upper_ms j"
    "real_upper_ns age \<le> 250000000"
  using assms by (auto simp: dispatch_interval_def result_simps checked_simps Let_def split: if_splits)

text \<open>The true time elapsed since the capture lies between the whole milliseconds less their drift and the nanoseconds plus theirs.\<close>

lemma elapsed_dispatch:
  fixes ms ns :: nat and elapsed :: real
  assumes "0 \<le> elapsed" "ns < 1000000"
    and rate: "\<bar>real (ms * 1000000 + ns) / 1000000 - elapsed\<bar> * 1000000 \<le> 100 * elapsed"
  shows "real ms - real (div_ceil (ms * 100) 999900) \<le> elapsed" "elapsed \<le> real (div_ceil (real_upper_ns (ms * 1000000 + ns)) 1000000)"
proof -
  define age where "age = ms * 1000000 + ns"
  define drift where "drift = div_ceil (age * 100) 999900"
  have "real (age * 100) \<le> real (drift * 999900)" unfolding drift_def by (intro of_nat_mono div_ceil_ge) simp
  then have up: "real age * 100 \<le> real drift * 999900" by simp
  have "real (ms * 100) \<le> real (div_ceil (ms * 100) 999900 * 999900)" by (intro of_nat_mono div_ceil_ge) simp
  then have low: "real ms * 100 \<le> real (div_ceil (ms * 100) 999900) * 999900" by simp
  have age: "real age = real ms * 1000000 + real ns" by (simp add: age_def)
  have r: "\<bar>real age - elapsed * 1000000\<bar> \<le> 100 * elapsed" using rate by (simp add: age_def abs_if field_simps split: if_splits)
  from r age low show "real ms - real (div_ceil (ms * 100) 999900) \<le> elapsed" by linarith
  from r up have "elapsed * 1000000 \<le> real (real_upper_ns age)"
    by (simp add: real_upper_ns_def flip: drift_def)
  also have "\<dots> \<le> real (div_ceil (real_upper_ns age) 1000000 * 1000000)" by (intro of_nat_mono div_ceil_ge) simp
  finally show "elapsed \<le> real (div_ceil (real_upper_ns (ms * 1000000 + ns)) 1000000)" by (simp add: age_def)
qed

lemma dispatch_covers:
  assumes sp: "sample_project fixed s initial (coordinate pc) fl = Ok obs" and di: "dispatch_interval s pc (obs_interval obs) = Ok j"
    and raw: "covers (sample_raw s) utc0" and el: "0 \<le> elapsed"
    and rate: "\<bar>(real (unat (dispatch_ns pc)) / 1000000 - real (unat (sample_boottime s))) - elapsed\<bar> * 1000000 \<le> 100 * elapsed"
  shows "covers j (utc0 + elapsed)"
proof -
  note p = sample_project_Ok [OF sp] and d = dispatch_interval_Ok [OF di]
  define ms where "ms = unat (boottime_ms (coordinate pc) - sample_boottime s)"
  define ns where "ns = unat (dispatch_ns pc mod 1000000)"
  note q = project_delivery_Ok [OF p(1), folded ms_def]
  have ms: "ms = unat (dispatch_ns pc) div 1000000 - unat (sample_boottime s)" "unat (sample_boottime s) \<le> unat (dispatch_ns pc) div 1000000"
    using q(1) by (simp_all add: ms_def coordinate_def unat_sub word_le_nat_alt unat_div)
  have ns: "ns = unat (dispatch_ns pc) mod 1000000" by (simp add: ns_def unat_mod)
  have "ms * 1000000 + ns + unat (sample_boottime s) * 1000000 = unat (dispatch_ns pc)"
    using ms div_mult_mod_eq [of "unat (dispatch_ns pc)" 1000000] by (simp add: ns diff_mult_distrib)
  then have "real (ms * 1000000 + ns + unat (sample_boottime s) * 1000000) = real (unat (dispatch_ns pc))" by (rule arg_cong)
  then have age: "real (ms * 1000000 + ns) / 1000000 = real (unat (dispatch_ns pc)) / 1000000 - real (unat (sample_boottime s))"
    by (simp add: field_simps del: of_nat_unat)
  have "\<bar>real (ms * 1000000 + ns) / 1000000 - elapsed\<bar> * 1000000 \<le> 100 * elapsed" using rate by (simp only: age)
  from elapsed_dispatch [OF el _ this] have e: "real ms - real (div_ceil (ms * 100) 999900) \<le> elapsed"
    "elapsed \<le> real (div_ceil (real_upper_ns (ms * 1000000 + ns)) 1000000)" by (simp_all add: ns)
  have "real_of_int (upper_ms (sample_raw s) + int (div_ceil (real_upper_ns (ms * 1000000 + ns)) 1000000)) \<le> real_of_int (upper_ms j)"
    using d(3) unfolding ms_def ns_def of_int_le_iff .
  with e raw q(2) d(1) show ?thesis by (simp add: covers_def)
qed

lemma finish_projection_Ok:
  assumes "finish_projection fixed s initial fl pc finish w = (Ok (obs, s'), w')"
  obtains o1 j where "sample_project fixed s initial (coordinate pc) fl = Ok o1" "dispatch_interval s pc (obs_interval o1) = Ok j"
    "obs = o1\<lparr>obs_interval := j\<rparr>" "finish pc w = (Ok (), w')" "sample_context s' = sample_context s" "sample_instance s' = sample_instance s"
    "sampled_instant pc + 2000000 < sample_deadline s"
  using assms by (auto simp: finish_projection_def require_deadline_def result_simps split: if_splits)

lemma project_after_Ok:
  assumes "project_after_checks env binding previous finish (w, c) = (Ok obs, w', c')"
  obtains s pc s' w1 where "client_sample c = Some s" "\<not> client_fenced c" "take_sample c (binding_digest env binding) previous = Ok s"
    "dispatch_process pc = client_process c" "dispatch_euid pc = 0"
    "finish_projection (fixed_policy env) s (client_initial c) (hb_floor binding) pc finish w1 = (Ok (obs, s'), w')" "c' = c\<lparr>client_sample := Some s'\<rparr>"
  using assms
  by (auto simp: project_after_checks_def project_after_checks_inner_def take_sample_def result_simps split: if_splits)

text \<open>
  C39: A time projected for a dispatch is right at that dispatch. When \<open>project_after_checks\<close> returns an observation, it
  comes from the sample the client holds, its callback succeeded at one clock coordinate of the client's own process, and
  the interval starts at or above the protected floor, is at most 500 ms wide, and covers true UTC at exactly that
  nanosecond coordinate, whenever the delivered interval covered UTC at its capture and the boot clock kept its 100 ppm.
\<close>

theorem dispatch_time_covered:
  assumes "project_after_checks env binding previous finish (w, c) = (Ok obs, w', c')"
  shows "\<exists>s pc w1. client_sample c = Some s \<and> finish pc w1 = (Ok (), w') \<and> dispatch_process pc = client_process c \<and> dispatch_euid pc = 0
    \<and> hb_floor binding \<le> lower_ms (obs_interval obs) \<and> upper_ms (obs_interval obs) - lower_ms (obs_interval obs) \<le> 500
    \<and> obs_context obs = (sample_context s)\<lparr>statement.floor_ms := lower_ms (obs_interval obs)\<rparr>
    \<and> (\<forall>utc0 elapsed. covers (sample_raw s) utc0 \<and> 0 \<le> elapsed
         \<and> \<bar>(real (unat (dispatch_ns pc)) / 1000000 - real (unat (sample_boottime s))) - elapsed\<bar> * 1000000 \<le> 100 * elapsed
       \<longrightarrow> covers (obs_interval obs) (utc0 + elapsed))"
proof -
  obtain s pc s' w1 where s: "client_sample c = Some s" and pc: "dispatch_process pc = client_process c" "dispatch_euid pc = 0"
    and fin: "finish_projection (fixed_policy env) s (client_initial c) (hb_floor binding) pc finish w1 = (Ok (obs, s'), w')"
    using project_after_Ok [OF assms] by metis
  obtain o1 j where sp: "sample_project (fixed_policy env) s (client_initial c) (coordinate pc) (hb_floor binding) = Ok o1"
    and di: "dispatch_interval s pc (obs_interval o1) = Ok j" and obs: "obs = o1\<lparr>obs_interval := j\<rparr>" and f: "finish pc w1 = (Ok (), w')"
    using finish_projection_Ok [OF fin] by metis
  have "hb_floor binding \<le> lower_ms j" "upper_ms j - lower_ms j \<le> 500" "obs_context o1 = (sample_context s)\<lparr>statement.floor_ms := lower_ms j\<rparr>"
    using sample_project_Ok [OF sp] dispatch_interval_Ok [OF di] by simp_all
  then show ?thesis using s pc f obs dispatch_covers [OF sp di] by (intro exI [of _ s] exI [of _ pc] exI [of _ w1]) simp
qed

section \<open>One generation, one history\<close>

text \<open>What a successful call leaves: the generation and history of its delivery, which are those held before if there were any.\<close>

definition same_delivery :: "'w client_env \<Rightarrow> history_binding \<Rightarrow> observation \<Rightarrow> client \<Rightarrow> client \<Rightarrow> bool" where
  "same_delivery env binding obs c c' \<longleftrightarrow>
     \<not> client_fenced c \<and> \<not> client_fenced c'
     \<and> client_history c' = Some (binding_digest env binding) \<and> (client_history c = None \<or> client_history c = client_history c')
     \<and> (\<exists>instance. client_generation c' = Some (instance, (obs_context obs)\<lparr>statement.floor_ms := 0\<rparr>))
     \<and> (client_generation c = None \<or> client_generation c = client_generation c')
     \<and> client_sequence c \<le> client_sequence c'"

lemma admit_peer_keeps:
  assumes "admit_peer env (w, c) = (Ok u, w', c')"
  shows "client_history c' = client_history c" "client_generation c' = client_generation c" "client_sequence c' = client_sequence c"
    "client_fenced c' = client_fenced c"
  using assms by (auto simp: admit_peer_def result_simps split: option.splits if_splits)

lemma admit_reply_keeps: "admit_reply env l n b t r (w, c) = (Ok u, w', c') \<Longrightarrow> c' = c \<and> client_sequence c < reply_sequence r"
  by (auto simp: admit_reply_def result_simps Let_def not_le)

lemma check_endpoint_keeps: "check_endpoint env m (w, c) = (Ok u, w', c') \<Longrightarrow> c' = c"
  by (auto simp: check_endpoint_def result_simps)

lemma finish_delivery_Ok:
  assumes "finish_delivery env binding h r i l (w, c) = (Ok obs, w', c')"
  obtains j now where "c' = deliver h r i j now l c" "obs_context obs = (reply_context r)\<lparr>statement.floor_ms := lower_ms j\<rparr>"
    "obs_interval obs = j" "hb_floor binding \<le> lower_ms j" "project_delivery (reply_context r) i (reply_boottime r) (boottime_ms now) = Ok j"
  using assms by (auto simp: finish_delivery_def result_simps Let_def dest!: check_endpoint_keeps split: if_splits)

lemma client_current_delivers:
  assumes "client_current env binding (w, c) = (Ok obs, w', c')"
  shows "same_delivery env binding obs c c'"
proof -
  from assms obtain w0 w1 c1 r i l w2 where open_: "\<not> client_fenced c"
    and hist: "client_history c = None \<or> client_history c = Some (binding_digest env binding)"
    and peer: "admit_peer env (w0, c) = (Ok (), w1, c1)" and sequence: "client_sequence c1 < reply_sequence r"
    and gen: "client_generation c1 = None \<or> client_generation c1 = Some (reply_generation r)"
    and fin: "finish_delivery env binding (binding_digest env binding) r i l (w2, c1) = (Ok obs, w', c')"
    by (auto simp: client_current_def current_inner_def result_simps Let_def simp del: not_None_eq split: if_splits
        dest!: check_endpoint_keeps admit_reply_keeps)
  note kept = admit_peer_keeps [OF peer]
  from finish_delivery_Ok [OF fin] obtain j now where c': "c' = deliver (binding_digest env binding) r i j now l c1"
    and o1: "obs_context obs = (reply_context r)\<lparr>statement.floor_ms := lower_ms j\<rparr>" by metis
  show ?thesis using open_ hist kept gen sequence unfolding same_delivery_def c' deliver_def reply_generation_def o1
    by (auto simp: reply_generation_def)
qed

lemma project_after_delivers:
  assumes "project_after_checks env binding previous finish (w, c) = (Ok obs, w', c')"
  shows "same_delivery env binding obs c c'"
proof -
  obtain s pc s' w1 where open_: "\<not> client_fenced c" and taken: "take_sample c (binding_digest env binding) previous = Ok s"
    and fin: "finish_projection (fixed_policy env) s (client_initial c) (hb_floor binding) pc finish w1 = (Ok (obs, s'), w')"
    and c': "c' = c\<lparr>client_sample := Some s'\<rparr>" using project_after_Ok [OF assms] by metis
  obtain o1 j where sp: "sample_project (fixed_policy env) s (client_initial c) (coordinate pc) (hb_floor binding) = Ok o1"
    and obs: "obs = o1\<lparr>obs_interval := j\<rparr>" using finish_projection_Ok [OF fin] by metis
  show ?thesis using open_ taken sample_project_Ok(3) [OF sp]
    by (auto simp: same_delivery_def c' obs take_sample_def require_binding_def result_simps split: if_splits)
qed

lemma client_recheck_delivers:
  assumes "client_recheck env binding previous (w, c) = (Ok obs, w', c')"
  shows "same_delivery env binding obs c c'"
  using assms client_current_delivers by (auto simp: client_recheck_def result_simps split: if_splits)

text \<open>The calls of a holder of the client, and the results and the client after a sequence of them.\<close>

datatype 'w client_call = CurrentCall history_binding | RecheckCall history_binding observation
  | ProjectCall history_binding observation "projection_clock \<Rightarrow> ('w, unit) action"

fun call_binding :: "'w client_call \<Rightarrow> history_binding" where
  "call_binding (CurrentCall b) = b"
| "call_binding (RecheckCall b _) = b"
| "call_binding (ProjectCall b _ _) = b"

fun run_client :: "'w client_env \<Rightarrow> 'w client_call \<Rightarrow> ('w, observation) client_action" where
  "run_client env (CurrentCall b) = client_current env b"
| "run_client env (RecheckCall b previous) = client_recheck env b previous"
| "run_client env (ProjectCall b previous finish) = project_after_checks env b previous finish"

fun run_clients :: "'w client_env \<Rightarrow> 'w client_call list \<Rightarrow> 'w \<times> client \<Rightarrow> (history_binding \<times> observation result) list \<times> 'w \<times> client" where
  "run_clients env [] s = ([], s)"
| "run_clients env (c # cs) s =
     (case run_client env c s of (r, s1) \<Rightarrow> case run_clients env cs s1 of (rs, s2) \<Rightarrow> ((call_binding c, r) # rs, s2))"

lemma run_client_Ok: "run_client env k (w, c) = (Ok obs, w', c') \<Longrightarrow> same_delivery env (call_binding k) obs c c'"
  by (cases k) (auto intro: client_current_delivers client_recheck_delivers project_after_delivers)

lemma run_client_fenced: "client_fenced (snd s) \<Longrightarrow> \<exists>e t. run_client env k s = (Inl e, t) \<and> client_fenced (snd t)"
  by (cases k; cases s) (auto simp: client_current_def client_recheck_def project_after_checks_def bind_action_def self_def)

lemma run_client_refused: "run_client env k s = (Inl e, t) \<Longrightarrow> client_fenced (snd t)"
  by (cases k)
    (auto simp: client_current_def client_recheck_def project_after_checks_def fence_client_def drop_sample_def error_simps self_def split: if_splits prod.splits)

lemma run_clients_fenced:
  "client_fenced (snd s) \<Longrightarrow> (b, r) \<in> set (fst (run_clients env ks s)) \<Longrightarrow> \<exists>e. r = Inl e"
proof (induction ks arbitrary: s)
  case (Cons k ks)
  obtain e t where "run_client env k s = (Inl e, t)" "client_fenced (snd t)" using run_client_fenced [OF Cons.prems(1)] by blast
  with Cons show ?case by (fastforce split: prod.splits)
qed simp

text \<open>Every delivery of a run agrees with the generation and history the client holds at its start, and all of them with each other.\<close>

definition agrees :: "'w client_env \<Rightarrow> client \<Rightarrow> history_binding \<Rightarrow> observation \<Rightarrow> bool" where
  "agrees env c b obs \<longleftrightarrow> (client_history c = None \<or> client_history c = Some (binding_digest env b))
     \<and> (client_generation c = None \<or> (\<exists>instance. client_generation c = Some (instance, (obs_context obs)\<lparr>statement.floor_ms := 0\<rparr>)))"

lemma run_clients_agree: "(b, Ok obs) \<in> set (fst (run_clients env ks s)) \<Longrightarrow> agrees env (snd s) b obs"
proof (induction ks arbitrary: s)
  case (Cons k ks)
  obtain w c where s: "s = (w, c)" by (cases s)
  obtain r w1 c1 where r: "run_client env k (w, c) = (r, w1, c1)" by (metis prod_cases3)
  show ?case
  proof (cases r)
    case (Inl e)
    then have "client_fenced c1" using run_client_refused r by fastforce
    moreover have "(b, Ok obs) \<in> set (fst (run_clients env ks (w1, c1)))" using Cons.prems r Inl by (auto simp: s split: prod.splits)
    ultimately show ?thesis using run_clients_fenced [of "(w1, c1)" b "Ok obs" env ks] by simp
  next
    case (Inr o1)
    from run_client_Ok [OF r [unfolded Inr]] have d: "same_delivery env (call_binding k) o1 c c1" .
    consider "b = call_binding k" "obs = o1" | "(b, Ok obs) \<in> set (fst (run_clients env ks (w1, c1)))"
      using Cons.prems r Inr by (auto simp: s split: prod.splits)
    then show ?thesis
    proof cases
      case 1
      then show ?thesis using d by (auto simp: s agrees_def same_delivery_def)
    next
      case 2
      from Cons.IH [OF this] have "agrees env c1 b obs" by simp
      then show ?thesis using d by (auto simp: s agrees_def same_delivery_def)
    qed
  qed
qed simp

lemma run_clients_pairwise:
  assumes "(b, Ok o1) \<in> set (fst (run_clients env ks s))" "(b', Ok o2) \<in> set (fst (run_clients env ks s))"
  shows "binding_digest env b = binding_digest env b' \<and> (obs_context o1)\<lparr>statement.floor_ms := 0\<rparr> = (obs_context o2)\<lparr>statement.floor_ms := 0\<rparr>"
  using assms
proof (induction ks arbitrary: s)
  case (Cons k ks)
  obtain w c where s: "s = (w, c)" by (cases s)
  obtain r w1 c1 where r: "run_client env k (w, c) = (r, w1, c1)" by (metis prod_cases3)
  have later: "binding_digest env b2 = binding_digest env (call_binding k) \<and> (obs_context obs)\<lparr>statement.floor_ms := 0\<rparr> = (obs_context o0)\<lparr>statement.floor_ms := 0\<rparr>"
    if "r = Ok o0" "(b2, Ok obs) \<in> set (fst (run_clients env ks (w1, c1)))" for b2 obs o0
    using run_clients_agree [OF that(2)] run_client_Ok [OF r [unfolded that(1)]] by (auto simp: agrees_def same_delivery_def)
  have split: "(b2, Ok obs) \<in> set (fst (run_clients env (k # ks) s)) \<longleftrightarrow>
      b2 = call_binding k \<and> r = Ok obs \<or> (b2, Ok obs) \<in> set (fst (run_clients env ks (w1, c1)))" for b2 obs
    using r by (auto simp: s split: prod.splits)
  from Cons.prems [unfolded split] show ?case
  proof (elim disjE conjE, goal_cases)
    case 1
    then show ?case by simp
  next
    case 2
    then show ?case using later [of o1 b' o2] by simp
  next
    case 3
    then show ?case using later [of o2 b o1] by simp
  next
    case 4
    then show ?case by (rule Cons.IH)
  qed
qed simp

lemma run_clients_stop:
  "j < length (fst (run_clients env ks s)) \<Longrightarrow> i < j \<Longrightarrow> \<not> is_ok (snd (fst (run_clients env ks s) ! i)) \<Longrightarrow>
     \<not> is_ok (snd (fst (run_clients env ks s) ! j))"
proof (induction ks arbitrary: s i j)
  case (Cons k ks)
  obtain r u where r: "run_client env k s = (r, u)" by (cases "run_client env k s")
  have run: "fst (run_clients env (k # ks) s) = (call_binding k, r) # fst (run_clients env ks u)" using r by (simp split: prod.splits)
  note prems = Cons.prems [unfolded run]
  from prems(2) obtain j' where j: "j = Suc j'" by (cases j) auto
  then have j': "j' < length (fst (run_clients env ks u))" using prems(1) by simp
  show ?case
  proof (cases i)
    case 0
    then obtain e where "r = Inl e" using prems(3) by (auto simp: not_is_ok_iff)
    then have fenced: "client_fenced (snd u)" using r run_client_refused by blast
    obtain b v where v: "fst (run_clients env ks u) ! j' = (b, v)" by (cases "fst (run_clients env ks u) ! j'")
    then have "(b, v) \<in> set (fst (run_clients env ks u))" using nth_mem [OF j'] by simp
    from run_clients_fenced [OF fenced this] show ?thesis unfolding run by (auto simp: j v not_is_ok_iff)
  next
    case (Suc i')
    then show ?thesis unfolding run using Cons.IH [OF j', of i'] prems by (simp add: j)
  qed
qed simp

text \<open>
  C40: A UTC client stays with one keeper generation and one history, and fails for good. Over every sequence of queries,
  rechecks and local projections of one client, all observations it delivers carry the same context apart from their floor
  and were bound to histories with one digest; and after a call that was refused no later call delivers anything.
\<close>

theorem client_one_generation:
  assumes "run_clients env ks s = (rs, t)"
  shows "(\<forall>b o1 b' o2. (b, Ok o1) \<in> set rs \<and> (b', Ok o2) \<in> set rs \<longrightarrow>
      binding_digest env b = binding_digest env b' \<and> (obs_context o1)\<lparr>statement.floor_ms := 0\<rparr> = (obs_context o2)\<lparr>statement.floor_ms := 0\<rparr>)
    \<and> (\<forall>i < length rs. \<forall>j < length rs. i < j \<and> \<not> is_ok (snd (rs ! i)) \<longrightarrow> \<not> is_ok (snd (rs ! j)))"
proof (intro conjI allI impI, goal_cases)
  case (1 b o1 b' o2)
  then show ?case using run_clients_pairwise [of b o1 env ks s b' o2] assms by simp
next
  case (2 b o1 b' o2)
  then show ?case using run_clients_pairwise [of b o1 env ks s b' o2] assms by simp
next
  case (3 i j)
  then show ?case using run_clients_stop [of j env ks s i] assms by simp
qed

end
