(* ===== verification/Utc_Client_Sample.thy ===== *)
theory Utc_Client_Sample
  imports Utc_Client_Safety
begin

text \<open>A client on fixed clocks and one reply: the witnesses of the properties of the UTC client.\<close>

definition sample_statement :: statement where
  "sample_statement = \<lparr>floor_ms = 1000, policy_sha256 = replicate 64 CHR ''1'', boot_id = replicate 32 CHR ''2'', process_generation = 1,
     source_clock_generation = 1, keeper_generation = 1, runtime_sha256 = replicate 64 CHR ''3''\<rparr>"

definition sample_reply :: reply where
  "sample_reply = \<lparr>reply_schema = 1, reply_nonce = ''n'', reply_instance = replicate 64 CHR ''4'', reply_sequence = 1, reply_boottime = 5000,
     reply_monotonic = 5000, reply_context = sample_statement, earliest_ms = 1000, latest_ms = 1010\<rparr>"

definition sample_client_env :: "unit client_env" where
  "sample_client_env = \<lparr>clock_gettime = (\<lambda>_ w. (Ok (5, 0), w)), instant_now = (\<lambda>w. (7, w)), process_id = (\<lambda>_. 9), effective_uid = (\<lambda>_. 0),
     arm_watch = (\<lambda>w. (Ok (), w)), watch_check = (\<lambda>w. (Ok (), w)), release_recheck = (\<lambda>w. (Ok (), w)), query_endpoint = (\<lambda>w. (Ok ''e'', w)),
     query_connect = (\<lambda>w. (Ok 3, w)), pin_peer = (\<lambda>w. (Ok (), w)), peer_alive = (\<lambda>w. (Ok True, w)), draw_nonce = (\<lambda>w. (Ok ''n'', w)),
     query_exchange = (\<lambda>_ w. (Ok sample_reply, w)), kernel_boot = (\<lambda>w. (Ok (replicate 32 CHR ''2''), w)), binding_digest = hb_head,
     fixed_policy = Ok (replicate 32 17)\<rparr>"

definition sample_binding :: history_binding where
  "sample_binding = \<lparr>hb_deployment = [], hb_enrollment = [], hb_principal = \<lparr>identity_installation = [], identity_principal = [], identity_generation = 0,
     identity_login = [], identity_uid = 0\<rparr>, hb_head = ''h'', hb_floor = 1000, hb_version = 1, hb_reset = 0, hb_restart = 0\<rparr>"

definition sample_kernel_clock :: Utc_Keeper.clock where
  "sample_kernel_clock = \<lparr>boottime_ms = 5000, monotonic_ms = 5000, realtime_ms = 5000, suspend_generation = 0\<rparr>"

definition sample_interval :: interval where
  "sample_interval = \<lparr>lower_ms = 1000, upper_ms = 1010\<rparr>"

definition sample_client :: client where
  "sample_client = \<lparr>client_endpoint = ''e'', client_peer = None, client_history = None, client_generation = None, client_sequence = 0,
     client_sample = None, client_process = 9, client_initial = sample_kernel_clock, client_fenced = False\<rparr>"

definition sample_delivered :: client where
  "sample_delivered = deliver ''h'' sample_reply sample_interval sample_interval sample_kernel_clock 250000007 (sample_client\<lparr>client_peer := Some 3\<rparr>)"

definition sample_observation :: observation where
  "sample_observation = \<lparr>obs_context = sample_statement, obs_interval = sample_interval\<rparr>"

lemma sample_clock_reads:
  "clock_ms sample_client_env k w = (Ok 5000, w)" "kernel_ns sample_client_env k w = (Ok 5000000000, w)"
  by (simp_all add: clock_ms_def kernel_ns_def sample_client_env_def bind_action_def)

lemma sample_receiver_clock: "receiver_clock sample_client_env 0 w = (Ok sample_kernel_clock, w)"
  by (simp add: receiver_clock_def sample_clock_reads bind_action_def refuse_if_def sample_kernel_clock_def)

lemma sample_digests:
  "tpm_decode 32 (replicate 64 CHR ''1'') = Ok (replicate 32 17)" "tpm_decode 16 (replicate 32 CHR ''2'') = Ok (replicate 16 34)"
  "tpm_decode 32 (replicate 64 CHR ''3'') = Ok (replicate 32 51)" "tpm_decode 32 (replicate 64 CHR ''4'') = Ok (replicate 32 68)"
  by (simp_all add: tpm_decode_replicate is_lower_hex_def is_ascii_digit_def hex_value_def)

lemma delivered_statement_valid: "Accounts.statement_validate (Ok (replicate 32 17)) sample_statement = Ok ()"
  by (simp add: Accounts.statement_validate_def sample_statement_def sample_digests zero_digest_def Let_def)

lemma sample_delivery: "project_delivery sample_statement sample_interval 5000 5000 = Ok sample_interval"
  by (simp add: project_delivery_def context_epoch_def sample_statement_def sample_digests sample_interval_def project_def epoch_validate_def
      policy_validate_def DELIVERY_POLICY_def checked_sub_def drift_of_def div_ceil_def try_i64_def checked_i64_def i64_range_def interval_new_def Let_def)

lemma sample_reply_interval: "reply_interval sample_client_env sample_reply = Ok sample_interval"
  by (simp add: reply_interval_def nonce_check_def sample_reply_def sample_digests delivered_statement_valid sample_client_env_def sample_interval_def interval_new_def)
    (simp add: sample_statement_def numeral_eq_Suc)

lemma sample_current: "client_current sample_client_env sample_binding ((), sample_client) = (Ok sample_observation, (), sample_delivered)"
proof -
  have env: "binding_digest sample_client_env sample_binding = ''h''" "query_endpoint sample_client_env w = (Ok ''e'', w)"
    "watch_check sample_client_env w = (Ok (), w)" "release_recheck sample_client_env w = (Ok (), w)" "query_connect sample_client_env w = (Ok 3, w)"
    "pin_peer sample_client_env w = (Ok (), w)" "peer_alive sample_client_env w = (Ok True, w)" "draw_nonce sample_client_env w = (Ok ''n'', w)"
    "query_exchange sample_client_env n w = (Ok sample_reply, w)" "read_instant sample_client_env w = (Ok 7, w)"
    "kernel_boot sample_client_env w = (Ok (replicate 32 CHR ''2''), w)" for w n
    by (simp_all add: sample_client_env_def sample_binding_def read_instant_def)
  have reply: "admit_reply sample_client_env l ''n'' sample_kernel_clock sample_kernel_clock sample_reply ((), sample_client\<lparr>client_peer := Some 3\<rparr>)
      = (Ok (), (), sample_client\<lparr>client_peer := Some 3\<rparr>)" if "7 < l" for l
    using that by (simp add: admit_reply_def ask_def self_def env bind_action_def refuse_if_def Let_def sample_reply_def sample_client_def
        sample_kernel_clock_def sample_statement_def since_initial_def checked_sub_def abs_diff_def sat_sub_def)
  have peer: "admit_peer sample_client_env ((), sample_client) = (Ok (), (), sample_client\<lparr>client_peer := Some 3\<rparr>)"
    by (simp add: admit_peer_def ask_def self_def update_self_def env bind_action_def sample_client_def)
  have finish: "finish_delivery sample_client_env sample_binding ''h'' sample_reply sample_interval 250000007 ((), sample_client\<lparr>client_peer := Some 3\<rparr>)
      = (Ok sample_observation, (), sample_delivered)"
    using sample_delivery
    by (simp add: finish_delivery_def check_endpoint_def ask_def self_def update_self_def env sample_receiver_clock bind_action_def refuse_if_def Let_def
        sample_delivered_def sample_observation_def sample_interval_def sample_binding_def sample_client_def sample_reply_def sample_kernel_clock_def)
      (simp add: sample_statement_def)
  have fields: "client_fenced sample_client = False" "client_endpoint sample_client = ''e''" "client_history sample_client = None"
    "client_generation sample_client = None" by (simp_all add: sample_client_def)
  show ?thesis
    by (simp add: client_current_def current_inner_def check_endpoint_def on_error_def ask_def self_def env sample_receiver_clock bind_action_def
        refuse_if_def Let_def peer reply sample_reply_interval finish fields)
qed

lemma sample_project_after:
  "project_after_checks sample_client_env sample_binding sample_observation (\<lambda>_ w. (Ok (), w)) ((), sample_delivered)
     = (Ok sample_observation, (), sample_delivered\<lparr>client_sample := map_option (\<lambda>s. s\<lparr>sample_clock := sample_kernel_clock\<lparr>realtime_ms := 0\<rparr>,
         projection_ns := Some 5000000000\<rparr>) (client_sample sample_delivered)\<rparr>)"
proof -
  have env: "binding_digest sample_client_env sample_binding = ''h''" "watch_check sample_client_env w = (Ok (), w)"
    "peer_alive sample_client_env w = (Ok True, w)" "read_instant sample_client_env w = (Ok 7, w)" "process_id sample_client_env w = 9"
    "effective_uid sample_client_env w = 0" "fixed_policy sample_client_env = Ok (replicate 32 17)" "hb_floor sample_binding = 1000" for w
    by (simp_all add: sample_client_env_def sample_binding_def read_instant_def)
  define pc where "pc = \<lparr>dispatch_ns = 5000000000, dispatch_monotonic = 5000, dispatch_process = 9, dispatch_euid = 0, sampled_instant = 7\<rparr>"
  have pc: "capture_coordinate sample_client_env w = (Ok pc, w)" for w
    by (simp add: capture_coordinate_def sample_clock_reads env bind_action_def pc_def)
  have at: "coordinate pc = sample_kernel_clock\<lparr>realtime_ms := 0\<rparr>" by (simp add: coordinate_def pc_def sample_kernel_clock_def)
  obtain s where s: "client_sample sample_delivered = Some s" "sample_context s = sample_statement" "sample_raw s = sample_interval"
    "sample_boottime s = 5000" "sample_monotonic s = 5000" "sample_clock s = sample_kernel_clock" "projection_ns s = None"
    "sample_deadline s = 250000007" "delivered_context s = sample_statement" "delivered_utc s = sample_interval"
    and taken: "take_sample sample_delivered ''h'' sample_observation = Ok s"
    by (simp add: sample_delivered_def deliver_def take_sample_def require_binding_def reply_generation_def sample_observation_def sample_reply_def)
      (simp add: sample_statement_def sample_interval_def)
  have delivered: "client_process sample_delivered = 9" "client_peer sample_delivered = Some 3" "client_fenced sample_delivered = False"
    "client_initial sample_delivered = sample_kernel_clock" by (simp_all add: sample_delivered_def deliver_def sample_client_def)
  have floor_: "statement.floor_ms sample_statement = 1000" "sample_statement\<lparr>statement.floor_ms := 1000\<rparr> = sample_statement"
    by (simp_all add: sample_statement_def)
  have proj: "sample_project (Ok (replicate 32 17)) s sample_kernel_clock c 1000 = Ok sample_observation"
    if "c = sample_kernel_clock \<or> c = sample_kernel_clock\<lparr>realtime_ms := 0\<rparr>" for c
    using that sample_delivery floor_ by (auto simp: sample_project_def s delivered_statement_valid endpoints_def elapsed_agree_def checked_sub_def abs_diff_def
        sample_kernel_clock_def sample_interval_def sample_observation_def)
  have same: "s\<lparr>sample_clock := c, projection_ns := n, delivered_context := sample_statement, delivered_utc := sample_interval\<rparr>
      = s\<lparr>sample_clock := c, projection_ns := n\<rparr>" for c n using s(9,10) by (cases s) simp
  have "dispatch_interval s pc sample_interval = Ok sample_interval"
    by (simp add: dispatch_interval_def coordinate_def s pc_def real_upper_ns_def div_ceil_def try_i64_def checked_sub_def checked_i64_def i64_range_def
        sample_kernel_clock_def sample_interval_def interval_new_def Let_def)
  then have finish: "finish_projection (Ok (replicate 32 17)) s sample_kernel_clock 1000 pc (\<lambda>_ w. (Ok (), w)) w
      = (Ok (sample_observation, s\<lparr>sample_clock := sample_kernel_clock\<lparr>realtime_ms := 0\<rparr>, projection_ns := Some 5000000000\<rparr>), w)" for w
    using proj [of "coordinate pc"]
    by (simp add: finish_projection_def bind_action_def require_deadline_def at s sample_observation_def) (simp add: pc_def same)
  show ?thesis
    by (simp add: project_after_checks_def project_after_checks_inner_def on_error_def ask_def self_def update_self_def env delivered taken pc at
        sample_receiver_clock bind_action_def refuse_if_def require_deadline_def proj finish s(1,8)) (simp add: pc_def sample_kernel_clock_def finish)
qed

section \<open>Witnesses\<close>

theorem dispatch_time_covered_witness:
  "\<exists>s (pc :: projection_clock). client_sample sample_delivered = Some s \<and> dispatch_process pc = 9 \<and> obs_context sample_observation = (sample_context s)\<lparr>statement.floor_ms := 1000\<rparr>
     \<and> (\<forall>utc0 elapsed. covers (sample_raw s) utc0 \<and> 0 \<le> elapsed
         \<and> \<bar>(real (unat (dispatch_ns pc)) / 1000000 - real (unat (sample_boottime s))) - elapsed\<bar> * 1000000 \<le> 100 * elapsed
       \<longrightarrow> covers sample_interval (utc0 + elapsed))"
proof -
  have i: "obs_interval sample_observation = sample_interval" "lower_ms sample_interval = 1000" by (simp_all add: sample_observation_def sample_interval_def)
  have p: "client_process sample_delivered = 9" by (simp add: sample_delivered_def deliver_def sample_client_def)
  show ?thesis using dispatch_time_covered [OF sample_project_after] unfolding i p by (elim exE conjE) (intro exI conjI; assumption)
qed

theorem client_one_generation_witness:
  "\<exists>rs t. run_clients sample_client_env [CurrentCall sample_binding, ProjectCall sample_binding sample_observation (\<lambda>_ w. (Ok (), w)), CurrentCall sample_binding]
       ((), sample_client) = (rs, t)
     \<and> length rs = 3 \<and> is_ok (snd (rs ! 0)) \<and> is_ok (snd (rs ! 1))
     \<and> (\<forall>b o1 b' o2. (b, Ok o1) \<in> set rs \<and> (b', Ok o2) \<in> set rs \<longrightarrow> hb_head b = hb_head b')"
proof -
  let ?ks = "[CurrentCall sample_binding, ProjectCall sample_binding sample_observation (\<lambda>_ w. (Ok (), w)), CurrentCall sample_binding]"
  obtain rs t where run: "run_clients sample_client_env ?ks ((), sample_client) = (rs, t)" by (cases "run_clients sample_client_env ?ks ((), sample_client)")
  then have "length rs = 3" "is_ok (snd (rs ! 0))" "is_ok (snd (rs ! 1))" by (auto simp: sample_current sample_project_after split: prod.splits)
  moreover have "binding_digest sample_client_env = hb_head" by (simp add: sample_client_env_def)
  ultimately show ?thesis using run client_one_generation [OF run] by (intro exI [of _ rs] exI [of _ t]) auto
qed

end
