(* ===== verification/Spec2Isabelle.thy ===== *)
theory Spec2Isabelle
  imports Utc_Keeper Resource_Store Workflow_Dag Calculation Broker_Effects Session Governance_Safety Policy_Sample Utc_Client_Sample
begin

text \<open>
  A verification development of the LumaOS platform crate, \<open>src/rust/luma-platform/src\<close>. File names below are relative to
  that directory.

  \<^bold>\<open>The program.\<close> LumaOS keeps the authority of its administrators, grants, releases, skills and models in a journal whose
  head a TPM holds, and admits every effect of an operation only at a live boundary that reads this authority, the
  authenticated session and protected UTC anew. The parts that carry that logic, and how they use each other:

  \<^item> \<^bold>\<open>Time.\<close> Measurements of three operators become an interval (\<open>utc_bounds.rs\<close>) under a fixed policy (\<open>utc_policy.rs\<close>); a
    keeper (\<open>utc_keeper.rs\<close>) maintains it over suspend, restarts and replays; clients (\<open>utc_provider.rs\<close>) query the keeper and
    project its answer to the moment of an effect; a history in the journal (\<open>utc_history.rs\<close>) protects a floor.
  \<^item> \<^bold>\<open>Authority.\<close> A hash-chained journal anchored in the TPM (\<open>admin_journal.rs\<close>) holds the digests of event files; replaying
    them (\<open>admin_governance.rs\<close>) yields the catalog (\<open>admin_roles.rs\<close>) of principals (\<open>principal.rs\<close>), account transactions
    (\<open>account_*.rs\<close>), finite grants (\<open>finite_grants.rs\<close>) and trust states (\<open>release_trust.rs\<close>, \<open>skill_trust.rs\<close>, \<open>model_trust.rs\<close>).
  \<^item> \<^bold>\<open>Admission.\<close> A boundary (\<open>GrantBoundary\<close> of \<open>admin_governance.rs\<close>) decides every use of a granted operation, records its
    decisions and effects in an evidence store (\<open>policy_decisions.rs\<close>) and is fenced by any refusal; sessions
    (\<open>authentication/session.rs\<close>) bound the lifetime of an authentication.
  \<^item> \<^bold>\<open>Resources and effects.\<close> A ledger of leases in its durable store (\<open>resources.rs\<close>), the broker's effect journal
    (\<open>broker_effects.rs\<close>), workflow definitions, schedules and runs (\<open>workflow.rs\<close>, \<open>workflow_schedule.rs\<close>, \<open>workflow_dag.rs\<close>) and
    the invoice calculation (\<open>calculation.rs\<close>).

  \<^bold>\<open>Conventions.\<close> A fallible function returns \<open>result\<close> with the error message of the source; \<open>Panic\<close> is an arithmetic overflow
  or an index out of range, which the release profile turns into an abort. A method with effects is an \<open>action\<close>: a function
  from the state to its result and the state it leaves, also when it fails. \<open>u8\<close>, \<open>u32\<close>, \<open>u64\<close> are words with checked
  operations as the source checks them; \<open>i64\<close> values are integers with the range written out. \<open>BTreeMap\<close> is \<open>bmap\<close>, an
  association list sorted by key. Files, TPM, clocks, sockets and randomness are operations of an environment record, an
  argument of the definitions; each may fail at any call. SHA-256, Ed25519 and JSON are fields of codec records. What a
  property needs of them is a named hypothesis (no two files at hand collide, an encoder is inverted by its decoder, a
  rename does not replace a file), and a witness evaluates the property for a concrete environment or codec.

  \<^bold>\<open>Theories.\<close>

  \<^item> \<^bold>\<open>Prelude\<close>: results, actions, checked integers, bytes, ordered maps, and two locales: the laws of an ordered map,
    interpreted for \<open>bmap\<close>, and a transition system with an invariant, from which components get their statements about
    runs. \<^bold>\<open>Encoding\<close>: digests in hexadecimal. \<^bold>\<open>Calendar\<close>: timestamps. \<^bold>\<open>Triples\<close>: pre- and postconditions of actions.
  \<^item> \<^bold>\<open>Utc_Bounds\<close>, \<^bold>\<open>Utc_Policy\<close>, \<^bold>\<open>Utc_Keeper\<close>: the estimator (a locale the keeper uses) and the keeper's methods; the
    consensus covers true time with one faulty operator, an estimate never falls below the floor, no round is accepted
    twice, and every refusal fences.
  \<^item> \<^bold>\<open>Utc_Client\<close>, \<^bold>\<open>Utc_Client_Safety\<close>, \<^bold>\<open>Utc_Client_Sample\<close>: \<open>Client\<close> and \<open>DeliverySample\<close>; a projected interval covers true
    time at the nanosecond of the dispatch, and one client stays with one keeper generation and one history.
  \<^item> \<^bold>\<open>Principals\<close>, \<^bold>\<open>Accounts\<close>, \<^bold>\<open>Trust_History\<close>, \<^bold>\<open>Release_Trust\<close>, \<^bold>\<open>Skill_Trust\<close>, \<^bold>\<open>Model_Trust\<close>, \<^bold>\<open>Finite_Grants\<close>: the data of the
    catalog and its trust machines: no rollback, no return of a revoked key, no fork of an admission.
  \<^item> \<^bold>\<open>Catalog\<close>, \<^bold>\<open>Catalog_Commands\<close>, \<^bold>\<open>Catalog_Moves\<close>, \<^bold>\<open>Catalog_Safety\<close>, \<^bold>\<open>Catalog_Sample\<close>, \<^bold>\<open>Catalog_Guarantees\<close>: \<open>Catalog\<close>, every
    arm of \<open>Catalog::apply\<close>, its invariant and order; ended authority never returns, account transactions exclude each
    other and can always be completed, commands are atomic.
  \<^item> \<^bold>\<open>Admin_Journal\<close>, \<^bold>\<open>Journal_Safety\<close>: the store's open, append and recovery protocol; whatever fails, the anchored journal
    only grows and is unique.
  \<^item> \<^bold>\<open>Governance\<close>, \<^bold>\<open>Governance_Safety\<close>: the replay of a snapshot; it refines the run of the anchored commands, does not depend on
    what else the directory holds, and what was revoked in an anchored prefix is revoked in every extension.
  \<^item> \<^bold>\<open>Session\<close>: the lifetime of an authenticated session.
  \<^item> \<^bold>\<open>Policy_Decisions\<close>, \<^bold>\<open>Policy_Store\<close>: decisions, evidence records, the acceptance of an evidence graph, and the store with its
    operations, effects and archives. \<^bold>\<open>Policy_Safety\<close> shows what an accepted graph implies, \<^bold>\<open>Evidence_Safety\<close> (locale
    \<open>evidence_disk\<close>, the laws of the file operations) that published evidence is immutable.
  \<^item> \<^bold>\<open>Grant_Boundary\<close>, \<^bold>\<open>Boundary_Safety\<close>, \<^bold>\<open>Retention\<close>: the boundary, granted operations and the retention of closed operations
    (locale \<open>boundary_disk\<close>, which extends the former). \<^bold>\<open>Policy_Sample\<close> interprets both locales on a concrete disk and
    holds the witnesses.
  \<^item> \<^bold>\<open>Resources\<close>, \<^bold>\<open>Resource_Ledger\<close>, \<^bold>\<open>Resource_Store\<close>: the ledger's operations and invariant, no overcommitment, no return of
    a token's authority, and the durable transaction that fails stop.
  \<^item> \<^bold>\<open>Workflow\<close>, \<^bold>\<open>Workflow_Schedule\<close>, \<^bold>\<open>Workflow_Dag\<close>, \<^bold>\<open>Calculation\<close>, \<^bold>\<open>Broker_Effects\<close>: validation equals a reference definition,
    dispatch and replay follow their plan, the invoice summary equals its reference, and no effect is dispatched twice.

  \<^bold>\<open>Bounds.\<close> No definition uses fuel: loops recurse over their data, and the bounds of the source (record counts, byte
  quotas, widths, ages) are constants of the model with their values. \<open>Instant\<close> values are unbounded naturals.

  \<^bold>\<open>Not modelled.\<close> PAM, sockets, process and cgroup inspection, TPM commands and SQLite are outside the kernel's reach: what
  they return enters as environment operations. The boundary's capture of the live authority is such an operation (its
  parts, replay, session and UTC client, are modelled separately), and the joint checks of an export with its reader are
  left out. The cache of validated archives is consulted as the code consults it, with its table (keyed by inode and
  change times) as environment operations. The service processes, the model runtime, the artifact catalog and the run coordinator around the modelled
  state machines are listed as not modelled, because they consist of calls of those interfaces.
\<close>

end
